(* ===== verification/Prelude.thy ===== *)
theory Prelude
  imports Main "HOL-Library.Sublist"
begin

text \<open>
  What every component of the model shares.

  A C++ function body is a \<open>prog\<close>: it takes the state it runs in and ends in one of three
  ways, a value with the new state (\<open>Done\<close>), an exception with the state at the throw
  (\<open>Thrown\<close>), or undefined behaviour (\<open>Undef\<close>, with the reason).  The state of most
  components is a \<open>world\<close>: a store of heap objects under addresses, the next fresh
  address, and the lines written to the console so far.  A pointer is an optional address,
  \<open>None\<close> is \<open>nullptr\<close>; an address that was handed out and is no longer in the store
  has been deleted, so reading it or deleting it again is undefined.

  The simplification rules of all basic operations are collected in \<open>machine\<close>.
\<close>

named_theorems machine "execution rules of the basic operations"
named_theorems defs "definitions of the operations of a component, unfolded to execute them"

section \<open>Results and sequencing\<close>

datatype fault =
    NullDeref
  | Dangling nat
  | DoubleFree nat
  | SignedOverflow
  | BadIndex
  | DivByZero
  | WrongType
  | Uninitialised

datatype ('s, 'a) result = Done 'a 's | Thrown string 's | Undef fault

type_synonym ('s, 'a) prog = "'s \<Rightarrow> ('s, 'a) result"

definition ret :: "'a \<Rightarrow> ('s, 'a) prog" where
  "ret x s = Done x s"

definition undef :: "fault \<Rightarrow> ('s, 'a) prog" where
  "undef f s = Undef f"

definition throw :: "string \<Rightarrow> ('s, 'a) prog" where
  "throw e s = Thrown e s"

definition seq :: "('s, 'a) prog \<Rightarrow> ('a \<Rightarrow> ('s, 'b) prog) \<Rightarrow> ('s, 'b) prog" where
  "seq m f s = (case m s of Done x t \<Rightarrow> f x t | Thrown e t \<Rightarrow> Thrown e t | Undef u \<Rightarrow> Undef u)"

definition try_catch :: "('s, 'a) prog \<Rightarrow> (string \<Rightarrow> ('s, 'a) prog) \<Rightarrow> ('s, 'a) prog" where
  "try_catch m h s = (case m s of Done x t \<Rightarrow> Done x t | Thrown e t \<Rightarrow> h e t | Undef u \<Rightarrow> Undef u)"

text \<open>A statement list and a range-based \<open>for\<close> over a list fixed at loop entry.\<close>

primrec block :: "('s, unit) prog list \<Rightarrow> ('s, unit) prog" where
  "block [] = ret ()"
| "block (m # ms) = seq m (\<lambda>_. block ms)"

primrec for_each :: "'x list \<Rightarrow> ('x \<Rightarrow> ('s, unit) prog) \<Rightarrow> ('s, unit) prog" where
  "for_each [] f = ret ()"
| "for_each (x # xs) f = seq (f x) (\<lambda>_. for_each xs f)"

primrec repeat :: "nat \<Rightarrow> ('s, unit) prog \<Rightarrow> ('s, unit) prog" where
  "repeat 0 m = ret ()"
| "repeat (Suc n) m = seq m (\<lambda>_. repeat n m)"

lemmas control_defs [machine] = ret_def undef_def throw_def seq_def try_catch_def

lemma seq_ret [simp]: "seq (ret x) f = f x"
  by (rule ext) (simp add: seq_def ret_def)

lemma seq_ret_right [simp]: "seq m ret = m"
  by (rule ext) (simp add: seq_def ret_def split: result.split)

lemma seq_assoc: "seq (seq m f) g = seq m (\<lambda>x. seq (f x) g)"
  by (rule ext) (simp add: seq_def split: result.split)

lemma seq_DoneE:
  assumes "seq m f s = Done y t"
  obtains x u where "m s = Done x u" "f x u = Done y t"
  using assms by (auto simp: seq_def split: result.splits)

lemma repeat_add: "repeat (m + n) p = seq (repeat m p) (\<lambda>_. repeat n p)"
  by (induction m) (simp_all add: seq_assoc)

lemma repeat_Suc_right: "repeat (Suc n) p = seq (repeat n p) (\<lambda>_. p)"
  using repeat_add [of n 1 p] by (simp add: fun_eq_iff seq_def ret_def split: result.splits)

lemma for_each_append: "for_each (xs @ ys) f = seq (for_each xs f) (\<lambda>_. for_each ys f)"
  by (induction xs) (simp_all add: seq_assoc)

text \<open>
  A program that may run forever returns an optional result: \<open>None\<close> stands for a run that does
  not end.
\<close>

type_synonym ('s, 'a) oprog = "'s \<Rightarrow> ('s, 'a) result option"

definition terminating :: "('s, 'a) prog \<Rightarrow> ('s, 'a) oprog" where
  "terminating m s = Some (m s)"

definition oseq :: "('s, 'a) oprog \<Rightarrow> ('a \<Rightarrow> ('s, 'b) oprog) \<Rightarrow> ('s, 'b) oprog" where
  "oseq m f s = (case m s of None \<Rightarrow> None | Some r \<Rightarrow>
     (case r of Done x t \<Rightarrow> f x t | Thrown e t \<Rightarrow> Some (Thrown e t) | Undef u \<Rightarrow> Some (Undef u)))"

primrec oblock :: "('s, unit) oprog list \<Rightarrow> ('s, unit) oprog" where
  "oblock [] = terminating (ret ())"
| "oblock (m # ms) = oseq m (\<lambda>_. oblock ms)"

primrec ofold :: "('x \<Rightarrow> 'acc \<Rightarrow> ('s, 'acc) oprog) \<Rightarrow> 'x list \<Rightarrow> 'acc \<Rightarrow> ('s, 'acc) oprog" where
  "ofold f [] acc = terminating (ret acc)"
| "ofold f (x # xs) acc = oseq (f x acc) (ofold f xs)"

primrec ofor_each :: "'x list \<Rightarrow> ('x \<Rightarrow> ('s, unit) oprog) \<Rightarrow> ('s, unit) oprog" where
  "ofor_each [] f = terminating (ret ())"
| "ofor_each (x # xs) f = oseq (f x) (\<lambda>_. ofor_each xs f)"

text \<open>A call that has no fuel left: nothing is known about its result.\<close>

definition no_fuel :: "('s, 'a) oprog" where
  "no_fuel s = None"

lemmas oprog_defs [machine] = terminating_def oseq_def

section \<open>The world: heap objects and console\<close>

type_synonym ptr = "nat option"

datatype line = Cout string | Cerr string | Log string

record 'o world =
  cells :: "nat \<Rightarrow> 'o option"
  brk :: nat
  out :: "line list"

definition boot :: "'o world" where
  "boot = \<lparr>cells = (\<lambda>_. None), brk = 0, out = []\<rparr>"

definition alloc :: "'o \<Rightarrow> (('o, 'z) world_scheme, ptr) prog" where
  "alloc x s = Done (Some (brk s)) (s\<lparr>cells := (cells s)(brk s \<mapsto> x), brk := Suc (brk s)\<rparr>)"

definition load :: "ptr \<Rightarrow> (('o, 'z) world_scheme, 'o) prog" where
  "load p s = (case p of None \<Rightarrow> Undef NullDeref
     | Some a \<Rightarrow> (case cells s a of None \<Rightarrow> Undef (Dangling a) | Some x \<Rightarrow> Done x s))"

definition store :: "ptr \<Rightarrow> 'o \<Rightarrow> (('o, 'z) world_scheme, unit) prog" where
  "store p x s = (case p of None \<Rightarrow> Undef NullDeref
     | Some a \<Rightarrow> (case cells s a of None \<Rightarrow> Undef (Dangling a)
         | Some _ \<Rightarrow> Done () (s\<lparr>cells := (cells s)(a \<mapsto> x)\<rparr>)))"

text \<open>\<open>delete p\<close>: deleting \<open>nullptr\<close> has no effect.\<close>

definition free :: "ptr \<Rightarrow> (('o, 'z) world_scheme, unit) prog" where
  "free p s = (case p of None \<Rightarrow> Done () s
     | Some a \<Rightarrow> (case cells s a of None \<Rightarrow> Undef (DoubleFree a)
         | Some _ \<Rightarrow> Done () (s\<lparr>cells := (cells s)(a := None)\<rparr>)))"

text \<open>The world after some more lines on the console.\<close>

definition says :: "('o, 'z) world_scheme \<Rightarrow> line list \<Rightarrow> ('o, 'z) world_scheme" where
  "says s ls = s\<lparr>out := out s @ ls\<rparr>"

definition emit :: "line \<Rightarrow> (('o, 'z) world_scheme, unit) prog" where
  "emit l s = Done () (says s [l])"

text \<open>\<open>std::cout << \<dots>\<close> with and without the closing newline, \<open>std::cerr\<close>, and the
  macros \<open>LOG\<close> and \<open>LOG_S\<close> of \<open>include/Logger.h\<close>, of which only the message is kept here.\<close>

definition cout :: "string \<Rightarrow> (('o, 'z) world_scheme, unit) prog" where
  "cout m = emit (Cout m)"

definition endl :: string where
  "endl = [CHR 0x0A]"

abbreviation dq :: string where
  "dq \<equiv> [CHR 0x22]"

abbreviation tab :: string where
  "tab \<equiv> [CHR 0x09]"

definition coutln :: "string \<Rightarrow> (('o, 'z) world_scheme, unit) prog" where
  "coutln m = emit (Cout (m @ endl))"

definition LOG :: "string \<Rightarrow> (('o, 'z) world_scheme, unit) prog" where
  "LOG m = emit (Log m)"

text \<open>\<open>LOG_S\<close> drops a newline at the end of the text.\<close>

definition chomp :: "string \<Rightarrow> string" where
  "chomp x = (if x \<noteq> [] \<and> last x = CHR 0x0A then butlast x else x)"

definition LOG_S :: "string \<Rightarrow> (('o, 'z) world_scheme, unit) prog" where
  "LOG_S x = LOG (chomp x)"

lemmas memory_defs [machine] = alloc_def load_def store_def free_def

lemma free_live:
  "cells s a = Some y \<Longrightarrow> free (Some a) s = Done () (s\<lparr>cells := (cells s)(a := None)\<rparr>)"
  by (simp add: free_def)

lemmas print_defs [machine] = emit_def cout_def coutln_def LOG_def LOG_S_def

lemma chomp_simps [simp]:
  "chomp [] = []" "chomp (x @ [c]) = (if c = CHR 0x0A then x else x @ [c])" "chomp (x @ endl) = x"
  by (simp_all add: chomp_def endl_def)

lemma chomp_append: "y \<noteq> [] \<Longrightarrow> chomp (x @ y) = x @ chomp y"
  by (simp add: chomp_def butlast_append)

lemma says_simps [simp]:
  "cells (says s ls) = cells s"
  "brk (says s ls) = brk s"
  "out (says s ls) = out s @ ls"
  "says (says s ks) ls = says s (ks @ ls)"
  "says s [] = s"
  "says (s\<lparr>cells := c\<rparr>) ls = (says s ls)\<lparr>cells := c\<rparr>"
  "says (s\<lparr>brk := n\<rparr>) ls = (says s ls)\<lparr>brk := n\<rparr>"
  by (simp_all add: says_def)

lemma boot_sel [machine]: "cells boot = (\<lambda>_. None)" "brk boot = 0" "out boot = []"
  by (simp_all add: boot_def)

section \<open>Ownership: which objects are live\<close>

definition live_addrs :: "('o, 'z) world_scheme \<Rightarrow> nat list" where
  "live_addrs s = filter (\<lambda>a. cells s a \<noteq> None) [0..<brk s]"

text \<open>No object is stored at an address that was not handed out yet.\<close>

definition fresh_above :: "('o, 'z) world_scheme \<Rightarrow> bool" where
  "fresh_above s \<longleftrightarrow> (\<forall>a \<ge> brk s. cells s a = None)"

lemma fresh_above_boot [simp]: "fresh_above boot"
  by (simp add: fresh_above_def boot_def)

lemma fresh_above_live: "fresh_above s \<Longrightarrow> cells s a = Some x \<Longrightarrow> a < brk s"
  by (auto simp: fresh_above_def not_less [symmetric])

lemma fresh_above_update:
  "fresh_above s \<Longrightarrow> fresh_above (s\<lparr>cells := (cells s)(brk s \<mapsto> x), brk := Suc (brk s)\<rparr>)"
  "fresh_above s \<Longrightarrow> cells s a = Some y \<Longrightarrow> fresh_above (s\<lparr>cells := (cells s)(a \<mapsto> x)\<rparr>)"
  "fresh_above s \<Longrightarrow> fresh_above (s\<lparr>cells := (cells s)(a := None)\<rparr>)"
  "fresh_above (says s ls) = fresh_above s"
  by (auto simp: fresh_above_def not_less [symmetric])

lemma set_live_addrs: "fresh_above s \<Longrightarrow> set (live_addrs s) = {a. cells s a \<noteq> None}"
  by (auto simp: live_addrs_def fresh_above_def not_less [symmetric])

section \<open>Loops that only print or only delete\<close>

lemma for_each_emit [machine]:
  "for_each xs (\<lambda>x. emit (f x)) s = Done () (says s (map f xs))"
  by (induction xs arbitrary: s) (simp_all add: ret_def seq_def emit_def)

text \<open>Deleting a list of distinct live objects removes exactly these.\<close>

lemma for_each_free:
  assumes "distinct as" and "\<forall>a \<in> set as. cells s a \<noteq> None"
  shows "for_each (map Some as) free s
    = Done () (s\<lparr>cells := (\<lambda>a. if a \<in> set as then None else cells s a)\<rparr>)"
  using assms
proof (induction as arbitrary: s)
  case Nil
  then show ?case by (simp add: ret_def)
next
  case (Cons a as)
  then obtain x where x: "cells s a = Some x" by auto
  let ?t = "s\<lparr>cells := (cells s)(a := None)\<rparr>"
  from Cons.prems have "\<forall>b \<in> set as. cells ?t b \<noteq> None" by auto
  with Cons have "for_each (map Some as) free ?t
    = Done () (?t\<lparr>cells := (\<lambda>b. if b \<in> set as then None else cells ?t b)\<rparr>)" by simp
  moreover have "free (Some a) s = Done () ?t" using x by (rule free_live)
  ultimately show ?case by (simp add: seq_def fun_eq_iff)
qed

text \<open>The store without the objects at \<open>A\<close>.\<close>

definition without :: "('o, 'z) world_scheme \<Rightarrow> nat set \<Rightarrow> ('o, 'z) world_scheme" where
  "without s A = s\<lparr>cells := (\<lambda>a. if a \<in> A then None else cells s a)\<rparr>"

lemma without_simps [simp]:
  "cells (without s A) a = (if a \<in> A then None else cells s a)"
  "brk (without s A) = brk s"
  "out (without s A) = out s"
  "without (without s A) B = without s (A \<union> B)"
  "without s {} = s"
proof -
  have "(\<lambda>a. if a \<in> B then None else if a \<in> A then None else cells s a)
      = (\<lambda>a. if a \<in> A \<union> B then None else cells s a)"
    by auto
  then show "without (without s A) B = without s (A \<union> B)" by (simp add: without_def cong: if_cong)
qed (simp_all add: without_def)

lemma says_without [simp]: "says (without s A) ls = without (says s ls) A"
  by (simp add: without_def cong: if_cong)

lemma for_each_free_without:
  "distinct as \<Longrightarrow> \<forall>a \<in> set as. cells s a \<noteq> None \<Longrightarrow>
     for_each (map Some as) free s = Done () (without s (set as))"
  by (simp add: for_each_free without_def)

lemma free_without: "cells s a = Some x \<Longrightarrow> free (Some a) s = Done () (without s {a})"
  by (simp add: free_def without_def fun_upd_def)

lemma free_twice:
  assumes "cells s a = Some x"
  shows "seq (free (Some a)) (\<lambda>_. free (Some a)) s = Undef (DoubleFree a)"
  using assms by (simp add: seq_def free_def)

section \<open>Decimal output of integers\<close>

definition digit_char :: "nat \<Rightarrow> char" where
  "digit_char d = char_of (48 + d)"

fun show_nat :: "nat \<Rightarrow> string" where
  "show_nat n = (if n < 10 then [digit_char n] else show_nat (n div 10) @ [digit_char (n mod 10)])"

declare show_nat.simps [simp del]

text \<open>\<open>std::to_string\<close> and \<open>operator<<\<close> on an \<open>int\<close>.\<close>

definition show_int :: "int \<Rightarrow> string" where
  "show_int i = (if i < 0 then ''-'' @ show_nat (nat (- i)) else show_nat (nat i))"

lemma digit_char_literals:
  "digit_char 0 = CHR ''0''" "digit_char 1 = CHR ''1''" "digit_char (Suc 0) = CHR ''1''"
  "digit_char 2 = CHR ''2''" "digit_char 3 = CHR ''3''" "digit_char 4 = CHR ''4''"
  "digit_char 5 = CHR ''5''" "digit_char 6 = CHR ''6''" "digit_char 7 = CHR ''7''"
  "digit_char 8 = CHR ''8''" "digit_char 9 = CHR ''9''"
  by (simp_all add: digit_char_def char_of_def bit_Suc_0_iff)

definition digit_val :: "char \<Rightarrow> nat" where
  "digit_val c = of_char c - 48"

definition read_nat :: "string \<Rightarrow> nat" where
  "read_nat ds = foldl (\<lambda>v c. 10 * v + digit_val c) 0 ds"

lemma digit_val_char: "d < 10 \<Longrightarrow> digit_val (digit_char d) = d"
  by (simp add: digit_val_def digit_char_def)

lemma read_show_nat: "read_nat (show_nat n) = n"
proof (induction n rule: show_nat.induct)
  case (1 n)
  then show ?case
    by (subst show_nat.simps) (auto simp: read_nat_def digit_val_char)
qed

lemma show_nat_inject [simp]: "show_nat m = show_nat n \<longleftrightarrow> m = n"
  by (metis read_show_nat)

section \<open>Signed 32-bit arithmetic\<close>

text \<open>\<open>int\<close> is 32 bits wide; a result outside its range is undefined behaviour.\<close>

definition int32 :: "int \<Rightarrow> bool" where
  "int32 i \<longleftrightarrow> - (2 ^ 31) \<le> i \<and> i < 2 ^ 31"

definition to_int32 :: "int \<Rightarrow> ('s, int) prog" where
  "to_int32 i = (if int32 i then ret i else undef SignedOverflow)"

lemma to_int32_ok [machine]: "int32 i \<Longrightarrow> to_int32 i = ret i"
  by (simp add: to_int32_def)

lemma to_int32_overflow [machine]: "\<not> int32 i \<Longrightarrow> to_int32 i = undef SignedOverflow"
  by (simp add: to_int32_def)

text \<open>\<open>static_cast<int>\<close> of a wider integer: the value modulo \<open>2 ^ 32\<close>.\<close>

definition cast_int :: "int \<Rightarrow> int" where
  "cast_int i = (i + 2 ^ 31) mod 2 ^ 32 - 2 ^ 31"

lemma cast_int_id [simp]: "int32 i \<Longrightarrow> cast_int i = i"
  by (simp add: cast_int_def int32_def)

text \<open>\<open>x++\<close> on an \<open>int\<close>.\<close>

definition incr32 :: "int \<Rightarrow> ('s, int) prog" where
  "incr32 i = to_int32 (i + 1)"

lemma incr32_ok [machine]: "- (2 ^ 31) \<le> i \<Longrightarrow> i < 2 ^ 31 - 1 \<Longrightarrow> incr32 i = ret (i + 1)"
  by (simp add: incr32_def to_int32_def int32_def)

section \<open>An interface of several components: an ordered list of subscribers\<close>

text \<open>
  A subject, a mediator and an observable model all keep a list of subscribers, append to it
  and walk it in order.  The locale names the two operations and what the walk relies on:
  subscribing appends, nothing else is promised.
\<close>

locale publisher =
  fixes subscribers :: "'s \<Rightarrow> 'p list"
    and subscribe :: "'p \<Rightarrow> 's \<Rightarrow> 's"
  assumes subscribers_subscribe: "subscribers (subscribe p s) = subscribers s @ [p]"
begin

lemma subscribers_fold: "subscribers (fold subscribe ps s) = subscribers s @ ps"
  by (induction ps arbitrary: s) (simp_all add: subscribers_subscribe)

lemma subscribed: "p \<in> set (subscribers (fold subscribe ps s)) \<longleftrightarrow> p \<in> set (subscribers s) \<or> p \<in> set ps"
  by (simp add: subscribers_fold)

end

end
