(* ===== verification/Observer.thy ===== *)
theory Observer
  imports Prelude
begin

text \<open>
  \<open>src/dp/behavioral/Observer.cpp\<close>: a button (the subject) holds raw pointers to listeners,
  in the order they were attached.  Button and listeners are heap objects; the class of an
  object is its constructor, so a virtual call is a case distinction on the loaded object.

  Lemmas: what one call of \<open>attach\<close>, \<open>detach\<close> and \<open>notify\<close> does; that the listener list after
  any sequence of calls is the abstract subscription list; that a listener deleted while still
  attached makes the next notification undefined.
\<close>

section \<open>Events and objects\<close>

datatype Event = kCreate | kRead | kUpdate | kDelete

fun getEventName :: "Event \<Rightarrow> string" where
  "getEventName kCreate = ''CREATE''"
| "getEventName kRead = ''READ''"
| "getEventName kUpdate = ''UPDATE''"
| "getEventName kDelete = ''DELETE''"

datatype obj =
    ButtonConcreteSubject "ptr list"
  | ConcreteListenerObserverA string
  | ConcreteListenerObserverB string

definition get_name :: "ptr \<Rightarrow> (obj world, string) prog" where
  "get_name p = seq (load p) (\<lambda>x. case x of
      ConcreteListenerObserverA n \<Rightarrow> ret n
    | ConcreteListenerObserverB n \<Rightarrow> ret n
    | ButtonConcreteSubject _ \<Rightarrow> undef WrongType)"

text \<open>\<open>AbstractListenerObserver::log\<close>, and \<open>update\<close> of the two concrete listeners.\<close>

definition listener_log :: "ptr \<Rightarrow> Event \<Rightarrow> (obj world, unit) prog" where
  "listener_log this e = seq (get_name this) (\<lambda>n.
     LOG (n @ '' updated after event: '' @ getEventName e))"

definition update :: "Event \<Rightarrow> ptr \<Rightarrow> (obj world, unit) prog" where
  "update e p = seq (load p) (\<lambda>x. case x of
      ConcreteListenerObserverA _ \<Rightarrow> listener_log p e
    | ConcreteListenerObserverB _ \<Rightarrow> listener_log p e
    | ButtonConcreteSubject _ \<Rightarrow> undef WrongType)"

section \<open>The subject\<close>

definition listeners :: "ptr \<Rightarrow> (obj world, ptr list) prog" where
  "listeners this = seq (load this) (\<lambda>x. case x of
      ButtonConcreteSubject ls \<Rightarrow> ret ls
    | _ \<Rightarrow> undef WrongType)"

definition push_listener :: "ptr \<Rightarrow> ptr list \<Rightarrow> ptr list" where
  "push_listener p ls = ls @ [p]"

definition attach :: "ptr \<Rightarrow> ptr \<Rightarrow> (obj world, unit) prog" where
  "attach this observer =
     seq (get_name observer) (\<lambda>n.
     seq (LOG (''attched: '' @ n)) (\<lambda>_.
     seq (listeners this) (\<lambda>ls.
     store this (ButtonConcreteSubject (push_listener observer ls)))))"

definition detach :: "ptr \<Rightarrow> ptr \<Rightarrow> (obj world, unit) prog" where
  "detach this observer =
     seq (get_name observer) (\<lambda>n.
     seq (LOG (''detached: '' @ n)) (\<lambda>_.
     seq (listeners this) (\<lambda>ls.
     store this (ButtonConcreteSubject (removeAll observer ls)))))"

definition notify :: "ptr \<Rightarrow> Event \<Rightarrow> (obj world, unit) prog" where
  "notify this e =
     seq (LOG (''notify event: '' @ getEventName e)) (\<lambda>_.
     seq (listeners this) (\<lambda>ls.
     for_each ls (update e)))"

text \<open>\<open>observer::run\<close>: four listeners, two notifications, one detachment, five deletes.\<close>

definition observer_run :: "(obj world, unit) prog" where
  "observer_run =
     seq (alloc (ButtonConcreteSubject [])) (\<lambda>btn.
     seq (alloc (ConcreteListenerObserverA ''listener 1'')) (\<lambda>listener_1.
     seq (alloc (ConcreteListenerObserverA ''listener 2'')) (\<lambda>listener_2.
     seq (alloc (ConcreteListenerObserverA ''listener 3'')) (\<lambda>listener_3.
     seq (alloc (ConcreteListenerObserverB ''listener 4'')) (\<lambda>listener_4.
     block [
       attach btn listener_1, attach btn listener_2,
       attach btn listener_3, attach btn listener_4,
       notify btn kCreate,
       detach btn listener_2,
       notify btn kUpdate,
       free btn, free listener_1, free listener_2, free listener_3, free listener_4])))))"

lemmas observer_defs [defs] = get_name_def listener_log_def update_def listeners_def
  push_listener_def attach_def detach_def notify_def

section \<open>What one call does\<close>

definition is_listener :: "obj world \<Rightarrow> nat \<Rightarrow> string \<Rightarrow> bool" where
  "is_listener s a n \<longleftrightarrow>
     cells s a = Some (ConcreteListenerObserverA n) \<or> cells s a = Some (ConcreteListenerObserverB n)"

abbreviation logged :: "obj world \<Rightarrow> string list \<Rightarrow> obj world" where
  "logged s ms \<equiv> says s (map Log ms)"

abbreviation with_listeners :: "nat \<Rightarrow> ptr list \<Rightarrow> obj world \<Rightarrow> obj world" where
  "with_listeners b ls s \<equiv> s\<lparr>cells := (cells s)(b \<mapsto> ButtonConcreteSubject ls)\<rparr>"

lemma is_listener_stable [simp]:
  "is_listener (says s lines) = is_listener s"
  "cells s b = Some (ButtonConcreteSubject ks) \<Longrightarrow>
     is_listener (with_listeners b ls s) a n = is_listener s a n"
  by (auto simp: is_listener_def fun_eq_iff)

lemma get_name_listener: "is_listener s a n \<Longrightarrow> get_name (Some a) s = Done n s"
  by (auto simp: get_name_def is_listener_def machine)

lemma update_listener:
  "is_listener s a n \<Longrightarrow>
     update e (Some a) s = Done () (logged s [n @ '' updated after event: '' @ getEventName e])"
  by (auto simp: update_def listener_log_def get_name_def is_listener_def machine)

lemma attach_listener:
  "cells s b = Some (ButtonConcreteSubject ls) \<Longrightarrow> is_listener s a n \<Longrightarrow>
     attach (Some b) (Some a) s
       = Done () (with_listeners b (ls @ [Some a]) (logged s [''attched: '' @ n]))"
  by (auto simp: observer_defs is_listener_def machine)

lemma detach_listener:
  "cells s b = Some (ButtonConcreteSubject ls) \<Longrightarrow> is_listener s a n \<Longrightarrow>
     detach (Some b) (Some a) s
       = Done () (with_listeners b (removeAll (Some a) ls) (logged s [''detached: '' @ n]))"
  by (auto simp: observer_defs is_listener_def machine)

text \<open>The console lines of notifying listeners with the given names.\<close>

definition notice :: "Event \<Rightarrow> string \<Rightarrow> string" where
  "notice e n = n @ '' updated after event: '' @ getEventName e"

lemma updates_listeners:
  "list_all2 (is_listener s) as ns \<Longrightarrow>
     for_each (map Some as) (update e) s = Done () (logged s (map (notice e) ns))"
proof (induction as arbitrary: s ns)
  case Nil
  then show ?case by (simp add: machine)
next
  case (Cons a as)
  then obtain n ms where ns: "ns = n # ms" "is_listener s a n" "list_all2 (is_listener s) as ms"
    by (auto simp: list_all2_Cons1)
  let ?t = "logged s [notice e n]"
  have "update e (Some a) s = Done () ?t"
    using ns(2) unfolding notice_def by (rule update_listener)
  moreover have "list_all2 (is_listener ?t) as ms"
    using ns(3) by simp
  ultimately show ?case
    using Cons.IH [of ?t ms] ns(1) by (simp add: seq_def)
qed

lemma notify_listeners:
  assumes "cells s b = Some (ButtonConcreteSubject (map Some as))" and "list_all2 (is_listener s) as ns"
  shows "notify (Some b) e s
    = Done () (logged s ((''notify event: '' @ getEventName e) # map (notice e) ns))"
proof -
  let ?t = "logged s [''notify event: '' @ getEventName e]"
  have "list_all2 (is_listener ?t) as ns" using assms(2) by simp
  then have "for_each (map Some as) (update e) ?t = Done () (logged ?t (map (notice e) ns))"
    by (rule updates_listeners)
  moreover have "notify (Some b) e s = for_each (map Some as) (update e) ?t"
    using assms(1) by (simp add: notify_def listeners_def machine)
  ultimately show ?thesis by simp
qed

section \<open>Any sequence of subscriptions\<close>

datatype subscription = Attach nat | Detach nat

fun perform :: "nat \<Rightarrow> subscription \<Rightarrow> (obj world, unit) prog" where
  "perform b (Attach a) = attach (Some b) (Some a)"
| "perform b (Detach a) = detach (Some b) (Some a)"

text \<open>The contract: who is subscribed after a sequence of calls, oldest first.\<close>

fun subscribed_after :: "nat list \<Rightarrow> subscription list \<Rightarrow> nat list" where
  "subscribed_after as [] = as"
| "subscribed_after as (Attach a # cs) = subscribed_after (as @ [a]) cs"
| "subscribed_after as (Detach a # cs) = subscribed_after (removeAll a as) cs"

fun subscription_line :: "(nat \<Rightarrow> string) \<Rightarrow> subscription \<Rightarrow> string" where
  "subscription_line nm (Attach a) = ''attched: '' @ nm a"
| "subscription_line nm (Detach a) = ''detached: '' @ nm a"

fun addr_of :: "subscription \<Rightarrow> nat" where
  "addr_of (Attach a) = a" | "addr_of (Detach a) = a"

lemma removeAll_map_Some: "removeAll (Some a) (map Some as) = map Some (removeAll a as)"
  by (induction as) auto

lemma perform_subscriptions:
  assumes "cells s b = Some (ButtonConcreteSubject (map Some as))"
    and "\<forall>c \<in> set cs. is_listener s (addr_of c) (nm (addr_of c))"
  shows "block (map (perform b) cs) s = Done ()
    (with_listeners b (map Some (subscribed_after as cs)) (logged s (map (subscription_line nm) cs)))"
  using assms
proof (induction cs arbitrary: s as)
  case Nil
  then have "(cells s)(b \<mapsto> ButtonConcreteSubject (map Some as)) = cells s" by auto
  with Nil show ?case by (simp add: machine)
next
  case (Cons c cs)
  let ?as = "subscribed_after as [c]"
  let ?t = "with_listeners b (map Some ?as) (logged s [subscription_line nm c])"
  have "perform b c s = Done () ?t"
  proof (cases c)
    case (Attach a)
    then show ?thesis
      using attach_listener [of s b "map Some as" a "nm a"] Cons.prems by simp
  next
    case (Detach a)
    then show ?thesis
      using detach_listener [of s b "map Some as" a "nm a"] Cons.prems by (simp add: removeAll_map_Some)
  qed
  moreover have "subscribed_after ?as cs = subscribed_after as (c # cs)"
    by (cases c) simp_all
  moreover have "block (map (perform b) cs) ?t = Done ()
      (with_listeners b (map Some (subscribed_after ?as cs)) (logged ?t (map (subscription_line nm) cs)))"
    using Cons.prems by (intro Cons.IH) (auto simp: is_listener_def)
  ultimately show ?case
    by (simp add: seq_def fun_upd_def cong: if_cong)
qed

lemma subscribed_after_subset: "set (subscribed_after as cs) \<subseteq> set as \<union> addr_of ` set cs"
  by (induction as cs rule: subscribed_after.induct) auto

text \<open>The plain-list view of attaching is an ordered publisher.\<close>

interpretation button: publisher "\<lambda>ls. ls" push_listener
  by unfold_locales (simp add: push_listener_def)

lemma subscribed_after_attach: "subscribed_after as (map Attach bs) = as @ bs"
  by (induction bs arbitrary: as) simp_all

lemma attach_only: "map Some (subscribed_after [] (map Attach bs)) = fold push_listener (map Some bs) []"
  by (simp add: subscribed_after_attach button.subscribers_fold)

section \<open>Properties\<close>

text \<open>
  After any sequence of attach and detach calls, a notification reaches exactly the listeners that
  are attached at that moment, once per attachment and in the order of attachment: the console
  shows one line per call, the event line, and then one line per current subscriber.
\<close>

theorem observer_notifies_subscribers:
  assumes "cells s b = Some (ButtonConcreteSubject [])"
    and "\<forall>c \<in> set cs. is_listener s (addr_of c) (nm (addr_of c))"
  shows "\<exists>t. seq (block (map (perform b) cs)) (\<lambda>_. notify (Some b) e) s = Done () t
    \<and> out t = out s @ map Log (map (subscription_line nm) cs
        @ (''notify event: '' @ getEventName e) # map (notice e \<circ> nm) (subscribed_after [] cs))"
proof -
  let ?as = "subscribed_after [] cs"
  let ?t = "with_listeners b (map Some ?as) (logged s (map (subscription_line nm) cs))"
  have "block (map (perform b) cs) s = Done () ?t"
    using assms by (intro perform_subscriptions) auto
  moreover have "list_all2 (is_listener ?t) ?as (map nm ?as)"
  proof -
    have "is_listener s a (nm a)" if "a \<in> set ?as" for a
      using subscribed_after_subset [of "[]" cs] that assms(2) by auto
    moreover have "is_listener ?t a n = is_listener s a n" for a n
      using assms(1) by (auto simp: is_listener_def)
    ultimately show ?thesis by (simp add: list_all2_map2 list_all2_same)
  qed
  ultimately show ?thesis
    using notify_listeners [of ?t b ?as "map nm ?as" e] by (simp add: seq_def)
qed

definition demo_world :: "obj world" where
  "demo_world = \<lparr>cells = [0 \<mapsto> ButtonConcreteSubject [], 1 \<mapsto> ConcreteListenerObserverA ''x'',
     2 \<mapsto> ConcreteListenerObserverB ''y''], brk = 3, out = []\<rparr>"

definition demo_name :: "nat \<Rightarrow> string" where
  "demo_name a = (if a = 1 then ''x'' else ''y'')"

theorem observer_notifies_subscribers_witness:
  "\<exists>t. seq (block (map (perform 0) [Attach 1, Attach 2, Detach 1])) (\<lambda>_. notify (Some 0) kRead) demo_world
        = Done () t
    \<and> out t = map Log [''attched: x'', ''attched: y'', ''detached: x'', ''notify event: READ'',
        ''y updated after event: READ'']"
  using observer_notifies_subscribers [of demo_world 0 "[Attach 1, Attach 2, Detach 1]" demo_name kRead]
  by (simp add: demo_world_def demo_name_def is_listener_def notice_def)

text \<open>
  A listener that is deleted while it is still attached makes the next notification undefined
  behaviour: the subject dereferences its dangling pointer.
\<close>

theorem observer_dangling_listener:
  assumes "cells s b = Some (ButtonConcreteSubject (map Some as @ Some d # ls))"
    and "list_all2 (is_listener s) as ns" and "cells s d = None"
  shows "notify (Some b) e s = Undef (Dangling d)"
proof -
  let ?s = "logged s [''notify event: '' @ getEventName e]"
  have live: "list_all2 (is_listener ?s) as ns" using assms(2) by simp
  have "cells (logged ?s (map (notice e) ns)) d = None" using assms(3) by simp
  then have "update e (Some d) (logged ?s (map (notice e) ns)) = Undef (Dangling d)"
    by (simp add: update_def machine)
  then have "for_each (map Some as @ Some d # ls) (update e) ?s = Undef (Dangling d)"
    unfolding for_each_append using updates_listeners [OF live] by (simp add: machine)
  moreover have "notify (Some b) e s = for_each (map Some as @ Some d # ls) (update e) ?s"
    using assms(1) by (simp add: notify_def listeners_def machine)
  ultimately show ?thesis by simp
qed

theorem observer_dangling_listener_witness:
  "notify (Some 0) kDelete (demo_world\<lparr>cells := [0 \<mapsto> ButtonConcreteSubject [Some 1, Some 2],
       1 \<mapsto> ConcreteListenerObserverA ''x'']\<rparr>) = Undef (Dangling 2)"
  using observer_dangling_listener [of "demo_world\<lparr>cells := [0 \<mapsto> ButtonConcreteSubject [Some 1, Some 2],
       1 \<mapsto> ConcreteListenerObserverA ''x'']\<rparr>" 0 "[1]" 2 "[]" "[''x'']" kDelete]
  by (simp add: is_listener_def)

text \<open>
  The demonstration program notifies the four listeners, skips the detached one the second
  time, and deletes every object it created: nothing is leaked and nothing is freed twice.
\<close>

lemma observer_run_trace:
  "\<exists>t. observer_run boot = Done () t \<and> live_addrs t = []
    \<and> out t = map Log ([''attched: listener 1'', ''attched: listener 2'', ''attched: listener 3'',
        ''attched: listener 4'', ''notify event: CREATE'']
      @ map (notice kCreate) [''listener 1'', ''listener 2'', ''listener 3'', ''listener 4'']
      @ [''detached: listener 2'', ''notify event: UPDATE'']
      @ map (notice kUpdate) [''listener 1'', ''listener 3'', ''listener 4''])"
  by (simp add: observer_run_def observer_defs machine notice_def live_addrs_def upt_conv_Cons)

end
