(* ===== verification/Mediator.thy ===== *)
theory Mediator
  imports Prelude
begin

text \<open>
  \<open>src/dp/behavioral/Mediator.cpp\<close>: components never talk to each other; a component that
  sends an event asks its mediator, which delivers it to every registered component but the
  sender.  Mediator and components are heap objects.

  Lemmas: what \<open>send\<close> prints for any registration list and any sender, registered or not,
  with a mediator or without one.
\<close>

datatype Event = kCreate | kRead | kUpdate | kDelete

fun getEventName :: "Event \<Rightarrow> string" where
  "getEventName kCreate = ''CREATE''"
| "getEventName kRead = ''READ''"
| "getEventName kUpdate = ''UPDATE''"
| "getEventName kDelete = ''DELETE''"

datatype obj =
    ComponentMediator "ptr list"
  | ConreteComponent string ptr

section \<open>The mediator's component list\<close>

definition components :: "ptr \<Rightarrow> (obj world, ptr list) prog" where
  "components this = seq (load this) (\<lambda>x. case x of
      ComponentMediator cs \<Rightarrow> ret cs
    | ConreteComponent _ _ \<Rightarrow> undef WrongType)"

definition push_component :: "ptr \<Rightarrow> ptr list \<Rightarrow> ptr list" where
  "push_component c cs = cs @ [c]"

definition registerComponent :: "ptr \<Rightarrow> ptr \<Rightarrow> (obj world, unit) prog" where
  "registerComponent this c = seq (components this) (\<lambda>cs.
     store this (ComponentMediator (push_component c cs)))"

section \<open>Components\<close>

definition component_line :: "string \<Rightarrow> string \<Rightarrow> Event \<Rightarrow> line" where
  "component_line msg i e =
     Cout (tab @ msg @ ''-id:'' @ i @ ''-event:'' @ getEventName e @ endl)"

text \<open>\<open>AbstractComponent::log\<close>.\<close>

definition component_log :: "ptr \<Rightarrow> Event \<Rightarrow> string \<Rightarrow> (obj world, unit) prog" where
  "component_log this e msg = seq (load this) (\<lambda>x. case x of
      ConreteComponent i _ \<Rightarrow> emit (component_line msg i e)
    | ComponentMediator _ \<Rightarrow> undef WrongType)"

definition receive :: "Event \<Rightarrow> ptr \<Rightarrow> (obj world, unit) prog" where
  "receive e this = component_log this e ''[RECV]''"

definition notify :: "ptr \<Rightarrow> ptr \<Rightarrow> Event \<Rightarrow> (obj world, unit) prog" where
  "notify this sender e = seq (components this) (\<lambda>cs.
     for_each cs (\<lambda>c. if c \<noteq> sender then receive e c else ret ()))"

definition send :: "ptr \<Rightarrow> Event \<Rightarrow> (obj world, unit) prog" where
  "send this e =
     seq (component_log this e ''[SEND]'') (\<lambda>_.
     seq (load this) (\<lambda>x. case x of
       ConreteComponent _ m \<Rightarrow> (if m \<noteq> None then notify m this e else ret ())
     | ComponentMediator _ \<Rightarrow> undef WrongType))"

text \<open>\<open>mediator::run\<close>; \<open>clientCode\<close> sends \<open>kRead\<close>.\<close>

definition mediator_run :: "(obj world, unit) prog" where
  "mediator_run =
     seq (alloc (ComponentMediator [])) (\<lambda>m.
     seq (alloc (ConreteComponent ''1763700876'' m)) (\<lambda>c1.
     seq (alloc (ConreteComponent ''1763700882'' m)) (\<lambda>c2.
     seq (alloc (ConreteComponent ''1763700899'' m)) (\<lambda>c3.
     seq (alloc (ConreteComponent ''1763700900'' m)) (\<lambda>c4.
     block [
       registerComponent m c1, registerComponent m c3, registerComponent m c4,
       send c2 kRead,
       free m, free c1, free c2, free c3, free c4])))))"

lemmas mediator_defs [defs] = components_def push_component_def registerComponent_def
  component_log_def receive_def notify_def send_def

section \<open>Delivery\<close>

interpretation mediator: publisher "\<lambda>cs. cs" push_component
  by unfold_locales (simp add: push_component_def)

definition is_component :: "obj world \<Rightarrow> (nat \<Rightarrow> string) \<Rightarrow> nat \<Rightarrow> bool" where
  "is_component s nm a \<longleftrightarrow> (\<exists>m. cells s a = Some (ConreteComponent (nm a) m))"

lemma is_component_says [simp]: "is_component (says s ls) = is_component s"
  by (simp add: is_component_def fun_eq_iff)

lemma component_log_line:
  "is_component s nm a \<Longrightarrow> component_log (Some a) e msg s = Done () (says s [component_line msg (nm a) e])"
  by (auto simp: component_log_def is_component_def machine)

lemma deliver_all:
  "\<forall>a \<in> set as. is_component s nm a \<Longrightarrow>
     for_each (map Some as) (\<lambda>c. if c \<noteq> Some x then receive e c else ret ()) s
       = Done () (says s (map (\<lambda>a. component_line ''[RECV]'' (nm a) e) (removeAll x as)))"
proof (induction as arbitrary: s)
  case Nil
  then show ?case by (simp add: machine)
next
  case (Cons a as)
  show ?case
  proof (cases "a = x")
    case True
    with Cons show ?thesis by (simp add: seq_def ret_def)
  next
    case False
    let ?t = "says s [component_line ''[RECV]'' (nm a) e]"
    have "receive e (Some a) s = Done () ?t"
      using Cons.prems unfolding receive_def by (intro component_log_line) simp
    with False Cons show ?thesis by (simp add: seq_def)
  qed
qed

lemma register_one:
  "cells s m = Some (ComponentMediator cs) \<Longrightarrow>
     registerComponent (Some m) p s
       = Done () (s\<lparr>cells := (cells s)(m \<mapsto> ComponentMediator (push_component p cs))\<rparr>)"
  by (simp add: registerComponent_def components_def machine)

lemma register_all:
  "cells s m = Some (ComponentMediator cs) \<Longrightarrow>
     block (map (registerComponent (Some m)) ps) s
       = Done () (s\<lparr>cells := (cells s)(m \<mapsto> ComponentMediator (fold push_component ps cs))\<rparr>)"
proof (induction ps arbitrary: s cs)
  case Nil
  then have "(cells s)(m \<mapsto> ComponentMediator cs) = cells s" by auto
  then show ?case by (simp add: machine)
next
  case (Cons p ps)
  let ?s = "s\<lparr>cells := (cells s)(m \<mapsto> ComponentMediator (push_component p cs))\<rparr>"
  have "block (map (registerComponent (Some m)) ps) ?s
      = Done () (?s\<lparr>cells := (cells ?s)(m \<mapsto> ComponentMediator (fold push_component ps (push_component p cs)))\<rparr>)"
    by (rule Cons.IH) simp
  with register_one [OF Cons.prems, of p] show ?case
    by (simp add: seq_def fun_upd_def cong: if_cong)
qed

section \<open>Properties\<close>

text \<open>
  Registering components and sending an event from any component of the mediator: the sender
  prints its line, and then every registered component other than the sender receives the event
  once per registration, in registration order.  The sender itself never receives it.
\<close>

theorem mediator_broadcast:
  assumes "cells s m = Some (ComponentMediator [])"
    and "cells s x = Some (ConreteComponent (nm x) (Some m))"
    and "\<forall>a \<in> set as. is_component s nm a"
  shows "\<exists>t. seq (block (map (registerComponent (Some m)) (map Some as))) (\<lambda>_. send (Some x) e) s = Done () t
    \<and> out t = out s @ component_line ''[SEND]'' (nm x) e
        # map (\<lambda>a. component_line ''[RECV]'' (nm a) e) (removeAll x as)"
proof -
  let ?s = "s\<lparr>cells := (cells s)(m \<mapsto> ComponentMediator (map Some as))\<rparr>"
  let ?t = "says ?s [component_line ''[SEND]'' (nm x) e]"
  have "x \<noteq> m" using assms(1,2) by auto
  then have x: "cells ?s x = Some (ConreteComponent (nm x) (Some m))" using assms(2) by simp
  have "block (map (registerComponent (Some m)) (map Some as)) s = Done () ?s"
    using register_all [OF assms(1), of "map Some as"] by (simp add: mediator.subscribers_fold)
  moreover have "send (Some x) e ?s = notify (Some m) (Some x) e ?t"
    using x by (simp add: send_def component_log_def machine)
  moreover have "\<forall>a \<in> set as. is_component ?t nm a"
    using assms(1,3) by (auto simp: is_component_def)
  then have "notify (Some m) (Some x) e ?t
      = Done () (says ?t (map (\<lambda>a. component_line ''[RECV]'' (nm a) e) (removeAll x as)))"
    using deliver_all [of as ?t nm x e] by (simp add: notify_def components_def machine)
  ultimately show ?thesis by (simp add: seq_def)
qed

definition demo_mediator :: "obj world" where
  "demo_mediator = \<lparr>cells = [0 \<mapsto> ComponentMediator [], 1 \<mapsto> ConreteComponent ''a'' (Some 0),
     2 \<mapsto> ConreteComponent ''b'' (Some 0)], brk = 3, out = []\<rparr>"

theorem mediator_broadcast_witness:
  "\<exists>t. seq (block (map (registerComponent (Some 0)) (map Some [2, 1, 2]))) (\<lambda>_. send (Some 1) kUpdate) demo_mediator
      = Done () t
    \<and> out t = [component_line ''[SEND]'' ''a'' kUpdate, component_line ''[RECV]'' ''b'' kUpdate,
        component_line ''[RECV]'' ''b'' kUpdate]"
  using mediator_broadcast [of demo_mediator 0 1 "\<lambda>a. if a = 1 then ''a'' else ''b''" "[2, 1, 2]" kUpdate]
  by (simp add: demo_mediator_def is_component_def)

lemma send_without_mediator:
  "cells s x = Some (ConreteComponent i None) \<Longrightarrow>
     send (Some x) e s = Done () (says s [component_line ''[SEND]'' i e])"
  by (simp add: send_def component_log_def machine)

lemma mediator_run_trace:
  "\<exists>t. mediator_run boot = Done () t \<and> live_addrs t = []
    \<and> out t = component_line ''[SEND]'' ''1763700882'' kRead
        # map (\<lambda>i. component_line ''[RECV]'' i kRead) [''1763700876'', ''1763700899'', ''1763700900'']"
  by (simp add: mediator_run_def mediator_defs machine live_addrs_def upt_conv_Cons)

end
