(* ===== verification/Memento.thy ===== *)
theory Memento
  imports Prelude
begin

text \<open>
  \<open>src/dp/behavioral/Memento.cpp\<close>: an originator with a string state, mementos that hold copies
  of it, and a care taker that keeps a stack of mementos.  All of them are heap objects.

  \<open>std::rand\<close> and the formatted local time come from the environment: \<open>rnd k\<close> is the result
  of the \<open>k\<close>-th call of \<open>rand\<close> after \<open>srand\<close>, \<open>stamp k\<close> the date text at that moment, and the
  world counts the calls made.  Nothing is assumed about either.

  Lemmas: each operation refines the abstract editor-with-history (a state and a stack of saved
  states), so a whole run of operations does.
\<close>

datatype obj =
    ConcreteMemento (memento_state: string) (memento_date: string) (memento_name: string)
  | Originator string int
  | CareTaker "ptr list" ptr

record menv = "obj world" +
  calls :: nat

type_synonym 'a action = "(menv, 'a) prog"

section \<open>Environment\<close>

definition rand :: "(nat \<Rightarrow> nat) \<Rightarrow> nat action" where
  "rand rnd s = Done (rnd (calls s)) (s\<lparr>calls := Suc (calls s)\<rparr>)"

definition local_time :: "(nat \<Rightarrow> string) \<Rightarrow> string action" where
  "local_time stamp s = Done (stamp (calls s)) s"

section \<open>Memento and originator\<close>

text \<open>The constructor of \<open>ConcreteMemento\<close> (\<open>new ConcreteMemento(state)\<close>).\<close>

definition new_ConcreteMemento :: "(nat \<Rightarrow> nat) \<Rightarrow> (nat \<Rightarrow> string) \<Rightarrow> string \<Rightarrow> ptr action" where
  "new_ConcreteMemento rnd stamp st =
     seq (local_time stamp) (\<lambda>date.
     seq (rand rnd) (\<lambda>r.
     alloc (ConcreteMemento st date (''me'' @ date @ ''_'' @ show_nat (r mod 10000)))))"

definition alpha_num :: string where
  "alpha_num = ''0123456789'' @ ''ABCDEFGHIJKLMNOPQRSTUVWXYZ'' @ ''abcdefghijklmnopqrstuvwxyz''"

primrec random_chars :: "(nat \<Rightarrow> nat) \<Rightarrow> nat \<Rightarrow> string action" where
  "random_chars rnd 0 = ret ''''"
| "random_chars rnd (Suc len) =
     seq (rand rnd) (\<lambda>r.
     seq (random_chars rnd len) (\<lambda>cs.
     ret (alpha_num ! (r mod length alpha_num) # cs)))"

definition originator :: "ptr \<Rightarrow> (string \<times> int) action" where
  "originator this = seq (load this) (\<lambda>x. case x of Originator st d \<Rightarrow> ret (st, d) | _ \<Rightarrow> undef WrongType)"

definition new_Originator :: "string \<Rightarrow> ptr action" where
  "new_Originator st = seq (alloc (Originator st 0)) (\<lambda>this.
     seq (coutln (''[O]Initial state is: '' @ st)) (\<lambda>_. ret this))"

definition generateRandomString :: "(nat \<Rightarrow> nat) \<Rightarrow> ptr \<Rightarrow> nat \<Rightarrow> string action" where
  "generateRandomString rnd this len =
     seq (random_chars rnd len) (\<lambda>cs.
     seq (originator this) (\<lambda>(st, d).
     seq (incr32 d) (\<lambda>d'.
     seq (store this (Originator st d')) (\<lambda>_. ret cs))))"

definition operation :: "(nat \<Rightarrow> nat) \<Rightarrow> ptr \<Rightarrow> unit action" where
  "operation rnd this =
     seq (coutln ''[O]Doing something important.'') (\<lambda>_.
     seq (generateRandomString rnd this 30) (\<lambda>cs.
     seq (originator this) (\<lambda>(st, d).
     seq (store this (Originator cs d)) (\<lambda>_.
     coutln (''[O]The state has changed to: '' @ cs)))))"

definition save :: "(nat \<Rightarrow> nat) \<Rightarrow> (nat \<Rightarrow> string) \<Rightarrow> ptr \<Rightarrow> ptr action" where
  "save rnd stamp this = seq (originator this) (\<lambda>(st, d). new_ConcreteMemento rnd stamp st)"

definition memento :: "ptr \<Rightarrow> obj action" where
  "memento m = seq (load m) (\<lambda>x. case x of ConcreteMemento _ _ _ \<Rightarrow> ret x | _ \<Rightarrow> undef WrongType)"

definition restore :: "ptr \<Rightarrow> ptr \<Rightarrow> unit action" where
  "restore this m =
     seq (memento m) (\<lambda>x.
     seq (originator this) (\<lambda>(st, d).
     seq (store this (Originator (memento_state x) d)) (\<lambda>_.
     seq (coutln (''[O]The state has restored to: '' @ memento_state x)) (\<lambda>_.
     free m))))"

section \<open>Care taker\<close>

definition care_taker :: "ptr \<Rightarrow> (ptr list \<times> ptr) action" where
  "care_taker this = seq (load this) (\<lambda>x. case x of CareTaker ms org \<Rightarrow> ret (ms, org) | _ \<Rightarrow> undef WrongType)"

definition backup :: "(nat \<Rightarrow> nat) \<Rightarrow> (nat \<Rightarrow> string) \<Rightarrow> ptr \<Rightarrow> unit action" where
  "backup rnd stamp this =
     seq (coutln ''[C]Saving Originator's state...'') (\<lambda>_.
     seq (care_taker this) (\<lambda>(ms, org).
     seq (save rnd stamp org) (\<lambda>m.
     store this (CareTaker (ms @ [m]) org))))"

definition undo :: "ptr \<Rightarrow> unit action" where
  "undo this = seq (care_taker this) (\<lambda>(ms, org).
     if length ms \<noteq> 0 then
       seq (store this (CareTaker (butlast ms) org)) (\<lambda>_.
       seq (memento (last ms)) (\<lambda>x.
       seq (coutln (''[C]Restoring state to: '' @ memento_name x)) (\<lambda>_.
       restore org (last ms))))
     else ret ())"

definition history :: "ptr \<Rightarrow> unit action" where
  "history this =
     seq (coutln ''[C]The list of mementos:'') (\<lambda>_.
     seq (care_taker this) (\<lambda>(ms, org).
     for_each ms (\<lambda>m. seq (memento m) (\<lambda>x. coutln (tab @ memento_name x)))))"

definition delete_CareTaker :: "ptr \<Rightarrow> unit action" where
  "delete_CareTaker this = seq (care_taker this) (\<lambda>(ms, org).
     seq (for_each ms free) (\<lambda>_. free this))"

definition memento_clientCode :: "(nat \<Rightarrow> nat) \<Rightarrow> (nat \<Rightarrow> string) \<Rightarrow> ptr \<Rightarrow> unit action" where
  "memento_clientCode rnd stamp org =
     seq (alloc (CareTaker [] org)) (\<lambda>ct. block [
       backup rnd stamp ct, operation rnd org,
       backup rnd stamp ct, operation rnd org,
       backup rnd stamp ct, operation rnd org,
       history ct, undo ct, undo ct, history ct, undo ct])"

text \<open>\<open>run\<close> after \<open>srand\<close>; the state of the random generator is \<open>rnd\<close>.\<close>

definition memento_run :: "(nat \<Rightarrow> nat) \<Rightarrow> (nat \<Rightarrow> string) \<Rightarrow> unit action" where
  "memento_run rnd stamp =
     seq (new_Originator ''Hello World'') (\<lambda>org.
     seq (memento_clientCode rnd stamp org) (\<lambda>_. free org))"

section \<open>The abstract history\<close>

datatype command = Backup | Operate | Undo | History

fun perform :: "(nat \<Rightarrow> nat) \<Rightarrow> (nat \<Rightarrow> string) \<Rightarrow> nat \<Rightarrow> nat \<Rightarrow> command \<Rightarrow> unit action" where
  "perform rnd stamp org ct Backup = backup rnd stamp (Some ct)"
| "perform rnd stamp org ct Operate = operation rnd (Some org)"
| "perform rnd stamp org ct Undo = undo (Some ct)"
| "perform rnd stamp org ct History = history (Some ct)"

definition random_string :: "(nat \<Rightarrow> nat) \<Rightarrow> nat \<Rightarrow> nat \<Rightarrow> string" where
  "random_string rnd k len = map (\<lambda>i. alpha_num ! (rnd (k + i) mod length alpha_num)) [0..<len]"

text \<open>State, saved states (latest first) and calls of \<open>rand\<close> so far.\<close>

fun spec_step :: "(nat \<Rightarrow> nat) \<Rightarrow> string \<times> string list \<times> nat \<Rightarrow> command \<Rightarrow> string \<times> string list \<times> nat" where
  "spec_step rnd (st, saved, k) Backup = (st, st # saved, k + 1)"
| "spec_step rnd (st, saved, k) Operate = (random_string rnd k 30, saved, k + 30)"
| "spec_step rnd (st, saved, k) Undo =
     (case saved of [] \<Rightarrow> (st, saved, k) | x # xs \<Rightarrow> (x, xs, k))"
| "spec_step rnd (st, saved, k) History = (st, saved, k)"

definition holds_memento :: "menv \<Rightarrow> nat \<Rightarrow> string \<Rightarrow> bool" where
  "holds_memento s a st \<longleftrightarrow> (\<exists>d n. cells s a = Some (ConcreteMemento st d n))"

text \<open>
  The representation: the originator holds the state, the care taker points to distinct live
  mementos with the saved states, the originator's counter has room for \<open>room\<close> more operations,
  and no live object lies above the allocation mark.
\<close>

definition represents :: "nat \<Rightarrow> nat \<Rightarrow> nat \<Rightarrow> string \<times> string list \<times> nat \<Rightarrow> menv \<Rightarrow> bool" where
  "represents org ct room = (\<lambda>(st, saved, k) s. \<exists>as d.
     cells s org = Some (Originator st d) \<and> 0 \<le> d \<and> d + int room < 2 ^ 31 \<and>
     cells s ct = Some (CareTaker (map Some (rev as)) (Some org)) \<and>
     distinct as \<and> list_all2 (holds_memento s) as saved \<and> calls s = k \<and> fresh_above s
     \<and> dom (cells s) = {org, ct} \<union> set as)"

lemma says_calls [simp]: "calls (says s ls) = calls s"
  by (simp add: says_def)

lemma random_chars_eq:
  "random_chars rnd len s = Done (random_string rnd (calls s) len) (s\<lparr>calls := calls s + len\<rparr>)"
proof (induction len arbitrary: s)
  case 0
  then show ?case by (simp add: machine random_string_def)
next
  case (Suc len)
  have "random_string rnd (calls s) (Suc len)
      = alpha_num ! (rnd (calls s) mod length alpha_num) # random_string rnd (Suc (calls s)) len"
    by (simp add: random_string_def upt_conv_Cons map_Suc_upt [symmetric] del: upt_Suc)
  with Suc show ?case by (simp add: machine rand_def)
qed

lemma random_string_alphanumeric:
  "length (random_string rnd k len) = len \<and> set (random_string rnd k len) \<subseteq> set alpha_num"
proof -
  have "alpha_num ! (r mod length alpha_num) \<in> set alpha_num" for r
    by (rule nth_mem, rule mod_less_divisor) (simp add: alpha_num_def)
  then show ?thesis by (auto simp: random_string_def)
qed

section \<open>Each operation refines the history\<close>

lemma represents_less: "represents org ct (Suc room) h s \<Longrightarrow> represents org ct room h s"
  by (cases h) (force simp: represents_def)

lemma holds_memento_kept:
  "list_all2 (holds_memento s) as xs \<Longrightarrow> \<forall>a \<in> set as. cells t a = cells s a \<Longrightarrow>
     list_all2 (holds_memento t) as xs"
  by (induction as arbitrary: xs) (auto simp: list_all2_Cons1 holds_memento_def)

lemma holds_memento_mem: "list_all2 (holds_memento s) as xs \<Longrightarrow> a \<in> set as \<Longrightarrow> \<exists>x. holds_memento s a x"
  by (induction as arbitrary: xs) (auto simp: list_all2_Cons1)

lemma holds_memento_says [simp]: "holds_memento (says s ls) = holds_memento s"
  by (simp add: holds_memento_def fun_eq_iff)

lemma represents_ne:
  "represents org ct room h s \<Longrightarrow> org \<noteq> ct"
  by (cases h) (auto simp: represents_def)

lemma operation_refines:
  assumes "represents org ct (Suc room) (st, saved, k) s"
  shows "\<exists>t. operation rnd (Some org) s = Done () t
    \<and> represents org ct room (spec_step rnd (st, saved, k) Operate) t"
proof -
  obtain as d where s: "cells s org = Some (Originator st d)" "0 \<le> d" "d + int (Suc room) < 2 ^ 31"
    "cells s ct = Some (CareTaker (map Some (rev as)) (Some org))" "distinct as"
    "list_all2 (holds_memento s) as saved" "calls s = k" "fresh_above s"
    "dom (cells s) = {org, ct} \<union> set as"
    using assms by (auto simp: represents_def)
  let ?w = "random_string rnd k 30"
  have inc: "incr32 d = ret (d + 1)" using s(2,3) by (intro incr32_ok) auto
  have "org \<notin> set as" using s(1,6) by (auto simp: holds_memento_def list_all2_conv_all_nth in_set_conv_nth)
  let ?t = "says s [Cout (''[O]Doing something important.'' @ endl),
        Cout (''[O]The state has changed to: '' @ ?w @ endl)]
      \<lparr>calls := k + 30, cells := (cells s)(org \<mapsto> Originator ?w (d + 1))\<rparr>"
  have "operation rnd (Some org) s = Done () ?t"
    using s(1,7) by (simp add: operation_def generateRandomString_def random_chars_eq originator_def
        machine inc says_def)
  moreover have "list_all2 (holds_memento ?t) as saved"
    using \<open>org \<notin> set as\<close> by (intro holds_memento_kept [OF s(6)]) auto
  ultimately show ?thesis
    using s by (auto simp: represents_def fresh_above_def intro!: exI [of _ as])
qed

lemma backup_refines:
  assumes "represents org ct room (st, saved, k) s"
  shows "\<exists>t. backup rnd stamp (Some ct) s = Done () t
    \<and> represents org ct room (spec_step rnd (st, saved, k) Backup) t"
proof -
  obtain as d where s: "cells s org = Some (Originator st d)" "0 \<le> d" "d + int room < 2 ^ 31"
    "cells s ct = Some (CareTaker (map Some (rev as)) (Some org))" "distinct as"
    "list_all2 (holds_memento s) as saved" "calls s = k" "fresh_above s"
    "dom (cells s) = {org, ct} \<union> set as"
    using assms by (auto simp: represents_def)
  let ?n = "brk s"
  let ?m = "ConcreteMemento st (stamp k) (''me'' @ stamp k @ ''_'' @ show_nat (rnd k mod 10000))"
  let ?t = "says s [Cout (''[C]Saving Originator's state...'' @ endl)]
      \<lparr>calls := Suc k, brk := Suc ?n,
        cells := (cells s)(?n \<mapsto> ?m, ct \<mapsto> CareTaker (map Some (rev as) @ [Some ?n]) (Some org))\<rparr>"
  have n: "?n \<noteq> org" "?n \<noteq> ct" "?n \<notin> set as"
  proof -
    have "?n \<notin> dom (cells s)" using s(8) by (simp add: fresh_above_def domIff)
    then show "?n \<noteq> org" "?n \<noteq> ct" "?n \<notin> set as" using s(9) by auto
  qed
  have "ct \<notin> set as" using s(4,6) by (auto simp: holds_memento_def list_all2_conv_all_nth in_set_conv_nth)
  have "backup rnd stamp (Some ct) s = Done () ?t"
    using s(1,4,7) n by (simp add: backup_def care_taker_def save_def originator_def
        new_ConcreteMemento_def local_time_def rand_def machine says_def)
  moreover have "list_all2 (holds_memento ?t) as saved"
    using s(6) n \<open>ct \<notin> set as\<close> by (intro holds_memento_kept [OF s(6)]) auto
  then have "list_all2 (holds_memento ?t) (?n # as) (st # saved)"
    using n by (auto simp: holds_memento_def)
  moreover have "fresh_above ?t"
    using fresh_above_live [OF s(8) s(4)] s(8) by (auto simp: fresh_above_def)
  ultimately show ?thesis
    using s n represents_ne [OF assms]
    by (auto simp: represents_def intro!: exI [of _ "?n # as"])
qed

lemma undo_refines:
  assumes "represents org ct room (st, saved, k) s"
  shows "\<exists>t. undo (Some ct) s = Done () t
    \<and> represents org ct room (spec_step rnd (st, saved, k) Undo) t"
proof -
  obtain as d where s: "cells s org = Some (Originator st d)" "0 \<le> d" "d + int room < 2 ^ 31"
    "cells s ct = Some (CareTaker (map Some (rev as)) (Some org))" "distinct as"
    "list_all2 (holds_memento s) as saved" "calls s = k" "fresh_above s"
    "dom (cells s) = {org, ct} \<union> set as"
    using assms by (auto simp: represents_def)
  show ?thesis
  proof (cases as)
    case Nil
    then show ?thesis using s assms by (auto simp: undo_def care_taker_def machine)
  next
    case (Cons a bs)
    then obtain x xs dt nm where saved: "saved = x # xs" and a: "cells s a = Some (ConcreteMemento x dt nm)"
        and bs: "list_all2 (holds_memento s) bs xs"
      using s(6) by (auto simp: list_all2_Cons1 holds_memento_def)
    have ne: "a \<noteq> org" "a \<noteq> ct" "org \<noteq> ct" "org \<notin> set bs" "ct \<notin> set bs" "a \<notin> set bs"
      using s Cons a by (auto simp: holds_memento_def list_all2_conv_all_nth in_set_conv_nth)
    let ?t = "says s [Cout (''[C]Restoring state to: '' @ nm @ endl),
          Cout (''[O]The state has restored to: '' @ x @ endl)]
        \<lparr>cells := (cells s)(ct \<mapsto> CareTaker (map Some (rev bs)) (Some org), org \<mapsto> Originator x d, a := None)\<rparr>"
    have "undo (Some ct) s = Done () ?t"
      using s(1,4) a ne Cons
      by (simp add: undo_def care_taker_def memento_def restore_def originator_def machine)
    moreover have "list_all2 (holds_memento ?t) bs xs"
      using ne by (intro holds_memento_kept [OF bs]) auto
    moreover have "fresh_above ?t" using s(1,4,8) by (auto simp: fresh_above_def)
    moreover have "dom (cells ?t) = {org, ct} \<union> set bs" using s(9) Cons ne by auto
    ultimately show ?thesis
      using s saved ne Cons by (auto simp: represents_def intro!: exI [of _ bs])
  qed
qed

lemma history_refines:
  assumes "represents org ct room (st, saved, k) s"
  shows "\<exists>t. history (Some ct) s = Done () t
    \<and> represents org ct room (spec_step rnd (st, saved, k) History) t"
proof -
  obtain as d where s: "cells s ct = Some (CareTaker (map Some (rev as)) (Some org))"
    "list_all2 (holds_memento s) as saved"
    using assms by (auto simp: represents_def)
  have loop: "\<exists>ls. for_each (map Some bs) (\<lambda>m. seq (memento m) (\<lambda>x. coutln (tab @ memento_name x))) u
      = Done () (says u ls)" if "\<forall>a \<in> set bs. \<exists>x. holds_memento u a x" for bs u
    using that
  proof (induction bs arbitrary: u)
    case Nil
    then show ?case by (auto simp: machine intro: exI [of _ "[]"])
  next
    case (Cons b bs)
    then obtain x dt nm where b: "cells u b = Some (ConcreteMemento x dt nm)"
      by (auto simp: holds_memento_def)
    let ?u = "says u [Cout (tab @ nm @ endl)]"
    have "\<forall>a \<in> set bs. \<exists>x. holds_memento ?u a x" using Cons.prems by (simp add: holds_memento_def)
    from Cons.IH [OF this] b show ?case by (auto simp: memento_def machine)
  qed
  have "\<forall>a \<in> set (rev as). \<exists>x. holds_memento (says s [Cout (''[C]The list of mementos:'' @ endl)]) a x"
    using holds_memento_mem [OF s(2)] by (simp add: holds_memento_def)
  from loop [OF this] obtain ls where "history (Some ct) s = Done () (says s ls)"
    using s(1) by (auto simp: history_def care_taker_def machine)
  moreover have "represents org ct room (st, saved, k) (says s ls)"
    using assms by (simp add: represents_def holds_memento_def fresh_above_def)
  ultimately show ?thesis by auto
qed

lemma perform_refines:
  assumes "represents org ct (Suc room) h s"
  shows "\<exists>t. perform rnd stamp org ct c s = Done () t \<and> represents org ct room (spec_step rnd h c) t"
proof (cases h)
  case (fields st saved k)
  show ?thesis
    using assms fields operation_refines [of org ct room st saved k s rnd]
      backup_refines [of org ct room st saved k s rnd stamp]
      undo_refines [of org ct room st saved k s rnd] history_refines [of org ct room st saved k s rnd]
      represents_less [OF assms]
    by (cases c) auto
qed

lemma performs_refine:
  assumes "represents org ct (length cs) h s"
  shows "\<exists>t. block (map (perform rnd stamp org ct) cs) s = Done () t
    \<and> represents org ct 0 (foldl (spec_step rnd) h cs) t"
  using assms
proof (induction cs arbitrary: h s)
  case Nil
  then show ?case by (simp add: machine)
next
  case (Cons c cs)
  then obtain t where "perform rnd stamp org ct c s = Done () t"
      "represents org ct (length cs) (spec_step rnd h c) t"
    using perform_refines [of org ct "length cs" h s rnd stamp c] by auto
  with Cons.IH [of "spec_step rnd h c" t] show ?case by (simp add: seq_def)
qed

section \<open>Properties\<close>

text \<open>
  C24.  The care taker is a faithful undo history: every sequence of backup, operation, undo and
  history calls runs without undefined behaviour, whatever the random generator and the clock return, and
  leaves the originator's state and the saved states exactly where the abstract last-in
  first-out history puts them (an undo on an empty history changes nothing).
\<close>

theorem memento_refines_history:
  assumes "represents org ct (length cs) h s"
  shows "\<exists>t. block (map (perform rnd stamp org ct) cs) s = Done () t
    \<and> represents org ct 0 (foldl (spec_step rnd) h cs) t"
  using assms by (rule performs_refine)

definition demo_menv :: menv where
  "demo_menv = \<lparr>cells = [0 \<mapsto> Originator ''abc'' 0, 1 \<mapsto> CareTaker [] (Some 0)], brk = 2, out = [], calls = 0\<rparr>"

theorem memento_refines_history_witness:
  "\<exists>t. block (map (perform (\<lambda>k. k) (\<lambda>k. ''now'') 0 1) [Undo, Backup, Operate, Undo, Undo]) demo_menv = Done () t
     \<and> represents 0 1 0 (''abc'', [], 31) t"
proof -
  let ?cs = "[Undo, Backup, Operate, Undo, Undo]"
  have "represents 0 1 (length ?cs) (''abc'', [], 0) demo_menv"
    by (auto simp: represents_def demo_menv_def fresh_above_def)
  from memento_refines_history [OF this, of "\<lambda>k. k" "\<lambda>k. ''now''"] show ?thesis by simp
qed

text \<open>
  The demonstration client (three backups, each followed by an operation, then three undos)
  always restores the initial state, for every random generator and clock; of all the objects it
  created only the care taker is left, which it never deletes.
\<close>

theorem memento_client_restores:
  assumes "cells s org = Some (Originator st d)" "0 \<le> d" "d < 2 ^ 31 - 12"
    and "dom (cells s) = {org}" "fresh_above s"
  shows "\<exists>t d'. memento_clientCode rnd stamp (Some org) s = Done () t
    \<and> cells t = [org \<mapsto> Originator st d', brk s \<mapsto> CareTaker [] (Some org)]"
proof -
  let ?cs = "[Backup, Operate, Backup, Operate, Backup, Operate, History, Undo, Undo, History, Undo]"
  let ?s = "s\<lparr>cells := (cells s)(brk s \<mapsto> CareTaker [] (Some org)), brk := Suc (brk s)\<rparr>"
  have "org < brk s" using assms(1,5) by (rule fresh_above_live [rotated])
  then have "represents org (brk s) (length ?cs) (st, [], calls s) ?s"
    using assms by (auto simp: represents_def fresh_above_update intro!: exI [of _ "[]"])
  from performs_refine [OF this, of rnd stamp] obtain t where
    run: "block (map (perform rnd stamp org (brk s)) ?cs) ?s = Done () t" and
    rep: "represents org (brk s) 0 (foldl (spec_step rnd) (st, [], calls s) ?cs) t" by blast
  have "foldl (spec_step rnd) (st, [], calls s) ?cs = (st, [], calls s + 93)" by simp
  note rep = rep [unfolded this]
  have "memento_clientCode rnd stamp (Some org) s = Done () t"
    using run by (simp add: memento_clientCode_def seq_def [of "alloc _"] alloc_def del: block.simps)
  moreover from rep obtain d' where t: "cells t org = Some (Originator st d')"
    "cells t (brk s) = Some (CareTaker [] (Some org))" "dom (cells t) = {org, brk s}"
    by (auto simp: represents_def)
  then have "cells t = [org \<mapsto> Originator st d', brk s \<mapsto> CareTaker [] (Some org)]"
    by (auto simp: fun_eq_iff dom_def set_eq_iff)
  ultimately show ?thesis by blast
qed

theorem memento_client_restores_witness:
  "\<exists>t d'. memento_clientCode (\<lambda>k. 7 * k) (\<lambda>k. ''now'') (Some 0) (demo_menv\<lparr>cells := [0 \<mapsto> Originator ''abc'' 0]\<rparr>)
      = Done () t \<and> cells t = [0 \<mapsto> Originator ''abc'' d', 2 \<mapsto> CareTaker [] (Some 0)]"
  using memento_client_restores [of "demo_menv\<lparr>cells := [0 \<mapsto> Originator ''abc'' 0]\<rparr>" 0 "''abc''" 0
      "\<lambda>k. 7 * k" "\<lambda>k. ''now''"]
  by (simp add: demo_menv_def fresh_above_def)

end
