(* ===== verification/Command.thy ===== *)
theory Command
  imports Prelude
begin

text \<open>
  \<open>src/dp/behavioral/Command.cpp\<close>: an invoker holds two command pointers and owns both; a
  complex command forwards to a receiver it does not own.

  Lemmas: what executing a command and invoking print and do to the receiver; which objects the
  invoker's destructor deletes, and that it deletes a command twice when the constructor is
  given one; what the demonstration leaks.
\<close>

datatype obj =
    Receiver int
  | SimpleConcreteCommand
  | ComplexConcreteCommand ptr string
  | Invoker ptr ptr

section \<open>Receiver\<close>

definition bump_receiver :: "ptr \<Rightarrow> (obj world, unit) prog" where
  "bump_receiver this = seq (load this) (\<lambda>x. case x of
      Receiver d \<Rightarrow> seq (incr32 d) (\<lambda>d'. store this (Receiver d'))
    | _ \<Rightarrow> undef WrongType)"

definition doCheck :: "ptr \<Rightarrow> (obj world, unit) prog" where
  "doCheck this = seq (LOG ''Receiver checking... '') (\<lambda>_. bump_receiver this)"

definition doInit :: "ptr \<Rightarrow> (obj world, unit) prog" where
  "doInit this = seq (LOG ''Receiver initializing... '') (\<lambda>_. bump_receiver this)"

definition doLaunch :: "ptr \<Rightarrow> string \<Rightarrow> (obj world, unit) prog" where
  "doLaunch this arg = seq (LOG (''Receiver launching...  '' @ endl @ tab @ arg)) (\<lambda>_. bump_receiver this)"

section \<open>Commands and invoker\<close>

definition execute :: "ptr \<Rightarrow> (obj world, unit) prog" where
  "execute this = seq (load this) (\<lambda>x. case x of
      SimpleConcreteCommand \<Rightarrow> LOG ''executed''
    | ComplexConcreteCommand receiver payload \<Rightarrow>
        block [LOG ''executed'', doCheck receiver, doInit receiver, doLaunch receiver payload]
    | _ \<Rightarrow> undef WrongType)"

definition new_Invoker :: "ptr \<Rightarrow> (obj world, ptr) prog" where
  "new_Invoker s = alloc (Invoker s s)"

definition invoker :: "ptr \<Rightarrow> (obj world, ptr \<times> ptr) prog" where
  "invoker this = seq (load this) (\<lambda>x. case x of Invoker s f \<Rightarrow> ret (s, f) | _ \<Rightarrow> undef WrongType)"

definition setOnStart :: "ptr \<Rightarrow> ptr \<Rightarrow> (obj world, unit) prog" where
  "setOnStart this command = seq (invoker this) (\<lambda>(s, f). store this (Invoker command f))"

definition setOnFinish :: "ptr \<Rightarrow> ptr \<Rightarrow> (obj world, unit) prog" where
  "setOnFinish this command = seq (invoker this) (\<lambda>(s, f). store this (Invoker s command))"

definition invoke :: "ptr \<Rightarrow> (obj world, unit) prog" where
  "invoke this =
     seq (LOG ''executed'') (\<lambda>_.
     seq (invoker this) (\<lambda>(s, f).
     seq (if s \<noteq> None then execute s else ret ()) (\<lambda>_.
     if f \<noteq> None then execute f else ret ())))"

text \<open>\<open>delete invoker\<close>: the destructor deletes both commands.\<close>

definition delete_Invoker :: "ptr \<Rightarrow> (obj world, unit) prog" where
  "delete_Invoker this = seq (invoker this) (\<lambda>(s, f). block [free s, free f, free this])"

definition command_run :: "(obj world, unit) prog" where
  "command_run =
     seq (alloc (Receiver 0)) (\<lambda>ui.
     seq (new_Invoker None) (\<lambda>inv.
     seq (alloc SimpleConcreteCommand) (\<lambda>c1.
     seq (setOnStart inv c1) (\<lambda>_.
     seq (alloc (ComplexConcreteCommand ui ''cmd --version'')) (\<lambda>c2.
     seq (setOnFinish inv c2) (\<lambda>_.
     seq (invoke inv) (\<lambda>_.
     free ui)))))))"

lemmas command_defs [defs] = bump_receiver_def doCheck_def doInit_def doLaunch_def execute_def
  new_Invoker_def invoker_def setOnStart_def setOnFinish_def invoke_def delete_Invoker_def

section \<open>What a command does\<close>

text \<open>
  A command pointer is usable when it is null or points to a simple command or to a complex one
  whose receiver is the live object \<open>r\<close>.
\<close>

definition usable :: "obj world \<Rightarrow> nat \<Rightarrow> ptr \<Rightarrow> bool" where
  "usable s r p \<longleftrightarrow> p = None \<or> (\<exists>a. p = Some a \<and> a \<noteq> r \<and>
     (cells s a = Some SimpleConcreteCommand \<or> (\<exists>w. cells s a = Some (ComplexConcreteCommand (Some r) w))))"

fun command_lines :: "obj option \<Rightarrow> string list" where
  "command_lines (Some SimpleConcreteCommand) = [''executed'']"
| "command_lines (Some (ComplexConcreteCommand _ w)) = [''executed'', ''Receiver checking... '',
     ''Receiver initializing... '', ''Receiver launching...  '' @ endl @ tab @ w]"
| "command_lines _ = []"

fun bumps :: "obj option \<Rightarrow> int" where
  "bumps (Some (ComplexConcreteCommand _ _)) = 3"
| "bumps _ = 0"

definition target :: "obj world \<Rightarrow> ptr \<Rightarrow> obj option" where
  "target s p = (case p of None \<Rightarrow> None | Some a \<Rightarrow> cells s a)"

lemma usable_says [simp]: "usable (says s ls) = usable s" "target (says s ls) = target s"
  by (auto simp: usable_def target_def fun_eq_iff split: option.splits)

definition run_command :: "ptr \<Rightarrow> (obj world, unit) prog" where
  "run_command p = (if p \<noteq> None then execute p else ret ())"

lemma run_command_effect:
  assumes "usable s r p" "cells s r = Some (Receiver d)" "0 \<le> d" "d < 2 ^ 31 - 3"
  shows "run_command p s = Done ()
    (says s (map Log (command_lines (target s p)))\<lparr>cells := (cells s)(r \<mapsto> Receiver (d + bumps (target s p)))\<rparr>)"
proof -
  have "(cells s)(r \<mapsto> Receiver d) = cells s" using assms(2) by auto
  with assms show ?thesis
    by (auto simp: run_command_def usable_def target_def execute_def doCheck_def doInit_def doLaunch_def
        bump_receiver_def machine fun_upd_def add.commute cong: if_cong)
qed

section \<open>Properties\<close>

text \<open>
  Invoking runs the start command and then the finish command, each if it is set: the console
  shows the invoker's line and then exactly the lines of the two commands, and the receiver is
  called three times per complex command.
\<close>

theorem command_invoke:
  assumes "cells s i = Some (Invoker on_start on_finish)"
    and "usable s r on_start" "usable s r on_finish"
    and "cells s r = Some (Receiver d)" "0 \<le> d" "d < 2 ^ 31 - 6"
  shows "\<exists>t. invoke (Some i) s = Done () t
    \<and> out t = out s @ map Log (''executed'' # command_lines (target s on_start) @ command_lines (target s on_finish))
    \<and> cells t r = Some (Receiver (d + bumps (target s on_start) + bumps (target s on_finish)))"
proof -
  let ?s = "says s [Log ''executed'']"
  let ?t = "says ?s (map Log (command_lines (target s on_start)))
      \<lparr>cells := (cells s)(r \<mapsto> Receiver (d + bumps (target s on_start)))\<rparr>"
  have b: "0 \<le> bumps x" "bumps x \<le> 3" for x by (cases x rule: bumps.cases; simp)+
  have "run_command on_start ?s = Done () ?t"
    using run_command_effect [of ?s r on_start d] assms by simp
  moreover have u: "usable ?t r on_finish" and eq: "target ?t on_finish = target s on_finish"
    using assms(3) by (auto simp: usable_def target_def)
  have "run_command on_finish ?t = Done () (says ?t (map Log (command_lines (target s on_finish)))
      \<lparr>cells := (cells ?t)(r \<mapsto> Receiver (d + bumps (target s on_start) + bumps (target s on_finish)))\<rparr>)"
    using run_command_effect [OF u, of "d + bumps (target s on_start)"] b [of "target s on_start"] assms(5,6)
    unfolding eq by (simp add: add.assoc)
  moreover have "invoke (Some i) s = seq (run_command on_start) (\<lambda>_. run_command on_finish) ?s"
    using assms(1) by (simp add: invoke_def invoker_def run_command_def machine)
  ultimately show ?thesis by (simp add: seq_def)
qed

definition demo_commands :: "obj world" where
  "demo_commands = \<lparr>cells = [0 \<mapsto> Receiver 0, 1 \<mapsto> Invoker (Some 2) (Some 2),
     2 \<mapsto> ComplexConcreteCommand (Some 0) ''x''], brk = 3, out = []\<rparr>"

theorem command_invoke_witness:
  "\<exists>t. invoke (Some 1) demo_commands = Done () t
    \<and> out t = map Log (''executed'' # command_lines (target demo_commands (Some 2)) @ command_lines (target demo_commands (Some 2)))
    \<and> cells t 0 = Some (Receiver 6)"
  using command_invoke [of demo_commands 1 "Some 2" "Some 2" 0 0]
  by (simp add: demo_commands_def usable_def target_def)

text \<open>
  An invoker constructed with a command stores that pointer in both of its fields, so its
  destructor deletes the command twice, which is undefined behaviour, whatever the command is.
\<close>

theorem command_constructor_double_delete:
  assumes "cells s a = Some c" "fresh_above s"
  shows "seq (new_Invoker (Some a)) delete_Invoker s = Undef (DoubleFree a)"
proof -
  have "a \<noteq> brk s" using fresh_above_live [OF assms(2,1)] by simp
  with assms(1) show ?thesis by (simp add: new_Invoker_def delete_Invoker_def invoker_def machine)
qed

theorem command_constructor_double_delete_witness:
  "seq (new_Invoker (Some 0)) delete_Invoker (boot\<lparr>cells := [0 \<mapsto> SimpleConcreteCommand], brk := 1\<rparr>)
     = Undef (DoubleFree 0)"
  using command_constructor_double_delete [of "boot\<lparr>cells := [0 \<mapsto> SimpleConcreteCommand], brk := 1\<rparr>" 0]
  by (simp add: fresh_above_def)

text \<open>The demonstration deletes the receiver only: the invoker and its two commands are leaked.\<close>

lemma command_run_leaks:
  "\<exists>t. command_run boot = Done () t \<and> live_addrs t = [1, 2, 3]
    \<and> cells t 1 = Some (Invoker (Some 2) (Some 3))"
  by (simp add: command_run_def command_defs machine incr32_def to_int32_def int32_def live_addrs_def upt_conv_Cons)

end
