(* ===== verification/ChainOfCommand.thy ===== *)
theory ChainOfCommand
  imports Prelude
begin

text \<open>
  \<open>src/dp/behavioral/ChainOfCommand.cpp\<close>: handlers linked by raw next pointers; a request
  travels along the links until a handler's keyword is a prefix of it.  Following the links may
  not end, so \<open>handle\<close> is a partial function whose value \<open>None\<close> is a run that never returns.

  Lemmas: on a chain that ends, the first matching handler and nobody else handles the request;
  on a cycle without a match the call never returns; the demonstration's output.
\<close>

datatype kind = GET | PUT | POST

text \<open>A handler object: its class and \<open>setNext_\<close>.\<close>

datatype obj = Handler kind ptr

fun kHeader :: "kind \<Rightarrow> string" where
  "kHeader GET = ''GET''"
| "kHeader PUT = ''PUT''"
| "kHeader POST = ''POST''"

definition setNextHandler :: "ptr \<Rightarrow> ptr \<Rightarrow> (obj world, unit) prog" where
  "setNextHandler this handler = seq (load this) (\<lambda>x. case x of Handler k _ \<Rightarrow> store this (Handler k handler))"

definition setNext :: "ptr \<Rightarrow> ptr \<Rightarrow> (obj world, ptr) prog" where
  "setNext this handler = seq (load this) (\<lambda>x. case x of Handler k _ \<Rightarrow>
     seq (store this (Handler k handler)) (\<lambda>_. ret handler))"

text \<open>
  \<open>handle\<close> of the three concrete handlers (they differ in the keyword only), with the fallback
  \<open>AbstractHandler::handle\<close> inlined.
\<close>

partial_function (option) handle :: "ptr \<Rightarrow> string \<Rightarrow> obj world \<Rightarrow> (obj world, unit) result option" where
  "handle this request s =
     (case this of None \<Rightarrow> Some (Undef NullDeref)
      | Some a \<Rightarrow> (case cells s a of None \<Rightarrow> Some (Undef (Dangling a))
          | Some (Handler k nxt) \<Rightarrow>
              if prefix (kHeader k) request
              then Some (LOG (tab @ ''Handle '' @ kHeader k @ '' request: '' @ request) s)
              else if nxt \<noteq> None then handle nxt request s
              else Some (LOG (tab @ ''No handler processed request: '' @ request) s)))"

definition co_r_run :: "(obj world, unit) oprog" where
  "co_r_run =
     oseq (terminating (alloc (Handler POST None))) (\<lambda>post_handler.
     oseq (terminating (alloc (Handler GET None))) (\<lambda>gett_handler.
     oseq (terminating (alloc (Handler PUT None))) (\<lambda>putt_handler.
     oseq (terminating (setNext post_handler gett_handler)) (\<lambda>h.
     oseq (terminating (setNext h putt_handler)) (\<lambda>_.
     oblock [
       terminating (LOG ''Send dummy request''),
       handle post_handler ''DUMMY ..'',
       terminating (LOG ''Send POST request''),
       handle post_handler ''POST /test/demo_form.php HTTP/1.1 ..'',
       terminating (LOG ''Send GET request''),
       handle post_handler ''GET /users/123 ..'',
       terminating (free post_handler), terminating (free gett_handler), terminating (free putt_handler)])))))"

section \<open>Chains and cycles\<close>

text \<open>The handlers from \<open>p\<close> on, in order, up to one without a successor.\<close>

fun linked :: "obj world \<Rightarrow> ptr \<Rightarrow> kind list \<Rightarrow> bool" where
  "linked s p [] \<longleftrightarrow> False"
| "linked s p [k] \<longleftrightarrow> (\<exists>a. p = Some a \<and> cells s a = Some (Handler k None))"
| "linked s p (k # ks) \<longleftrightarrow>
     (\<exists>a b. p = Some a \<and> cells s a = Some (Handler k (Some b)) \<and> linked s (Some b) ks)"

definition outcome :: "kind list \<Rightarrow> string \<Rightarrow> string" where
  "outcome ks request = (case find (\<lambda>k. prefix (kHeader k) request) ks of
      Some k \<Rightarrow> tab @ ''Handle '' @ kHeader k @ '' request: '' @ request
    | None \<Rightarrow> tab @ ''No handler processed request: '' @ request)"

lemma handle_step:
  "cells s a = Some (Handler k nxt) \<Longrightarrow> handle (Some a) request s =
     (if prefix (kHeader k) request
      then Some (LOG (tab @ ''Handle '' @ kHeader k @ '' request: '' @ request) s)
      else if nxt \<noteq> None then handle nxt request s
      else Some (LOG (tab @ ''No handler processed request: '' @ request) s))"
  by (subst handle.simps) simp

lemma linked_handle:
  "linked s p ks \<Longrightarrow> handle p request s = Some (LOG (outcome ks request) s)"
proof (induction s p ks rule: linked.induct)
  case (1 s p)
  then show ?case by simp
next
  case (2 s p k)
  then show ?case by (auto simp: handle_step outcome_def)
next
  case (3 s p k k' ks)
  then obtain a b where "p = Some a" "cells s a = Some (Handler k (Some b))" "linked s (Some b) (k' # ks)"
    by auto
  with 3 show ?case by (simp add: handle_step outcome_def)
qed

text \<open>A set of handlers that is closed under the next pointer and never matches.\<close>

definition unmatched_cycle :: "obj world \<Rightarrow> nat set \<Rightarrow> string \<Rightarrow> bool" where
  "unmatched_cycle s A request \<longleftrightarrow> (\<forall>a \<in> A. \<exists>k b. cells s a = Some (Handler k (Some b)) \<and> b \<in> A
     \<and> \<not> prefix (kHeader k) request)"

lemma cycle_no_result:
  assumes "handle p request s = Some r"
  shows "\<not> (\<exists>a \<in> A. p = Some a \<and> unmatched_cycle s A request)"
proof (rule handle.raw_induct [where P = "\<lambda>p request s r. \<not> (\<exists>a \<in> A. p = Some a \<and> unmatched_cycle s A request)", OF _ assms])
  fix h :: "ptr \<Rightarrow> string \<Rightarrow> obj world \<Rightarrow> (obj world, unit) result option"
    and this :: ptr and request :: string and s :: "obj world" and r :: "(obj world, unit) result"
  assume IH: "\<And>this request s r. h this request s = Some r \<Longrightarrow> \<not> (\<exists>a \<in> A. this = Some a \<and> unmatched_cycle s A request)"
  assume eq: "(case this of None \<Rightarrow> Some (Undef NullDeref)
      | Some a \<Rightarrow> (case cells s a of None \<Rightarrow> Some (Undef (Dangling a))
          | Some (Handler k nxt) \<Rightarrow>
              if prefix (kHeader k) request
              then Some (LOG (tab @ ''Handle '' @ kHeader k @ '' request: '' @ request) s)
              else if nxt \<noteq> None then h nxt request s
              else Some (LOG (tab @ ''No handler processed request: '' @ request) s))) = Some r"
  show "\<not> (\<exists>a \<in> A. this = Some a \<and> unmatched_cycle s A request)"
  proof
    assume "\<exists>a \<in> A. this = Some a \<and> unmatched_cycle s A request"
    then obtain a where a: "a \<in> A" "this = Some a" "unmatched_cycle s A request" by blast
    then obtain k b where "cells s a = Some (Handler k (Some b))" "b \<in> A" "\<not> prefix (kHeader k) request"
      unfolding unmatched_cycle_def by blast
    with eq a have "h (Some b) request s = Some r" by simp
    from IH [OF this] show False using a \<open>b \<in> A\<close> by blast
  qed
qed

section \<open>Properties\<close>

text \<open>
  C34.  On a chain that ends, a request is handled exactly once: by the first handler, in the order
  of the links, whose keyword the request starts with; if none matches, the last handler reports
  that.  The call always returns and changes nothing but the console.
\<close>

theorem cor_first_match_handles:
  assumes "linked s p ks"
  shows "handle p request s = Some (Done () (says s [Log (outcome ks request)]))"
  using linked_handle [OF assms] by (simp add: machine)

theorem cor_first_match_handles_witness:
  "handle (Some 0) ''GET /'' (boot\<lparr>cells := [0 \<mapsto> Handler POST (Some 1), 1 \<mapsto> Handler GET (Some 2), 2 \<mapsto> Handler PUT None]\<rparr>)
    = Some (Done () (says (boot\<lparr>cells := [0 \<mapsto> Handler POST (Some 1), 1 \<mapsto> Handler GET (Some 2), 2 \<mapsto> Handler PUT None]\<rparr>)
        [Log (tab @ ''Handle GET request: GET /'')]))"
  using cor_first_match_handles [of "boot\<lparr>cells := [0 \<mapsto> Handler POST (Some 1), 1 \<mapsto> Handler GET (Some 2), 2 \<mapsto> Handler PUT None]\<rparr>"
      "Some 0" "[POST, GET, PUT]" "''GET /''"]
  by (simp add: outcome_def)

text \<open>
  Handlers linked into a cycle in which no keyword matches never return: nothing in the
  pattern's operations prevents such a cycle.
\<close>

theorem cor_cycle_diverges:
  assumes "unmatched_cycle s A request" "a \<in> A"
  shows "handle (Some a) request s = None"
  using cycle_no_result [of "Some a" request s _ A] assms by (cases "handle (Some a) request s") auto

theorem cor_cycle_diverges_witness:
  "handle (Some 0) ''DELETE'' (boot\<lparr>cells := [0 \<mapsto> Handler POST (Some 1), 1 \<mapsto> Handler GET (Some 0)]\<rparr>) = None"
  using cor_cycle_diverges [of "boot\<lparr>cells := [0 \<mapsto> Handler POST (Some 1), 1 \<mapsto> Handler GET (Some 0)]\<rparr>" "{0, 1}" "''DELETE''" 0]
  by (simp add: unmatched_cycle_def)

lemma cor_run_trace:
  "\<exists>t. co_r_run boot = Some (Done () t) \<and> live_addrs t = [] \<and> out t = map Log [
     ''Send dummy request'', tab @ ''No handler processed request: DUMMY ..'',
     ''Send POST request'', tab @ ''Handle POST request: POST /test/demo_form.php HTTP/1.1 ..'',
     ''Send GET request'', tab @ ''Handle GET request: GET /users/123 ..'']"
  by (simp add: co_r_run_def setNext_def machine handle_step live_addrs_def upt_conv_Cons)

end
