(* ===== verification/StatePattern.thy ===== *)
theory StatePattern
  imports Prelude
begin

text \<open>
  \<open>src/dp/behavioral/State.cpp\<close>: a device holds a state object; each state handles the request
  and replaces itself in the device.  The processing state alternates between failure and
  success with a function-local static counter, which is a field of the extended world here.

  Lemmas: what one operation does in each state; the state after any number of operations; the
  device always owns exactly one state object; the demonstration ends with nothing leaked.
\<close>

datatype kind = IdeConcreteState | ProcessingConcreteState | ErrorConcreteState

text \<open>A state object with its context pointer \<open>ctx_\<close>, and a device with its \<open>state_\<close>.\<close>

datatype obj = State kind ptr | DeviceContext ptr

text \<open>The world with \<open>static int index\<close> of \<open>ProcessingConcreteState::handle\<close>.\<close>

record device_world = "obj world" +
  index :: int

definition power_on :: device_world where
  "power_on = \<lparr>cells = (\<lambda>_. None), brk = 0, out = [], index = 0\<rparr>"

type_synonym 'a dprog = "(device_world, 'a) prog"

section \<open>States and device\<close>

definition setContext :: "ptr \<Rightarrow> ptr \<Rightarrow> unit dprog" where
  "setContext this ctx = seq (load this) (\<lambda>x. case x of
      State k _ \<Rightarrow> store this (State k ctx)
    | DeviceContext _ \<Rightarrow> undef WrongType)"

definition device_state :: "ptr \<Rightarrow> ptr dprog" where
  "device_state this = seq (load this) (\<lambda>x. case x of
      DeviceContext p \<Rightarrow> ret p
    | State _ _ \<Rightarrow> undef WrongType)"

definition changeState :: "ptr \<Rightarrow> ptr \<Rightarrow> unit dprog" where
  "changeState this state =
     seq (cout (''[DeviceContext]: Changing state'' @ endl)) (\<lambda>_.
     seq (device_state this) (\<lambda>old.
     seq (free old) (\<lambda>_.
     seq (store this (DeviceContext state)) (\<lambda>_.
     setContext state this))))"

definition new_state :: "kind \<Rightarrow> ptr dprog" where
  "new_state k = alloc (State k None)"

definition new_DeviceContext :: "ptr \<Rightarrow> ptr dprog" where
  "new_DeviceContext state = seq (alloc (DeviceContext None)) (\<lambda>this.
     seq (changeState this state) (\<lambda>_. ret this))"

definition delete_DeviceContext :: "ptr \<Rightarrow> unit dprog" where
  "delete_DeviceContext this = seq (device_state this) (\<lambda>p. seq (free p) (\<lambda>_. free this))"

text \<open>\<open>index++\<close> on the static counter.\<close>

definition bump_index :: "int dprog" where
  "bump_index s = seq (incr32 (index s)) (\<lambda>i s. Done i (s\<lparr>index := i\<rparr>)) s"

definition Error_handle :: "ptr \<Rightarrow> unit dprog" where
  "Error_handle ctx =
     seq (cout (''[Error] Device error! Reset required.'' @ endl)) (\<lambda>_.
     seq (new_state IdeConcreteState) (changeState ctx))"

definition Ide_handle :: "ptr \<Rightarrow> unit dprog" where
  "Ide_handle ctx =
     seq (cout (''[Ide] Device is idle. Waiting...'' @ endl)) (\<lambda>_.
     seq (new_state ProcessingConcreteState) (changeState ctx))"

definition Processing_handle :: "ptr \<Rightarrow> unit dprog" where
  "Processing_handle ctx =
     seq (cout (''[Processing] Processing data...'' @ endl)) (\<lambda>_.
     seq bump_index (\<lambda>i.
     if i mod 2 = 0 then seq (new_state IdeConcreteState) (changeState ctx)
     else seq (new_state ErrorConcreteState) (changeState ctx)))"

definition handle :: "ptr \<Rightarrow> unit dprog" where
  "handle this = seq (load this) (\<lambda>x. case x of
      State IdeConcreteState ctx \<Rightarrow> Ide_handle ctx
    | State ProcessingConcreteState ctx \<Rightarrow> Processing_handle ctx
    | State ErrorConcreteState ctx \<Rightarrow> Error_handle ctx
    | DeviceContext _ \<Rightarrow> undef WrongType)"

definition operation :: "ptr \<Rightarrow> unit dprog" where
  "operation this = seq (device_state this) handle"

definition state_run :: "unit dprog" where
  "state_run = seq (new_state IdeConcreteState) (\<lambda>st.
     seq (new_DeviceContext st) (\<lambda>device.
     seq (repeat 10 (operation device)) (\<lambda>_.
     delete_DeviceContext device)))"

lemmas state_defs [defs] = setContext_def device_state_def changeState_def new_state_def
  new_DeviceContext_def delete_DeviceContext_def bump_index_def Error_handle_def Ide_handle_def
  Processing_handle_def handle_def operation_def

section \<open>The abstract machine\<close>

text \<open>The device as a two-component machine: the current state and the counter.\<close>

fun next_state :: "kind \<times> int \<Rightarrow> kind \<times> int" where
  "next_state (IdeConcreteState, i) = (ProcessingConcreteState, i)"
| "next_state (ProcessingConcreteState, i) =
     (if (i + 1) mod 2 = 0 then IdeConcreteState else ErrorConcreteState, i + 1)"
| "next_state (ErrorConcreteState, i) = (IdeConcreteState, i)"

fun state_line :: "kind \<Rightarrow> string" where
  "state_line IdeConcreteState = ''[Ide] Device is idle. Waiting...''"
| "state_line ProcessingConcreteState = ''[Processing] Processing data...''"
| "state_line ErrorConcreteState = ''[Error] Device error! Reset required.''"

definition handled :: "kind \<Rightarrow> line list" where
  "handled k = [Cout (state_line k @ endl), Cout (''[DeviceContext]: Changing state'' @ endl)]"

text \<open>The states reached after \<open>n\<close> operations on a fresh device.\<close>

definition nth_state :: "nat \<Rightarrow> kind \<times> int" where
  "nth_state n = (next_state ^^ n) (IdeConcreteState, 0)"

text \<open>
  The device \<open>d\<close> and its one state object, whose context is the device, are the only live objects.
\<close>

definition running :: "device_world \<Rightarrow> nat \<Rightarrow> kind \<times> int \<Rightarrow> bool" where
  "running s d ki \<longleftrightarrow> (\<exists>a. a \<noteq> d \<and> a < brk s \<and> d < brk s
     \<and> cells s = [a \<mapsto> State (fst ki) (Some d), d \<mapsto> DeviceContext (Some a)] \<and> index s = snd ki)"

lemma index_says [simp]:
  "index (says s ls) = index s"
  "index s = i \<Longrightarrow> says s ls\<lparr>index := i\<rparr> = says s ls"
  by (simp_all add: says_def)

lemma running_says [simp]: "running (says s ls) = running s"
  by (simp add: running_def fun_eq_iff)


text \<open>Replacing the state object deletes the old one and leaves the new one in charge.\<close>

lemma running_change:
  assumes "running s d ki"
  shows "\<exists>t. seq (new_state k) (changeState (Some d)) s = Done () t
    \<and> out t = out s @ [Cout (''[DeviceContext]: Changing state'' @ endl)] \<and> running t d (k, snd ki)"
proof -
  obtain a where a: "a \<noteq> d" "a < brk s" "d < brk s"
    "cells s = [a \<mapsto> State (fst ki) (Some d), d \<mapsto> DeviceContext (Some a)]" "index s = snd ki"
    using assms by (auto simp: running_def)
  then show ?thesis
    by (auto simp: state_defs machine running_def says_def intro!: exI [of _ "brk s"] fun_upd_twist)
qed

lemma running_operation:
  assumes "running s d (k, i)" "0 \<le> i" "i < 2 ^ 31 - 1"
  shows "\<exists>t. operation (Some d) s = Done () t \<and> out t = out s @ handled k
    \<and> running t d (next_state (k, i))"
proof -
  let ?s = "says s [Cout (state_line k @ endl)]"
  let ?u = "?s\<lparr>index := if k = ProcessingConcreteState then i + 1 else i\<rparr>"
  let ?k = "fst (next_state (k, i))"
  obtain a where a: "cells s d = Some (DeviceContext (Some a))" "cells s a = Some (State k (Some d))"
    "a \<noteq> d" "index s = i"
    using assms(1) by (auto simp: running_def)
  have i: "incr32 i = ret (i + 1)" using assms(2,3) by (intro incr32_ok) auto
  have "running ?u d (k, snd (next_state (k, i)))"
    using assms(1) by (cases k) (auto simp: running_def says_def)
  from running_change [OF this, of ?k] have
    "\<exists>t. seq (new_state ?k) (changeState (Some d)) ?u = Done () t
       \<and> out t = out s @ handled k \<and> running t d (next_state (k, i))"
    by (simp add: handled_def)
  moreover have "operation (Some d) s = seq (new_state ?k) (changeState (Some d)) ?u"
    using a by (cases k) (simp_all add: operation_def device_state_def handle_def Ide_handle_def
        Processing_handle_def Error_handle_def bump_index_def i emit_def cout_def load_def seq_def ret_def)
  ultimately show ?thesis by simp
qed

section \<open>Any number of operations\<close>

lemma next_state_bound: "0 \<le> snd ki \<Longrightarrow> snd ki \<le> snd (next_state ki) \<and> snd (next_state ki) \<le> snd ki + 1"
  by (cases ki rule: next_state.cases) auto

lemma nth_state_bound: "0 \<le> snd (nth_state n) \<and> snd (nth_state n) \<le> int n"
proof (induction n)
  case 0
  then show ?case by (simp add: nth_state_def)
next
  case (Suc n)
  then show ?case using next_state_bound [of "nth_state n"] by (simp add: nth_state_def)
qed

lemma nth_state_Suc: "nth_state (Suc n) = next_state (nth_state n)"
  by (simp add: nth_state_def)

text \<open>The machine has period five: two processing runs, one failed and one successful.\<close>

lemma nth_state_period:
  "nth_state (5 * n) = (IdeConcreteState, 2 * int n)"
  "nth_state (5 * n + 1) = (ProcessingConcreteState, 2 * int n)"
  "nth_state (5 * n + 2) = (ErrorConcreteState, 2 * int n + 1)"
  "nth_state (5 * n + 3) = (IdeConcreteState, 2 * int n + 1)"
  "nth_state (5 * n + 4) = (ProcessingConcreteState, 2 * int n + 1)"
proof -
  have step: "nth_state (m + 5) = (IdeConcreteState, 2 * int (Suc n))"
    if "nth_state m = (IdeConcreteState, 2 * int n)" for m n
    using that by (simp add: nth_state_Suc numeral_eq_Suc)
  have zero: "nth_state (5 * n) = (IdeConcreteState, 2 * int n)" for n
  proof (induction n)
    case 0
    then show ?case by (simp add: nth_state_def)
  next
    case (Suc n)
    from step [OF this] show ?case by (simp add: add.commute)
  qed
  then show "nth_state (5 * n) = (IdeConcreteState, 2 * int n)" .
  show "nth_state (5 * n + 1) = (ProcessingConcreteState, 2 * int n)"
    "nth_state (5 * n + 2) = (ErrorConcreteState, 2 * int n + 1)"
    "nth_state (5 * n + 3) = (IdeConcreteState, 2 * int n + 1)"
    "nth_state (5 * n + 4) = (ProcessingConcreteState, 2 * int n + 1)"
    using zero [of n] by (simp_all add: nth_state_Suc numeral_eq_Suc)
qed

definition after :: "nat \<Rightarrow> kind" where
  "after n = [IdeConcreteState, ProcessingConcreteState, ErrorConcreteState, IdeConcreteState,
     ProcessingConcreteState] ! (n mod 5)"

lemma nth_state_after: "fst (nth_state n) = after n"
proof -
  have "fst (nth_state (5 * q + r)) = [IdeConcreteState, ProcessingConcreteState, ErrorConcreteState,
     IdeConcreteState, ProcessingConcreteState] ! r" if "r < 5" for q r
  proof -
    have "r = 0 \<or> r = 1 \<or> r = 2 \<or> r = 3 \<or> r = 4" using that by arith
    then show ?thesis using nth_state_period [of q] by auto
  qed
  from this [of "n mod 5" "n div 5"] show ?thesis by (simp add: after_def)
qed

lemma device_runs:
  assumes "running s d (nth_state m)" "m + n < 2 ^ 31"
  shows "\<exists>t. repeat n (operation (Some d)) s = Done () t \<and> running t d (nth_state (m + n))
    \<and> out t = out s @ concat (map (\<lambda>j. handled (after j)) [m ..< m + n])"
  using assms
proof (induction n arbitrary: s m)
  case 0
  then show ?case by (simp add: ret_def)
next
  case (Suc n)
  obtain k i where ki: "nth_state m = (k, i)" by (cases "nth_state m")
  have "0 \<le> i" "i < 2 ^ 31 - 1" using nth_state_bound [of m] ki Suc.prems(2) by auto
  with running_operation [of s d k i] Suc.prems(1) ki obtain u where u:
    "operation (Some d) s = Done () u" "out u = out s @ handled k" "running u d (nth_state (Suc m))"
    by (auto simp: nth_state_Suc)
  from Suc.IH [OF u(3)] Suc.prems(2) obtain t where t:
    "repeat n (operation (Some d)) u = Done () t" "running t d (nth_state (Suc m + n))"
    "out t = out u @ concat (map (\<lambda>j. handled (after j)) [Suc m ..< Suc m + n])"
    by auto
  have "k = after m" using nth_state_after [of m] ki by simp
  then have "out t = out s @ concat (map (\<lambda>j. handled (after j)) [m ..< m + Suc n])"
    using t(3) u(2) by (simp add: upt_conv_Cons del: upt_Suc)
  then show ?case using t(1,2) u(1) by (simp add: seq_def)
qed

section \<open>Properties\<close>

text \<open>
  A fresh device after any number of operations below \<open>2 ^ 31\<close>: the operations all return,
  the device is in the state given by the count modulo five (idle, processing, error, idle,
  processing), the console shows each operation's state in that order, and the device and its
  current state object are the only live objects, so every replaced state was deleted once.
\<close>

theorem state_machine_cycle:
  assumes "n < 2 ^ 31"
  shows "\<exists>t d a. seq (new_state IdeConcreteState) new_DeviceContext power_on = Done (Some d) t
    \<and> (\<exists>u. repeat n (operation (Some d)) t = Done () u
        \<and> cells u = [a \<mapsto> State (after n) (Some d), d \<mapsto> DeviceContext (Some a)] \<and> a \<noteq> d
        \<and> out u = out t @ concat (map (\<lambda>j. handled (after j)) [0 ..< n]))"
proof -
  have "\<exists>t. seq (new_state IdeConcreteState) new_DeviceContext power_on = Done (Some 1) t
      \<and> running t 1 (nth_state 0)"
    by (simp add: state_defs machine power_on_def running_def says_def nth_state_def)
      (intro exI [of _ 0], simp add: fun_upd_twist)
  then obtain t where t: "seq (new_state IdeConcreteState) new_DeviceContext power_on = Done (Some 1) t"
    "running t 1 (nth_state 0)" by blast
  from device_runs [OF t(2), of n] assms obtain u where u:
    "repeat n (operation (Some 1)) t = Done () u" "running u 1 (nth_state n)"
    "out u = out t @ concat (map (\<lambda>j. handled (after j)) [0 ..< n])"
    by auto
  from u(2) obtain a where "a \<noteq> 1" "cells u = [a \<mapsto> State (after n) (Some 1), 1 \<mapsto> DeviceContext (Some a)]"
    by (auto simp: running_def nth_state_after)
  with t(1) u show ?thesis by blast
qed

theorem state_machine_cycle_witness:
  "\<exists>t d a. seq (new_state IdeConcreteState) new_DeviceContext power_on = Done (Some d) t
    \<and> (\<exists>u. repeat 7 (operation (Some d)) t = Done () u
        \<and> cells u = [a \<mapsto> State ErrorConcreteState (Some d), d \<mapsto> DeviceContext (Some a)] \<and> a \<noteq> d
        \<and> out u = out t @ concat (map (\<lambda>j. handled (after j)) [0 ..< 7]))"
  using state_machine_cycle [of 7] by (simp add: after_def)

text \<open>The demonstration: ten operations, then the device is deleted with its state.\<close>

lemma state_run_no_leak:
  "\<exists>t. state_run power_on = Done () t \<and> cells t = Map.empty"
proof -
  obtain t d a u where t: "seq (new_state IdeConcreteState) new_DeviceContext power_on = Done (Some d) t"
    "repeat 10 (operation (Some d)) t = Done () u"
    "cells u = [a \<mapsto> State (after 10) (Some d), d \<mapsto> DeviceContext (Some a)]" "a \<noteq> d"
    using state_machine_cycle [of 10] by auto
  then have "delete_DeviceContext (Some d) u = Done () (u\<lparr>cells := Map.empty\<rparr>)"
    by (simp add: delete_DeviceContext_def device_state_def machine)
  moreover have "state_run power_on = seq (seq (new_state IdeConcreteState) new_DeviceContext) (\<lambda>device.
     seq (repeat 10 (operation device)) (\<lambda>_. delete_DeviceContext device)) power_on"
    by (simp add: state_run_def seq_assoc)
  ultimately show ?thesis using t(1,2) by (simp add: seq_def [of "seq _ _"] seq_def [of "repeat _ _"])
qed

end
