(* ===== verification/Strategy.thy ===== *)
theory Strategy
  imports Prelude
begin

text \<open>
  \<open>src/dp/behavioral/Strategy.cpp\<close>: a context exports its content through a strategy object it
  owns; setting a strategy deletes the one before.

  Lemmas: what a context exports with each strategy and without one; after any sequence of
  settings only the last strategy is live; setting the current strategy again leaves the context
  with a dangling pointer.
\<close>

datatype kind = JsonExportStrategy | HtmlExportStrategy

datatype obj = ExportStrategy kind | ExportContext string ptr

section \<open>Strategies\<close>

fun executeExportData :: "kind \<Rightarrow> string \<Rightarrow> string" where
  "executeExportData JsonExportStrategy content = ''{'' @ dq @ ''content'' @ dq @ '': '' @ dq @ content @ dq @ '' }''"
| "executeExportData HtmlExportStrategy content = ''<p>'' @ content @ ''</p>''"

section \<open>The context\<close>

definition new_ExportContext :: "string \<Rightarrow> ptr \<Rightarrow> (obj world, ptr) prog" where
  "new_ExportContext content strategy = alloc (ExportContext content strategy)"

definition context_fields :: "ptr \<Rightarrow> (obj world, string \<times> ptr) prog" where
  "context_fields this = seq (load this) (\<lambda>x. case x of
      ExportContext c p \<Rightarrow> ret (c, p)
    | ExportStrategy _ \<Rightarrow> undef WrongType)"

definition delete_ExportContext :: "ptr \<Rightarrow> (obj world, unit) prog" where
  "delete_ExportContext this = seq (context_fields this) (\<lambda>(_, p). seq (free p) (\<lambda>_. free this))"

definition setExportStrategy :: "ptr \<Rightarrow> ptr \<Rightarrow> (obj world, unit) prog" where
  "setExportStrategy this strategy = seq (context_fields this) (\<lambda>(c, p).
     seq (free p) (\<lambda>_. store this (ExportContext c strategy)))"

definition exportDocument :: "ptr \<Rightarrow> (obj world, string) prog" where
  "exportDocument this = seq (context_fields this) (\<lambda>(c, p).
     if p \<noteq> None then seq (load p) (\<lambda>x. case x of
         ExportStrategy k \<Rightarrow> ret (executeExportData k c)
       | ExportContext _ _ \<Rightarrow> undef WrongType)
     else seq (LOG ''Strategy isn't set'') (\<lambda>_. ret ''''))"

definition client_code :: "ptr \<Rightarrow> (obj world, unit) prog" where
  "client_code ctx = seq (exportDocument ctx) LOG"

definition strategy_run :: "(obj world, unit) prog" where
  "strategy_run =
     seq (new_ExportContext ''This is the report content.'' None) (\<lambda>ctx. block [
       client_code ctx,
       LOG ''===HTML Export==='',
       seq (alloc (ExportStrategy HtmlExportStrategy)) (setExportStrategy ctx),
       client_code ctx,
       LOG ''===JSON Export==='',
       seq (alloc (ExportStrategy JsonExportStrategy)) (setExportStrategy ctx),
       client_code ctx,
       delete_ExportContext ctx])"

lemmas strategy_defs [defs] = new_ExportContext_def context_fields_def delete_ExportContext_def
  setExportStrategy_def exportDocument_def client_code_def

section \<open>Sessions\<close>

text \<open>A client that sets a new strategy object of each kind in turn and exports after each.\<close>

definition switch :: "ptr \<Rightarrow> kind \<Rightarrow> (obj world, unit) prog" where
  "switch ctx k = seq (seq (alloc (ExportStrategy k)) (setExportStrategy ctx)) (\<lambda>_. client_code ctx)"

text \<open>The context at \<open>c\<close> owns its strategy; \<open>rest\<close> is the store without that strategy.\<close>

definition owning :: "obj world \<Rightarrow> nat \<Rightarrow> string \<Rightarrow> (nat \<Rightarrow> obj option) \<Rightarrow> kind option \<Rightarrow> bool" where
  "owning s c content rest k \<longleftrightarrow> c < brk s \<and> (\<forall>a \<ge> brk s. rest a = None) \<and>
     (case k of None \<Rightarrow> cells s = rest(c \<mapsto> ExportContext content None)
      | Some k' \<Rightarrow> \<exists>a. a \<noteq> c \<and> a < brk s \<and> rest a = None
           \<and> cells s = rest(c \<mapsto> ExportContext content (Some a), a \<mapsto> ExportStrategy k'))"

lemma owning_switch:
  assumes "owning s c content rest k"
  shows "\<exists>t. switch (Some c) k' s = Done () t \<and> owning t c content rest (Some k')
    \<and> out t = out s @ [Log (executeExportData k' content)]"
proof (cases k)
  case None
  with assms show ?thesis
    by (auto simp: owning_def switch_def strategy_defs machine fun_eq_iff intro!: exI [of _ "brk s"])
next
  case (Some k'')
  then obtain a where a: "a \<noteq> c" "a < brk s" "rest a = None" "c < brk s" "\<forall>a \<ge> brk s. rest a = None"
    "cells s = rest(c \<mapsto> ExportContext content (Some a), a \<mapsto> ExportStrategy k'')"
    using assms by (auto simp: owning_def)
  then show ?thesis
    by (auto simp: owning_def switch_def strategy_defs machine fun_eq_iff intro!: exI [of _ "brk s"])
qed

lemma owning_switches:
  assumes "owning s c content rest k"
  shows "\<exists>t. block (map (switch (Some c)) ks) s = Done () t
    \<and> owning t c content rest (if ks = [] then k else Some (last ks))
    \<and> out t = out s @ map (\<lambda>k. Log (executeExportData k content)) ks"
  using assms
proof (induction ks arbitrary: s k)
  case Nil
  then show ?case by (simp add: machine)
next
  case (Cons k' ks)
  from owning_switch [OF Cons.prems, of k'] obtain u where u: "switch (Some c) k' s = Done () u"
    "owning u c content rest (Some k')" "out u = out s @ [Log (executeExportData k' content)]" by blast
  from Cons.IH [OF u(2)] u(1,3) show ?case by (auto simp: seq_def)
qed

section \<open>Properties\<close>

text \<open>
  A context without a strategy, and a client that sets any sequence of new strategies,
  exporting after each: every export is the rendering by the strategy set last, the calls all
  return, and afterwards the context and the last strategy are the only objects added to the
  store: each replaced strategy was deleted, once, and deleting the context then frees both.
\<close>

theorem strategy_session:
  assumes "cells s c = Some (ExportContext content None)" "fresh_above s" "ks \<noteq> []"
  shows "\<exists>t a. block (map (switch (Some c)) ks) s = Done () t
    \<and> out t = out s @ map (\<lambda>k. Log (executeExportData k content)) ks
    \<and> cells t = (cells s)(c \<mapsto> ExportContext content (Some a), a \<mapsto> ExportStrategy (last ks))
    \<and> cells s a = None
    \<and> (\<exists>u. delete_ExportContext (Some c) t = Done () u \<and> cells u = (cells s)(c := None))"
proof -
  let ?rest = "(cells s)(c := None)"
  have c: "c < brk s" using fresh_above_live [OF assms(2,1)] .
  have "?rest(c \<mapsto> ExportContext content None) = cells s" using assms(1) by auto
  with assms(2) c have "owning s c content ?rest None" by (auto simp: owning_def fresh_above_def)
  from owning_switches [OF this, of ks] assms(3) obtain t a where t:
    "block (map (switch (Some c)) ks) s = Done () t" "a \<noteq> c" "?rest a = None"
    "cells t = ?rest(c \<mapsto> ExportContext content (Some a), a \<mapsto> ExportStrategy (last ks))"
    "out t = out s @ map (\<lambda>k. Log (executeExportData k content)) ks"
    by (auto simp: owning_def)
  then have "\<exists>u. delete_ExportContext (Some c) t = Done () u \<and> cells u = (cells s)(c := None)"
    by (auto simp: delete_ExportContext_def context_fields_def machine)
  with t show ?thesis by auto
qed

theorem strategy_session_witness:
  "\<exists>t a. block (map (switch (Some 0)) [HtmlExportStrategy, JsonExportStrategy])
      (boot\<lparr>cells := [0 \<mapsto> ExportContext ''x'' None], brk := 1\<rparr>) = Done () t
    \<and> out t = [Log ''<p>x</p>'', Log (''{'' @ dq @ ''content'' @ dq @ '': '' @ dq @ ''x'' @ dq @ '' }'')]
    \<and> cells t = [0 \<mapsto> ExportContext ''x'' (Some a), a \<mapsto> ExportStrategy JsonExportStrategy]
    \<and> a \<noteq> 0"
  using strategy_session [of "boot\<lparr>cells := [0 \<mapsto> ExportContext ''x'' None], brk := 1\<rparr>" 0 "''x''"
      "[HtmlExportStrategy, JsonExportStrategy]"]
  by (auto simp: fresh_above_def boot_def split: if_splits)

text \<open>
  Setting the strategy the context already holds deletes it and keeps the pointer: the next
  export reads a deleted object.
\<close>

theorem strategy_reset_dangling:
  assumes "cells s c = Some (ExportContext content (Some a))" "cells s a = Some (ExportStrategy k)"
  shows "seq (setExportStrategy (Some c) (Some a)) (\<lambda>_. exportDocument (Some c)) s = Undef (Dangling a)"
proof -
  have "a \<noteq> c" using assms by auto
  with assms show ?thesis by (simp add: setExportStrategy_def exportDocument_def context_fields_def machine)
qed

theorem strategy_reset_dangling_witness:
  "seq (setExportStrategy (Some 0) (Some 1)) (\<lambda>_. exportDocument (Some 0))
     (boot\<lparr>cells := [0 \<mapsto> ExportContext ''x'' (Some 1), 1 \<mapsto> ExportStrategy HtmlExportStrategy]\<rparr>)
     = Undef (Dangling 1)"
  using strategy_reset_dangling [of "boot\<lparr>cells := [0 \<mapsto> ExportContext ''x'' (Some 1),
      1 \<mapsto> ExportStrategy HtmlExportStrategy]\<rparr>" 0 "''x''" 1 HtmlExportStrategy]
  by simp

lemma strategy_run_trace:
  "\<exists>t. strategy_run boot = Done () t \<and> live_addrs t = []
    \<and> out t = map Log [''Strategy isn't set'', '''', ''===HTML Export==='',
        ''<p>This is the report content.</p>'', ''===JSON Export==='',
        ''{'' @ dq @ ''content'' @ dq @ '': '' @ dq @ ''This is the report content.'' @ dq @ '' }'']"
  by (simp add: strategy_run_def strategy_defs machine live_addrs_def upt_conv_Cons)

end
