(* ===== verification/TemplateMethod.thy ===== *)
theory TemplateMethod
  imports Prelude
begin

text \<open>
  \<open>src/dp/behavioral/TemplateMethod.cpp\<close>: the algorithm's skeleton is fixed in the base class,
  its steps are virtual.  A subclass is the table of its overrides; an object is its class and
  the private counter \<open>dummy_\<close>.

  Lemmas: the order of the steps and the counter for any subclass, for any number of calls.
\<close>

datatype cls = ConcreteClass1 | ConcreteClass2

datatype obj = Object cls int

text \<open>What a subclass overrides; the overrides are \<open>const\<close> member functions.\<close>

record vtable =
  hookOperation1 :: "ptr \<Rightarrow> (obj world, unit) prog"
  hookOperation2 :: "ptr \<Rightarrow> (obj world, unit) prog"
  abstractMethod1 :: "ptr \<Rightarrow> (obj world, unit) prog"
  abstractMethod2 :: "ptr \<Rightarrow> (obj world, unit) prog"

section \<open>The base class\<close>

definition default_hook :: "ptr \<Rightarrow> (obj world, unit) prog" where
  "default_hook this = ret ()"

definition bump_dummy :: "ptr \<Rightarrow> (obj world, unit) prog" where
  "bump_dummy this = seq (load this) (\<lambda>x. case x of Object k d \<Rightarrow>
     seq (incr32 d) (\<lambda>d'. store this (Object k d')))"

definition baseOperation1 :: "ptr \<Rightarrow> (obj world, unit) prog" where
  "baseOperation1 this =
     seq (cout (''[AbstractClass]'' @ tab @ '' Executed base operation - 1'' @ endl)) (\<lambda>_. bump_dummy this)"

definition baseOperation2 :: "ptr \<Rightarrow> (obj world, unit) prog" where
  "baseOperation2 this =
     seq (cout (''[AbstractClass]'' @ tab @ '' Executed base operation - 2'' @ endl)) (\<lambda>_. bump_dummy this)"

definition templateMethod :: "vtable \<Rightarrow> ptr \<Rightarrow> (obj world, unit) prog" where
  "templateMethod vt this = block [
     baseOperation1 this, abstractMethod1 vt this, hookOperation1 vt this,
     baseOperation2 this, abstractMethod2 vt this, hookOperation2 vt this]"

section \<open>The concrete classes\<close>

definition vtable1 :: vtable where
  "vtable1 = \<lparr>
     hookOperation1 = (\<lambda>_. cout (''[ConcreteClass1]'' @ tab @ '' Overridden Hook - 1'' @ endl)),
     hookOperation2 = default_hook,
     abstractMethod1 = (\<lambda>_. cout (''[ConcreteClass1]'' @ tab @ '' Implemented Operation - 2'' @ endl)),
     abstractMethod2 = (\<lambda>_. cout (''[ConcreteClass1]'' @ tab @ '' Implemented Operation - 2'' @ endl))\<rparr>"

definition vtable2 :: vtable where
  "vtable2 = \<lparr>
     hookOperation1 = default_hook,
     hookOperation2 = default_hook,
     abstractMethod1 = (\<lambda>_. cout (''[ConcreteClass2]'' @ tab @ '' Implemented Operation - 2'' @ endl)),
     abstractMethod2 = (\<lambda>_. cout (''[ConcreteClass2]'' @ tab @ '' Implemented Operation - 2'' @ endl))\<rparr>"

fun vtable_of :: "cls \<Rightarrow> vtable" where
  "vtable_of ConcreteClass1 = vtable1"
| "vtable_of ConcreteClass2 = vtable2"

text \<open>\<open>client::clientCode\<close>: the call is dispatched on the object's class.\<close>

definition clientCode :: "ptr \<Rightarrow> (obj world, unit) prog" where
  "clientCode this = seq (load this) (\<lambda>x. case x of Object k _ \<Rightarrow> templateMethod (vtable_of k) this)"

definition template_method_run :: "(obj world, unit) prog" where
  "template_method_run =
     seq (cout (tab @ ''[ConcreteClass1] Executed templateMethod'' @ endl)) (\<lambda>_.
     seq (alloc (Object ConcreteClass1 0)) (\<lambda>clazz1.
     seq (clientCode clazz1) (\<lambda>_.
     seq (cout (tab @ ''[ConcreteClass1] Executed templateMethod'' @ endl)) (\<lambda>_.
     seq (alloc (Object ConcreteClass2 0)) (\<lambda>clazz2.
     seq (clientCode clazz2) (\<lambda>_.
     seq (free clazz1) (\<lambda>_. free clazz2)))))))"

lemmas template_defs [defs] = default_hook_def bump_dummy_def baseOperation1_def baseOperation2_def
  templateMethod_def vtable1_def vtable2_def clientCode_def

section \<open>Subclasses that only print\<close>

text \<open>The lines a subclass prints in its four overridable steps.\<close>

record script =
  hook1 :: "line list"
  hook2 :: "line list"
  abstract1 :: "line list"
  abstract2 :: "line list"

definition prints :: "vtable \<Rightarrow> script \<Rightarrow> bool" where
  "prints vt sc \<longleftrightarrow> (\<forall>this s. hookOperation1 vt this s = Done () (says s (hook1 sc))
     \<and> hookOperation2 vt this s = Done () (says s (hook2 sc))
     \<and> abstractMethod1 vt this s = Done () (says s (abstract1 sc))
     \<and> abstractMethod2 vt this s = Done () (says s (abstract2 sc)))"

definition steps :: "script \<Rightarrow> line list" where
  "steps sc = Cout (''[AbstractClass]'' @ tab @ '' Executed base operation - 1'' @ endl) # abstract1 sc @ hook1 sc
     @ Cout (''[AbstractClass]'' @ tab @ '' Executed base operation - 2'' @ endl) # abstract2 sc @ hook2 sc"

lemma template_once:
  assumes "prints vt sc" "cells s a = Some (Object k d)" "0 \<le> d" "d + 2 < 2 ^ 31"
  shows "templateMethod vt (Some a) s
    = Done () (says s (steps sc)\<lparr>cells := (cells s)(a \<mapsto> Object k (d + 2))\<rparr>)"
  using assms by (simp add: prints_def templateMethod_def baseOperation1_def baseOperation2_def
      bump_dummy_def steps_def machine fun_upd_def add.commute cong: if_cong)

lemma prints_vtable_of:
  "\<exists>sc. prints (vtable_of k) sc"
proof (cases k)
  case ConcreteClass1
  then have "prints (vtable_of k) \<lparr>
    hook1 = [Cout (''[ConcreteClass1]'' @ tab @ '' Overridden Hook - 1'' @ endl)], hook2 = [],
    abstract1 = [Cout (''[ConcreteClass1]'' @ tab @ '' Implemented Operation - 2'' @ endl)],
    abstract2 = [Cout (''[ConcreteClass1]'' @ tab @ '' Implemented Operation - 2'' @ endl)]\<rparr>"
    by (simp add: prints_def vtable1_def default_hook_def machine)
  then show ?thesis ..
next
  case ConcreteClass2
  then have "prints (vtable_of k) \<lparr> hook1 = [], hook2 = [],
    abstract1 = [Cout (''[ConcreteClass2]'' @ tab @ '' Implemented Operation - 2'' @ endl)],
    abstract2 = [Cout (''[ConcreteClass2]'' @ tab @ '' Implemented Operation - 2'' @ endl)]\<rparr>"
    by (simp add: prints_def vtable2_def default_hook_def machine)
  then show ?thesis ..
qed

section \<open>Properties\<close>

text \<open>
  The skeleton is the same for every subclass: \<open>n\<close> calls run, \<open>n\<close> times, base step 1, the
  subclass's step 1, its hook 1, base step 2, its step 2, its hook 2, in this order, whatever the
  subclass prints in its steps; the base class counts two steps per call, as long as the counter
  fits in an \<open>int\<close>.
\<close>

theorem template_method_skeleton:
  assumes "prints vt sc" "cells s a = Some (Object k d)" "0 \<le> d" "d + 2 * int n < 2 ^ 31"
  shows "repeat n (templateMethod vt (Some a)) s
    = Done () (says s (concat (replicate n (steps sc)))\<lparr>cells := (cells s)(a \<mapsto> Object k (d + 2 * int n))\<rparr>)"
  using assms(2-4)
proof (induction n arbitrary: s d)
  case 0
  then have "(cells s)(a \<mapsto> Object k d) = cells s" by auto
  then show ?case by (simp add: ret_def)
next
  case (Suc n)
  let ?t = "says s (steps sc)\<lparr>cells := (cells s)(a \<mapsto> Object k (d + 2))\<rparr>"
  have "templateMethod vt (Some a) s = Done () ?t"
    using template_once [OF assms(1) Suc.prems(1,2)] Suc.prems(3) by simp
  moreover have "repeat n (templateMethod vt (Some a)) ?t = Done () (says ?t (concat (replicate n (steps sc)))
      \<lparr>cells := (cells ?t)(a \<mapsto> Object k (d + 2 + 2 * int n))\<rparr>)"
    by (rule Suc.IH) (use Suc.prems in simp_all)
  ultimately show ?case by (simp add: seq_def algebra_simps fun_upd_def cong: if_cong)
qed

theorem template_method_skeleton_witness:
  "repeat 2 (templateMethod vtable2 (Some 0)) (boot\<lparr>cells := [0 \<mapsto> Object ConcreteClass2 0]\<rparr>)
    = Done () (says boot (concat (replicate 2 (steps \<lparr>hook1 = [], hook2 = [],
        abstract1 = [Cout (''[ConcreteClass2]'' @ tab @ '' Implemented Operation - 2'' @ endl)],
        abstract2 = [Cout (''[ConcreteClass2]'' @ tab @ '' Implemented Operation - 2'' @ endl)]\<rparr>)))
      \<lparr>cells := [0 \<mapsto> Object ConcreteClass2 4]\<rparr>)"
  using template_method_skeleton [of vtable2 "\<lparr>hook1 = [], hook2 = [],
        abstract1 = [Cout (''[ConcreteClass2]'' @ tab @ '' Implemented Operation - 2'' @ endl)],
        abstract2 = [Cout (''[ConcreteClass2]'' @ tab @ '' Implemented Operation - 2'' @ endl)]\<rparr>"
      "boot\<lparr>cells := [0 \<mapsto> Object ConcreteClass2 0]\<rparr>" 0 ConcreteClass2 0 2]
  by (simp add: prints_def vtable2_def default_hook_def machine)

text \<open>The demonstration names the second class wrongly, and deletes both objects.\<close>

lemma template_method_run_trace:
  "\<exists>t. template_method_run boot = Done () t \<and> live_addrs t = [] \<and> length (out t) = 11
    \<and> out t ! 0 = out t ! 6"
  by (simp add: template_method_run_def template_defs machine live_addrs_def upt_conv_Cons)

end
