(* ===== verification/Visitor.thy ===== *)
theory Visitor
  imports Prelude
begin

text \<open>
  \<open>src/dp/behavioral/Visitor.cpp\<close>: a document owns elements of three classes; a visitor of one
  of three export formats is passed over all of them, by double dispatch.

  Lemmas: what each visitor prints for each element (the loops over a table's rows and columns
  included), what exporting a whole document prints, and what the demonstration leaks.
\<close>

datatype format = HtmlExportConcreteVisitor | JsonExportConcreteVisitor | MarkdownExportConcreteVisitor

datatype element =
    TextConcreteElement string
  | ImageConcreteElement string
  | TableConcreteElement int int

datatype obj =
    Element element
  | Visitor format
  | DocumentConcreteStructure "ptr list"

section \<open>The document\<close>

definition elements :: "ptr \<Rightarrow> (obj world, ptr list) prog" where
  "elements this = seq (load this) (\<lambda>x. case x of
      DocumentConcreteStructure es \<Rightarrow> ret es | _ \<Rightarrow> undef WrongType)"

definition add :: "ptr \<Rightarrow> ptr \<Rightarrow> (obj world, unit) prog" where
  "add this e = seq (elements this) (\<lambda>es. store this (DocumentConcreteStructure (es @ [e])))"

definition delete_Document :: "ptr \<Rightarrow> (obj world, unit) prog" where
  "delete_Document this = seq (elements this) (\<lambda>es. seq (for_each es free) (\<lambda>_. free this))"

section \<open>The visitors\<close>

definition html_visitText :: "string \<Rightarrow> (obj world, unit) prog" where
  "html_visitText content = cout (''<p>'' @ content @ ''</p>'' @ endl)"

definition html_visitImage :: "string \<Rightarrow> (obj world, unit) prog" where
  "html_visitImage path = cout (''<img src='' @ dq @ path @ dq @ '' />'' @ endl)"

text \<open>A loop \<open>for (int r = 0; r < n; ++r)\<close> runs its body \<open>nat n\<close> times.\<close>

definition html_visitTable :: "int \<Rightarrow> int \<Rightarrow> (obj world, unit) prog" where
  "html_visitTable rows cols = block [
     cout (''<table>'' @ endl),
     repeat (nat rows) (block [
       cout ''  <tr>'',
       repeat (nat cols) (cout ''<td>cell</td>''),
       cout (''</tr>'' @ endl)]),
     cout (''</table>'' @ endl)]"

definition json_visitText :: "string \<Rightarrow> (obj world, unit) prog" where
  "json_visitText content = cout (''{ '' @ dq @ ''type'' @ dq @ '': '' @ dq @ ''text'' @ dq @ '', ''
     @ dq @ ''content'' @ dq @ '': '' @ dq @ content @ dq @ '' }'' @ endl)"

definition json_visitImage :: "string \<Rightarrow> (obj world, unit) prog" where
  "json_visitImage path = cout (''{ '' @ dq @ ''type'' @ dq @ '': '' @ dq @ ''image'' @ dq @ '', ''
     @ dq @ ''path'' @ dq @ '': '' @ dq @ path @ dq @ '' }'' @ endl)"

definition json_visitTable :: "int \<Rightarrow> int \<Rightarrow> (obj world, unit) prog" where
  "json_visitTable rows cols = cout (''{ '' @ dq @ ''type'' @ dq @ '': '' @ dq @ ''table'' @ dq @ '', ''
     @ dq @ ''rows'' @ dq @ '': '' @ show_int rows @ '', '' @ dq @ ''cols'' @ dq @ '': '' @ show_int cols
     @ '' }'' @ endl)"

definition md_visitText :: "string \<Rightarrow> (obj world, unit) prog" where
  "md_visitText content = cout (content @ endl @ endl)"

definition md_visitImage :: "string \<Rightarrow> (obj world, unit) prog" where
  "md_visitImage path = cout (''![]('' @ path @ '')'' @ endl @ endl)"

definition md_visitTable :: "int \<Rightarrow> int \<Rightarrow> (obj world, unit) prog" where
  "md_visitTable rows cols = block [
     repeat (nat rows) (block [
       repeat (nat cols) (cout ''| cell ''),
       cout (''|'' @ endl)]),
     cout endl]"

section \<open>Double dispatch\<close>

fun visitText :: "format \<Rightarrow> string \<Rightarrow> (obj world, unit) prog" where
  "visitText HtmlExportConcreteVisitor = html_visitText"
| "visitText JsonExportConcreteVisitor = json_visitText"
| "visitText MarkdownExportConcreteVisitor = md_visitText"

fun visitImage :: "format \<Rightarrow> string \<Rightarrow> (obj world, unit) prog" where
  "visitImage HtmlExportConcreteVisitor = html_visitImage"
| "visitImage JsonExportConcreteVisitor = json_visitImage"
| "visitImage MarkdownExportConcreteVisitor = md_visitImage"

fun visitTable :: "format \<Rightarrow> int \<Rightarrow> int \<Rightarrow> (obj world, unit) prog" where
  "visitTable HtmlExportConcreteVisitor = html_visitTable"
| "visitTable JsonExportConcreteVisitor = json_visitTable"
| "visitTable MarkdownExportConcreteVisitor = md_visitTable"

definition accept :: "ptr \<Rightarrow> ptr \<Rightarrow> (obj world, unit) prog" where
  "accept visitor this =
     seq (load this) (\<lambda>x. case x of
       Element e \<Rightarrow> seq (load visitor) (\<lambda>y. case y of
           Visitor f \<Rightarrow> (case e of
               TextConcreteElement c \<Rightarrow> visitText f c
             | ImageConcreteElement p \<Rightarrow> visitImage f p
             | TableConcreteElement r c \<Rightarrow> visitTable f r c)
         | _ \<Rightarrow> undef WrongType)
     | _ \<Rightarrow> undef WrongType)"

definition clientCode :: "ptr \<Rightarrow> ptr \<Rightarrow> (obj world, unit) prog" where
  "clientCode doc visitor = seq (elements doc) (\<lambda>es. for_each es (accept visitor))"

definition add_new :: "ptr \<Rightarrow> element \<Rightarrow> (obj world, unit) prog" where
  "add_new doc e = seq (alloc (Element e)) (add doc)"

definition export :: "ptr \<Rightarrow> format \<Rightarrow> string \<Rightarrow> (obj world, ptr) prog" where
  "export doc f title = seq (alloc (Visitor f)) (\<lambda>visitor.
     seq (block [cout (title @ endl), clientCode doc visitor, cout ('' =================='' @ endl)])
       (\<lambda>_. ret visitor))"

definition visitor_run :: "(obj world, unit) prog" where
  "visitor_run =
     seq (alloc (DocumentConcreteStructure [])) (\<lambda>document.
     seq (block (map (add_new document) [
       ImageConcreteElement ''header.png'',
       ImageConcreteElement ''diagram1.png'',
       ImageConcreteElement ''chart.png'',
       TextConcreteElement ''Introduction: This document demonstrates the Visitor pattern.'',
       TextConcreteElement ''Section 1: Visitor allows adding new operations without modifying elements.'',
       TextConcreteElement ''Section 2: Elements are data holders, visitors implement behaviors.'',
       TableConcreteElement 3 4,
       TableConcreteElement 2 2,
       TableConcreteElement 4 3,
       TextConcreteElement ''Conclusion: Using Visitor pattern makes code open for extension but closed for modification.'']))
       (\<lambda>_.
     seq (export document HtmlExportConcreteVisitor '' ===HTML Export ==='') (\<lambda>_.
     seq (export document JsonExportConcreteVisitor '' ===JSON Export ==='') (\<lambda>_.
     seq (export document MarkdownExportConcreteVisitor '' ===MD Export ==='') (\<lambda>visitor.
     seq (free visitor) (\<lambda>_. delete_Document document))))))"

section \<open>What an export is\<close>

text \<open>The characters written to standard output.\<close>

fun line_text :: "line \<Rightarrow> string" where
  "line_text (Cout m) = m"
| "line_text _ = []"

definition console :: "(obj, 'z) world_scheme \<Rightarrow> string" where
  "console s = concat (map line_text (out s))"

text \<open>A table of \<open>r\<close> rows and \<open>c\<close> columns, with the text around rows and cells.\<close>

definition grid :: "string \<Rightarrow> string \<Rightarrow> string \<Rightarrow> int \<Rightarrow> int \<Rightarrow> string" where
  "grid before cell after r c = concat (replicate (nat r) (before @ concat (replicate (nat c) cell) @ after))"

fun render :: "format \<Rightarrow> element \<Rightarrow> string" where
  "render HtmlExportConcreteVisitor (TextConcreteElement c) = ''<p>'' @ c @ ''</p>'' @ endl"
| "render HtmlExportConcreteVisitor (ImageConcreteElement p) = ''<img src='' @ dq @ p @ dq @ '' />'' @ endl"
| "render HtmlExportConcreteVisitor (TableConcreteElement r c) =
     ''<table>'' @ endl @ grid ''  <tr>'' ''<td>cell</td>'' (''</tr>'' @ endl) r c @ ''</table>'' @ endl"
| "render JsonExportConcreteVisitor (TextConcreteElement c) = ''{ '' @ dq @ ''type'' @ dq @ '': '' @ dq @ ''text''
     @ dq @ '', '' @ dq @ ''content'' @ dq @ '': '' @ dq @ c @ dq @ '' }'' @ endl"
| "render JsonExportConcreteVisitor (ImageConcreteElement p) = ''{ '' @ dq @ ''type'' @ dq @ '': '' @ dq @ ''image''
     @ dq @ '', '' @ dq @ ''path'' @ dq @ '': '' @ dq @ p @ dq @ '' }'' @ endl"
| "render JsonExportConcreteVisitor (TableConcreteElement r c) = ''{ '' @ dq @ ''type'' @ dq @ '': '' @ dq @ ''table''
     @ dq @ '', '' @ dq @ ''rows'' @ dq @ '': '' @ show_int r @ '', '' @ dq @ ''cols'' @ dq @ '': '' @ show_int c @ '' }'' @ endl"
| "render MarkdownExportConcreteVisitor (TextConcreteElement c) = c @ endl @ endl"
| "render MarkdownExportConcreteVisitor (ImageConcreteElement p) = ''![]('' @ p @ '')'' @ endl @ endl"
| "render MarkdownExportConcreteVisitor (TableConcreteElement r c) =
     grid '''' ''| cell '' (''|'' @ endl) r c @ endl"

text \<open>A program that only prints: it prints the text \<open>x\<close> and keeps everything else.\<close>

definition writes :: "(obj world, unit) prog \<Rightarrow> string \<Rightarrow> bool" where
  "writes m x \<longleftrightarrow> (\<forall>s. \<exists>ls. m s = Done () (says s ls) \<and> concat (map line_text ls) = x)"

lemma writes_cout [simp, intro]: "writes (cout x) x"
  by (auto simp: writes_def machine intro!: exI [of _ "[Cout x]"])

lemma writes_seq: "writes m x \<Longrightarrow> writes n y \<Longrightarrow> writes (seq m (\<lambda>_. n)) (x @ y)"
  unfolding writes_def seq_def by (metis concat_append map_append result.case(1) says_simps(4))

lemma writes_ret: "writes (ret ()) ''''"
  unfolding writes_def ret_def by (metis concat.simps(1) list.simps(8) says_simps(5))

lemma writes_block: "list_all2 writes ms xs \<Longrightarrow> writes (block ms) (concat xs)"
  by (induction rule: list_all2_induct) (simp_all add: writes_ret writes_seq)

lemma writes_repeat: "writes m x \<Longrightarrow> writes (repeat n m) (concat (replicate n x))"
  by (induction n) (simp_all add: writes_ret writes_seq)

lemma writes_element:
  "writes (case e of TextConcreteElement c \<Rightarrow> visitText f c
     | ImageConcreteElement p \<Rightarrow> visitImage f p
     | TableConcreteElement r c \<Rightarrow> visitTable f r c) (render f e)"
proof -
  have html: "writes (html_visitTable r c) (render HtmlExportConcreteVisitor (TableConcreteElement r c))" for r c
    using writes_block [of "[cout (''<table>'' @ endl), repeat (nat r) (block [
       cout ''  <tr>'', repeat (nat c) (cout ''<td>cell</td>''), cout (''</tr>'' @ endl)]),
       cout (''</table>'' @ endl)]" "[''<table>'' @ endl, grid ''  <tr>'' ''<td>cell</td>'' (''</tr>'' @ endl) r c,
       ''</table>'' @ endl]"]
      writes_block [of "[cout ''  <tr>'', repeat (nat c) (cout ''<td>cell</td>''), cout (''</tr>'' @ endl)]"
       "[''  <tr>'', concat (replicate (nat c) ''<td>cell</td>''), ''</tr>'' @ endl]"]
    by (simp add: html_visitTable_def grid_def writes_repeat)
  have md: "writes (md_visitTable r c) (render MarkdownExportConcreteVisitor (TableConcreteElement r c))" for r c
    using writes_block [of "[repeat (nat r) (block [repeat (nat c) (cout ''| cell ''), cout (''|'' @ endl)]), cout endl]"
       "[grid '''' ''| cell '' (''|'' @ endl) r c, endl]"]
      writes_block [of "[repeat (nat c) (cout ''| cell ''), cout (''|'' @ endl)]"
       "[concat (replicate (nat c) ''| cell ''), ''|'' @ endl]"]
    by (simp add: md_visitTable_def grid_def writes_repeat)
  from html md show ?thesis
    by (cases f; cases e) (auto simp: html_visitText_def html_visitImage_def json_visitText_def
        json_visitImage_def json_visitTable_def md_visitText_def md_visitImage_def simp del: append_Cons)
qed

text \<open>The addresses \<open>as\<close> hold the elements \<open>es\<close>.\<close>

definition holds :: "obj world \<Rightarrow> nat \<Rightarrow> element \<Rightarrow> bool" where
  "holds s a e \<longleftrightarrow> cells s a = Some (Element e)"

lemma holds_says [simp]: "holds (says s ls) = holds s"
  by (simp add: holds_def fun_eq_iff)

lemma accept_all:
  assumes "list_all2 (holds s) as es" "cells s v = Some (Visitor f)"
  shows "\<exists>ls. for_each (map Some as) (accept (Some v)) s = Done () (says s ls)
    \<and> concat (map line_text ls) = concat (map (render f) es)"
  using assms
proof (induction as arbitrary: s es)
  case Nil
  then show ?case by (auto simp: machine intro!: exI [of _ "[]"])
next
  case (Cons a as)
  then obtain e es' where e: "es = e # es'" "holds s a e" "list_all2 (holds s) as es'"
    by (auto simp: list_all2_Cons1)
  obtain ls where ls: "accept (Some v) (Some a) s = Done () (says s ls)" "concat (map line_text ls) = render f e"
    using writes_element [of f e] e(2) Cons.prems(2)
    unfolding writes_def accept_def holds_def by (auto simp: load_def seq_def)
  obtain ks where "for_each (map Some as) (accept (Some v)) (says s ls) = Done () (says (says s ls) ks)"
    "concat (map line_text ks) = concat (map (render f) es')"
    using Cons.IH [of "says s ls" es'] e(3) Cons.prems(2) by auto
  with ls e(1) show ?case by (auto simp: seq_def intro!: exI [of _ "ls @ ks"])
qed

lemma clientCode_effect:
  assumes "cells s d = Some (DocumentConcreteStructure (map Some as))"
    and "list_all2 (holds s) as es" and "cells s v = Some (Visitor f)"
  shows "\<exists>ls. clientCode (Some d) (Some v) s = Done () (says s ls)
    \<and> concat (map line_text ls) = concat (map (render f) es)"
  using accept_all [OF assms(2,3)] assms(1) by (simp add: clientCode_def elements_def machine)

section \<open>Properties\<close>

text \<open>
  Exporting a document prints, for every element in order, its rendering in the visitor's
  format (a table as rows times columns cells, none for counts below one) and changes nothing
  else: elements, visitor and document are as before.
\<close>

theorem visitor_exports_document:
  assumes "cells s d = Some (DocumentConcreteStructure (map Some as))"
    and "list_all2 (holds s) as es" and "cells s v = Some (Visitor f)"
  shows "\<exists>t. clientCode (Some d) (Some v) s = Done () t \<and> cells t = cells s \<and> brk t = brk s
    \<and> console t = console s @ concat (map (render f) es)"
  using clientCode_effect [OF assms] by (auto simp: console_def)

definition demo_document :: "obj world" where
  "demo_document = \<lparr>cells = [0 \<mapsto> DocumentConcreteStructure [Some 1, Some 2],
     1 \<mapsto> Element (TextConcreteElement ''hi''), 2 \<mapsto> Element (TableConcreteElement 1 2),
     3 \<mapsto> Visitor MarkdownExportConcreteVisitor], brk = 4, out = []\<rparr>"

theorem visitor_exports_document_witness:
  "\<exists>t. clientCode (Some 0) (Some 3) demo_document = Done () t \<and> cells t = cells demo_document
    \<and> console t = ''hi'' @ endl @ endl @ ''| cell | cell |'' @ endl @ endl"
  using visitor_exports_document [of demo_document 0 "[1, 2]"
      "[TextConcreteElement ''hi'', TableConcreteElement 1 2]" 3 MarkdownExportConcreteVisitor]
  by (auto simp: demo_document_def holds_def console_def grid_def numeral_eq_Suc)

text \<open>
  The demonstration deletes the last visitor only: each export leaves its visitor behind, and the
  two earlier visitors stay live at the end.
\<close>

definition document :: "obj world \<Rightarrow> nat \<Rightarrow> nat list \<Rightarrow> element list \<Rightarrow> bool" where
  "document s d as es \<longleftrightarrow> cells s d = Some (DocumentConcreteStructure (map Some as))
     \<and> list_all2 (holds s) as es \<and> fresh_above s"

lemma document_cong:
  "cells s = cells t \<Longrightarrow> brk s = brk t \<Longrightarrow> document s d as es \<longleftrightarrow> document t d as es"
  by (simp add: document_def holds_def [abs_def] fresh_above_def)

lemma export_effect:
  assumes "document s d as es"
  shows "\<exists>t. export (Some d) f title s = Done (Some (brk s)) t \<and> document t d as es
    \<and> cells t = (cells s)(brk s \<mapsto> Visitor f) \<and> brk t = Suc (brk s)"
proof -
  let ?s = "says (s\<lparr>cells := (cells s)(brk s \<mapsto> Visitor f), brk := Suc (brk s)\<rparr>) [Cout (title @ endl)]"
  have fresh: "fresh_above s" "cells s (brk s) = None" using assms by (auto simp: document_def fresh_above_def)
  have d: "d < brk s" using assms fresh_above_live [OF fresh(1)] by (auto simp: document_def)
  have "list_all2 (holds ?s) as es"
    using assms [unfolded document_def] fresh(2) by (auto elim!: list_all2_mono simp: holds_def)
  then have "document ?s d as es"
    using assms d by (auto simp: document_def fresh_above_def)
  then have doc: "document (says ?s ls) d as es" for ls
    by (rule document_cong [THEN iffD1, rotated -1]) simp_all
  from doc [of "[]"] clientCode_effect [of ?s d as es "brk s" f] obtain ls where
    "clientCode (Some d) (Some (brk s)) ?s = Done () (says ?s ls)" by (auto simp: document_def)
  with doc [of "ls @ [Cout ('' =================='' @ endl)]"] show ?thesis by (auto simp: export_def machine)
qed

definition demo_elements :: "element list" where
  "demo_elements = [ImageConcreteElement ''header.png'', ImageConcreteElement ''diagram1.png'',
     ImageConcreteElement ''chart.png'',
     TextConcreteElement ''Introduction: This document demonstrates the Visitor pattern.'',
     TextConcreteElement ''Section 1: Visitor allows adding new operations without modifying elements.'',
     TextConcreteElement ''Section 2: Elements are data holders, visitors implement behaviors.'',
     TableConcreteElement 3 4, TableConcreteElement 2 2, TableConcreteElement 4 3,
     TextConcreteElement ''Conclusion: Using Visitor pattern makes code open for extension but closed for modification.'']"

lemma visitor_run_leaks:
  "\<exists>t. visitor_run boot = Done () t \<and> live_addrs t = [11, 12]
    \<and> cells t 11 = Some (Visitor HtmlExportConcreteVisitor) \<and> cells t 12 = Some (Visitor JsonExportConcreteVisitor)"
proof -
  define build where "build = seq (alloc (DocumentConcreteStructure [])) (\<lambda>document.
    seq (block (map (add_new document) demo_elements)) (\<lambda>_. ret document))"
  have run: "visitor_run = seq build (\<lambda>document.
     seq (export document HtmlExportConcreteVisitor '' ===HTML Export ==='') (\<lambda>_.
     seq (export document JsonExportConcreteVisitor '' ===JSON Export ==='') (\<lambda>_.
     seq (export document MarkdownExportConcreteVisitor '' ===MD Export ==='') (\<lambda>visitor.
     seq (free visitor) (\<lambda>_. delete_Document document)))))"
    by (simp add: visitor_run_def build_def demo_elements_def seq_assoc)
  define as :: "nat list" where "as = [1, 2, 3, 4, 5, 6, 7, 8, 9, 10]"
  obtain s where s: "build boot = Done (Some 0) s" "brk s = 11" "cells s 12 = None"
    "document s 0 as demo_elements"
    by (simp add: build_def demo_elements_def add_new_def add_def elements_def holds_def fresh_above_def
        document_def as_def machine)
  obtain s1 where s1: "export (Some 0) HtmlExportConcreteVisitor '' ===HTML Export ==='' s = Done (Some 11) s1"
    "document s1 0 as demo_elements" "cells s1 = (cells s)(11 \<mapsto> Visitor HtmlExportConcreteVisitor)" "brk s1 = 12"
    using export_effect [OF s(4), of HtmlExportConcreteVisitor "'' ===HTML Export ===''"] s(2) by auto
  obtain s2 where s2: "export (Some 0) JsonExportConcreteVisitor '' ===JSON Export ==='' s1 = Done (Some 12) s2"
    "document s2 0 as demo_elements" "cells s2 = (cells s1)(12 \<mapsto> Visitor JsonExportConcreteVisitor)" "brk s2 = 13"
    using export_effect [OF s1(2), of JsonExportConcreteVisitor "'' ===JSON Export ===''"] s1(4) by auto
  obtain s3 where s3: "export (Some 0) MarkdownExportConcreteVisitor '' ===MD Export ==='' s2 = Done (Some 13) s3"
    "document s3 0 as demo_elements" "cells s3 = (cells s2)(13 \<mapsto> Visitor MarkdownExportConcreteVisitor)" "brk s3 = 14"
    using export_effect [OF s2(2), of MarkdownExportConcreteVisitor "'' ===MD Export ===''"] s2(4) by auto
  let ?s4 = "s3\<lparr>cells := (cells s3)(13 := None)\<rparr>"
  have live: "\<forall>a \<in> set as. cells ?s4 a \<noteq> None"
    using s3(2) by (auto simp: document_def demo_elements_def holds_def as_def)
  have doc: "cells s3 0 = Some (DocumentConcreteStructure (map Some as))"
    "cells s3 13 = Some (Visitor MarkdownExportConcreteVisitor)" "0 \<notin> set as"
    using s3(2,3) by (auto simp: document_def as_def)
  let ?s5 = "?s4\<lparr>cells := (\<lambda>a. if a \<in> set as then None else cells ?s4 a)\<rparr>"
  have loop: "for_each (map Some as) free ?s4 = Done () ?s5"
    by (rule for_each_free [OF _ live]) (simp add: as_def)
  have "seq (free (Some 13)) (\<lambda>_. delete_Document (Some 0)) s3 = Done () (?s5\<lparr>cells := (cells ?s5)(0 := None)\<rparr>)"
    using doc loop by (simp add: delete_Document_def elements_def seq_def load_def free_def ret_def)
  then have "visitor_run boot = Done () (?s5\<lparr>cells := (cells ?s5)(0 := None)\<rparr>)"
    unfolding run seq_def [of build] s(1) using s1(1) s2(1) s3(1) by (simp add: seq_def)
  moreover have "live_addrs (?s5\<lparr>cells := (cells ?s5)(0 := None)\<rparr>) = [11, 12]"
    using s1(3) s2(3) s3(3,4) by (simp add: live_addrs_def upt_conv_Cons as_def)
  ultimately show ?thesis using s1(3) s2(3) s3(3) by (auto simp: as_def)
qed

end
