(* ===== verification/IteratorPattern.thy ===== *)
theory IteratorPattern
  imports Prelude
begin

text \<open>
  \<open>src/dp/behavioral/Iterator.cpp\<close>: a vector and a list aggregate hand out iterators behind one
  interface; the client only calls \<open>hasNext\<close> and \<open>next\<close>.  An iterator holds a reference to its
  aggregate's container, so both are heap objects here.  A position in a \<open>std::vector\<close> is an
  index; a position in a \<open>std::list\<close> is a node, or \<open>end()\<close>, and \<open>end()\<close> stays \<open>end()\<close> when
  elements are appended.

  The locale \<open>iteration\<close> is the iterator interface with its contract; the client's loop is proved
  against it and it is interpreted for both iterators.
\<close>

datatype 'a obj =
    VectorConcreteAggregate "'a list"
  | ListConreteAggregate "'a list"
  | VectorConcreteIterator ptr nat
  | ListConcreteIterator ptr "nat option"

section \<open>Aggregates\<close>

definition add :: "ptr \<Rightarrow> 'a \<Rightarrow> ('a obj world, unit) prog" where
  "add this i = seq (load this) (\<lambda>x. case x of
      VectorConcreteAggregate xs \<Rightarrow> store this (VectorConcreteAggregate (xs @ [i]))
    | ListConreteAggregate xs \<Rightarrow> store this (ListConreteAggregate (xs @ [i]))
    | _ \<Rightarrow> undef WrongType)"

text \<open>The first node of a list, \<open>end()\<close> when there is none, and the node after one.\<close>

definition list_begin :: "'a list \<Rightarrow> nat option" where
  "list_begin xs = (if xs = [] then None else Some 0)"

definition list_succ :: "'a list \<Rightarrow> nat \<Rightarrow> nat option" where
  "list_succ xs k = (if Suc k < length xs then Some (Suc k) else None)"

definition createIterator :: "ptr \<Rightarrow> ('a obj world, ptr) prog" where
  "createIterator this = seq (load this) (\<lambda>x. case x of
      VectorConcreteAggregate xs \<Rightarrow> alloc (VectorConcreteIterator this 0)
    | ListConreteAggregate xs \<Rightarrow> alloc (ListConcreteIterator this (list_begin xs))
    | _ \<Rightarrow> undef WrongType)"

section \<open>Iterators\<close>

definition vector_data :: "ptr \<Rightarrow> ('a obj world, 'a list) prog" where
  "vector_data p = seq (load p) (\<lambda>x. case x of VectorConcreteAggregate xs \<Rightarrow> ret xs | _ \<Rightarrow> undef WrongType)"

definition list_data :: "ptr \<Rightarrow> ('a obj world, 'a list) prog" where
  "list_data p = seq (load p) (\<lambda>x. case x of ListConreteAggregate xs \<Rightarrow> ret xs | _ \<Rightarrow> undef WrongType)"

definition hasNext :: "ptr \<Rightarrow> ('a obj world, bool) prog" where
  "hasNext this = seq (load this) (\<lambda>x. case x of
      VectorConcreteIterator d i \<Rightarrow> seq (vector_data d) (\<lambda>xs. ret (i < length xs))
    | ListConcreteIterator d it \<Rightarrow> seq (list_data d) (\<lambda>xs. ret (it \<noteq> None))
    | _ \<Rightarrow> undef WrongType)"

text \<open>\<open>next\<close> returns a pointer to an element; the result here is the element pointed to.\<close>

definition vector_next :: "ptr \<Rightarrow> ptr \<Rightarrow> nat \<Rightarrow> ('a obj world, 'a option) prog" where
  "vector_next this d i = seq (hasNext this) (\<lambda>b.
     if b then seq (vector_data d) (\<lambda>xs.
       seq (store this (VectorConcreteIterator d (Suc i))) (\<lambda>_.
       if i < length xs then ret (Some (xs ! i)) else undef BadIndex))
     else ret None)"

definition list_next :: "ptr \<Rightarrow> ptr \<Rightarrow> nat option \<Rightarrow> ('a obj world, 'a option) prog" where
  "list_next this d it = seq (hasNext this) (\<lambda>b.
     if \<not> b then ret None
     else seq (list_data d) (\<lambda>xs. case it of
         None \<Rightarrow> undef BadIndex
       | Some k \<Rightarrow> if k < length xs
           then seq (store this (ListConcreteIterator d (list_succ xs k))) (\<lambda>_. ret (Some (xs ! k)))
           else undef BadIndex))"

definition iter_next :: "ptr \<Rightarrow> ('a obj world, 'a option) prog" where
  "iter_next this = seq (load this) (\<lambda>x. case x of
      VectorConcreteIterator d i \<Rightarrow> vector_next this d i
    | ListConcreteIterator d it \<Rightarrow> list_next this d it
    | _ \<Rightarrow> undef WrongType)"

lemmas iterator_defs [defs] = add_def list_begin_def list_succ_def createIterator_def vector_data_def
  list_data_def hasNext_def vector_next_def list_next_def iter_next_def

section \<open>The client\<close>

text \<open>\<open>while (iterator->hasNext()) std::cout << \<dots> << *(iterator->next()) << \<dots>\<close>, which may run
  forever; \<open>fmt\<close> prints one element.\<close>

partial_function (option) drain ::
  "('s \<Rightarrow> ('s, bool) result) \<Rightarrow> ('s \<Rightarrow> ('s, 'a option) result) \<Rightarrow> ('a \<Rightarrow> 's \<Rightarrow> ('s, unit) result)
     \<Rightarrow> 's \<Rightarrow> ('s, unit) result option" where
  "drain has nxt fmt s = (case has s of
      Thrown e t \<Rightarrow> Some (Thrown e t)
    | Undef u \<Rightarrow> Some (Undef u)
    | Done b t \<Rightarrow> if b
        then (case seq nxt (\<lambda>x. case x of None \<Rightarrow> undef NullDeref | Some v \<Rightarrow> fmt v) t of
            Thrown e u \<Rightarrow> Some (Thrown e u)
          | Undef u \<Rightarrow> Some (Undef u)
          | Done _ u \<Rightarrow> drain has nxt fmt u)
        else Some (Done () t))"

text \<open>The two \<open>clientCode\<close>s, for \<open>int\<close> and for \<open>DataModel\<close>, differ in \<open>fmt\<close> only.\<close>

definition clientCode :: "('a \<Rightarrow> string) \<Rightarrow> ptr \<Rightarrow> ('a obj world, unit) oprog" where
  "clientCode fmt collection =
     oseq (terminating (createIterator collection)) (\<lambda>iterator.
     oseq (if iterator \<noteq> None
           then drain (hasNext iterator) (iter_next iterator) (\<lambda>v. cout (fmt v))
           else terminating (ret ())) (\<lambda>_.
     terminating (free iterator)))"

definition show_int_line :: "int \<Rightarrow> string" where
  "show_int_line v = ''int: '' @ show_int v @ endl"

text \<open>A \<open>DataModel\<close> is its \<open>value_\<close>; \<open>getValue\<close> reads it.\<close>

datatype DataModel = DataModel (getValue: int)

definition setValue :: "DataModel \<Rightarrow> int \<Rightarrow> DataModel" where
  "setValue d v = DataModel v"

definition show_data_line :: "DataModel \<Rightarrow> string" where
  "show_data_line d = ''data: '' @ show_int (getValue d) @ endl"

text \<open>
  \<open>run\<close>: four collections are filled and given to the client; they are local variables, destroyed in
  reverse order.  An element is an \<open>int\<close> or a \<open>DataModel\<close>, and the overload of the client is chosen by it.
\<close>

type_synonym element = "int + DataModel"

definition element_line :: "element \<Rightarrow> string" where
  "element_line x = (case x of Inl v \<Rightarrow> show_int_line v | Inr d \<Rightarrow> show_data_line d)"

definition int_element :: "nat \<Rightarrow> element" where
  "int_element i = Inl (int i)"

definition data_element :: "nat \<Rightarrow> element" where
  "data_element i = Inr (DataModel (int i * 10))"

definition fill :: "ptr \<Rightarrow> (nat \<Rightarrow> 'a) \<Rightarrow> ('a obj world, unit) prog" where
  "fill collection f = for_each [0..<10] (\<lambda>i. add collection (f i))"

definition shown_collection :: "string \<Rightarrow> element obj \<Rightarrow> (nat \<Rightarrow> element) \<Rightarrow> (element obj world, ptr) oprog" where
  "shown_collection header coll f =
     oseq (terminating (cout header)) (\<lambda>_.
     oseq (terminating (alloc coll)) (\<lambda>collection.
     oseq (terminating (fill collection f)) (\<lambda>_.
     oseq (clientCode element_line collection) (\<lambda>_. terminating (ret collection)))))"

definition vector_header :: string where
  "vector_header = endl @ ''VectorConcreteAggregate'' @ endl"

definition list_header :: string where
  "list_header = endl @ ''ListConreteAggregate'' @ endl"

definition iterator_run :: "(element obj world, unit) oprog" where
  "iterator_run =
     oseq (shown_collection vector_header (VectorConcreteAggregate []) int_element) (\<lambda>int_collection.
     oseq (shown_collection endl (VectorConcreteAggregate []) data_element) (\<lambda>data_collection.
     oseq (shown_collection list_header (ListConreteAggregate []) int_element) (\<lambda>int_collection2.
     oseq (shown_collection endl (ListConreteAggregate []) data_element) (\<lambda>data_collection2.
     oblock (map (\<lambda>c. terminating (free c)) [data_collection2, int_collection2, data_collection, int_collection])))))"

section \<open>The iterator contract\<close>

text \<open>
  \<open>ahead xs s\<close> says that in the state \<open>s\<close> the elements \<open>xs\<close> are still to come.
\<close>

locale iteration =
  fixes has :: "('s, bool) prog"
    and nxt :: "('s, 'a option) prog"
    and ahead :: "'a list \<Rightarrow> 's \<Rightarrow> bool"
    and emits :: "'a \<Rightarrow> ('s, unit) prog"
    and lines :: "'s \<Rightarrow> 'l list"
    and line_of :: "'a \<Rightarrow> 'l"
  assumes has_at: "ahead xs s \<Longrightarrow> has s = Done (xs \<noteq> []) s"
    and next_at: "ahead (x # xs) s \<Longrightarrow> \<exists>t. nxt s = Done (Some x) t \<and> ahead xs t \<and> lines t = lines s"
    and emits_at: "ahead xs s \<Longrightarrow> \<exists>t. emits x s = Done () t \<and> ahead xs t \<and> lines t = lines s @ [line_of x]"
begin

lemma drain_all:
  "ahead xs s \<Longrightarrow> \<exists>t. drain has nxt emits s = Some (Done () t) \<and> ahead [] t
     \<and> lines t = lines s @ map line_of xs"
proof (induction xs arbitrary: s)
  case Nil
  then show ?case by (subst drain.simps) (simp add: has_at)
next
  case (Cons x xs)
  obtain t where t: "nxt s = Done (Some x) t" "ahead xs t" "lines t = lines s"
    using next_at [OF Cons.prems] by blast
  obtain u where u: "emits x t = Done () u" "ahead xs u" "lines u = lines t @ [line_of x]"
    using emits_at [OF t(2)] by blast
  from Cons.IH [OF u(2)] t u show ?case
    by (subst drain.simps) (simp add: has_at [OF Cons.prems] seq_def)
qed

end

section \<open>Both iterators meet the contract\<close>

text \<open>
  The iterator \<open>it\<close> stands before the elements \<open>xs\<close> of its aggregate; every other object is
  as in the store \<open>rest\<close>.
\<close>

definition vector_at :: "(nat \<Rightarrow> 'a obj option) \<Rightarrow> nat \<Rightarrow> 'a list \<Rightarrow> 'a obj world \<Rightarrow> bool" where
  "vector_at rest it xs s \<longleftrightarrow> fresh_above s \<and> (\<exists>d all i. rest d = Some (VectorConcreteAggregate all) \<and> d \<noteq> it
     \<and> i \<le> length all \<and> drop i all = xs \<and> cells s = rest(it \<mapsto> VectorConcreteIterator (Some d) i))"

definition list_at :: "(nat \<Rightarrow> 'a obj option) \<Rightarrow> nat \<Rightarrow> 'a list \<Rightarrow> 'a obj world \<Rightarrow> bool" where
  "list_at rest it xs s \<longleftrightarrow> fresh_above s \<and> (\<exists>d all p. rest d = Some (ListConreteAggregate all) \<and> d \<noteq> it
     \<and> (case p of None \<Rightarrow> xs = [] | Some i \<Rightarrow> i < length all \<and> drop i all = xs)
     \<and> cells s = rest(it \<mapsto> ListConcreteIterator (Some d) p))"

lemma at_says [simp]:
  "vector_at rest it xs (says s ls) = vector_at rest it xs s"
  "list_at rest it xs (says s ls) = list_at rest it xs s"
  by (simp_all add: vector_at_def list_at_def fresh_above_update)

lemma drop_Cons_iff: "drop i xs = y # ys \<longleftrightarrow> i < length xs \<and> xs ! i = y \<and> drop (Suc i) xs = ys"
  by (cases "i < length xs") (auto simp: Cons_nth_drop_Suc [symmetric])

lemma vector_at_step:
  "vector_at rest it (x # xs) s \<Longrightarrow>
     \<exists>t. iter_next (Some it) s = Done (Some x) t \<and> vector_at rest it xs t \<and> out t = out s"
proof -
  assume "vector_at rest it (x # xs) s"
  then obtain d all i where d: "rest d = Some (VectorConcreteAggregate all)" "d \<noteq> it" "i < length all"
    "all ! i = x" "drop (Suc i) all = xs" "cells s = rest(it \<mapsto> VectorConcreteIterator (Some d) i)"
    unfolding vector_at_def drop_Cons_iff by blast
  moreover have fr: "fresh_above (s\<lparr>cells := rest(it \<mapsto> VectorConcreteIterator (Some d) (Suc i))\<rparr>)"
    using \<open>vector_at rest it (x # xs) s\<close> d(6) by (auto simp: vector_at_def fresh_above_def split: if_splits)
  then have "vector_at rest it xs (s\<lparr>cells := rest(it \<mapsto> VectorConcreteIterator (Some d) (Suc i))\<rparr>)"
    unfolding vector_at_def using d
    by (intro conjI [OF fr], intro exI [of _ d], intro exI [of _ all], intro exI [of _ "Suc i"]) simp
  ultimately show ?thesis
    by (simp add: iter_next_def vector_next_def hasNext_def vector_data_def machine)
qed

lemma list_at_step:
  "list_at rest it (x # xs) s \<Longrightarrow>
     \<exists>t. iter_next (Some it) s = Done (Some x) t \<and> list_at rest it xs t \<and> out t = out s"
proof -
  assume "list_at rest it (x # xs) s"
  then obtain d all p where p: "rest d = Some (ListConreteAggregate all)" "d \<noteq> it"
    "case p of None \<Rightarrow> x # xs = [] | Some i \<Rightarrow> i < length all \<and> drop i all = x # xs"
    "cells s = rest(it \<mapsto> ListConcreteIterator (Some d) p)"
    unfolding list_at_def by blast
  then obtain i where i: "p = Some i" "i < length all" "all ! i = x" "drop (Suc i) all = xs"
    by (cases p) (auto simp: drop_Cons_iff)
  have fr: "fresh_above (s\<lparr>cells := rest(it \<mapsto> ListConcreteIterator (Some d) (list_succ all i))\<rparr>)"
    using \<open>list_at rest it (x # xs) s\<close> p(4) by (auto simp: list_at_def fresh_above_def split: if_splits)
  then have "list_at rest it xs (s\<lparr>cells := rest(it \<mapsto> ListConcreteIterator (Some d) (list_succ all i))\<rparr>)"
    unfolding list_at_def using p(1,2) i
    by (intro conjI [OF fr], intro exI [of _ d], intro exI [of _ all], intro exI [of _ "list_succ all i"]) (auto simp: list_succ_def)
  with p i show ?thesis
    by (simp add: iter_next_def list_next_def hasNext_def list_data_def machine)
qed

lemma vector_at_hasNext: "vector_at rest it xs s \<Longrightarrow> hasNext (Some it) s = Done (xs \<noteq> []) s"
  by (auto simp: vector_at_def hasNext_def vector_data_def machine)

lemma list_at_hasNext: "list_at rest it xs s \<Longrightarrow> hasNext (Some it) s = Done (xs \<noteq> []) s"
proof -
  assume "list_at rest it xs s"
  then obtain d all p where "rest d = Some (ListConreteAggregate all)" "d \<noteq> it"
    "case p of None \<Rightarrow> xs = [] | Some i \<Rightarrow> i < length all \<and> drop i all = xs"
    "cells s = rest(it \<mapsto> ListConcreteIterator (Some d) p)"
    unfolding list_at_def by blast
  then show ?thesis by (cases p) (auto simp: hasNext_def list_data_def machine)
qed

interpretation vector_iteration: iteration "hasNext (Some it)" "iter_next (Some it)" "vector_at rest it"
  "\<lambda>v. cout (f v)" out "\<lambda>v. Cout (f v)" for rest it f
  by unfold_locales (simp_all add: vector_at_hasNext vector_at_step machine)

interpretation list_iteration: iteration "hasNext (Some it)" "iter_next (Some it)" "list_at rest it"
  "\<lambda>v. cout (f v)" out "\<lambda>v. Cout (f v)" for rest it f
  by unfold_locales (simp_all add: list_at_hasNext list_at_step machine)

section \<open>The client's loop\<close>

text \<open>The elements of an aggregate of either class.\<close>

definition aggregate :: "'a obj option \<Rightarrow> 'a list \<Rightarrow> bool" where
  "aggregate x xs \<longleftrightarrow> x = Some (VectorConcreteAggregate xs) \<or> x = Some (ListConreteAggregate xs)"

lemma client_prints:
  assumes "aggregate (cells s d) xs" "fresh_above s"
  shows "\<exists>t. clientCode fmt (Some d) s = Some (Done () t)
    \<and> out t = out s @ map (\<lambda>v. Cout (fmt v)) xs \<and> cells t = cells s \<and> fresh_above t"
proof -
  let ?it = "brk s"
  from assms have d: "d \<noteq> ?it" "cells s ?it = None"
    using fresh_above_live [OF assms(2), of d] by (auto simp: aggregate_def fresh_above_def)
  consider (vector) "cells s d = Some (VectorConcreteAggregate xs)"
    | (list) "cells s d = Some (ListConreteAggregate xs)"
    using assms(1) by (auto simp: aggregate_def)
  then show ?thesis
  proof cases
    case vector
    let ?s = "s\<lparr>cells := (cells s)(?it \<mapsto> VectorConcreteIterator (Some d) 0), brk := Suc ?it\<rparr>"
    have "vector_at (cells s) ?it xs ?s"
      unfolding vector_at_def using vector d(1)
      by (intro conjI [OF fresh_above_update(1) [OF assms(2)]], intro exI [of _ d], intro exI [of _ xs], intro exI [of _ 0]) simp
    from vector_iteration.drain_all [OF this, of fmt] obtain t where t:
      "drain (hasNext (Some ?it)) (iter_next (Some ?it)) (\<lambda>v. cout (fmt v)) ?s = Some (Done () t)"
      "vector_at (cells s) ?it [] t" "out t = out s @ map (\<lambda>v. Cout (fmt v)) xs" by auto
    with vector d show ?thesis
      by (auto simp: clientCode_def createIterator_def machine vector_at_def fun_upd_idem fresh_above_def split: if_splits)
  next
    case list
    let ?s = "s\<lparr>cells := (cells s)(?it \<mapsto> ListConcreteIterator (Some d) (list_begin xs)), brk := Suc ?it\<rparr>"
    have "list_at (cells s) ?it xs ?s"
      unfolding list_at_def using list d(1)
      by (intro conjI [OF fresh_above_update(1) [OF assms(2)]], intro exI [of _ d], intro exI [of _ xs], intro exI [of _ "list_begin xs"]) (simp add: list_begin_def)
    from list_iteration.drain_all [OF this, of fmt] obtain t where t:
      "drain (hasNext (Some ?it)) (iter_next (Some ?it)) (\<lambda>v. cout (fmt v)) ?s = Some (Done () t)"
      "list_at (cells s) ?it [] t" "out t = out s @ map (\<lambda>v. Cout (fmt v)) xs" by auto
    with list d show ?thesis
      by (auto simp: clientCode_def createIterator_def machine list_at_def fun_upd_idem fresh_above_def split: if_splits)
  qed
qed

section \<open>The run\<close>

lemma fill_vector:
  "cells s d = Some (VectorConcreteAggregate xs) \<Longrightarrow> for_each [0..<n] (\<lambda>i. add (Some d) (f i)) s
     = Done () (s\<lparr>cells := (cells s)(d \<mapsto> VectorConcreteAggregate (xs @ map f [0..<n]))\<rparr>)"
  by (induction n) (simp_all add: for_each_append add_def machine fun_upd_idem)

lemma fill_list:
  "cells s d = Some (ListConreteAggregate xs) \<Longrightarrow> for_each [0..<n] (\<lambda>i. add (Some d) (f i)) s
     = Done () (s\<lparr>cells := (cells s)(d \<mapsto> ListConreteAggregate (xs @ map f [0..<n]))\<rparr>)"
  by (induction n) (simp_all add: for_each_append add_def machine fun_upd_idem)

definition collection_lines :: "string \<Rightarrow> (nat \<Rightarrow> element) \<Rightarrow> line list" where
  "collection_lines header f = Cout header # map (\<lambda>i. Cout (element_line (f i))) [0..<10]"

lemma shown_collection_runs:
  assumes "coll = VectorConcreteAggregate [] \<or> coll = ListConreteAggregate []" "fresh_above s"
  shows "\<exists>t x. shown_collection header coll f s = Some (Done (Some (brk s)) t) \<and> fresh_above t
    \<and> cells t = (cells s)(brk s \<mapsto> x) \<and> out t = out s @ collection_lines header f"
proof -
  let ?u = "says s [Cout header]"
  let ?v = "?u\<lparr>cells := (cells s)(brk s \<mapsto> coll), brk := Suc (brk s)\<rparr>"
  obtain x where x: "aggregate (Some x) (map f [0..<10])"
    and fill: "fill (Some (brk s)) f ?v = Done () (?v\<lparr>cells := (cells ?v)(brk s \<mapsto> x)\<rparr>)"
    using assms(1) fill_vector [of ?v "brk s" "[]" 10 f] fill_list [of ?v "brk s" "[]" 10 f]
    unfolding fill_def aggregate_def by force
  let ?w = "?v\<lparr>cells := (cells ?v)(brk s \<mapsto> x)\<rparr>"
  have w: "fresh_above ?w" "aggregate (cells ?w (brk s)) (map f [0..<10])"
    using assms(2) x by (auto simp: fresh_above_def)
  obtain t where "clientCode element_line (Some (brk s)) ?w = Some (Done () t)" "cells t = cells ?w" "fresh_above t"
    "out t = out ?w @ map (\<lambda>v. Cout (element_line v)) (map f [0..<10])"
    using client_prints [OF w(2,1), of element_line] by blast
  with fill show ?thesis
    by (auto simp: shown_collection_def oseq_def terminating_def cout_def emit_def alloc_def ret_def
        collection_lines_def simp del: upt_Suc)
qed

section \<open>Properties\<close>

text \<open>
  The client's loop over an aggregate always ends and prints every element once, in insertion
  order, the same for a vector and for a list; the iterator it created is deleted and the
  aggregate is unchanged.
\<close>

theorem iterator_client_prints_all:
  assumes "aggregate (cells s d) xs" "fresh_above s"
  shows "\<exists>t. clientCode fmt (Some d) s = Some (Done () t)
    \<and> out t = out s @ map (\<lambda>v. Cout (fmt v)) xs \<and> cells t = cells s"
  using client_prints [OF assms] by blast

theorem iterator_client_prints_all_witness:
  "\<exists>t. clientCode show_int_line (Some 0) (boot\<lparr>cells := [0 \<mapsto> ListConreteAggregate [7, 8]], brk := 1\<rparr>)
       = Some (Done () t)
    \<and> out t = [Cout (''int: 7'' @ endl), Cout (''int: 8'' @ endl)]"
  using iterator_client_prints_all [of "boot\<lparr>cells := [0 \<mapsto> ListConreteAggregate [7, 8]], brk := 1\<rparr>" 0
      "[7, 8]" show_int_line]
  by (auto simp: aggregate_def fresh_above_def boot_def show_int_line_def show_int_def show_nat.simps digit_char_literals)

text \<open>
  The run always ends, shows the ten numbers and the ten data models, each time for the vector and for the
  list, and leaves no object behind.
\<close>

theorem iterator_run_outcome:
  assumes "fresh_above s"
  shows "\<exists>t. iterator_run s = Some (Done () t) \<and> cells t = cells s
    \<and> out t = out s @ collection_lines vector_header int_element
        @ collection_lines endl data_element
        @ collection_lines list_header int_element
        @ collection_lines endl data_element"
proof -
  obtain t1 x1 where 1: "shown_collection vector_header (VectorConcreteAggregate []) int_element s
      = Some (Done (Some (brk s)) t1)" "fresh_above t1" "cells t1 = (cells s)(brk s \<mapsto> x1)"
    "out t1 = out s @ collection_lines vector_header int_element"
    using shown_collection_runs assms by blast
  obtain t2 x2 where 2: "shown_collection endl (VectorConcreteAggregate []) data_element t1
      = Some (Done (Some (brk t1)) t2)" "fresh_above t2" "cells t2 = (cells t1)(brk t1 \<mapsto> x2)"
    "out t2 = out t1 @ collection_lines endl data_element"
    using shown_collection_runs 1(2) by blast
  obtain t3 x3 where 3: "shown_collection list_header (ListConreteAggregate []) int_element t2
      = Some (Done (Some (brk t2)) t3)" "fresh_above t3" "cells t3 = (cells t2)(brk t2 \<mapsto> x3)"
    "out t3 = out t2 @ collection_lines list_header int_element"
    using shown_collection_runs 2(2) by blast
  obtain t4 x4 where 4: "shown_collection endl (ListConreteAggregate []) data_element t3
      = Some (Done (Some (brk t3)) t4)" "fresh_above t4" "cells t4 = (cells t3)(brk t3 \<mapsto> x4)"
    "out t4 = out t3 @ collection_lines endl data_element"
    using shown_collection_runs 3(2) by blast
  have b1: "brk s < brk t1" using fresh_above_live [OF 1(2), of "brk s"] 1(3) by simp
  have b2: "brk t1 < brk t2" using fresh_above_live [OF 2(2), of "brk t1"] 2(3) by simp
  have b3: "brk t2 < brk t3" using fresh_above_live [OF 3(2), of "brk t2"] 3(3) by simp
  note b = b1 b2 b3 less_trans [OF b1 b2] less_trans [OF b2 b3] less_trans [OF less_trans [OF b1 b2] b3]
  have none: "cells s (brk s) = None" "cells s (brk t1) = None" "cells s (brk t2) = None" "cells s (brk t3) = None"
    using assms b by (simp_all add: fresh_above_def)
  let ?t = "t4\<lparr>cells := cells s\<rparr>"
  have "oblock (map (\<lambda>c. terminating (free c)) [Some (brk t3), Some (brk t2), Some (brk t1), Some (brk s)]) t4
      = Some (Done () ?t)"
    using b none 1(3) 2(3) 3(3) 4(3) by (simp add: machine fun_upd_twist fun_upd_idem)
  then have "iterator_run s = Some (Done () ?t)"
    by (simp add: iterator_run_def oseq_def 1(1) 2(1) 3(1) 4(1) del: list.map)
  with 1(4) 2(4) 3(4) 4(4) show ?thesis by auto
qed

theorem iterator_run_outcome_witness:
  "\<exists>t. iterator_run boot = Some (Done () t) \<and> live_addrs t = []"
  using iterator_run_outcome [of boot] by (auto simp: live_addrs_def boot_sel)

text \<open>
  The two iterators are not interchangeable while the aggregate grows: once the last element
  was taken, appending one makes the vector iterator offer it, whereas the list iterator stays at
  the end.
\<close>

theorem iterator_after_append:
  assumes "cells s d = Some (VectorConcreteAggregate xs)" "cells s v = Some (VectorConcreteIterator (Some d) (length xs))"
    and "cells s e = Some (ListConreteAggregate xs)" "cells s l = Some (ListConcreteIterator (Some e) None)"
  shows "\<exists>t. block [add (Some d) y, add (Some e) y] s = Done () t
    \<and> hasNext (Some v) t = Done True t \<and> hasNext (Some l) t = Done False t"
proof -
  have "d \<noteq> v" "d \<noteq> e" "d \<noteq> l" "e \<noteq> v" "e \<noteq> l" using assms by auto
  with assms show ?thesis
    by (simp add: add_def hasNext_def vector_data_def list_data_def machine)
qed

theorem iterator_after_append_witness:
  "\<exists>t. block [add (Some 0) 5, add (Some 2) (5::int)] (boot\<lparr>cells := [0 \<mapsto> VectorConcreteAggregate [],
       1 \<mapsto> VectorConcreteIterator (Some 0) 0, 2 \<mapsto> ListConreteAggregate [], 3 \<mapsto> ListConcreteIterator (Some 2) None]\<rparr>)
     = Done () t \<and> hasNext (Some 1) t = Done True t \<and> hasNext (Some 3) t = Done False t"
  using iterator_after_append [of "boot\<lparr>cells := [0 \<mapsto> VectorConcreteAggregate [],
       1 \<mapsto> VectorConcreteIterator (Some 0) 0, 2 \<mapsto> ListConreteAggregate [], 3 \<mapsto> ListConcreteIterator (Some 2) None]\<rparr>"
      0 "[]" 1 2 3 "5::int"]
  by simp

text \<open>Two iterators over one aggregate advance independently.\<close>

lemma iterators_independent:
  assumes "vector_at rest it (x # xs) s" "cells s j = Some (VectorConcreteIterator d i)" "j \<noteq> it"
  shows "\<exists>t. iter_next (Some it) s = Done (Some x) t \<and> cells t j = Some (VectorConcreteIterator d i)"
  using vector_at_step [OF assms(1)] assms(1-3) by (auto simp: vector_at_def)

end
