(* ===== verification/AbstractFactory.thy ===== *)
theory AbstractFactory
  imports Prelude
begin

text \<open>
  \<open>src/dp/creational/AbstractFactory.cpp\<close>: a selector creates the factory of an operating system;
  the client asks one factory for a debugger and a build tool and launches them.  Objects held by
  \<open>std::unique_ptr\<close> are allocated by \<open>make_unique\<close> and freed at the end of the scope.

  Lemmas: for any name of an operating system, the two products come from one family, everything
  is freed again, and a name that is not supported makes the client call a null factory.
\<close>

datatype obj =
    LinuxGdbProduct | WindowsGdbProduct | MacOsGdbProduct
  | LinuxCMakeProduct | WindowsCMakeProduct | MacOsCMakeProduct
  | WindowsProductFactory | LinuxProductFactory | MacOsProductFactory

section \<open>Products\<close>

definition launch :: "ptr \<Rightarrow> (obj world, unit) prog" where
  "launch this = seq (load this) (\<lambda>x. case x of
      LinuxGdbProduct \<Rightarrow> LOG ''sudo apt update && sudo apt install -y gdb && gdb --version''
    | WindowsGdbProduct \<Rightarrow> LOG ''pacman -Syu mingw-w64-x86_64-gdb && gdb --version''
    | MacOsGdbProduct \<Rightarrow> LOG ''brew install gdb && gdb --version''
    | LinuxCMakeProduct \<Rightarrow> LOG ''sudo apt update && sudo apt install -y cmake && cmake --version''
    | WindowsCMakeProduct \<Rightarrow> LOG ''pacman -Syu cmake && cmake --version''
    | MacOsCMakeProduct \<Rightarrow> LOG (tab @ ''brew install cmake && cmake --version'')
    | _ \<Rightarrow> undef WrongType)"

section \<open>Factories\<close>

definition create_gdb_product :: "ptr \<Rightarrow> (obj world, ptr) prog" where
  "create_gdb_product this = seq (load this) (\<lambda>x. case x of
      WindowsProductFactory \<Rightarrow> alloc WindowsGdbProduct
    | LinuxProductFactory \<Rightarrow> alloc LinuxGdbProduct
    | MacOsProductFactory \<Rightarrow> alloc MacOsGdbProduct
    | _ \<Rightarrow> undef WrongType)"

definition create_cmake_product :: "ptr \<Rightarrow> (obj world, ptr) prog" where
  "create_cmake_product this = seq (load this) (\<lambda>x. case x of
      WindowsProductFactory \<Rightarrow> alloc WindowsCMakeProduct
    | LinuxProductFactory \<Rightarrow> alloc LinuxCMakeProduct
    | MacOsProductFactory \<Rightarrow> alloc MacOsCMakeProduct
    | _ \<Rightarrow> undef WrongType)"

definition create_product_factory :: "string \<Rightarrow> (obj world, ptr) prog" where
  "create_product_factory os =
     (if os = ''linux'' then alloc LinuxProductFactory
      else if os = ''windows'' then alloc WindowsProductFactory
      else if os = ''macos'' then alloc MacOsProductFactory
      else seq (LOG (''OS not support yet - '' @ os)) (\<lambda>_. ret None))"

text \<open>The lambda \<open>client_code\<close> of \<open>run\<close>; its two products are destroyed in reverse order.\<close>

definition client_code :: "ptr \<Rightarrow> (obj world, unit) prog" where
  "client_code f =
     seq (create_cmake_product f) (\<lambda>cmake.
     seq (create_gdb_product f) (\<lambda>gdb. block [
       launch cmake, launch gdb, free gdb, free cmake]))"

text \<open>\<open>abstract_factory::run\<close> with its constant \<open>os\<close> as an argument.\<close>

definition abstract_factory_run :: "string \<Rightarrow> (obj world, unit) prog" where
  "abstract_factory_run os =
     seq (LOG ''Abstract Factory Pattern Example'') (\<lambda>_.
     seq (create_product_factory os) (\<lambda>factory.
     seq (client_code factory) (\<lambda>_. free factory)))"

lemmas factory_defs [defs] = launch_def create_gdb_product_def create_cmake_product_def
  create_product_factory_def client_code_def

section \<open>Families\<close>

text \<open>The shell commands of the build tool and the debugger of one operating system.\<close>

definition family :: "string \<Rightarrow> (string \<times> string) option" where
  "family = [
     ''linux'' \<mapsto> (''sudo apt update && sudo apt install -y cmake && cmake --version'',
                   ''sudo apt update && sudo apt install -y gdb && gdb --version''),
     ''windows'' \<mapsto> (''pacman -Syu cmake && cmake --version'',
                     ''pacman -Syu mingw-w64-x86_64-gdb && gdb --version''),
     ''macos'' \<mapsto> (tab @ ''brew install cmake && cmake --version'', ''brew install gdb && gdb --version'')]"

lemma family_cases:
  obtains "os = ''linux''" | "os = ''windows''" | "os = ''macos''"
    | "os \<noteq> ''linux''" "os \<noteq> ''windows''" "os \<noteq> ''macos''" "family os = None"
  by (cases "os = ''linux''"; cases "os = ''windows''"; cases "os = ''macos''") (auto simp: family_def)

section \<open>Properties\<close>

text \<open>
  For any operating system name: if it is supported, the client installs the build tool and
  the debugger of exactly that system, and factory and products are freed again; if it is not, the
  selector's null pointer is called by the client, which is undefined behaviour.
\<close>

theorem abstract_factory_one_family:
  assumes "fresh_above s"
  shows "case family os of
      Some (cmake, gdb) \<Rightarrow> (\<exists>t. abstract_factory_run os s = Done () t \<and> cells t = cells s
        \<and> out t = out s @ map Log [''Abstract Factory Pattern Example'', cmake, gdb])
    | None \<Rightarrow> abstract_factory_run os s = Undef NullDeref"
proof -
  have none: "cells s (brk s) = None" "cells s (Suc (brk s)) = None" "cells s (Suc (Suc (brk s))) = None"
    using assms by (simp_all add: fresh_above_def)
  show ?thesis
    using none
    by (cases os rule: family_cases)
      (simp_all add: abstract_factory_run_def factory_defs machine family_def fun_eq_iff)
qed

theorem abstract_factory_one_family_witness:
  "abstract_factory_run ''plan9'' boot = Undef NullDeref"
  using abstract_factory_one_family [of boot "''plan9''"] by (simp add: family_def)

end
