(* ===== verification/FactoryMethod.thy ===== *)
theory FactoryMethod
  imports Prelude
begin

text \<open>
  \<open>src/dp/creational/FactoryMethod.cpp\<close>: the base factory's \<open>launch_gdb\<close> creates its product
  through the virtual \<open>factory_method\<close> of the concrete factory; the client checks for a null
  factory.

  Lemmas: what the client launches for any name of an operating system, with nothing left
  allocated; the demonstration's output.
\<close>

datatype obj =
    LinuxGdbProduct | WindowsGdbProduct | MacOsGdbProduct
  | WindowsGdbFactory | LinuxGdbFactory | MacOsGdbFactory

definition launch :: "ptr \<Rightarrow> (obj world, unit) prog" where
  "launch this = seq (load this) (\<lambda>x. case x of
      LinuxGdbProduct \<Rightarrow> LOG ''sudo apt update && sudo apt install -y gdb && gdb --version''
    | WindowsGdbProduct \<Rightarrow> LOG ''pacman -Syu mingw-w64-x86_64-gdb && gdb --version''
    | MacOsGdbProduct \<Rightarrow> LOG ''brew install gdb && gdb --version''
    | _ \<Rightarrow> undef WrongType)"

definition factory_method :: "ptr \<Rightarrow> (obj world, ptr) prog" where
  "factory_method this = seq (load this) (\<lambda>x. case x of
      WindowsGdbFactory \<Rightarrow> alloc WindowsGdbProduct
    | LinuxGdbFactory \<Rightarrow> alloc LinuxGdbProduct
    | MacOsGdbFactory \<Rightarrow> alloc MacOsGdbProduct
    | _ \<Rightarrow> undef WrongType)"

definition launch_gdb :: "ptr \<Rightarrow> (obj world, unit) prog" where
  "launch_gdb this = seq (factory_method this) (\<lambda>gdb. seq (launch gdb) (\<lambda>_. free gdb))"

definition create_gdb_factory :: "string \<Rightarrow> (obj world, ptr) prog" where
  "create_gdb_factory os =
     (if os = ''linux'' then alloc LinuxGdbFactory
      else if os = ''windows'' then alloc WindowsGdbFactory
      else if os = ''macos'' then alloc MacOsGdbFactory
      else seq (LOG (''OS not support yet - '' @ os)) (\<lambda>_. ret None))"

definition client_code :: "ptr \<Rightarrow> (obj world, unit) prog" where
  "client_code gdb = (if gdb \<noteq> None then launch_gdb gdb else ret ())"

text \<open>One block of \<open>factory_method::run\<close>, and \<open>run\<close>.\<close>

definition with_os :: "string \<Rightarrow> (obj world, unit) prog" where
  "with_os os = seq (create_gdb_factory os) (\<lambda>gdb. seq (client_code gdb) (\<lambda>_. free gdb))"

definition factory_method_run :: "(obj world, unit) prog" where
  "factory_method_run = block (map with_os [''linux'', ''windows'', ''macos'', ''unknown''])"

lemmas factory_defs [defs] = launch_def factory_method_def launch_gdb_def create_gdb_factory_def
  client_code_def with_os_def

definition installs :: "string \<Rightarrow> string" where
  "installs os =
     (if os = ''linux'' then ''sudo apt update && sudo apt install -y gdb && gdb --version''
      else if os = ''windows'' then ''pacman -Syu mingw-w64-x86_64-gdb && gdb --version''
      else if os = ''macos'' then ''brew install gdb && gdb --version''
      else ''OS not support yet - '' @ os)"

lemma with_os_effect:
  assumes "fresh_above s"
  shows "\<exists>t. with_os os s = Done () t \<and> cells t = cells s \<and> fresh_above t
    \<and> out t = out s @ [Log (installs os)]"
proof -
  have none: "cells s (brk s) = None" "cells s (Suc (brk s)) = None" "\<forall>a \<ge> brk s. cells s a = None"
    using assms by (simp_all add: fresh_above_def)
  then show ?thesis
    by (auto simp: factory_defs machine installs_def fresh_above_def fun_eq_iff)
qed

section \<open>Properties\<close>

text \<open>
  A client that goes through any list of operating system names launches exactly the debugger
  of each supported one and reports each unsupported one, in order; the calls never fault, and
  every factory and product is freed.
\<close>

theorem factory_method_clients:
  assumes "fresh_above s"
  shows "\<exists>t. block (map with_os oss) s = Done () t \<and> cells t = cells s
    \<and> out t = out s @ map (\<lambda>os. Log (installs os)) oss"
  using assms
proof (induction oss arbitrary: s)
  case Nil
  then show ?case by (simp add: machine)
next
  case (Cons os oss)
  obtain u where u: "with_os os s = Done () u" "cells u = cells s" "fresh_above u"
    "out u = out s @ [Log (installs os)]"
    using with_os_effect [OF Cons.prems] by blast
  from Cons.IH [OF u(3)] u show ?case by (auto simp: seq_def)
qed

theorem factory_method_clients_witness:
  "\<exists>t. factory_method_run boot = Done () t \<and> cells t = cells boot
    \<and> out t = map Log [''sudo apt update && sudo apt install -y gdb && gdb --version'',
        ''pacman -Syu mingw-w64-x86_64-gdb && gdb --version'', ''brew install gdb && gdb --version'',
        ''OS not support yet - unknown'']"
  using factory_method_clients [of boot "[''linux'', ''windows'', ''macos'', ''unknown'']"]
  by (simp add: factory_method_run_def installs_def boot_sel)

end
