(* ===== verification/Singleton.thy ===== *)
theory Singleton
  imports Prelude
begin

text \<open>
  \<open>src/dp/creational/Singleton.cpp\<close>: the only instance is a function-local static, created at the
  first call of \<open>get_instance\<close>.  The static is a field of the extended world: \<open>None\<close> until then.

  Lemmas: any sequence of calls sees one instance and the value stored last.
\<close>

datatype obj = SingletonConfig string

record config_world = "obj world" +
  instance_ref :: ptr

definition start :: config_world where
  "start = \<lparr>cells = (\<lambda>_. None), brk = 0, out = [], instance_ref = None\<rparr>"

type_synonym 'a cprog = "(config_world, 'a) prog"

definition get_instance :: "ptr cprog" where
  "get_instance s = (case instance_ref s of
      Some a \<Rightarrow> Done (Some a) s
    | None \<Rightarrow> seq (alloc (SingletonConfig '''')) (\<lambda>p s. Done p (s\<lparr>instance_ref := p\<rparr>)) s)"

definition init :: "ptr \<Rightarrow> string \<Rightarrow> unit cprog" where
  "init this input = seq (LOG input) (\<lambda>_. store this (SingletonConfig input))"

definition get_value :: "ptr \<Rightarrow> string cprog" where
  "get_value this = seq (LOG '''') (\<lambda>_.
     seq (load this) (\<lambda>x. case x of SingletonConfig v \<Rightarrow> ret v))"

definition client_code :: "unit cprog" where
  "client_code = seq get_instance (\<lambda>p. seq (get_value p) LOG)"

definition singleton_run :: "unit cprog" where
  "singleton_run = seq get_instance (\<lambda>s1. seq (init s1 ''0x001'') (\<lambda>_. client_code))"

section \<open>Sessions\<close>

text \<open>A client either stores a value or prints the stored one, always through \<open>get_instance\<close>.\<close>

datatype call = Init string | Print

fun perform :: "call \<Rightarrow> unit cprog" where
  "perform (Init v) = seq get_instance (\<lambda>p. init p v)"
| "perform Print = client_code"

fun stored :: "string \<Rightarrow> call list \<Rightarrow> string" where
  "stored v [] = v"
| "stored v (Init w # cs) = stored w cs"
| "stored v (Print # cs) = stored v cs"

fun logged :: "string \<Rightarrow> call list \<Rightarrow> string list" where
  "logged v [] = []"
| "logged v (Init w # cs) = w # logged w cs"
| "logged v (Print # cs) = '''' # v # logged v cs"

text \<open>The instance is not created yet (and the value is empty), or is the object at 0.\<close>

definition config :: "config_world \<Rightarrow> string \<Rightarrow> bool" where
  "config s v \<longleftrightarrow> s\<lparr>out := []\<rparr> = start\<lparr>out := []\<rparr> \<and> v = ''''
     \<or> brk s = 1 \<and> instance_ref s = Some 0 \<and> cells s = [0 \<mapsto> SingletonConfig v]"

lemma perform_step:
  assumes "config s v"
  shows "\<exists>t. perform c s = Done () t \<and> config t (stored v [c]) \<and> out t = out s @ map Log (logged v [c])
    \<and> brk t = 1 \<and> instance_ref t = Some 0 \<and> cells t = [0 \<mapsto> SingletonConfig (stored v [c])]"
proof -
  have "(brk s = 0 \<and> instance_ref s = None \<and> cells s = Map.empty \<and> v = '''')
      \<or> brk s = 1 \<and> instance_ref s = Some 0 \<and> cells s = [0 \<mapsto> SingletonConfig v]"
    using assms by (cases s) (auto simp: config_def start_def)
  then show ?thesis
    by (cases c) (auto simp: get_instance_def init_def get_value_def client_code_def machine says_def config_def)
qed

lemma perform_all:
  assumes "config s v" "cs \<noteq> []"
  shows "\<exists>t. block (map perform cs) s = Done () t \<and> out t = out s @ map Log (logged v cs)
    \<and> brk t = 1 \<and> instance_ref t = Some 0 \<and> cells t = [0 \<mapsto> SingletonConfig (stored v cs)]"
  using assms
proof (induction cs arbitrary: s v)
  case Nil
  then show ?case by simp
next
  case (Cons c cs)
  obtain u where u: "perform c s = Done () u" "config u (stored v [c])" "out u = out s @ map Log (logged v [c])"
    "brk u = 1" "instance_ref u = Some 0" "cells u = [0 \<mapsto> SingletonConfig (stored v [c])]"
    using perform_step [OF Cons.prems(1)] by blast
  show ?case
  proof (cases "cs = []")
    case True
    with u show ?thesis by (simp add: machine fun_upd_def)
  next
    case False
    from Cons.IH [OF u(2) False] u show ?thesis by (cases c) (auto simp: seq_def)
  qed
qed

section \<open>Properties\<close>

text \<open>
  However many clients call \<open>get_instance\<close>, in whatever order they store and print values,
  exactly one object is ever created, and every print shows the value stored last (the empty
  string before the first store).
\<close>

theorem singleton_one_instance:
  assumes "cs \<noteq> []"
  shows "\<exists>t. block (map perform cs) start = Done () t
    \<and> brk t = 1 \<and> instance_ref t = Some 0 \<and> cells t = [0 \<mapsto> SingletonConfig (stored '''' cs)]
    \<and> out t = map Log (logged '''' cs)"
  using perform_all [of start "''''" cs] assms by (auto simp: config_def start_def)

theorem singleton_one_instance_witness:
  "\<exists>t. block (map perform [Print, Init ''a'', Print]) start = Done () t
    \<and> cells t = [0 \<mapsto> SingletonConfig ''a''] \<and> out t = map Log ['''', '''', ''a'', '''', ''a'']"
  using singleton_one_instance [of "[Print, Init ''a'', Print]"] by auto

lemma singleton_run_trace:
  "\<exists>t. singleton_run start = Done () t \<and> out t = map Log [''0x001'', '''', ''0x001'']"
  by (simp add: singleton_run_def get_instance_def init_def get_value_def client_code_def start_def machine says_def)

end
