(* ===== verification/Prototype.thy ===== *)
theory Prototype
  imports Prelude "HOL-Library.AList"
begin

text \<open>
  \<open>src/dp/creational/Prototype.cpp\<close>: a registry owns one prototype object per name and creates
  objects by cloning them.  The \<open>std::unordered_map\<close> is an association list with distinct keys;
  nothing below depends on its order.

  Lemmas: after any sequence of registrations, which names can be created and as what; a clone is
  a new object; a replaced prototype is deleted; the registry's destructor frees all of them.
\<close>

datatype extension = LoggerExtension string | AnalyticsExtension int

datatype obj =
    Extension extension
  | ExtensionPrototypeRegistry "(string \<times> ptr) list"

definition kLoggerExtId :: string where
  "kLoggerExtId = ''logger''"

definition kAnalyzeId :: string where
  "kAnalyzeId = ''analyze''"

section \<open>Prototypes\<close>

definition clone :: "ptr \<Rightarrow> (obj world, ptr) prog" where
  "clone this = seq (load this) (\<lambda>x. case x of
      Extension (LoggerExtension l) \<Rightarrow> alloc (Extension (LoggerExtension l))
    | Extension (AnalyticsExtension r) \<Rightarrow> alloc (Extension (AnalyticsExtension r))
    | _ \<Rightarrow> undef WrongType)"

definition execute :: "ptr \<Rightarrow> (obj world, unit) prog" where
  "execute this = seq (load this) (\<lambda>x. case x of
      Extension (LoggerExtension l) \<Rightarrow> LOG (''log level: '' @ l)
    | Extension (AnalyticsExtension r) \<Rightarrow> LOG (''sampling rate: '' @ show_int r)
    | _ \<Rightarrow> undef WrongType)"

section \<open>The registry\<close>

definition prototypes :: "ptr \<Rightarrow> (obj world, (string \<times> ptr) list) prog" where
  "prototypes this = seq (load this) (\<lambda>x. case x of
      ExtensionPrototypeRegistry m \<Rightarrow> ret m | _ \<Rightarrow> undef WrongType)"

text \<open>\<open>prototypes_[id] = std::move(proto)\<close> inserts a null pointer for a new name, and deletes the
  object the entry owned before.\<close>

definition register_extension :: "ptr \<Rightarrow> string \<Rightarrow> ptr \<Rightarrow> (obj world, unit) prog" where
  "register_extension this i proto =
     seq (LOG i) (\<lambda>_.
     seq (prototypes this) (\<lambda>m.
     seq (store this (ExtensionPrototypeRegistry (AList.update i proto m))) (\<lambda>_.
     free (case map_of m i of None \<Rightarrow> None | Some p \<Rightarrow> p))))"

definition create :: "ptr \<Rightarrow> string \<Rightarrow> (obj world, ptr) prog" where
  "create this i = seq (prototypes this) (\<lambda>m. case map_of m i of
      None \<Rightarrow> ret None
    | Some p \<Rightarrow> clone p)"

definition delete_Registry :: "ptr \<Rightarrow> (obj world, unit) prog" where
  "delete_Registry this = seq (prototypes this) (\<lambda>m. seq (for_each (map snd m) free) (\<lambda>_. free this))"

definition client_code :: "ptr \<Rightarrow> (obj world, unit) prog" where
  "client_code reg =
     seq (create reg kLoggerExtId) (\<lambda>logger_ext.
     seq (create reg kAnalyzeId) (\<lambda>analytics_ext. block [
       if logger_ext \<noteq> None then execute logger_ext else ret (),
       if analytics_ext \<noteq> None then execute analytics_ext else ret (),
       free analytics_ext, free logger_ext]))"

definition register_new :: "ptr \<Rightarrow> string \<times> extension \<Rightarrow> (obj world, unit) prog" where
  "register_new reg e = seq (alloc (Extension (snd e))) (register_extension reg (fst e))"

definition prototype_run :: "(obj world, unit) prog" where
  "prototype_run = seq (alloc (ExtensionPrototypeRegistry [])) (\<lambda>registry. block [
     register_new registry (kLoggerExtId, LoggerExtension ''DEBUG''),
     register_new registry (kAnalyzeId, AnalyticsExtension 1200),
     client_code registry,
     delete_Registry registry])"

lemmas prototype_defs [defs] = kLoggerExtId_def kAnalyzeId_def clone_def execute_def prototypes_def
  register_extension_def create_def delete_Registry_def client_code_def register_new_def

section \<open>The registry invariant\<close>

text \<open>
  The ghost list \<open>al\<close> lists the entries with the address and the value of their prototype.  The
  registry and its prototypes, one object per name, are the only live objects.
\<close>

definition entries :: "(string \<times> nat \<times> extension) list \<Rightarrow> (string \<times> ptr) list" where
  "entries al = map (\<lambda>(k, v). (k, Some (fst v))) al"

definition owned :: "(nat \<Rightarrow> obj option) \<Rightarrow> nat \<Rightarrow> nat \<Rightarrow> (string \<Rightarrow> (nat \<times> extension) option) \<Rightarrow> bool" where
  "owned c n r m \<longleftrightarrow> (\<forall>a \<ge> n. c a = None) \<and> r < n
     \<and> (\<forall>k a x. m k = Some (a, x) \<longrightarrow> a \<noteq> r \<and> c a = Some (Extension x))
     \<and> (\<forall>k k' a x x'. m k = Some (a, x) \<longrightarrow> m k' = Some (a, x') \<longrightarrow> k = k')
     \<and> (\<forall>a. c a \<noteq> None \<longrightarrow> a \<noteq> r \<longrightarrow> (\<exists>k x. m k = Some (a, x)))"

definition holding :: "obj world \<Rightarrow> nat \<Rightarrow> (string \<times> nat \<times> extension) list \<Rightarrow> bool" where
  "holding s r al \<longleftrightarrow> distinct (map fst al) \<and> owned (cells s) (brk s) r (map_of al)
     \<and> cells s r = Some (ExtensionPrototypeRegistry (entries al))"

lemma owned_below: "owned c n r m \<Longrightarrow> m k = Some (a, x) \<Longrightarrow> a < n \<and> a \<noteq> r \<and> c a = Some (Extension x)"
  unfolding owned_def by (metis not_less option.distinct(1))

lemma owned_inj: "owned c n r m \<Longrightarrow> m k = Some (a, x) \<Longrightarrow> m k' = Some (a, x') \<Longrightarrow> k = k'"
  unfolding owned_def by blast

lemma owned_live: "owned c n r m \<Longrightarrow> c a = Some y \<Longrightarrow> a \<noteq> r \<Longrightarrow> \<exists>k x. m k = Some (a, x)"
  unfolding owned_def by blast

text \<open>Registering a fresh prototype and deleting the one it replaces.\<close>

lemma owned_update:
  assumes "owned c n r m"
    and "\<And>a. c' a = (if a = n then Some (Extension x) else if a = r then Some z
        else if \<exists>y. m k = Some (a, y) then None else c a)"
  shows "owned c' (Suc n) r (m(k \<mapsto> (n, x)))"
proof -
  have r: "r < n" "\<forall>a \<ge> n. c a = None" using assms(1) by (simp_all add: owned_def)
  have c': "c' a = Some (Extension y)" if "(m(k \<mapsto> (n, x))) j = Some (a, y)" for j a y
  proof (cases "j = k")
    case True
    with that assms(2) show ?thesis by auto
  next
    case False
    with that have m: "m j = Some (a, y)" by simp
    with owned_inj [OF assms(1) m, of k] False have "\<not> (\<exists>y. m k = Some (a, y))" by blast
    with owned_below [OF assms(1) m] show ?thesis by (simp add: assms(2))
  qed
  moreover have "a \<noteq> r" if "(m(k \<mapsto> (n, x))) j = Some (a, y)" for j a y
    using that r(1) owned_below [OF assms(1), of j a y] by (cases "j = k") auto
  moreover have "j = j'" if "(m(k \<mapsto> (n, x))) j = Some (a, y)" "(m(k \<mapsto> (n, x))) j' = Some (a, y')" for j j' a y y'
    using that owned_below [OF assms(1), of j a y] owned_below [OF assms(1), of j' a y']
      owned_inj [OF assms(1), of j a y j' y'] by (cases "j = k"; cases "j' = k") auto
  moreover have "\<exists>j y. (m(k \<mapsto> (n, x))) j = Some (a, y)" if "c' a \<noteq> None" "a \<noteq> r" for a
  proof (cases "a = n")
    case True
    then show ?thesis by auto
  next
    case False
    with that assms(2) [of a] have no: "\<not> (\<exists>y. m k = Some (a, y))" "c a \<noteq> None" by (auto split: if_splits)
    with owned_live [OF assms(1)] that(2) obtain j y where "m j = Some (a, y)" by blast
    with no have "(m(k \<mapsto> (n, x))) j = Some (a, y)" by auto
    then show ?thesis by blast
  qed
  moreover have "c' a = None" if "Suc n \<le> a" for a using r that by (simp add: assms(2))
  ultimately show ?thesis using r unfolding owned_def by (metis less_SucI)
qed

definition presets :: "(string \<times> nat \<times> extension) list \<Rightarrow> string \<Rightarrow> extension option" where
  "presets al k = map_option snd (map_of al k)"

lemma entries_update: "entries (AList.update k (a, x) al) = AList.update k (Some a) (entries al)"
  by (induction al) (auto simp: entries_def)

lemma map_of_entries: "map_of (entries al) k = map_option (\<lambda>v. Some (fst v)) (map_of al k)"
  unfolding entries_def by (subst map_of_map) (simp add: comp_def)

lemma presets_update: "presets (AList.update k (a, x) al) = (presets al)(k \<mapsto> x)"
  by (auto simp: presets_def update_conv' fun_eq_iff)

lemma holding_register:
  assumes "holding s r al"
  shows "\<exists>t. register_new (Some r) (k, x) s = Done () t
    \<and> holding t r (AList.update k (brk s, x) al) \<and> out t = out s @ [Log k]"
proof -
  have o: "owned (cells s) (brk s) r (map_of al)" and d: "distinct (map fst al)" using assms by (auto simp: holding_def)
  have r: "r < brk s" "cells s (brk s) = None" "cells s r = Some (ExtensionPrototypeRegistry (entries al))"
    using assms by (auto simp: holding_def owned_def)
  let ?s = "says (s\<lparr>brk := Suc (brk s), cells := (cells s)(brk s \<mapsto> Extension x,
      r \<mapsto> ExtensionPrototypeRegistry (entries (AList.update k (brk s, x) al)))\<rparr>) [Log k]"
  have run: "register_new (Some r) (k, x) s = free (case map_of al k of None \<Rightarrow> None | Some v \<Rightarrow> Some (fst v)) ?s"
  proof -
    have "(case map_of (entries al) k of None \<Rightarrow> None | Some p \<Rightarrow> p)
        = (case map_of al k of None \<Rightarrow> None | Some v \<Rightarrow> Some (fst v))"
      by (simp add: map_of_entries split: option.split)
    with r show ?thesis
      by (simp add: register_new_def register_extension_def prototypes_def alloc_def load_def store_def
          print_defs seq_def ret_def entries_update split: option.split)
  qed
  let ?c = "\<lambda>a. if a = brk s then Some (Extension x)
      else if a = r then Some (ExtensionPrototypeRegistry (entries (AList.update k (brk s, x) al)))
      else if \<exists>y. map_of al k = Some (a, y) then None else cells s a"
  let ?t = "?s\<lparr>cells := ?c\<rparr>"
  have "owned ?c (Suc (brk s)) r ((map_of al)(k \<mapsto> (brk s, x)))"
    by (rule owned_update [OF o]) simp
  then have "holding ?t r (AList.update k (brk s, x) al)"
    using d r(1) by (simp add: holding_def distinct_update update_conv')
  moreover have "free (case map_of al k of None \<Rightarrow> None | Some v \<Rightarrow> Some (fst v)) ?s = Done () ?t"
  proof (cases "map_of al k")
    case None
    then have "?c = cells ?s" using r(1) by (auto simp: fun_eq_iff)
    with None show ?thesis by (simp add: free_def)
  next
    case (Some v)
    obtain a y where v: "v = (a, y)" by (cases v)
    with Some owned_below [OF o] have a: "a < brk s" "a \<noteq> r" "cells s a = Some (Extension y)" by auto
    have "?c = (cells ?s)(a := None)" using r(1) a(1,2) Some v by (auto simp: fun_eq_iff)
    with a Some v show ?thesis by (simp add: free_def)
  qed
  ultimately show ?thesis using run by auto
qed

lemma holding_registers:
  assumes "holding s r al"
  shows "\<exists>t al'. block (map (register_new (Some r)) rs) s = Done () t \<and> holding t r al'
    \<and> presets al' = presets al ++ map_of (rev rs) \<and> out t = out s @ map (\<lambda>e. Log (fst e)) rs"
  using assms
proof (induction rs arbitrary: s al)
  case Nil
  then show ?case by (auto simp: machine)
next
  case (Cons e rs)
  obtain k x where e: "e = (k, x)" by (cases e)
  obtain u where u: "register_new (Some r) (k, x) s = Done () u"
    "holding u r (AList.update k (brk s, x) al)" "out u = out s @ [Log k]"
    using holding_register [OF Cons.prems] by blast
  from Cons.IH [OF u(2)] obtain t al' where t: "block (map (register_new (Some r)) rs) u = Done () t"
    "holding t r al'" "presets al' = (presets al)(k \<mapsto> x) ++ map_of (rev rs)"
    "out t = out u @ map (\<lambda>e. Log (fst e)) rs"
    unfolding presets_update by blast
  moreover have "(presets al)(k \<mapsto> x) ++ map_of (rev rs) = presets al ++ map_of (rev (e # rs))"
    by (simp add: e)
  ultimately have "holding t r al' \<and> presets al' = presets al ++ map_of (rev (e # rs))
      \<and> out t = out s @ map (\<lambda>e. Log (fst e)) (e # rs)"
    using u(3) e by (metis (no_types, lifting) append.assoc append_Cons append_Nil fst_conv list.simps(9))
  moreover have "block (map (register_new (Some r)) (e # rs)) s = Done () t"
    using t(1) u(1) e by (simp add: seq_def)
  ultimately show ?case by blast
qed

lemma holding_create:
  assumes "holding s r al"
  shows "create (Some r) k s = (case presets al k of
      None \<Rightarrow> Done None s
    | Some x \<Rightarrow> Done (Some (brk s)) (s\<lparr>cells := (cells s)(brk s \<mapsto> Extension x), brk := Suc (brk s)\<rparr>))"
proof -
  have r: "cells s r = Some (ExtensionPrototypeRegistry (entries al))" and o: "owned (cells s) (brk s) r (map_of al)"
    using assms by (auto simp: holding_def)
  show ?thesis
  proof (cases "map_of al k")
    case None
    with r show ?thesis by (simp add: create_def prototypes_def machine map_of_entries presets_def)
  next
    case (Some v)
    obtain a x where v: "v = (a, x)" by (cases v)
    with owned_below [OF o] Some have "cells s a = Some (Extension x)" by auto
    with r Some v show ?thesis
      by (cases x) (simp_all add: create_def prototypes_def clone_def machine map_of_entries presets_def)
  qed
qed

lemma holding_delete:
  assumes "holding s r al"
  shows "\<exists>t. delete_Registry (Some r) s = Done () t \<and> cells t = Map.empty"
proof -
  let ?as = "map (\<lambda>e. fst (snd e)) al"
  have r: "cells s r = Some (ExtensionPrototypeRegistry (entries al))" and o: "owned (cells s) (brk s) r (map_of al)"
    and d: "distinct (map fst al)"
    using assms by (auto simp: holding_def)
  have mem: "e \<in> set al \<Longrightarrow> map_of al (fst e) = Some (fst (snd e), snd (snd e))" for e
    using d by (cases e) simp
  have "inj_on (\<lambda>e. fst (snd e)) (set al)"
  proof (rule inj_onI)
    fix e f assume ef: "e \<in> set al" "f \<in> set al" "fst (snd e) = fst (snd f)"
    with owned_inj [OF o mem [OF ef(1)], of "fst f"] mem [OF ef(2)] have "fst e = fst f" by metis
    with mem [OF ef(1)] mem [OF ef(2)] show "e = f" by (simp add: prod_eq_iff)
  qed
  with d have dist: "distinct ?as" by (simp add: distinct_map)
  have below: "a \<noteq> r \<and> cells s a \<noteq> None" if a: "a \<in> set ?as" for a
  proof -
    from a obtain e where "e \<in> set al" "a = fst (snd e)" by auto
    with owned_below [OF o mem] show ?thesis by auto
  qed
  then have "for_each (map Some ?as) free s
      = Done () (s\<lparr>cells := (\<lambda>a. if a \<in> set ?as then None else cells s a)\<rparr>)"
    by (intro for_each_free [OF dist]) auto
  moreover have "map snd (entries al) = map Some ?as" by (simp add: entries_def case_prod_unfold)
  moreover have rn: "r \<notin> set ?as" using below by auto
  ultimately have "delete_Registry (Some r) s = Done ()
      (s\<lparr>cells := (\<lambda>a. if a \<in> set ?as then None else cells s a)(r := None)\<rparr>)"
    using r by (simp add: delete_Registry_def prototypes_def load_def free_def seq_def ret_def)
  moreover have "cells s a = None" if "a \<noteq> r" "a \<notin> set ?as" for a
  proof (rule ccontr)
    assume "cells s a \<noteq> None"
    with owned_live [OF o] that(1) obtain k x where "map_of al k = Some (a, x)" by blast
    then have "(k, a, x) \<in> set al" by (rule map_of_SomeD)
    with that(2) show False by force
  qed
  ultimately show ?thesis by (auto simp: fun_eq_iff)
qed

section \<open>Properties\<close>

text \<open>
  After any sequence of registrations, names repeated or not: creating an object by a
  registered name returns a new object that equals the prototype registered last under that name
  and leaves all others alone; creating by any other name returns the null pointer; and deleting
  the registry frees every object there is, replaced prototypes having been deleted before.
\<close>

theorem prototype_registry_clones:
  assumes "cells s = [r \<mapsto> ExtensionPrototypeRegistry []]" "fresh_above s"
  shows "\<exists>t. block (map (register_new (Some r)) rs) s = Done () t
    \<and> (\<forall>k. create (Some r) k t = (case map_of (rev rs) k of
          None \<Rightarrow> Done None t
        | Some x \<Rightarrow> Done (Some (brk t)) (t\<lparr>cells := (cells t)(brk t \<mapsto> Extension x), brk := Suc (brk t)\<rparr>)))
    \<and> cells t (brk t) = None
    \<and> (\<exists>u. delete_Registry (Some r) t = Done () u \<and> cells u = Map.empty)"
proof -
  have "r < brk s" using fresh_above_live [OF assms(2), of r] assms(1) by simp
  then have "holding s r []"
    using assms by (auto simp: holding_def entries_def owned_def fresh_above_def split: if_splits)
  moreover have "presets [] = Map.empty" by (simp add: presets_def fun_eq_iff)
  ultimately obtain t al where t: "block (map (register_new (Some r)) rs) s = Done () t"
    "holding t r al" "presets al = map_of (rev rs)"
    using holding_registers [of s r "[]" rs] by auto
  then show ?thesis
    using holding_create [OF t(2)] holding_delete [OF t(2)] by (auto simp: holding_def owned_def)
qed

theorem prototype_registry_clones_witness:
  "\<exists>t. block (map (register_new (Some 0)) [(''a'', LoggerExtension ''x''), (''a'', AnalyticsExtension 3)])
      (boot\<lparr>cells := [0 \<mapsto> ExtensionPrototypeRegistry []], brk := 1\<rparr>) = Done () t
    \<and> create (Some 0) ''b'' t = Done None t
    \<and> create (Some 0) ''a'' t = Done (Some (brk t))
        (t\<lparr>cells := (cells t)(brk t \<mapsto> Extension (AnalyticsExtension 3)), brk := Suc (brk t)\<rparr>)"
  using prototype_registry_clones [of "boot\<lparr>cells := [0 \<mapsto> ExtensionPrototypeRegistry []], brk := 1\<rparr>" 0
      "[(''a'', LoggerExtension ''x''), (''a'', AnalyticsExtension 3)]"]
  by (auto simp: fresh_above_def)

lemma prototype_run_trace:
  "\<exists>t. prototype_run boot = Done () t \<and> live_addrs t = []
    \<and> out t = map Log [''logger'', ''analyze'', ''log level: DEBUG'', ''sampling rate: 1200'']"
  by (simp add: prototype_run_def prototype_defs machine live_addrs_def upt_conv_Cons show_int_def
      show_nat.simps digit_char_literals)

end
