(* ===== verification/Builder.thy ===== *)
theory Builder
  imports Prelude
begin

text \<open>
  \<open>src/dp/creational/Builder.cpp\<close>: a builder owns a product under construction in a
  \<open>std::unique_ptr\<close>; \<open>build\<close> moves the product out, so the builder is empty until \<open>reset\<close>.

  The locale \<open>building\<close> is the builder interface with its contract, proved for clients that run
  any list of steps and interpreted for both concrete builders.
\<close>

datatype obj =
    Product "string list"
  | SimpleBuilder ptr
  | ComplexBuilder ptr

section \<open>Product\<close>

definition add_part :: "ptr \<Rightarrow> string \<Rightarrow> (obj world, unit) prog" where
  "add_part this part = seq (load this) (\<lambda>x. case x of
      Product ps \<Rightarrow> store this (Product (ps @ [part]))
    | _ \<Rightarrow> undef WrongType)"

text \<open>The loop of \<open>print\<close>: the index, the parts, and the stream so far.\<close>

fun print_from :: "nat \<Rightarrow> string list \<Rightarrow> nat \<Rightarrow> string" where
  "print_from i parts 0 = ''''"
| "print_from i parts (Suc n) = parts ! i @ (if i + 1 < length parts then '', '' else '''')
     @ print_from (i + 1) parts n"

definition print :: "ptr \<Rightarrow> (obj world, unit) prog" where
  "print this = seq (LOG ''Product parts: '') (\<lambda>_.
     seq (load this) (\<lambda>x. case x of
       Product ps \<Rightarrow> LOG (print_from 0 ps (length ps))
     | _ \<Rightarrow> undef WrongType))"

section \<open>Builders\<close>

definition product_of :: "ptr \<Rightarrow> (obj world, ptr) prog" where
  "product_of this = seq (load this) (\<lambda>x. case x of
      SimpleBuilder p \<Rightarrow> ret p
    | ComplexBuilder p \<Rightarrow> ret p
    | _ \<Rightarrow> undef WrongType)"

definition set_product :: "ptr \<Rightarrow> ptr \<Rightarrow> (obj world, unit) prog" where
  "set_product this q = seq (load this) (\<lambda>x. case x of
      SimpleBuilder _ \<Rightarrow> store this (SimpleBuilder q)
    | ComplexBuilder _ \<Rightarrow> store this (ComplexBuilder q)
    | _ \<Rightarrow> undef WrongType)"

definition new_SimpleBuilder :: "(obj world, ptr) prog" where
  "new_SimpleBuilder = seq (alloc (Product [])) (\<lambda>p. alloc (SimpleBuilder p))"

definition new_ComplexBuilder :: "(obj world, ptr) prog" where
  "new_ComplexBuilder = seq (alloc (Product [])) (\<lambda>p. alloc (ComplexBuilder p))"

definition delete_Builder :: "ptr \<Rightarrow> (obj world, unit) prog" where
  "delete_Builder this = seq (product_of this) (\<lambda>p. seq (free p) (\<lambda>_. free this))"

text \<open>\<open>product_ = std::make_unique<Product>()\<close>: the new product first, then the old one is deleted.\<close>

definition reset :: "ptr \<Rightarrow> (obj world, ptr) prog" where
  "reset this = seq (alloc (Product [])) (\<lambda>q.
     seq (product_of this) (\<lambda>p.
     seq (set_product this q) (\<lambda>_.
     seq (free p) (\<lambda>_. ret this))))"

definition produce_part_1 :: "ptr \<Rightarrow> (obj world, ptr) prog" where
  "produce_part_1 this = seq (load this) (\<lambda>x. case x of
      SimpleBuilder p \<Rightarrow> seq (add_part p ''PART1'') (\<lambda>_. ret this)
    | ComplexBuilder p \<Rightarrow> seq (add_part p ''PART_1-X9a7Fq!2@Lm#48Z'') (\<lambda>_. ret this)
    | _ \<Rightarrow> undef WrongType)"

definition produce_part_2 :: "ptr \<Rightarrow> (obj world, ptr) prog" where
  "produce_part_2 this = seq (load this) (\<lambda>x. case x of
      SimpleBuilder p \<Rightarrow> seq (add_part p ''PART2'') (\<lambda>_. ret this)
    | ComplexBuilder p \<Rightarrow> seq (add_part p ''PART_2-X9a7Fq!2@Lm#48Z'') (\<lambda>_. ret this)
    | _ \<Rightarrow> undef WrongType)"

definition produce_part_3 :: "ptr \<Rightarrow> (obj world, ptr) prog" where
  "produce_part_3 this = seq (load this) (\<lambda>x. case x of
      SimpleBuilder p \<Rightarrow> seq (add_part p ''PART3'') (\<lambda>_. ret this)
    | ComplexBuilder p \<Rightarrow> seq (add_part p ''PART_3-X9a7Fq!2@Lm#48Z'') (\<lambda>_. ret this)
    | _ \<Rightarrow> undef WrongType)"

definition build :: "ptr \<Rightarrow> (obj world, ptr) prog" where
  "build this = seq (product_of this) (\<lambda>p. seq (set_product this None) (\<lambda>_. ret p))"

section \<open>The client\<close>

text \<open>The lambda \<open>client_code\<close> of \<open>run\<close>; its two products are destroyed in reverse order.\<close>

definition client_code :: "ptr \<Rightarrow> (obj world, unit) prog" where
  "client_code builder =
     seq (seq (seq (seq (produce_part_1 builder) produce_part_2) produce_part_3) build) (\<lambda>p1.
     seq (print p1) (\<lambda>_.
     seq (seq (seq (reset builder) produce_part_1) build) (\<lambda>p2.
     seq (print p2) (\<lambda>_.
     seq (free p2) (\<lambda>_. free p1)))))"

definition builder_run :: "(obj world, unit) prog" where
  "builder_run =
     seq (LOG ''ConcreteBuilder: Simple'') (\<lambda>_.
     seq (seq new_SimpleBuilder (\<lambda>b. seq (client_code b) (\<lambda>_. delete_Builder b))) (\<lambda>_.
     seq (LOG ''ConcreteBuilder: Complex'') (\<lambda>_.
     seq new_ComplexBuilder (\<lambda>b. seq (client_code b) (\<lambda>_. delete_Builder b)))))"

lemmas builder_defs [defs] = add_part_def print_def product_of_def set_product_def new_SimpleBuilder_def
  new_ComplexBuilder_def delete_Builder_def reset_def produce_part_1_def
  produce_part_2_def produce_part_3_def build_def client_code_def

section \<open>Printing\<close>

fun joined :: "string list \<Rightarrow> string" where
  "joined [] = ''''"
| "joined [p] = p"
| "joined (p # ps) = p @ '', '' @ joined ps"

lemma print_from_joined: "i + n = length ps \<Longrightarrow> print_from i ps n = joined (drop i ps)"
proof (induction n arbitrary: i)
  case 0
  then show ?case by simp
next
  case (Suc n)
  then have d: "drop i ps = ps ! i # drop (Suc i) ps" by (simp add: Cons_nth_drop_Suc)
  show ?case
  proof (cases "drop (Suc i) ps")
    case Nil
    with Suc d show ?thesis by (cases n) auto
  next
    case (Cons q qs)
    then have "Suc i < length ps" by (metis drop_eq_Nil leI list.distinct(1))
    with Cons Suc d show ?thesis by simp
  qed
qed

section \<open>The builder contract\<close>

text \<open>
  \<open>making b ps rest s\<close>: the builder \<open>b\<close> owns a product with the parts \<open>ps\<close>, or none for \<open>None\<close>;
  \<open>rest\<close> are the objects that are not the builder's.
\<close>

primrec chain :: "('n \<Rightarrow> 'b \<Rightarrow> ('s, 'b) prog) \<Rightarrow> 'n list \<Rightarrow> 'b \<Rightarrow> ('s, 'b) prog" where
  "chain f [] b = ret b"
| "chain f (n # ns) b = seq (f n b) (chain f ns)"

locale building =
  fixes making :: "'b \<Rightarrow> string list option \<Rightarrow> 'r \<Rightarrow> 's \<Rightarrow> bool"
    and produce :: "'n \<Rightarrow> 'b \<Rightarrow> ('s, 'b) prog"
    and finish :: "'b \<Rightarrow> ('s, 'p) prog"
    and start_again :: "'b \<Rightarrow> ('s, 'b) prog"
    and label :: "'n \<Rightarrow> string"
    and extend :: "'r \<Rightarrow> 'p \<Rightarrow> string list \<Rightarrow> 'r"
  assumes produce_making: "making b (Some ps) r s \<Longrightarrow>
      \<exists>t. produce n b s = Done b t \<and> making b (Some (ps @ [label n])) r t"
    and produce_empty: "making b None r s \<Longrightarrow> produce n b s = Undef NullDeref"
    and finish_making: "making b (Some ps) r s \<Longrightarrow>
      \<exists>p t. finish b s = Done p t \<and> making b None (extend r p ps) t"
    and start_again_making: "making b x r s \<Longrightarrow> \<exists>t. start_again b s = Done b t \<and> making b (Some []) r t"
begin

lemma produce_all:
  "making b (Some ps) r s \<Longrightarrow>
     \<exists>t. chain produce ns b s = Done b t \<and> making b (Some (ps @ map label ns)) r t"
proof (induction ns arbitrary: ps s)
  case Nil
  then show ?case by (simp add: ret_def)
next
  case (Cons n ns)
  obtain u where u: "produce n b s = Done b u" "making b (Some (ps @ [label n])) r u"
    using produce_making [OF Cons.prems] by blast
  from Cons.IH [OF u(2)] u(1) show ?case by (auto simp: seq_def)
qed

lemma build_after_reset:
  assumes "making b x r s"
  shows "\<exists>p t. seq (seq (start_again b) (chain produce ns)) finish s = Done p t
     \<and> making b None (extend r p (map label ns)) t"
proof -
  obtain u where u: "start_again b s = Done b u" "making b (Some []) r u"
    using start_again_making [OF assms] by blast
  obtain v where v: "chain produce ns b u = Done b v" "making b (Some (map label ns)) r v"
    using produce_all [OF u(2), of ns] by auto
  from finish_making [OF v(2)] u(1) v(1) show ?thesis by (auto simp: seq_def)
qed

lemma produce_after_build:
  assumes "making b (Some ps) r s"
  shows "seq (finish b) (\<lambda>_. produce n b) s = Undef NullDeref"
proof -
  obtain p t where "finish b s = Done p t" "making b None (extend r p ps) t"
    using finish_making [OF assms] by blast
  with produce_empty show ?thesis by (simp add: seq_def)
qed

end

section \<open>Both builders meet the contract\<close>

datatype step = Part1 | Part2 | Part3

fun produce :: "step \<Rightarrow> ptr \<Rightarrow> (obj world, ptr) prog" where
  "produce Part1 = produce_part_1"
| "produce Part2 = produce_part_2"
| "produce Part3 = produce_part_3"

fun simple_label :: "step \<Rightarrow> string" where
  "simple_label Part1 = ''PART1''"
| "simple_label Part2 = ''PART2''"
| "simple_label Part3 = ''PART3''"

fun complex_label :: "step \<Rightarrow> string" where
  "complex_label Part1 = ''PART_1-X9a7Fq!2@Lm#48Z''"
| "complex_label Part2 = ''PART_2-X9a7Fq!2@Lm#48Z''"
| "complex_label Part3 = ''PART_3-X9a7Fq!2@Lm#48Z''"

text \<open>
  The builder at \<open>b\<close>, of the class \<open>c\<close>, and the product it owns, if any; \<open>rest\<close> is the store
  without these two.
\<close>

definition making :: "(ptr \<Rightarrow> obj) \<Rightarrow> ptr \<Rightarrow> string list option \<Rightarrow> (nat \<Rightarrow> obj option) \<Rightarrow> obj world \<Rightarrow> bool" where
  "making c b x rest s \<longleftrightarrow> (\<exists>a. b = Some a \<and> a < brk s \<and> rest a = None \<and> (\<forall>n \<ge> brk s. rest n = None) \<and>
     (case x of None \<Rightarrow> cells s = rest(a \<mapsto> c None)
      | Some ps \<Rightarrow> \<exists>p. p \<noteq> a \<and> p < brk s \<and> rest p = None
          \<and> cells s = rest(a \<mapsto> c (Some p), p \<mapsto> Product ps)))"

definition shipped :: "(nat \<Rightarrow> obj option) \<Rightarrow> ptr \<Rightarrow> string list \<Rightarrow> (nat \<Rightarrow> obj option)" where
  "shipped rest p ps = (case p of None \<Rightarrow> rest | Some a \<Rightarrow> rest(a \<mapsto> Product ps))"

lemma making_upd: "\<lbrakk>p \<noteq> a; rest p = None\<rbrakk> \<Longrightarrow> (rest(a \<mapsto> x, p \<mapsto> y))(p := None) = rest(a \<mapsto> x)"
  by (auto simp: fun_eq_iff)

lemma produce_simple:
  "making SimpleBuilder b (Some ps) rest s \<Longrightarrow>
     \<exists>t. produce n b s = Done b t \<and> making SimpleBuilder b (Some (ps @ [simple_label n])) rest t"
  by (cases n) (auto simp: making_def produce_part_1_def produce_part_2_def produce_part_3_def add_part_def machine)

lemma produce_complex:
  "making ComplexBuilder b (Some ps) rest s \<Longrightarrow>
     \<exists>t. produce n b s = Done b t \<and> making ComplexBuilder b (Some (ps @ [complex_label n])) rest t"
  by (cases n) (auto simp: making_def produce_part_1_def produce_part_2_def produce_part_3_def add_part_def machine)

lemma produce_without_product:
  "making SimpleBuilder b None rest s \<Longrightarrow> produce n b s = Undef NullDeref"
  "making ComplexBuilder b None rest s \<Longrightarrow> produce n b s = Undef NullDeref"
  by (cases n; auto simp: making_def produce_part_1_def produce_part_2_def produce_part_3_def add_part_def machine)+

lemma build_ships:
  assumes "c = SimpleBuilder \<or> c = ComplexBuilder" "making c b (Some ps) rest s"
  shows "\<exists>p t. build b s = Done p t \<and> making c b None (shipped rest p ps) t"
  using assms by (auto simp: making_def build_def product_of_def set_product_def machine shipped_def fun_eq_iff)

lemma reset_makes:
  assumes "c = SimpleBuilder \<or> c = ComplexBuilder" "making c b x rest s"
  shows "\<exists>t. reset b s = Done b t \<and> making c b (Some []) rest t"
proof -
  obtain a where a: "b = Some a" "a < brk s" "rest a = None" "\<forall>n \<ge> brk s. rest n = None"
    using assms(2) by (auto simp: making_def)
  show ?thesis
    using assms a
    by (cases x) (auto simp: making_def reset_def product_of_def set_product_def machine fun_eq_iff
        intro!: exI [of _ "brk s"])
qed

interpretation simple: building "making SimpleBuilder" produce build reset simple_label shipped
  by unfold_locales (simp_all add: produce_simple produce_without_product build_ships reset_makes)

interpretation complex: building "making ComplexBuilder" produce build reset complex_label shipped
  by unfold_locales (simp_all add: produce_complex produce_without_product build_ships reset_makes)

section \<open>Properties\<close>

definition builder_class :: "(ptr \<Rightarrow> obj) \<Rightarrow> (step \<Rightarrow> string) \<Rightarrow> bool" where
  "builder_class c label \<longleftrightarrow> c = SimpleBuilder \<and> label = simple_label
     \<or> c = ComplexBuilder \<and> label = complex_label"

text \<open>
  For either builder, in whatever state: after \<open>reset\<close>, any list of steps and \<open>build\<close> give a
  product that has exactly the parts of these steps, in order; the builder owns no product any
  more, and a product it owned before is deleted.
\<close>

theorem builder_any_steps:
  assumes "builder_class c label" "making c b x rest s"
  shows "\<exists>p t. seq (seq (reset b) (chain produce ns)) build s = Done p t
    \<and> making c b None (shipped rest p (map label ns)) t"
  using assms simple.build_after_reset [of b x rest s ns] complex.build_after_reset [of b x rest s ns]
  by (auto simp: builder_class_def)

theorem builder_any_steps_witness:
  "\<exists>p t. seq (seq (reset (Some 1)) (chain produce [Part3, Part1])) build
      (boot\<lparr>cells := [1 \<mapsto> SimpleBuilder None], brk := 2\<rparr>) = Done p t
    \<and> making SimpleBuilder (Some 1) None (shipped Map.empty p [''PART3'', ''PART1'']) t"
  using builder_any_steps [of SimpleBuilder simple_label "Some 1" None Map.empty
      "boot\<lparr>cells := [1 \<mapsto> SimpleBuilder None], brk := 2\<rparr>" "[Part3, Part1]"]
  by (simp add: builder_class_def making_def)

text \<open>
  After \<open>build\<close> and before \<open>reset\<close>, producing any part dereferences the builder's null product,
  with either builder.
\<close>

theorem builder_reuse_without_reset:
  assumes "builder_class c label" "making c b (Some ps) rest s"
  shows "seq (build b) (\<lambda>_. produce n b) s = Undef NullDeref"
  using assms simple.produce_after_build [of b ps rest s n] complex.produce_after_build [of b ps rest s n]
  by (auto simp: builder_class_def)

theorem builder_reuse_without_reset_witness:
  "seq (build (Some 1)) (\<lambda>_. produce Part2 (Some 1))
     (boot\<lparr>cells := [1 \<mapsto> ComplexBuilder (Some 0), 0 \<mapsto> Product []], brk := 2\<rparr>) = Undef NullDeref"
proof -
  have "making ComplexBuilder (Some 1) (Some []) Map.empty
      (boot\<lparr>cells := [1 \<mapsto> ComplexBuilder (Some 0), 0 \<mapsto> Product []], brk := 2\<rparr>)"
    by (auto simp: making_def intro!: exI [of _ 0])
  from builder_reuse_without_reset [OF _ this, of complex_label Part2] show ?thesis
    by (simp add: builder_class_def)
qed

text \<open>Printing a product shows its parts separated by commas.\<close>

lemma print_parts:
  "cells s p = Some (Product ps) \<Longrightarrow>
     print (Some p) s = Done () (says s [Log ''Product parts: '', Log (joined ps)])"
  by (simp add: print_def machine print_from_joined)

lemma builder_run_trace:
  "\<exists>t. builder_run boot = Done () t \<and> live_addrs t = [] \<and> out t = map Log [
     ''ConcreteBuilder: Simple'', ''Product parts: '', ''PART1, PART2, PART3'', ''Product parts: '', ''PART1'',
     ''ConcreteBuilder: Complex'', ''Product parts: '',
     ''PART_1-X9a7Fq!2@Lm#48Z, PART_2-X9a7Fq!2@Lm#48Z, PART_3-X9a7Fq!2@Lm#48Z'',
     ''Product parts: '', ''PART_1-X9a7Fq!2@Lm#48Z'']"
  by (simp add: builder_run_def builder_defs machine live_addrs_def upt_conv_Cons)

end
