(* ===== verification/Adapter.thy ===== *)
theory Adapter
  imports Prelude
begin

text \<open>
  \<open>src/dp/structural/Adapter.cpp\<close>.  Namespace \<open>adapter_pattern\<close>: an adapter forwards the target's
  request to an adaptee it does not own.  Namespace \<open>case_study\<close>: a payment interface with a card
  implementation and an adapter around an embedded PayPal object.

  Lemmas: a request through the adapter is the adaptee's own request; what the payment client does
  for any method.
\<close>

datatype obj =
    Adaptee int
  | Target
  | Adapter ptr
  | PaymentSystem
  | PayPalAdapter int

section \<open>Adapter\<close>

definition specific_request :: "ptr \<Rightarrow> (obj world, unit) prog" where
  "specific_request this = seq (load this) (\<lambda>x. case x of
      Adaptee d \<Rightarrow> seq (incr32 d) (\<lambda>e. seq (store this (Adaptee e)) (\<lambda>_. LOG ''executed''))
    | _ \<Rightarrow> undef WrongType)"

definition new_Adapter :: "ptr \<Rightarrow> (obj world, ptr) prog" where
  "new_Adapter adaptee = seq (LOG ''constructed'') (\<lambda>_. alloc (Adapter adaptee))"

definition request :: "ptr \<Rightarrow> (obj world, unit) prog" where
  "request this = seq (load this) (\<lambda>x. case x of
      Target \<Rightarrow> LOG ''executed''
    | Adapter adaptee \<Rightarrow> specific_request adaptee
    | _ \<Rightarrow> undef WrongType)"

definition client_code :: "ptr \<Rightarrow> (obj world, unit) prog" where
  "client_code target = seq (LOG ''executed'') (\<lambda>_. request target)"

text \<open>The objects of \<open>run\<close> are local variables, destroyed in reverse order.\<close>

definition adapter_run :: "(obj world, unit) prog" where
  "adapter_run =
     seq (LOG ''Adapter Example'') (\<lambda>_.
     seq (LOG ''Client: Can work just fine with the Target objects:'') (\<lambda>_.
     seq (alloc Target) (\<lambda>target.
     seq (client_code target) (\<lambda>_.
     seq (LOG ''Client: Cannot work with the Adaptee objects:'') (\<lambda>_.
     seq (alloc (Adaptee 0)) (\<lambda>adaptee.
     seq (LOG ''Client: But can work with it via the Adapter:'') (\<lambda>_.
     seq (new_Adapter adaptee) (\<lambda>adapter.
     seq (client_code adapter) (\<lambda>_.
     block [free adapter, free adaptee, free target])))))))))"

section \<open>Case study\<close>

definition pay_with_card :: "ptr \<Rightarrow> string \<Rightarrow> (obj world, unit) prog" where
  "pay_with_card this card_number = seq (load this) (\<lambda>x. case x of
      PaymentSystem \<Rightarrow> LOG (''Payment using card: '' @ card_number)
    | PayPalAdapter d \<Rightarrow> seq (LOG (''Payment sent via PayPal to '' @ card_number)) (\<lambda>_.
        seq (incr32 d) (\<lambda>e. store this (PayPalAdapter e)))
    | _ \<Rightarrow> undef WrongType)"

text \<open>\<open>case_study::run\<close> with its two local constants as arguments.\<close>

definition payment_run :: "string \<Rightarrow> string \<Rightarrow> (obj world, unit) prog" where
  "payment_run method input =
     seq (LOG ''Case Study Example'') (\<lambda>_.
     seq (LOG (''Choose payment method (card/paypal): '' @ method)) (\<lambda>_.
     seq (if method = ''card'' then
            seq (alloc PaymentSystem) (\<lambda>p. seq (pay_with_card p input) (\<lambda>_. ret p))
          else if method = ''paypal'' then
            seq (alloc (PayPalAdapter 0)) (\<lambda>p. seq (pay_with_card p input) (\<lambda>_. ret p))
          else seq (LOG ''Unsupported payment method!'') (\<lambda>_. ret None)) free))"

lemmas adapter_defs [defs] = specific_request_def new_Adapter_def request_def client_code_def pay_with_card_def

section \<open>Properties\<close>

text \<open>
  The client's calls through an adapter, any number of them, reach the adaptee each time: the
  console shows the client's and the adaptee's line per call, the adaptee has counted them (as long
  as the count fits in an \<open>int\<close>), and the adapter and all other objects are unchanged.
\<close>

theorem adapter_forwards:
  assumes "cells s p = Some (Adapter (Some a))" "cells s a = Some (Adaptee d)" "0 \<le> d" "d + int n < 2 ^ 31"
  shows "\<exists>t. repeat n (client_code (Some p)) s = Done () t
    \<and> cells t = (cells s)(a \<mapsto> Adaptee (d + int n))
    \<and> out t = out s @ concat (replicate n [Log ''executed'', Log ''executed''])"
  using assms
proof (induction n arbitrary: s d)
  case 0
  then show ?case by (auto simp: ret_def)
next
  case (Suc n)
  let ?u = "says (s\<lparr>cells := (cells s)(a \<mapsto> Adaptee (d + 1))\<rparr>) [Log ''executed'', Log ''executed'']"
  have ne: "p \<noteq> a" using Suc.prems(1,2) by auto
  have "client_code (Some p) s = Done () ?u"
    using Suc.prems by (simp add: client_code_def request_def specific_request_def machine)
  moreover have "\<exists>t. repeat n (client_code (Some p)) ?u = Done () t
      \<and> cells t = (cells ?u)(a \<mapsto> Adaptee (d + 1 + int n))
      \<and> out t = out ?u @ concat (replicate n [Log ''executed'', Log ''executed''])"
    by (rule Suc.IH) (use Suc.prems ne in auto)
  then obtain t where "repeat n (client_code (Some p)) ?u = Done () t"
    "cells t = (cells ?u)(a \<mapsto> Adaptee (d + 1 + int n))"
    "out t = out ?u @ concat (replicate n [Log ''executed'', Log ''executed''])" by blast
  ultimately show ?case by (simp add: seq_def algebra_simps fun_upd_def cong: if_cong)
qed

theorem adapter_forwards_witness:
  "\<exists>t. repeat 2 (client_code (Some 1)) (boot\<lparr>cells := [0 \<mapsto> Adaptee 0, 1 \<mapsto> Adapter (Some 0)]\<rparr>) = Done () t
    \<and> cells t = ([0 \<mapsto> Adaptee 0, 1 \<mapsto> Adapter (Some 0)])(0 \<mapsto> Adaptee 2)"
  using adapter_forwards [of "boot\<lparr>cells := [0 \<mapsto> Adaptee 0, 1 \<mapsto> Adapter (Some 0)]\<rparr>" 1 0 0 2] by auto

text \<open>For any method, the payment client pays through the right object, and frees it.\<close>

lemma payment_methods:
  assumes "fresh_above s"
  shows "\<exists>t. payment_run method input s = Done () t \<and> cells t = cells s
    \<and> out t = out s @ map Log [''Case Study Example'', ''Choose payment method (card/paypal): '' @ method,
        if method = ''card'' then ''Payment using card: '' @ input
        else if method = ''paypal'' then ''Payment sent via PayPal to '' @ input
        else ''Unsupported payment method!'']"
proof -
  have "cells s (brk s) = None" using assms by (simp add: fresh_above_def)
  then show ?thesis by (simp add: payment_run_def pay_with_card_def machine fun_upd_idem)
qed

lemma adapter_run_no_leak:
  "case adapter_run boot of Done _ t \<Rightarrow> live_addrs t = [] \<and> length (out t) = 9 | _ \<Rightarrow> False"
  by code_simp

end
