(* ===== verification/Bridge.thy ===== *)
theory Bridge
  imports Prelude
begin

text \<open>
  \<open>src/dp/structural/Bridge.cpp\<close>.  Namespace \<open>bridge_pattern\<close>: widgets share an implementation
  object through \<open>std::shared_ptr\<close>, modelled by a reference count in the shared object.  Namespace
  \<open>problem\<close>: one class per widget and platform.

  Lemmas: every widget works with every implementation; an implementation lives exactly as long as
  its last owner; the demonstration never deletes its first widget.
\<close>

datatype os = WindowsImplemetation | LinuxImplemetation

datatype widget = ButtonAbstraction | LabelAbstraction

datatype problem_widget = Button | ButtonWindows | ButtonLinux | Label | LabelWindows | LabelLinux

text \<open>A shared implementation has its number of owners.\<close>

datatype obj =
    Shared os nat
  | WidgetAbstraction widget ptr
  | Widget problem_widget

section \<open>One class per widget and platform\<close>

definition problem_click_on :: "ptr \<Rightarrow> (obj world, unit) prog" where
  "problem_click_on this = seq (load this) (\<lambda>x. case x of
      Widget Button \<Rightarrow> LOG ''executed''
    | Widget Label \<Rightarrow> LOG ''executed''
    | Widget _ \<Rightarrow> seq (LOG ''executed'') (\<lambda>_. LOG ''executed'')
    | _ \<Rightarrow> undef WrongType)"

definition problem_run :: "(obj world, unit) prog" where
  "problem_run =
     seq (LOG ''Problem'') (\<lambda>_.
     seq (alloc (Widget ButtonWindows)) (\<lambda>button.
     seq (if button \<noteq> None then problem_click_on button else ret ()) (\<lambda>_.
     free button)))"

section \<open>Shared ownership\<close>

definition make_shared :: "os \<Rightarrow> (obj world, ptr) prog" where
  "make_shared i = alloc (Shared i 1)"

text \<open>Copying and destroying a \<open>std::shared_ptr\<close>; an empty one owns nothing.\<close>

definition shared_copy :: "ptr \<Rightarrow> (obj world, ptr) prog" where
  "shared_copy p = (if p = None then ret None else seq (load p) (\<lambda>x. case x of
      Shared i n \<Rightarrow> seq (store p (Shared i (n + 1))) (\<lambda>_. ret p)
    | _ \<Rightarrow> undef WrongType))"

definition shared_drop :: "ptr \<Rightarrow> (obj world, unit) prog" where
  "shared_drop p = (if p = None then ret () else seq (load p) (\<lambda>x. case x of
      Shared i n \<Rightarrow> if n \<le> 1 then free p else store p (Shared i (n - 1))
    | _ \<Rightarrow> undef WrongType))"

section \<open>Implementations and widgets\<close>

definition click_on_ipl :: "ptr \<Rightarrow> (obj world, unit) prog" where
  "click_on_ipl this = seq (load this) (\<lambda>x. case x of
      Shared WindowsImplemetation _ \<Rightarrow> LOG ''[Windows]''
    | Shared LinuxImplemetation _ \<Rightarrow> LOG ''[Linux]''
    | _ \<Rightarrow> undef WrongType)"

text \<open>The constructors take the pointer by value and move it into the member.\<close>

definition new_Widget :: "widget \<Rightarrow> ptr \<Rightarrow> (obj world, ptr) prog" where
  "new_Widget w implemetation = seq (shared_copy implemetation) (\<lambda>p. alloc (WidgetAbstraction w p))"

definition delete_Widget :: "ptr \<Rightarrow> (obj world, unit) prog" where
  "delete_Widget this = seq (load this) (\<lambda>x. case x of
      WidgetAbstraction w p \<Rightarrow> seq (shared_drop p) (\<lambda>_. free this)
    | _ \<Rightarrow> undef WrongType)"

definition click_on :: "ptr \<Rightarrow> (obj world, unit) prog" where
  "click_on this = seq (load this) (\<lambda>x. case x of
      WidgetAbstraction ButtonAbstraction p \<Rightarrow> seq (LOG ''executed'') (\<lambda>_. click_on_ipl p)
    | WidgetAbstraction LabelAbstraction p \<Rightarrow> seq (LOG ''executed'') (\<lambda>_. click_on_ipl p)
    | _ \<Rightarrow> undef WrongType)"

definition client_code :: "ptr \<Rightarrow> (obj world, unit) prog" where
  "client_code widget = (if widget \<noteq> None then click_on widget else ret ())"

text \<open>Assigning a new \<open>std::shared_ptr\<close> to the variable \<open>os\<close> drops its old value; at the end of the
  scope \<open>os\<close> itself is destroyed.\<close>

definition bridge_run :: "(obj world, unit) prog" where
  "bridge_run =
     seq (LOG ''Bridge Example'') (\<lambda>_.
     seq (make_shared WindowsImplemetation) (\<lambda>os.
     seq (new_Widget ButtonAbstraction os) (\<lambda>widget.
     seq (client_code widget) (\<lambda>_.
     seq (make_shared LinuxImplemetation) (\<lambda>os'.
     seq (shared_drop os) (\<lambda>_.
     seq (new_Widget LabelAbstraction os') (\<lambda>widget'.
     seq (client_code widget') (\<lambda>_.
     seq (delete_Widget widget') (\<lambda>_.
     shared_drop os')))))))))"

lemmas bridge_defs [defs] = problem_click_on_def make_shared_def shared_copy_def shared_drop_def click_on_ipl_def
  new_Widget_def delete_Widget_def click_on_def client_code_def

fun os_line :: "os \<Rightarrow> string" where
  "os_line WindowsImplemetation = ''[Windows]''"
| "os_line LinuxImplemetation = ''[Linux]''"

section \<open>Widgets sharing one implementation\<close>

text \<open>\<open>n\<close> owners: the variable and the widgets at \<open>ws\<close>, which are all live.\<close>

definition sharing :: "obj world \<Rightarrow> nat \<Rightarrow> os \<Rightarrow> nat list \<Rightarrow> bool" where
  "sharing s o' i ws \<longleftrightarrow> fresh_above s \<and> distinct ws \<and> cells s o' = Some (Shared i (Suc (length ws)))
     \<and> (\<forall>w \<in> set ws. w \<noteq> o' \<and> (\<exists>k. cells s w = Some (WidgetAbstraction k (Some o'))))"

lemma sharing_new:
  assumes "sharing s o' i ws"
  shows "\<exists>t. seq (new_Widget k (Some o')) (\<lambda>p. seq (client_code p) (\<lambda>_. ret p)) s = Done (Some (brk s)) t
    \<and> sharing t o' i (ws @ [brk s]) \<and> brk t = Suc (brk s)
    \<and> out t = out s @ [Log ''executed'', Log (os_line i)]"
proof -
  have b: "o' < brk s" "\<forall>w \<in> set ws. w < brk s"
    using assms fresh_above_live [of s] unfolding sharing_def by blast+
  then show ?thesis
    using assms
    by (cases i; cases k) (auto simp: sharing_def bridge_defs machine fresh_above_def)
qed

primrec new_widgets :: "ptr \<Rightarrow> widget list \<Rightarrow> (obj world, ptr list) prog" where
  "new_widgets os [] = ret []"
| "new_widgets os (k # ks) = seq (seq (new_Widget k os) (\<lambda>p. seq (client_code p) (\<lambda>_. ret p))) (\<lambda>p.
     seq (new_widgets os ks) (\<lambda>ps. ret (p # ps)))"

lemma sharing_news:
  assumes "sharing s o' i ws"
  shows "\<exists>t us. new_widgets (Some o') ks s = Done (map Some us) t \<and> sharing t o' i (ws @ us) \<and> length us = length ks
    \<and> out t = out s @ concat (replicate (length ks) [Log ''executed'', Log (os_line i)])"
  using assms
proof (induction ks arbitrary: s ws)
  case Nil
  then show ?case by (simp add: ret_def)
next
  case (Cons k ks)
  obtain u where u: "seq (new_Widget k (Some o')) (\<lambda>p. seq (client_code p) (\<lambda>_. ret p)) s = Done (Some (brk s)) u"
    "sharing u o' i (ws @ [brk s])" "out u = out s @ [Log ''executed'', Log (os_line i)]"
    using sharing_new [OF Cons.prems] by blast
  obtain t us where t: "new_widgets (Some o') ks u = Done (map Some us) t" "sharing t o' i ((ws @ [brk s]) @ us)"
    "length us = length ks" "out t = out u @ concat (replicate (length ks) [Log ''executed'', Log (os_line i)])"
    using Cons.IH [OF u(2)] by blast
  have "new_widgets (Some o') (k # ks) s = Done (map Some (brk s # us)) t"
    using u(1) t(1) by (simp add: seq_def [of "seq _ _"] seq_def [of "new_widgets _ _"] ret_def)
  with t u(3) show ?case by (intro exI [of _ t] exI [of _ "brk s # us"]) simp
qed

lemma sharing_delete:
  assumes "sharing s o' i (w # ws)"
  shows "\<exists>t. delete_Widget (Some w) s = Done () t \<and> sharing t o' i ws \<and> out t = out s"
  using assms by (auto simp: sharing_def delete_Widget_def shared_drop_def machine fresh_above_def)

lemma sharing_deletes:
  assumes "sharing s o' i ws"
  shows "\<exists>t. for_each (map Some ws) delete_Widget s = Done () t \<and> sharing t o' i [] \<and> out t = out s"
  using assms
proof (induction ws arbitrary: s)
  case Nil
  then show ?case by (simp add: ret_def)
next
  case (Cons w ws)
  from sharing_delete [OF Cons.prems] Cons.IH show ?case by (fastforce simp: seq_def)
qed

section \<open>Properties\<close>

text \<open>
  Any number of widgets of either class share one implementation of either platform: every
  click reaches that implementation; the implementation outlives the deletion of all its widgets as
  long as the variable holds it, and is deleted with its last owner.
\<close>

theorem bridge_shared_implementation:
  assumes "fresh_above s"
  shows "\<exists>t o' ws u v. seq (make_shared i) (\<lambda>os. new_widgets os ks) s = Done (map Some ws) t
    \<and> out t = out s @ concat (replicate (length ks) [Log ''executed'', Log (os_line i)])
    \<and> for_each (map Some ws) delete_Widget t = Done () u \<and> cells u o' = Some (Shared i 1)
    \<and> shared_drop (Some o') u = Done () v \<and> cells v o' = None"
proof -
  let ?s = "s\<lparr>cells := (cells s)(brk s \<mapsto> Shared i 1), brk := Suc (brk s)\<rparr>"
  have "sharing ?s (brk s) i []" using fresh_above_update(1) [OF assms] by (simp add: sharing_def)
  from sharing_news [OF this, of ks] obtain t ws where t: "new_widgets (Some (brk s)) ks ?s = Done (map Some ws) t"
    "sharing t (brk s) i ws" "out t = out s @ concat (replicate (length ks) [Log ''executed'', Log (os_line i)])"
    by auto
  from sharing_deletes [OF t(2)] obtain u where "for_each (map Some ws) delete_Widget t = Done () u"
    "sharing u (brk s) i []" by blast
  moreover from this have "shared_drop (Some (brk s)) u = Done () (u\<lparr>cells := (cells u)(brk s := None)\<rparr>)"
    by (simp add: shared_drop_def machine sharing_def)
  moreover have "seq (make_shared i) (\<lambda>os. new_widgets os ks) s = Done (map Some ws) t"
    using t(1) by (simp add: make_shared_def machine)
  moreover have "cells (u\<lparr>cells := (cells u)(brk s := None)\<rparr>) (brk s) = None" by simp
  moreover have "cells u (brk s) = Some (Shared i 1)" using calculation(2) by (simp add: sharing_def)
  ultimately show ?thesis using t(3) by blast
qed

theorem bridge_shared_implementation_witness:
  "\<exists>t o' ws u v. seq (make_shared LinuxImplemetation) (\<lambda>os. new_widgets os [ButtonAbstraction, LabelAbstraction]) boot
      = Done (map Some ws) t
    \<and> out t = map Log [''executed'', ''[Linux]'', ''executed'', ''[Linux]'']
    \<and> for_each (map Some ws) delete_Widget t = Done () u \<and> cells u o' = Some (Shared LinuxImplemetation 1)
    \<and> shared_drop (Some o') u = Done () v \<and> cells v o' = None"
  using bridge_shared_implementation [of boot LinuxImplemetation "[ButtonAbstraction, LabelAbstraction]"]
  by (simp add: boot_sel)

text \<open>
  The demonstration reuses its widget variable: the first widget is never deleted and keeps the
  Windows implementation alive.
\<close>

lemma bridge_run_leaks:
  "\<exists>t. bridge_run boot = Done () t \<and> live_addrs t = [0, 1]
    \<and> cells t 0 = Some (Shared WindowsImplemetation 1) \<and> cells t 1 = Some (WidgetAbstraction ButtonAbstraction (Some 0))"
  by (simp add: bridge_run_def bridge_defs machine live_addrs_def upt_conv_Cons)

lemma problem_run_trace:
  "\<exists>t. problem_run boot = Done () t \<and> live_addrs t = [] \<and> out t = map Log [''Problem'', ''executed'', ''executed'']"
  by (simp add: problem_run_def problem_click_on_def machine live_addrs_def upt_conv_Cons)

end
