(* ===== verification/FolderTree.thy ===== *)
theory FolderTree
  imports Prelude
begin

text \<open>
  \<open>src/dp/structural/Composite.cpp\<close>, namespace \<open>problem\<close>: folders own files and sub-folders
  through raw pointers.  The recursive functions follow the pointers, which may form a cycle, so
  they take fuel: the result is \<open>None\<close> when the fuel is used up, and the lemmas show that the
  height of the folder tree is enough.

  Lemmas: on a tree of folders, the size is the number of files \<open>getFilesRecursive\<close> lists; the
  destructor frees exactly the tree; removing by name deletes the first match only.
\<close>

datatype obj =
    File string
  | Folder string "ptr list" "ptr list"

section \<open>Files\<close>

definition File_name :: "ptr \<Rightarrow> (obj world, string) prog" where
  "File_name this = seq (load this) (\<lambda>x. case x of File n \<Rightarrow> ret n | _ \<Rightarrow> undef WrongType)"

definition File_setName :: "ptr \<Rightarrow> string \<Rightarrow> (obj world, unit) prog" where
  "File_setName this name = seq (File_name this) (\<lambda>_. store this (File name))"

definition File_open :: "ptr \<Rightarrow> (obj world, unit) prog" where
  "File_open this = seq (File_name this) (\<lambda>n. cout (''Open file: '' @ n @ endl))"

section \<open>Folders\<close>

definition folder :: "ptr \<Rightarrow> (obj world, string \<times> ptr list \<times> ptr list) prog" where
  "folder this = seq (load this) (\<lambda>x. case x of
      Folder n fs sfs \<Rightarrow> ret (n, fs, sfs) | _ \<Rightarrow> undef WrongType)"

definition Folder_name :: "ptr \<Rightarrow> (obj world, string) prog" where
  "Folder_name this = seq (folder this) (\<lambda>(n, fs, sfs). ret n)"

definition Folder_open :: "ptr \<Rightarrow> (obj world, unit) prog" where
  "Folder_open this = seq (folder this) (\<lambda>(n, fs, sfs). cout (''Open Folder: '' @ n @ endl))"

definition addFile :: "ptr \<Rightarrow> ptr \<Rightarrow> (obj world, unit) prog" where
  "addFile this f = seq (folder this) (\<lambda>(n, fs, sfs). store this (Folder n (fs @ [f]) sfs))"

definition addFolder :: "ptr \<Rightarrow> ptr \<Rightarrow> (obj world, unit) prog" where
  "addFolder this sf = seq (folder this) (\<lambda>(n, fs, sfs). store this (Folder n fs (sfs @ [sf])))"

definition removeFile :: "ptr \<Rightarrow> ptr \<Rightarrow> (obj world, unit) prog" where
  "removeFile this f = seq (folder this) (\<lambda>(n, fs, sfs). store this (Folder n (removeAll f fs) sfs))"

definition removeFolder :: "ptr \<Rightarrow> ptr \<Rightarrow> (obj world, unit) prog" where
  "removeFolder this sf = seq (folder this) (\<lambda>(n, fs, sfs). store this (Folder n fs (removeAll sf sfs)))"

text \<open>\<open>std::find_if\<close> with a predicate that reads the objects: the position of the first match.\<close>

primrec find_if :: "ptr list \<Rightarrow> (ptr \<Rightarrow> (obj world, bool) prog) \<Rightarrow> nat \<Rightarrow> (obj world, nat option) prog" where
  "find_if [] P i = ret None"
| "find_if (p # ps) P i = seq (P p) (\<lambda>b. if b then ret (Some i) else find_if ps P (Suc i))"

definition erase :: "'a list \<Rightarrow> nat \<Rightarrow> 'a list" where
  "erase xs i = take i xs @ drop (Suc i) xs"

definition removeFileByName :: "ptr \<Rightarrow> string \<Rightarrow> (obj world, unit) prog" where
  "removeFileByName this name =
     seq (folder this) (\<lambda>(n, fs, sfs).
     seq (find_if fs (\<lambda>f. seq (File_name f) (\<lambda>m. ret (m = name))) 0) (\<lambda>it. case it of
       None \<Rightarrow> ret ()
     | Some i \<Rightarrow> seq (free (fs ! i)) (\<lambda>_. store this (Folder n (erase fs i) sfs))))"

section \<open>Recursion over the tree\<close>

text \<open>\<open>size\<close>: the number of files below, added up in an \<open>int\<close>.\<close>

fun folder_size :: "nat \<Rightarrow> ptr \<Rightarrow> (obj world, int) oprog" where
  "folder_size 0 this = no_fuel"
| "folder_size (Suc n) this =
     oseq (terminating (folder this)) (\<lambda>(nm, fs, sfs).
     ofold (\<lambda>sf sz. oseq (folder_size n sf) (\<lambda>k. terminating (to_int32 (sz + k))))
       sfs (cast_int (int (length fs))))"

fun getFilesRecursive :: "nat \<Rightarrow> ptr \<Rightarrow> ptr list \<Rightarrow> (obj world, ptr list) oprog" where
  "getFilesRecursive 0 this acc = no_fuel"
| "getFilesRecursive (Suc n) this acc =
     oseq (terminating (folder this)) (\<lambda>(nm, fs, sfs). ofold (getFilesRecursive n) sfs (acc @ fs))"

fun getSubFoldersRecursive :: "nat \<Rightarrow> ptr \<Rightarrow> ptr list \<Rightarrow> (obj world, ptr list) oprog" where
  "getSubFoldersRecursive 0 this acc = no_fuel"
| "getSubFoldersRecursive (Suc n) this acc =
     oseq (terminating (folder this)) (\<lambda>(nm, fs, sfs). ofold (getSubFoldersRecursive n) sfs (acc @ sfs))"

fun delete_Folder :: "nat \<Rightarrow> ptr \<Rightarrow> (obj world, unit) oprog" where
  "delete_Folder 0 this = no_fuel"
| "delete_Folder (Suc n) this = (if this = None then terminating (ret ()) else
     oseq (terminating (folder this)) (\<lambda>(nm, fs, sfs).
     oseq (terminating (for_each fs free)) (\<lambda>_.
     oseq (ofor_each sfs (delete_Folder n)) (\<lambda>_.
     terminating (free this)))))"

definition removeFolderByName :: "nat \<Rightarrow> ptr \<Rightarrow> string \<Rightarrow> (obj world, unit) oprog" where
  "removeFolderByName fuel this name =
     oseq (terminating (folder this)) (\<lambda>(n, fs, sfs).
     oseq (terminating (find_if sfs (\<lambda>f. seq (Folder_name f) (\<lambda>m. ret (m = name))) 0)) (\<lambda>it. case it of
       None \<Rightarrow> terminating (ret ())
     | Some i \<Rightarrow> oseq (delete_Folder fuel (sfs ! i)) (\<lambda>_. terminating (store this (Folder n fs (erase sfs i))))))"

definition clientCode :: "nat \<Rightarrow> ptr \<Rightarrow> (obj world, unit) oprog" where
  "clientCode fuel this =
     oseq (terminating (seq (Folder_name this) (\<lambda>n. cout (''File name: '' @ n @ endl)))) (\<lambda>_.
     oseq (terminating (Folder_open this)) (\<lambda>_.
     oseq (terminating (Folder_name this)) (\<lambda>n.
     oseq (folder_size fuel this) (\<lambda>k.
     oseq (terminating (cout (''Folder size: '' @ n @ '', size: '' @ show_int k @ endl))) (\<lambda>_.
     oseq (getFilesRecursive fuel this []) (\<lambda>files.
     oseq (terminating (for_each files (\<lambda>f.
       seq (File_name f) (\<lambda>m. cout (tab @ tab @ ''File: '' @ m @ endl))))) (\<lambda>_.
     oseq (getSubFoldersRecursive fuel this []) (\<lambda>sub_folders.
     terminating (for_each sub_folders (\<lambda>sf.
       seq (Folder_name sf) (\<lambda>m. cout (tab @ tab @ ''Folder: '' @ m @ endl))))))))))))"

text \<open>\<open>new File(*f)\<close> and \<open>new Folder(*f)\<close>: the implicit copy constructors copy the pointers.\<close>

definition copy :: "ptr \<Rightarrow> (obj world, ptr) prog" where
  "copy p = seq (load p) alloc"

definition problem_run :: "nat \<Rightarrow> (obj world, unit) oprog" where
  "problem_run fuel =
     oseq (terminating (
       seq (cout (endl @ endl)) (\<lambda>_.
       seq (alloc (Folder ''root'' [] [])) (\<lambda>root.
       seq (Folder_open root) (\<lambda>_.
       seq (alloc (File ''fileName1.txt'')) (\<lambda>file1.
       seq (alloc (File ''fileName2.txt'')) (\<lambda>file2.
       seq (alloc (File ''fileName3.txt'')) (\<lambda>file3.
       seq (block (map (\<lambda>f. seq (copy f) (addFile root)) [file1, file2, file3])) (\<lambda>_.
       seq (alloc (Folder ''subFolder1'' [] [])) (\<lambda>sub_folder1.
       seq (alloc (Folder ''subFolder2'' [] [])) (\<lambda>sub_folder2.
       seq (alloc (Folder ''subFolder3'' [] [])) (\<lambda>sub_folder3.
       seq (block (map (\<lambda>f. seq (copy f) (addFolder root)) [sub_folder1, sub_folder2, sub_folder3])) (\<lambda>_.
       ret (root, [sub_folder1, sub_folder2, sub_folder3], [file1, file2, file3])))))))))))))) (\<lambda>(root, sfs, fs).
     oblock ([clientCode fuel root] @ map (delete_Folder fuel) sfs @ [
       terminating (for_each fs free),
       terminating (removeFileByName root ''fileName1.txt''),
       clientCode fuel root,
       delete_Folder fuel root]))"

lemmas folder_defs [defs] = copy_def Folder_open_def addFile_def addFolder_def folder_def clientCode_def
  Folder_name_def File_name_def removeFileByName_def

section \<open>Trees\<close>

text \<open>
  A folder tree with its addresses: the folder, its name, its files and its sub-folders.
\<close>

datatype tree = Node (addr: nat) (label: string) (files: "(nat \<times> string) list") (subs: "tree list")

primrec tree_at :: "obj world \<Rightarrow> tree \<Rightarrow> bool" where
  "tree_at s (Node a nm fs ts) \<longleftrightarrow>
     cells s a = Some (Folder nm (map (\<lambda>f. Some (fst f)) fs) (map (\<lambda>t. Some (addr t)) ts))
     \<and> (\<forall>f \<in> set fs. cells s (fst f) = Some (File (snd f)))
     \<and> (\<forall>b \<in> set (map (tree_at s) ts). b)"

primrec all_files :: "tree \<Rightarrow> nat list" where
  "all_files (Node a nm fs ts) = map fst fs @ concat (map all_files ts)"

primrec sub_folders :: "tree \<Rightarrow> nat list" where
  "sub_folders (Node a nm fs ts) = map addr ts @ concat (map sub_folders ts)"

primrec footprint :: "tree \<Rightarrow> nat list" where
  "footprint (Node a nm fs ts) = a # map fst fs @ concat (map footprint ts)"

primrec height :: "tree \<Rightarrow> nat" where
  "height (Node a nm fs ts) = Suc (fold max (map height ts) 0)"

lemma fold_max_le: "x \<in> set xs \<Longrightarrow> x \<le> fold max xs (a::nat)" "a \<le> fold max xs (a::nat)"
proof -
  have *: "\<forall>a. a \<le> fold max xs (a::nat) \<and> (\<forall>x \<in> set xs. x \<le> fold max xs a)"
  proof (induction xs)
    case Nil
    then show ?case by simp
  next
    case (Cons y ys)
    then show ?case by (metis fold_simps(2) max.bounded_iff set_ConsD)
  qed
  from * show "x \<in> set xs \<Longrightarrow> x \<le> fold max xs a" "a \<le> fold max xs a" by auto
qed

lemma height_subfolder: "t \<in> set ts \<Longrightarrow> height t \<le> fold max (map height ts) 0"
  by (rule fold_max_le) simp

lemma folder_load:
  "tree_at s (Node a nm fs ts) \<Longrightarrow>
     folder (Some a) s = Done (nm, map (\<lambda>f. Some (fst f)) fs, map (\<lambda>t. Some (addr t)) ts) s"
  by (simp add: folder_def machine)

text \<open>A loop whose body computes from the tree and leaves the state alone.\<close>

lemma ofold_pure:
  "(\<And>x acc. x \<in> set xs \<Longrightarrow> f x acc s = Some (Done (g x acc) s)) \<Longrightarrow>
     ofold f xs acc s = Some (Done (fold g xs acc) s)"
  by (induction xs arbitrary: acc) (simp_all add: machine)

lemma fold_append: "fold (\<lambda>t acc. acc @ g t) ts acc = acc @ concat (map g ts)"
  by (induction ts arbitrary: acc) simp_all

lemma getFilesRecursive_tree:
  "tree_at s t \<Longrightarrow> height t \<le> n \<Longrightarrow>
     getFilesRecursive n (Some (addr t)) acc s = Some (Done (acc @ map Some (all_files t)) s)"
proof (induction t arbitrary: n acc)
  case (Node a nm fs ts)
  then obtain m where n: "n = Suc m" by (cases n) auto
  have step: "getFilesRecursive m (Some (addr t)) acc s = Some (Done (acc @ map Some (all_files t)) s)"
    if "t \<in> set ts" for t acc
    using Node.IH [OF that, of m acc] Node.prems that height_subfolder [OF that] n by auto
  have "ofold (getFilesRecursive m) (map (\<lambda>t. Some (addr t)) ts) acc s
      = Some (Done (acc @ concat (map (\<lambda>t. map Some (all_files t)) ts)) s)" for acc
    using step by (induction ts arbitrary: acc) (simp_all add: machine)
  then show ?case
    using folder_load [OF Node.prems(1)] by (simp add: n machine map_concat comp_def)
qed

lemma getSubFoldersRecursive_tree:
  "tree_at s t \<Longrightarrow> height t \<le> n \<Longrightarrow>
     getSubFoldersRecursive n (Some (addr t)) acc s = Some (Done (acc @ map Some (sub_folders t)) s)"
proof (induction t arbitrary: n acc)
  case (Node a nm fs ts)
  then obtain m where n: "n = Suc m" by (cases n) auto
  have step: "getSubFoldersRecursive m (Some (addr t)) acc s = Some (Done (acc @ map Some (sub_folders t)) s)"
    if "t \<in> set ts" for t acc
    using Node.IH [OF that, of m acc] Node.prems that height_subfolder [OF that] n by auto
  have "ofold (getSubFoldersRecursive m) (map (\<lambda>t. Some (addr t)) ts) acc s
      = Some (Done (acc @ concat (map (\<lambda>t. map Some (sub_folders t)) ts)) s)" for acc
    using step by (induction ts arbitrary: acc) (simp_all add: machine)
  then show ?case
    using folder_load [OF Node.prems(1)] by (simp add: n machine map_concat comp_def)
qed

lemma folder_size_tree:
  "tree_at s t \<Longrightarrow> height t \<le> n \<Longrightarrow> length (all_files t) < 2 ^ 31 \<Longrightarrow>
     folder_size n (Some (addr t)) s = Some (Done (int (length (all_files t))) s)"
proof (induction t arbitrary: n)
  case (Node a nm fs ts)
  then obtain m where n: "n = Suc m" by (cases n) auto
  have le: "length (all_files t) \<le> length (concat (map all_files ts))" if "t \<in> set ts" for t
    using that by (induction ts) auto
  have step: "folder_size m (Some (addr t)) s = Some (Done (int (length (all_files t))) s)"
    if "t \<in> set ts" for t
    using Node.IH [OF that, of m] Node.prems that height_subfolder [OF that] n le [OF that] by auto
  have "ofold (\<lambda>sf sz. oseq (folder_size m sf) (\<lambda>k. terminating (to_int32 (sz + k)))) (map (\<lambda>t. Some (addr t)) ts) (int i) s
      = Some (Done (int (i + length (concat (map all_files ts)))) s)"
    if "i + length (concat (map all_files ts)) < 2 ^ 31" for i
    using step that
  proof (induction ts arbitrary: i)
    case Nil
    then show ?case by (simp add: machine)
  next
    case (Cons t ts)
    have "int32 (int i + int (length (all_files t)))" using Cons.prems(2) by (simp add: int32_def)
    with Cons.prems Cons.IH [of "i + length (all_files t)"] show ?case
      by (simp add: machine add.assoc)
  qed
  from this [of "length fs"] Node.prems(3)
  have "ofold (\<lambda>sf sz. oseq (folder_size m sf) (\<lambda>k. terminating (to_int32 (sz + k)))) (map (\<lambda>t. Some (addr t)) ts)
      (cast_int (int (length fs))) s = Some (Done (int (length fs + length (concat (map all_files ts)))) s)"
    by (simp add: int32_def)
  then show ?case
    using folder_load [OF Node.prems(1)] by (simp add: n machine)
qed

section \<open>Deleting a tree\<close>

lemma folders_at_cong:
  "(\<And>a. a \<in> set (footprint t) \<Longrightarrow> cells s a = cells s' a) \<Longrightarrow> tree_at s t \<longleftrightarrow> tree_at s' t"
proof (induction t)
  case (Node a nm fs ts)
  have "tree_at s t \<longleftrightarrow> tree_at s' t" if "t \<in> set ts" for t
    using that Node.prems by (intro Node.IH) auto
  moreover have "cells s a = cells s' a" using Node.prems by simp
  moreover have "cells s (fst f) = cells s' (fst f)" if "f \<in> set fs" for f using that Node.prems by simp
  ultimately show ?case by auto
qed

lemma tree_at_live: "tree_at s t \<Longrightarrow> a \<in> set (footprint t) \<Longrightarrow> cells s a \<noteq> None"
proof (induction t)
  case (Node b nm fs ts)
  then show ?case by auto
qed

lemma delete_Folder_tree:
  "tree_at s t \<Longrightarrow> distinct (footprint t) \<Longrightarrow> height t \<le> n \<Longrightarrow>
     delete_Folder n (Some (addr t)) s = Some (Done () (without s (set (footprint t))))"
proof (induction t arbitrary: n s)
  case (Node a nm fs ts)
  then obtain m where n: "n = Suc m" by (cases n) auto
  have loop: "ofor_each (map (\<lambda>t. Some (addr t)) us) (delete_Folder m) s'
      = Some (Done () (without s' (set (concat (map footprint us)))))"
    if "set us \<subseteq> set ts" "\<forall>t \<in> set us. tree_at s' t" "distinct (concat (map footprint us))" for us s'
    using that
  proof (induction us arbitrary: s')
    case Nil
    then show ?case by (simp add: machine)
  next
    case (Cons u us)
    have "height u \<le> m" using Cons.prems(1) Node.prems(3) height_subfolder [of u ts] n by auto
    with Node.IH [of u s' m] Cons.prems
    have "delete_Folder m (Some (addr u)) s' = Some (Done () (without s' (set (footprint u))))" by auto
    moreover have "tree_at (without s' (set (footprint u))) t" if "t \<in> set us" for t
      by (subst folders_at_cong [of _ _ s']) (use that Cons.prems in auto)
    ultimately show ?case
      using Cons.prems Cons.IH [of "without s' (set (footprint u))"] by (simp add: machine)
  qed
  let ?s1 = "without s (set (map fst fs))"
  let ?s2 = "without ?s1 (set (concat (map footprint ts)))"
  have fs: "for_each (map (\<lambda>f. Some (fst f)) fs) free s = Done () ?s1"
    using for_each_free_without [of "map fst fs" s] Node.prems(1,2) by (auto simp: comp_def)
  have "\<forall>t \<in> set ts. tree_at ?s1 t"
  proof
    fix t assume "t \<in> set ts"
    with Node.prems(1,2) show "tree_at ?s1 t"
      by (subst folders_at_cong [of _ _ s]) fastforce+
  qed
  with loop [of ts ?s1] Node.prems(2)
  have sfs: "ofor_each (map (\<lambda>t. Some (addr t)) ts) (delete_Folder m) ?s1 = Some (Done () ?s2)" by simp
  have "cells ?s2 a = Some (Folder nm (map (\<lambda>f. Some (fst f)) fs) (map (\<lambda>t. Some (addr t)) ts))"
    using Node.prems(1,2) by auto
  from free_without [OF this] have "free (Some a) ?s2 = Done () (without s (set (footprint (Node a nm fs ts))))"
    by (simp add: Un_commute insert_def [symmetric] Un_assoc)
  with fs sfs folder_load [OF Node.prems(1)] show ?case by (simp add: n terminating_def oseq_def)
qed

section \<open>Removing a file by its name\<close>

lemma find_if_names:
  "\<forall>f \<in> set fs. cells s (fst f) = Some (File (snd f)) \<Longrightarrow>
     find_if (map (\<lambda>f. Some (fst f)) fs) (\<lambda>f. seq (File_name f) (\<lambda>m. ret (m = name))) i s
       = Done (if name \<in> snd ` set fs then Some (i + length (takeWhile (\<lambda>f. snd f \<noteq> name) fs)) else None) s"
  by (induction fs arbitrary: i) (auto simp: File_name_def machine)

lemma take_takeWhile: "take (length (takeWhile P xs)) xs = takeWhile P xs"
  by (induction xs) auto

lemma drop_takeWhile: "drop (length (takeWhile P xs)) xs = dropWhile P xs"
  by (induction xs) auto

section \<open>Properties\<close>

text \<open>
  On any folder tree, with fuel for its height: \<open>size\<close> and \<open>getFilesRecursive\<close> return, they
  change nothing, the list has the files of the folder and then of its sub-folders in order, and
  the size is exactly the length of that list (below the \<open>int\<close> limit).
\<close>

theorem folder_size_counts_files:
  assumes "tree_at s t" "height t \<le> n" "length (all_files t) < 2 ^ 31"
  shows "getFilesRecursive n (Some (addr t)) [] s = Some (Done (map Some (all_files t)) s)
    \<and> folder_size n (Some (addr t)) s = Some (Done (int (length (all_files t))) s)"
  using getFilesRecursive_tree [OF assms(1,2), of "[]"] folder_size_tree [OF assms] by simp

definition demo_tree :: tree where
  "demo_tree = Node 0 ''r'' [(1, ''a'')] [Node 2 ''s'' [(3, ''b''), (4, ''c'')] []]"

definition demo_folders :: "obj world" where
  "demo_folders = \<lparr>cells = [0 \<mapsto> Folder ''r'' [Some 1] [Some 2], 1 \<mapsto> File ''a'',
     2 \<mapsto> Folder ''s'' [Some 3, Some 4] [], 3 \<mapsto> File ''b'', 4 \<mapsto> File ''c''], brk = 5, out = []\<rparr>"

theorem folder_size_counts_files_witness:
  "getFilesRecursive 2 (Some 0) [] demo_folders = Some (Done [Some 1, Some 3, Some 4] demo_folders)
    \<and> folder_size 2 (Some 0) demo_folders = Some (Done 3 demo_folders)"
  using folder_size_counts_files [of demo_folders demo_tree 2] by (simp add: demo_tree_def demo_folders_def)

text \<open>
  Deleting the root of a folder tree in which no object is owned twice frees every folder and
  file of the tree and nothing else, and returns.
\<close>

theorem folder_delete_frees_tree:
  assumes "tree_at s t" "distinct (footprint t)" "height t \<le> n"
  shows "\<exists>u. delete_Folder n (Some (addr t)) s = Some (Done () u)
    \<and> (\<forall>a. cells u a = (if a \<in> set (footprint t) then None else cells s a))"
  using delete_Folder_tree [OF assms] by simp

theorem folder_delete_frees_tree_witness:
  "\<exists>u. delete_Folder 2 (Some 0) demo_folders = Some (Done () u) \<and> cells u 3 = None"
  using folder_delete_frees_tree [of demo_folders demo_tree 2] by (auto simp: demo_tree_def demo_folders_def)

text \<open>
  Removing a file by name deletes the first file of that name and removes it from the list, keeping
  the order of the others; without such a file nothing changes.
\<close>

lemma removeFileByName_first:
  assumes "tree_at s (Node a nm fs ts)" "distinct (a # map fst fs)"
  shows "removeFileByName (Some a) name s = (case dropWhile (\<lambda>f. snd f \<noteq> name) fs of
      [] \<Rightarrow> Done () s
    | f # rest \<Rightarrow> Done () (s\<lparr>cells := (cells s)(fst f := None, a \<mapsto> Folder nm
        (map (\<lambda>f. Some (fst f)) (takeWhile (\<lambda>f. snd f \<noteq> name) fs @ rest)) (map (\<lambda>t. Some (addr t)) ts))\<rparr>))"
proof -
  let ?tw = "takeWhile (\<lambda>f. snd f \<noteq> name) fs" and ?i = "length (takeWhile (\<lambda>f. snd f \<noteq> name) fs)"
  have find: "find_if (map (\<lambda>f. Some (fst f)) fs) (\<lambda>f. seq (File_name f) (\<lambda>m. ret (m = name))) 0 s
      = Done (if name \<in> snd ` set fs then Some ?i else None) s"
    using find_if_names [of fs s name 0] assms(1) by simp
  show ?thesis
  proof (cases "dropWhile (\<lambda>f. snd f \<noteq> name) fs")
    case Nil
    then have "name \<notin> snd ` set fs" by auto
    with Nil find folder_load [OF assms(1)] show ?thesis by (simp add: removeFileByName_def seq_def ret_def del: dropWhile_eq_Nil_conv)
  next
    case (Cons f rest)
    then have f: "f \<in> set fs" "snd f = name" and fs: "fs = ?tw @ f # rest"
      using takeWhile_dropWhile_id [of "\<lambda>f. snd f \<noteq> name" fs] hd_dropWhile [of "\<lambda>f. snd f \<noteq> name" fs]
      by (metis in_set_conv_decomp, force, metis)
    then have n: "name \<in> snd ` set fs" by auto
    have nth: "map (\<lambda>f. Some (fst f)) fs ! ?i = Some (fst f)"
      by (subst fs) (simp add: nth_append)
    have er: "erase (map (\<lambda>f. Some (fst f)) fs) ?i = map (\<lambda>f. Some (fst f)) (?tw @ rest)"
      by (subst (1) fs) (simp add: erase_def)
    have "cells s (fst f) = Some (File (snd f))" "fst f \<noteq> a" using f(1) assms by auto
    with nth er n Cons find folder_load [OF assms(1)] assms(1) show ?thesis
      by (simp add: removeFileByName_def seq_def ret_def free_def store_def)
  qed
qed

text \<open>The demonstration returns with fuel two; the empty sub-folders are copied, not shared.\<close>

lemma problem_run_no_leak:
  "case problem_run 2 boot of Some (Done _ t) \<Rightarrow> live_addrs t = [] | _ \<Rightarrow> False"
  by code_simp

end
