(* ===== verification/Composite.thy ===== *)
theory Composite
  imports Prelude
begin

text \<open>
  \<open>src/dp/structural/Composite.cpp\<close>, namespace \<open>composite_pattern\<close>: files, archives and short cuts
  are leaves, folders own their children; every object points back to its parent.  The recursive
  functions take fuel, as in \<open>FolderTree\<close>.

  Lemmas: the size of a folder counts all objects below it; deleting a folder deletes all of them,
  children before their folder; adding and removing keep the parent pointers; a short cut whose
  origin was deleted.
\<close>

datatype kind = File | ZipFile | ShortCut ptr | Folder "ptr list"

text \<open>An object with \<open>parent_\<close>, \<open>name_\<close> and what its class adds.\<close>

datatype obj = FileSystem (parent: ptr) (name: string) (kind: kind)

section \<open>The base class\<close>

definition getName :: "ptr \<Rightarrow> (obj world, string) prog" where
  "getName this = seq (load this) (\<lambda>x. ret (name x))"

definition setName :: "ptr \<Rightarrow> string \<Rightarrow> (obj world, unit) prog" where
  "setName this n = seq (load this) (\<lambda>x. store this (FileSystem (parent x) n (kind x)))"

definition getParent :: "ptr \<Rightarrow> (obj world, ptr) prog" where
  "getParent this = seq (load this) (\<lambda>x. ret (parent x))"

definition setParent :: "ptr \<Rightarrow> ptr \<Rightarrow> (obj world, unit) prog" where
  "setParent this p = seq (load this) (\<lambda>x. store this (FileSystem p (name x) (kind x)))"

definition isComposite :: "ptr \<Rightarrow> (obj world, bool) prog" where
  "isComposite this = seq (load this) (\<lambda>x. ret (case kind x of Folder _ \<Rightarrow> True | _ \<Rightarrow> False))"

definition new_ShortCut :: "ptr \<Rightarrow> (obj world, ptr) prog" where
  "new_ShortCut fs = seq (getName fs) (\<lambda>n. alloc (FileSystem None n (ShortCut fs)))"

section \<open>Virtual functions\<close>

abbreviation sq :: string where
  "sq \<equiv> [CHR 0x27]"

definition add :: "ptr \<Rightarrow> ptr \<Rightarrow> (obj world, unit) prog" where
  "add this fs = seq (load this) (\<lambda>x. case kind x of
      Folder cs \<Rightarrow>
        seq (getName fs) (\<lambda>n.
        seq (cout (''Folder '' @ sq @ name x @ sq @ '' added : '' @ n @ endl)) (\<lambda>_.
        seq (store this (FileSystem (parent x) (name x) (Folder (cs @ [fs])))) (\<lambda>_.
        setParent fs this)))
    | _ \<Rightarrow> ret ())"

definition remove :: "ptr \<Rightarrow> ptr \<Rightarrow> (obj world, unit) prog" where
  "remove this fs = seq (load this) (\<lambda>x. case kind x of
      Folder cs \<Rightarrow>
        seq (getName fs) (\<lambda>n.
        seq (cout (''Folder: '' @ name x @ ''removed : '' @ n @ endl)) (\<lambda>_.
        seq (store this (FileSystem (parent x) (name x) (Folder (removeAll fs cs)))) (\<lambda>_.
        setParent fs None)))
    | _ \<Rightarrow> ret ())"

text \<open>\<open>open\<close>, a keyword of the logic.\<close>

definition open_fs :: "ptr \<Rightarrow> (obj world, unit) prog" where
  "open_fs this = seq (load this) (\<lambda>x. case kind x of
      File \<Rightarrow> cout (''Open File: '' @ name x @ endl)
    | ZipFile \<Rightarrow> cout (''Open ZipFile: '' @ name x @ endl)
    | Folder _ \<Rightarrow> cout (''Open Folder: '' @ name x @ endl)
    | ShortCut origin \<Rightarrow> seq (cout (''Open ShortCut: '' @ name x @ endl)) (\<lambda>_.
        if origin \<noteq> None then seq (getName origin) (\<lambda>n. cout (''Navigate to: '' @ n @ endl))
        else cout (''Original file no longer exist'' @ endl)))"

text \<open>
  \<open>size\<close>: one for a leaf; for a folder its children, and the sizes of the children that are
  folders.
\<close>

fun fs_size :: "nat \<Rightarrow> ptr \<Rightarrow> (obj world, int) oprog" where
  "fs_size 0 this = no_fuel"
| "fs_size (Suc n) this =
     oseq (terminating (load this)) (\<lambda>x. case kind x of
       Folder cs \<Rightarrow> ofold (\<lambda>c sz.
           oseq (terminating (isComposite c)) (\<lambda>b.
           if b then oseq (fs_size n c) (\<lambda>k. terminating (to_int32 (sz + k)))
           else terminating (ret sz))) cs (cast_int (int (length cs)))
     | _ \<Rightarrow> terminating (ret 1))"

text \<open>\<open>Folder::getChildrensRecursive\<close>: the leaves below, in order.\<close>

fun getChildrensRecursive :: "nat \<Rightarrow> ptr \<Rightarrow> ptr list \<Rightarrow> (obj world, ptr list) oprog" where
  "getChildrensRecursive 0 this acc = no_fuel"
| "getChildrensRecursive (Suc n) this acc =
     oseq (terminating (load this)) (\<lambda>x. case kind x of
       Folder cs \<Rightarrow> ofold (\<lambda>c acc.
           oseq (terminating (isComposite c)) (\<lambda>b.
           if b then getChildrensRecursive n c acc else terminating (ret (acc @ [c])))) cs acc
     | _ \<Rightarrow> terminating (undef WrongType))"

text \<open>\<open>delete\<close>: the folder's destructor deletes its children, then the base destructor runs.\<close>

fun delete_fs :: "nat \<Rightarrow> ptr \<Rightarrow> (obj world, unit) oprog" where
  "delete_fs 0 this = no_fuel"
| "delete_fs (Suc n) this = (if this = None then terminating (ret ()) else
     oseq (terminating (load this)) (\<lambda>x.
     oseq (case kind x of
       Folder cs \<Rightarrow> ofor_each cs (\<lambda>c.
           oseq (terminating (getName c)) (\<lambda>m.
           oseq (terminating (cout (''Folder '' @ sq @ name x @ sq @ '' deleted : '' @ m @ endl))) (\<lambda>_.
           delete_fs n c)))
     | _ \<Rightarrow> terminating (ret ())) (\<lambda>_.
     oseq (terminating (cout (''Destructor: '' @ name x @ endl))) (\<lambda>_.
     terminating (free this)))))"

text \<open>
  The private helpers of the folder: \<open>removeChildren\<close> takes a child out and does not reset its
  parent; \<open>removeChildrenByName\<close> deletes the first child of that name and erases its position.
\<close>

definition children :: "ptr \<Rightarrow> (obj world, ptr list) prog" where
  "children this = seq (load this) (\<lambda>x. case kind x of Folder cs \<Rightarrow> ret cs | _ \<Rightarrow> undef WrongType)"

definition set_children :: "ptr \<Rightarrow> ptr list \<Rightarrow> (obj world, unit) prog" where
  "set_children this cs = seq (load this) (\<lambda>x. store this (FileSystem (parent x) (name x) (Folder cs)))"

definition getChildren :: "ptr \<Rightarrow> (obj world, ptr list) prog" where
  "getChildren this = children this"

definition removeChildren :: "ptr \<Rightarrow> ptr \<Rightarrow> (obj world, unit) prog" where
  "removeChildren this f =
     seq (children this) (\<lambda>cs. set_children this (filter (\<lambda>c. c \<noteq> f) cs))"

primrec find_named :: "string \<Rightarrow> ptr list \<Rightarrow> nat \<Rightarrow> (obj world, nat option) prog" where
  "find_named n [] i = ret None"
| "find_named n (c # cs) i = seq (getName c) (\<lambda>m. if m = n then ret (Some i) else find_named n cs (Suc i))"

definition removeChildrenByName :: "nat \<Rightarrow> ptr \<Rightarrow> string \<Rightarrow> (obj world, unit) oprog" where
  "removeChildrenByName fuel this n =
     oseq (terminating (children this)) (\<lambda>cs.
     oseq (terminating (find_named n cs 0)) (\<lambda>it. case it of
       None \<Rightarrow> terminating (ret ())
     | Some i \<Rightarrow> oseq (delete_fs fuel (cs ! i)) (\<lambda>_.
         terminating (set_children this (take i cs @ drop (Suc i) cs)))))"

definition clientCode :: "nat \<Rightarrow> ptr \<Rightarrow> (obj world, unit) oprog" where
  "clientCode fuel fs =
     oseq (terminating (getName fs)) (\<lambda>n.
     oseq (fs_size fuel fs) (\<lambda>k.
     oseq (terminating (cout (''File name: '' @ n @ '', size: '' @ show_int k @ endl))) (\<lambda>_.
     terminating (open_fs fs))))"

definition composite_run :: "nat \<Rightarrow> (obj world, unit) oprog" where
  "composite_run fuel =
     oseq (terminating (cout (endl @ endl))) (\<lambda>_.
     oseq (terminating (alloc (FileSystem None ''root'' (Folder [])))) (\<lambda>root.
     oseq (terminating (open_fs root)) (\<lambda>_.
     oseq (terminating (alloc (FileSystem None ''file_name.txt'' File))) (\<lambda>file1.
     oseq (terminating (alloc (FileSystem None ''zipfile_name.txt'' ZipFile))) (\<lambda>file2.
     oseq (terminating (new_ShortCut file2)) (\<lambda>file3.
     oseq (oblock [terminating (add root file1), terminating (add root file2), terminating (add root file3),
       clientCode fuel file1, clientCode fuel root]) (\<lambda>_.
     oseq (terminating (alloc (FileSystem None ''subFolder1'' (Folder [])))) (\<lambda>sub_folder1.
     oseq (terminating (alloc (FileSystem None ''subFolder2'' (Folder [])))) (\<lambda>sub_folder2.
     oseq (terminating (alloc (FileSystem None ''subFolder3'' (Folder [])))) (\<lambda>sub_folder3.
     oblock [terminating (add root sub_folder1), terminating (add root sub_folder2),
       terminating (add root sub_folder3), clientCode fuel root,
       terminating (remove root file1), delete_fs fuel file1,
       terminating (remove root file2), delete_fs fuel file2,
       terminating (remove root file3), delete_fs fuel file3,
       delete_fs fuel root]))))))))))"

lemmas composite_defs [defs] = getName_def setName_def getParent_def setParent_def isComposite_def
  new_ShortCut_def add_def remove_def open_fs_def clientCode_def

section \<open>Trees\<close>

text \<open>A tree with its addresses; a leaf has its kind.\<close>

datatype tree = Leaf nat string kind | Dir nat string "tree list"

fun addr :: "tree \<Rightarrow> nat" where
  "addr (Leaf a n k) = a"
| "addr (Dir a n ts) = a"

fun label :: "tree \<Rightarrow> string" where
  "label (Leaf a n k) = n"
| "label (Dir a n ts) = n"

fun is_leaf_kind :: "kind \<Rightarrow> bool" where
  "is_leaf_kind (Folder _) = False"
| "is_leaf_kind _ = True"

text \<open>The object, whatever its parent.\<close>

definition object_at :: "obj world \<Rightarrow> nat \<Rightarrow> string \<Rightarrow> kind \<Rightarrow> bool" where
  "object_at s a n k \<longleftrightarrow> (\<exists>p. cells s a = Some (FileSystem p n k))"

primrec tree_at :: "obj world \<Rightarrow> tree \<Rightarrow> bool" where
  "tree_at s (Leaf a n k) \<longleftrightarrow> object_at s a n k \<and> is_leaf_kind k"
| "tree_at s (Dir a n ts) \<longleftrightarrow> object_at s a n (Folder (map (\<lambda>t. Some (addr t)) ts))
     \<and> (\<forall>b \<in> set (map (tree_at s) ts). b)"

primrec footprint :: "tree \<Rightarrow> nat list" where
  "footprint (Leaf a n k) = [a]"
| "footprint (Dir a n ts) = a # concat (map footprint ts)"

primrec height :: "tree \<Rightarrow> nat" where
  "height (Leaf a n k) = 1"
| "height (Dir a n ts) = Suc (foldr max (map height ts) 1)"

text \<open>The number of objects below.\<close>

definition below :: "tree \<Rightarrow> nat" where
  "below t = length (footprint t) - 1"

fun is_dir :: "tree \<Rightarrow> bool" where
  "is_dir (Dir a n ts) = True"
| "is_dir (Leaf a n k) = False"

primrec leaves :: "tree \<Rightarrow> nat list" where
  "leaves (Leaf a n k) = [a]"
| "leaves (Dir a n ts) = concat (map leaves ts)"

primrec deletion :: "tree \<Rightarrow> line list" where
  "deletion (Leaf a n k) = [Cout (''Destructor: '' @ n @ endl)]"
| "deletion (Dir a n ts) = concat (map (\<lambda>(l, ls). Cout (''Folder '' @ sq @ n @ sq @ '' deleted : '' @ l @ endl) # ls)
       (map (\<lambda>t. (label t, deletion t)) ts)) @ [Cout (''Destructor: '' @ n @ endl)]"

lemma foldr_max_le: "x \<in> set xs \<Longrightarrow> x \<le> foldr max xs (a::nat)"
  by (induction xs) auto

lemma height_sub: "t \<in> set ts \<Longrightarrow> height t \<le> foldr max (map height ts) 1"
  by (rule foldr_max_le) simp

lemma height_pos: "0 < height t"
  by (cases t) auto

lemma footprint_pos: "0 < length (footprint t)"
  by (cases t) auto

lemma object_at_says [simp]: "object_at (says s ls) = object_at s"
  by (simp add: object_at_def fun_eq_iff)

lemma load_object: "object_at s a n k \<Longrightarrow> \<exists>p. load (Some a) s = Done (FileSystem p n k) s"
  by (auto simp: object_at_def load_def)

lemma tree_object: "tree_at s t \<Longrightarrow> \<exists>k. object_at s (addr t) (label t) k \<and>
    is_leaf_kind k = (\<not> is_dir t)"
  by (cases t) auto

lemma isComposite_tree: "tree_at s t \<Longrightarrow> isComposite (Some (addr t)) s = Done (is_dir t) s"
proof -
  assume "tree_at s t"
  then obtain k p where "load (Some (addr t)) s = Done (FileSystem p (label t) k) s"
    "is_leaf_kind k = (\<not> is_dir t)"
    using tree_object load_object by metis
  then show ?thesis by (cases k) (simp_all add: isComposite_def seq_def ret_def)
qed

lemma getName_tree: "tree_at s t \<Longrightarrow> getName (Some (addr t)) s = Done (label t) s"
proof -
  assume "tree_at s t"
  then obtain k p where "load (Some (addr t)) s = Done (FileSystem p (label t) k) s"
    using tree_object load_object by metis
  then show ?thesis by (simp add: getName_def seq_def ret_def)
qed

lemma tree_at_cong:
  "(\<And>a. a \<in> set (footprint t) \<Longrightarrow> cells s a = cells s' a) \<Longrightarrow> tree_at s t \<longleftrightarrow> tree_at s' t"
proof (induction t)
  case (Leaf a n k)
  then show ?case by (simp add: object_at_def)
next
  case (Dir a n ts)
  have "tree_at s t \<longleftrightarrow> tree_at s' t" if "t \<in> set ts" for t
    using that Dir.prems by (intro Dir.IH) auto
  then show ?case using Dir.prems by (simp add: object_at_def)
qed

section \<open>Size\<close>

lemma sum_sizes:
  "(\<Sum>t \<leftarrow> ts. if is_dir t then below t else 0) + length ts = length (concat (map footprint ts))"
proof (induction ts)
  case Nil
  then show ?case by simp
next
  case (Cons t ts)
  then show ?case using footprint_pos [of t] by (cases t) (auto simp: below_def)
qed

lemma fs_size_tree:
  "tree_at s t \<Longrightarrow> is_dir t \<Longrightarrow> height t \<le> n \<Longrightarrow> below t < 2 ^ 31 \<Longrightarrow>
     fs_size n (Some (addr t)) s = Some (Done (int (below t)) s)"
proof (induction t arbitrary: n)
  case (Leaf a nm k)
  then show ?case by simp
next
  case (Dir a nm ts)
  then obtain m where n: "n = Suc m" by (cases n) auto
  let ?f = "\<lambda>c sz. oseq (terminating (isComposite c)) (\<lambda>b.
     if b then oseq (fs_size m c) (\<lambda>k. terminating (to_int32 (sz + k))) else terminating (ret sz))"
  have step: "fs_size m (Some (addr t)) s = Some (Done (int (below t)) s)" if "t \<in> set ts" "is_dir t" "below t < 2 ^ 31" for t
    using Dir.IH [OF that(1), of m] Dir.prems that height_sub [OF that(1)] n by auto
  have "ofold ?f (map (\<lambda>t. Some (addr t)) us) (int i) s
      = Some (Done (int (i + (\<Sum>t \<leftarrow> us. if is_dir t then below t else 0))) s)"
    if "set us \<subseteq> set ts" "i + (\<Sum>t \<leftarrow> us. if is_dir t then below t else 0) < 2 ^ 31" for i us
    using that
  proof (induction us arbitrary: i)
    case Nil
    then show ?case by (simp add: machine)
  next
    case (Cons u us)
    have u: "tree_at s u" using Cons.prems(1) Dir.prems(1) by auto
    show ?case
    proof (cases "is_dir u")
      case True
      with Cons.prems have "int32 (int i + int (below u))" "below u < 2 ^ 31" by (auto simp: int32_def)
      with True Cons.prems step [of u] isComposite_tree [OF u] Cons.IH [of "i + below u"] show ?thesis
        by (simp add: machine add.assoc)
    next
      case False
      with Cons.prems isComposite_tree [OF u] Cons.IH [of i] show ?thesis by (simp add: machine)
    qed
  qed
  from this [of ts "length ts"] Dir.prems(4)
  have "ofold ?f (map (\<lambda>t. Some (addr t)) ts) (cast_int (int (length ts))) s = Some (Done (int (below (Dir a nm ts))) s)"
    using sum_sizes [of ts] by (simp add: below_def int32_def add.commute)
  moreover obtain p where "load (Some a) s = Done (FileSystem p nm (Folder (map (\<lambda>t. Some (addr t)) ts))) s"
    using Dir.prems(1) load_object [of s a nm] by auto
  ultimately show ?case by (simp add: n oseq_def terminating_def)
qed

lemma getChildrensRecursive_tree:
  "tree_at s t \<Longrightarrow> is_dir t \<Longrightarrow> height t \<le> n \<Longrightarrow>
     getChildrensRecursive n (Some (addr t)) acc s = Some (Done (acc @ map Some (leaves t)) s)"
proof (induction t arbitrary: n acc)
  case (Leaf a nm k)
  then show ?case by simp
next
  case (Dir a nm ts)
  then obtain m where n: "n = Suc m" by (cases n) auto
  let ?f = "\<lambda>c acc. oseq (terminating (isComposite c)) (\<lambda>b.
     if b then getChildrensRecursive m c acc else terminating (ret (acc @ [c])))"
  have step: "getChildrensRecursive m (Some (addr t)) acc s = Some (Done (acc @ map Some (leaves t)) s)"
    if "t \<in> set ts" "is_dir t" for t acc
    using Dir.IH [OF that(1), of m acc] Dir.prems that height_sub [OF that(1)] n by auto
  have "ofold ?f (map (\<lambda>t. Some (addr t)) us) acc s
      = Some (Done (acc @ map Some (concat (map leaves us))) s)" if "set us \<subseteq> set ts" for acc us
    using that
  proof (induction us arbitrary: acc)
    case Nil
    then show ?case by (simp add: machine)
  next
    case (Cons u us)
    have u: "tree_at s u" using Cons.prems(1) Dir.prems(1) by auto
    with Cons step [of u acc] isComposite_tree [OF u] show ?case
      by (cases u) (simp_all add: machine)
  qed
  from this [of ts acc] Dir.prems(1) show ?case
    using load_object by (auto simp: n oseq_def terminating_def object_at_def load_def)
qed

section \<open>Deletion\<close>

lemma delete_fs_tree:
  "tree_at s t \<Longrightarrow> distinct (footprint t) \<Longrightarrow> height t \<le> n \<Longrightarrow>
     delete_fs n (Some (addr t)) s = Some (Done () (without (says s (deletion t)) (set (footprint t))))"
proof (induction t arbitrary: n s)
  case (Leaf a nm k)
  then obtain m where n: "n = Suc m" by (cases n) auto
  obtain p where "cells s a = Some (FileSystem p nm k)" using Leaf.prems(1) by (auto simp: object_at_def)
  with Leaf.prems(1) show ?case
    by (cases k) (simp_all add: n machine without_def fun_upd_def cong: if_cong)
next
  case (Dir a nm ts)
  then obtain m where n: "n = Suc m" by (cases n) auto
  let ?f = "\<lambda>c. oseq (terminating (getName c)) (\<lambda>l.
     oseq (terminating (cout (''Folder '' @ sq @ nm @ sq @ '' deleted : '' @ l @ endl))) (\<lambda>_. delete_fs m c))"
  let ?ls = "\<lambda>us. concat (map (\<lambda>(l, ls). Cout (''Folder '' @ sq @ nm @ sq @ '' deleted : '' @ l @ endl) # ls)
       (map (\<lambda>t. (label t, deletion t)) us))"
  have loop: "ofor_each (map (\<lambda>t. Some (addr t)) us) ?f s'
      = Some (Done () (without (says s' (?ls us)) (set (concat (map footprint us)))))"
    if "set us \<subseteq> set ts" "\<forall>t \<in> set us. tree_at s' t" "distinct (concat (map footprint us))" for us s'
    using that
  proof (induction us arbitrary: s')
    case Nil
    then show ?case by (simp add: machine)
  next
    case (Cons u us)
    let ?l = "Cout (''Folder '' @ sq @ nm @ sq @ '' deleted : '' @ label u @ endl)"
    let ?u = "without (says s' (?l # deletion u)) (set (footprint u))"
    have "height u \<le> m" using Cons.prems(1) Dir.prems(3) height_sub [of u ts] n by auto
    moreover have "tree_at (says s' [?l]) u" by (subst tree_at_cong [of _ _ s']) (use Cons.prems in auto)
    ultimately have "delete_fs m (Some (addr u)) (says s' [?l]) = Some (Done () ?u)"
      using Dir.IH [of u "says s' [?l]" m] Cons.prems by auto
    moreover have "getName (Some (addr u)) s' = Done (label u) s'" using Cons.prems by (intro getName_tree) auto
    moreover have "tree_at ?u t" if "t \<in> set us" for t
      by (subst tree_at_cong [of _ _ s']) (use that Cons.prems in auto)
    ultimately show ?case
      using Cons.prems Cons.IH [of ?u] by (simp add: oseq_def terminating_def cout_def emit_def)
  qed
  obtain p where obj: "cells s a = Some (FileSystem p nm (Folder (map (\<lambda>t. Some (addr t)) ts)))"
    using Dir.prems(1) by (auto simp: object_at_def)
  let ?t = "without (says s (?ls ts)) (set (concat (map footprint ts)))"
  have "ofor_each (map (\<lambda>t. Some (addr t)) ts) ?f s = Some (Done () ?t)"
    using Dir.prems(1,2) by (intro loop) auto
  moreover have "cells (says ?t ls) a = Some (FileSystem p nm (Folder (map (\<lambda>t. Some (addr t)) ts)))" for ls
    using obj Dir.prems(2) by auto
  then have "free (Some a) (says ?t [Cout (''Destructor: '' @ nm @ endl)])
      = Done () (without (says ?t [Cout (''Destructor: '' @ nm @ endl)]) {a})" by (rule free_without)
  moreover have "without (says ?t [Cout (''Destructor: '' @ nm @ endl)]) {a}
      = without (says s (deletion (Dir a nm ts))) (set (footprint (Dir a nm ts)))"
    by (simp add: Un_commute insert_def [symmetric])
  ultimately show ?case
    using obj by (simp add: n oseq_def terminating_def load_def cout_def emit_def del: deletion.simps footprint.simps)
qed

section \<open>Properties\<close>

text \<open>
  The size of a folder is the number of all objects below it, folders and leaves alike, at any
  depth (below the \<open>int\<close> limit); computing it returns with fuel for the height and changes nothing.
\<close>

theorem composite_size_counts_below:
  assumes "tree_at s t" "is_dir t" "height t \<le> n" "below t < 2 ^ 31"
  shows "fs_size n (Some (addr t)) s = Some (Done (int (below t)) s)"
  by (rule fs_size_tree [OF assms])

definition demo_tree :: tree where
  "demo_tree = Dir 0 ''r'' [Leaf 1 ''a'' File, Dir 2 ''s'' [Leaf 3 ''b'' ZipFile, Leaf 4 ''l'' (ShortCut (Some 1))]]"

definition demo_fs :: "obj world" where
  "demo_fs = \<lparr>cells = [0 \<mapsto> FileSystem None ''r'' (Folder [Some 1, Some 2]), 1 \<mapsto> FileSystem (Some 0) ''a'' File,
     2 \<mapsto> FileSystem (Some 0) ''s'' (Folder [Some 3, Some 4]), 3 \<mapsto> FileSystem (Some 2) ''b'' ZipFile,
     4 \<mapsto> FileSystem (Some 2) ''l'' (ShortCut (Some 1))], brk = 5, out = []\<rparr>"

theorem composite_size_counts_below_witness:
  "fs_size 3 (Some 0) demo_fs = Some (Done 4 demo_fs)"
  using composite_size_counts_below [of demo_fs demo_tree 3]
  by (simp add: demo_tree_def demo_fs_def object_at_def below_def)

text \<open>
  C27.  Deleting a folder in which no object is owned twice deletes every object below and the folder,
  nothing else; every child is announced by its folder, and a folder's own destructor line comes
  after those of all its children.
\<close>

theorem composite_delete_frees_tree:
  assumes "tree_at s t" "distinct (footprint t)" "height t \<le> n"
  shows "\<exists>u. delete_fs n (Some (addr t)) s = Some (Done () u) \<and> out u = out s @ deletion t
    \<and> (\<forall>a. cells u a = (if a \<in> set (footprint t) then None else cells s a))"
  using delete_fs_tree [OF assms] by simp

theorem composite_delete_frees_tree_witness:
  "\<exists>u. delete_fs 3 (Some 0) demo_fs = Some (Done () u) \<and> length (out u) = 9 \<and> cells u 4 = None"
  using composite_delete_frees_tree [of demo_fs demo_tree 3]
  by (auto simp: demo_tree_def demo_fs_def object_at_def)

text \<open>
  A short cut is not told when its origin is deleted: opening it then reads the deleted object,
  and the line for an origin that no longer exists is never printed.
\<close>

theorem shortcut_to_deleted_origin:
  assumes "cells s l = Some (FileSystem p n (ShortCut (Some a)))"
    and "cells s a = Some (FileSystem q m File)" and "0 < fuel"
  shows "oseq (delete_fs fuel (Some a)) (\<lambda>_. terminating (open_fs (Some l))) s = Some (Undef (Dangling a))"
proof -
  obtain k where "fuel = Suc k" using assms(3) by (cases fuel) auto
  moreover have "l \<noteq> a" using assms(1,2) by auto
  ultimately show ?thesis using assms(1,2) by (simp add: open_fs_def getName_def machine)
qed

theorem shortcut_to_deleted_origin_witness:
  "oseq (delete_fs 1 (Some 1)) (\<lambda>_. terminating (open_fs (Some 4))) demo_fs = Some (Undef (Dangling 1))"
  using shortcut_to_deleted_origin [of demo_fs 4 "Some 2" "''l''" 1 "Some 0" "''a''" 1]
  by (simp add: demo_fs_def)

text \<open>Adding a child and removing it again keep both ends of the relation.\<close>

lemma add_child:
  assumes "cells s d = Some (FileSystem p n (Folder cs))" "cells s c = Some (FileSystem q m k)" "c \<noteq> d"
  shows "\<exists>t. add (Some d) (Some c) s = Done () t
    \<and> cells t = (cells s)(d \<mapsto> FileSystem p n (Folder (cs @ [Some c])), c \<mapsto> FileSystem (Some d) m k)"
  using assms by (simp add: add_def getName_def setParent_def machine)

lemma remove_child:
  assumes "cells s d = Some (FileSystem p n (Folder cs))" "cells s c = Some (FileSystem q m k)" "c \<noteq> d"
  shows "\<exists>t. remove (Some d) (Some c) s = Done () t
    \<and> cells t = (cells s)(d \<mapsto> FileSystem p n (Folder (removeAll (Some c) cs)), c \<mapsto> FileSystem None m k)"
  using assms by (simp add: remove_def getName_def setParent_def machine)

lemma add_remove_child:
  assumes "cells s d = Some (FileSystem p n (Folder cs))" "cells s c = Some (FileSystem None m k)" "c \<noteq> d"
    and "Some c \<notin> set cs"
  shows "\<exists>t. seq (add (Some d) (Some c)) (\<lambda>_. remove (Some d) (Some c)) s = Done () t \<and> cells t = cells s"
proof -
  obtain t where t: "add (Some d) (Some c) s = Done () t"
    "cells t = (cells s)(d \<mapsto> FileSystem p n (Folder (cs @ [Some c])), c \<mapsto> FileSystem (Some d) m k)"
    using add_child [OF assms(1-3)] by blast
  with assms(3) obtain u where "remove (Some d) (Some c) t = Done () u"
    "cells u = (cells t)(d \<mapsto> FileSystem p n (Folder (removeAll (Some c) (cs @ [Some c]))), c \<mapsto> FileSystem None m k)"
    using remove_child [of t d p n "cs @ [Some c]" c "Some d" m k] by auto
  with t assms show ?thesis by (auto simp: seq_def fun_eq_iff)
qed

text \<open>
  \<open>removeChildrenByName\<close> deletes the first child with the name and everything below it, and
  leaves the other children in the folder; without such a child nothing changes.
\<close>

lemma find_named_tree:
  "\<forall>t \<in> set ts. tree_at s t \<Longrightarrow> find_named n (map (\<lambda>t. Some (addr t)) ts) i s
     = Done (if n \<in> label ` set ts then Some (i + length (takeWhile (\<lambda>t. label t \<noteq> n) ts)) else None) s"
proof (induction ts arbitrary: i)
  case Nil
  then show ?case by (simp add: machine)
next
  case (Cons t ts)
  then show ?case using getName_tree [of s t] by (auto simp: seq_def ret_def)
qed

lemma children_dir:
  "tree_at s (Dir a nm ts) \<Longrightarrow> children (Some a) s = Done (map (\<lambda>t. Some (addr t)) ts) s"
  by (auto simp: children_def machine object_at_def)

lemma removeChildrenByName_none:
  assumes "tree_at s (Dir a nm ts)" "n \<notin> label ` set ts"
  shows "removeChildrenByName fuel (Some a) n s = Some (Done () s)"
  using assms find_named_tree [of ts s n 0]
  by (simp add: removeChildrenByName_def children_dir [OF assms(1)] oseq_def terminating_def ret_def)

lemma removeChildrenByName_first:
  assumes "tree_at s (Dir a nm (us @ t # vs))" "distinct (footprint (Dir a nm (us @ t # vs)))"
    and "label t = n" "n \<notin> label ` set us" "height t \<le> fuel"
  shows "\<exists>u. removeChildrenByName fuel (Some a) n s = Some (Done () u) \<and> tree_at u (Dir a nm (us @ vs))
    \<and> out u = out s @ deletion t \<and> (\<forall>b. b \<noteq> a \<longrightarrow> cells u b = (if b \<in> set (footprint t) then None else cells s b))"
proof -
  let ?p = "map (\<lambda>t. Some (addr t))" and ?w = "without (says s (deletion t)) (set (footprint t))"
  have names: "label u \<noteq> n" if "u \<in> set us" for u using assms(4) that by blast
  have "takeWhile (\<lambda>t. label t \<noteq> n) (us @ t # vs) = us"
    using assms(3) names by (simp add: takeWhile_append)
  moreover have all: "\<forall>x \<in> set (us @ t # vs). tree_at s x" using assms(1) by auto
  ultimately have find: "find_named n (?p (us @ t # vs)) 0 s = Done (Some (length us)) s"
    using find_named_tree [OF all, of n 0] assms(3) by simp
  have del: "delete_fs fuel (Some (addr t)) s = Some (Done () ?w)"
    using assms by (intro delete_fs_tree) auto
  obtain p where c: "cells s a = Some (FileSystem p nm (Folder (?p (us @ t # vs))))"
    using assms(1) by (auto simp: object_at_def)
  have "a \<notin> set (footprint t)" using assms(2) by auto
  with c have cw: "cells ?w a = Some (FileSystem p nm (Folder (?p (us @ t # vs))))" by simp
  let ?u = "?w\<lparr>cells := (cells ?w)(a \<mapsto> FileSystem p nm (Folder (?p (us @ vs))))\<rparr>"
  have "set_children (Some a) (?p (us @ vs)) ?w = Done () ?u"
    unfolding set_children_def seq_def load_def store_def using cw by simp
  then have "removeChildrenByName fuel (Some a) n s = Some (Done () ?u)"
    using find del
    by (simp add: removeChildrenByName_def children_dir [OF assms(1)] oseq_def terminating_def
        nth_append [of "?p us"])
  moreover have "tree_at ?u v" if "v \<in> set (us @ vs)" for v
    by (subst tree_at_cong [of _ _ s]) (use that assms(1,2) in auto)
  then have "tree_at ?u (Dir a nm (us @ vs))" by (auto simp: object_at_def)
  ultimately show ?thesis by auto
qed

text \<open>\<open>removeChildren\<close> leaves the parent pointer of what it takes out.\<close>

lemma removeChildren_keeps_parent:
  assumes "cells s d = Some (FileSystem p n (Folder cs))" "cells s c = Some (FileSystem (Some d) m k)" "c \<noteq> d"
  shows "\<exists>t. removeChildren (Some d) (Some c) s = Done () t \<and> children (Some d) t = Done (removeAll (Some c) cs) t
    \<and> getParent (Some c) t = Done (Some d) t"
  using assms by (simp add: removeChildren_def children_def set_children_def getParent_def machine removeAll_filter_not_eq eq_commute)

text \<open>The demonstration returns with fuel two and deletes everything it allocated.\<close>

lemma composite_run_no_leak:
  "case composite_run 2 boot of Some (Done _ t) \<Rightarrow> live_addrs t = [] | _ \<Rightarrow> False"
  by code_simp

end
