(* ===== verification/Decorator.thy ===== *)
theory Decorator
  imports Prelude
begin

text \<open>
  \<open>src/dp/structural/Decorator.cpp\<close>.  Namespace \<open>decorator_pattern\<close>: decorators wrap a component by
  a raw pointer they do not own and append their feature to its result.  Namespace \<open>problem\<close>: one
  subclass per combination of features.  Following the wrapped pointers may not end, so \<open>operation\<close>
  is a partial function.

  Lemmas: the result of any stack of decorators; the subclasses are such stacks; using a decorator
  after its component was deleted.
\<close>

datatype feature = FeatureA | FeatureB | FeatureC

datatype obj =
    ConcreteComponent
  | ComponentWithA | ComponentWithB | ComponentWithAandB
  | ConcreteDecorator feature ptr

section \<open>One subclass per combination\<close>

text \<open>\<open>operation\<close> of the classes of the namespace \<open>problem\<close>.\<close>

definition problem_operation :: "ptr \<Rightarrow> (obj world, string) prog" where
  "problem_operation this = seq (load this) (\<lambda>x. case x of
      ConcreteComponent \<Rightarrow> ret ''ConcreteComponent''
    | ComponentWithA \<Rightarrow> ret (''ConcreteComponent'' @ '' + FeatureA'')
    | ComponentWithB \<Rightarrow> ret (''ConcreteComponent'' @ '' + FeatureB'')
    | ComponentWithAandB \<Rightarrow> ret (''ConcreteComponent'' @ '' + FeatureA + FeatureB'')
    | _ \<Rightarrow> undef WrongType)"

definition problem_clientCode :: "ptr \<Rightarrow> (obj world, unit) prog" where
  "problem_clientCode component = seq (problem_operation component) (\<lambda>r. cout (r @ endl))"

definition problem_run :: "(obj world, unit) prog" where
  "problem_run =
     seq (cout (endl @ endl @ ''Problem'' @ endl)) (\<lambda>_.
     seq (alloc ConcreteComponent) (\<lambda>simple. seq (problem_clientCode simple) (\<lambda>_.
     seq (alloc ComponentWithA) (\<lambda>with_a. seq (problem_clientCode with_a) (\<lambda>_.
     seq (alloc ComponentWithB) (\<lambda>with_b. seq (problem_clientCode with_b) (\<lambda>_.
     seq (alloc ComponentWithAandB) (\<lambda>with_ab. seq (problem_clientCode with_ab) (\<lambda>_.
     block [free simple, free with_a, free with_b, free with_ab])))))))))"

section \<open>Decorators\<close>

fun suffix_of :: "feature \<Rightarrow> string" where
  "suffix_of FeatureA = '' + FeatureA''"
| "suffix_of FeatureB = '' + FeatureB''"
| "suffix_of FeatureC = '' + FeatureC''"

text \<open>\<open>BaseDecorator::operation\<close> delegates; the concrete decorators append to its result.\<close>

partial_function (option) operation :: "ptr \<Rightarrow> obj world \<Rightarrow> (obj world, string) result option" where
  "operation this s = (case load this s of
      Thrown e t \<Rightarrow> Some (Thrown e t)
    | Undef u \<Rightarrow> Some (Undef u)
    | Done x t \<Rightarrow> (case x of
        ConcreteComponent \<Rightarrow> Some (Done ''ConcreteComponent'' t)
      | ConcreteDecorator f p \<Rightarrow> Option.bind (operation p t) (\<lambda>r. Some (seq (\<lambda>_. r) (\<lambda>v. ret (v @ suffix_of f)) t))
      | _ \<Rightarrow> Some (Undef WrongType)))"

definition new_Decorator :: "feature \<Rightarrow> ptr \<Rightarrow> (obj world, ptr) prog" where
  "new_Decorator f component = alloc (ConcreteDecorator f component)"

definition clientCode :: "ptr \<Rightarrow> (obj world, unit) oprog" where
  "clientCode component = oseq (operation component) (\<lambda>r. terminating (cout (r @ endl)))"

definition decorator_run :: "(obj world, unit) oprog" where
  "decorator_run =
     oseq (terminating (cout (endl @ endl @ ''Decorator'' @ endl))) (\<lambda>_.
     oseq (terminating (alloc ConcreteComponent)) (\<lambda>simple. oseq (clientCode simple) (\<lambda>_.
     oseq (terminating (new_Decorator FeatureA simple)) (\<lambda>with_a. oseq (clientCode with_a) (\<lambda>_.
     oseq (terminating (new_Decorator FeatureB simple)) (\<lambda>with_b. oseq (clientCode with_b) (\<lambda>_.
     oseq (terminating (new_Decorator FeatureB with_a)) (\<lambda>with_ab. oseq (clientCode with_ab) (\<lambda>_.
     oseq (terminating (new_Decorator FeatureC with_ab)) (\<lambda>with_abc. oseq (clientCode with_abc) (\<lambda>_.
     oblock (map (\<lambda>p. terminating (free p)) [simple, with_a, with_b, with_ab, with_abc]))))))))))))"

section \<open>Stacks of decorators\<close>

lemma operation_load:
  "cells s a = Some ConcreteComponent \<Longrightarrow> operation (Some a) s = Some (Done ''ConcreteComponent'' s)"
  "cells s a = Some (ConcreteDecorator f p) \<Longrightarrow> operation p s = Some (Done v s) \<Longrightarrow>
     operation (Some a) s = Some (Done (v @ suffix_of f) s)"
  "cells s a = None \<Longrightarrow> operation (Some a) s = Some (Undef (Dangling a))"
  "cells s a = Some (ConcreteDecorator f p) \<Longrightarrow> operation p s = Some (Undef u) \<Longrightarrow>
     operation (Some a) s = Some (Undef u)"
  by (subst operation.simps, simp add: machine)+

text \<open>The object at \<open>p\<close> is a component wrapped in the features, innermost first.\<close>

inductive wraps :: "obj world \<Rightarrow> nat \<Rightarrow> feature list \<Rightarrow> bool" for s where
  plain: "cells s a = Some ConcreteComponent \<Longrightarrow> wraps s a []"
| wrapped: "cells s a = Some (ConcreteDecorator f (Some b)) \<Longrightarrow> wraps s b fs \<Longrightarrow> wraps s a (fs @ [f])"

lemma wraps_operation:
  "wraps s a fs \<Longrightarrow> operation (Some a) s = Some (Done (''ConcreteComponent'' @ concat (map suffix_of fs)) s)"
proof (induction rule: wraps.induct)
  case (plain a)
  then show ?case using operation_load(1) by simp
next
  case (wrapped a f b fs)
  from operation_load(2) [OF wrapped.hyps(1) wrapped.IH] show ?case by simp
qed

text \<open>Wrapping a component again and again, as a client does.\<close>

primrec wrap_all :: "ptr \<Rightarrow> feature list \<Rightarrow> (obj world, ptr) prog" where
  "wrap_all p [] = ret p"
| "wrap_all p (f # fs) = seq (new_Decorator f p) (\<lambda>q. wrap_all q fs)"

lemma wraps_mono:
  assumes "wraps s a fs" "\<And>b x. cells s b = Some x \<Longrightarrow> cells t b = Some x"
  shows "wraps t a fs"
  using assms(1) by induction (auto intro: wraps.intros assms(2))

lemma wrap_all_wraps:
  assumes "wraps s a gs" "fresh_above s"
  shows "\<exists>b t. wrap_all (Some a) fs s = Done (Some b) t \<and> wraps t b (gs @ fs)"
  using assms
proof (induction fs arbitrary: s a gs)
  case Nil
  then show ?case by (auto simp: ret_def)
next
  case (Cons f fs)
  let ?s = "s\<lparr>cells := (cells s)(brk s \<mapsto> ConcreteDecorator f (Some a)), brk := Suc (brk s)\<rparr>"
  have "cells s b = Some x \<Longrightarrow> cells ?s b = Some x" for b x
    using Cons.prems(2) by (auto dest: fresh_above_live)
  then have "wraps ?s a gs" by (rule wraps_mono [OF Cons.prems(1)])
  then have "wraps ?s (brk s) (gs @ [f])" by (rule wrapped [rotated]) simp
  from Cons.IH [OF this] fresh_above_update(1) [OF Cons.prems(2)] show ?case
    by (simp add: new_Decorator_def machine)
qed

section \<open>Properties\<close>

text \<open>
  Wrapping a component in any sequence of decorators gives an object whose operation returns
  the component's text followed by one feature per decorator, in the order of wrapping, repeated
  features included; the call returns and changes nothing.
\<close>

theorem decorator_stack:
  assumes "cells s a = Some ConcreteComponent" "fresh_above s"
  shows "\<exists>p t. wrap_all (Some a) fs s = Done p t
    \<and> operation p t = Some (Done (''ConcreteComponent'' @ concat (map suffix_of fs)) t)"
proof -
  obtain b t where "wrap_all (Some a) fs s = Done (Some b) t" "wraps t b fs"
    using wrap_all_wraps [OF plain [of s a, OF assms(1)] assms(2), of fs] by auto
  with wraps_operation show ?thesis by blast
qed

theorem decorator_stack_witness:
  "\<exists>p t. wrap_all (Some 0) [FeatureB, FeatureA, FeatureB] (boot\<lparr>cells := [0 \<mapsto> ConcreteComponent], brk := 1\<rparr>) = Done p t
    \<and> operation p t = Some (Done ''ConcreteComponent + FeatureB + FeatureA + FeatureB'' t)"
  using decorator_stack [of "boot\<lparr>cells := [0 \<mapsto> ConcreteComponent], brk := 1\<rparr>" 0 "[FeatureB, FeatureA, FeatureB]"]
  by (simp add: fresh_above_def)

text \<open>The features of a combination subclass.\<close>

fun combination :: "obj \<Rightarrow> feature list \<Rightarrow> bool" where
  "combination ConcreteComponent fs \<longleftrightarrow> fs = []"
| "combination ComponentWithA fs \<longleftrightarrow> fs = [FeatureA]"
| "combination ComponentWithB fs \<longleftrightarrow> fs = [FeatureB]"
| "combination ComponentWithAandB fs \<longleftrightarrow> fs = [FeatureA, FeatureB]"
| "combination _ fs \<longleftrightarrow> False"

text \<open>
  Each combination subclass computes what a stack of decorators over a plain component
  computes: features A, B, and A followed by B.
\<close>

lemma combination_wraps:
  assumes "cells s c = Some x" "combination x fs" "wraps s a fs"
  shows "\<exists>v. problem_operation (Some c) s = Done v s \<and> operation (Some a) s = Some (Done v s)"
  using assms wraps_operation [OF assms(3)]
  by (cases x) (auto simp: problem_operation_def machine)

text \<open>
  A decorator does not own what it wraps: once the component at the bottom of a stack is
  deleted, the operation of every decorator above it reads the deleted object.
\<close>

theorem decorator_deleted_component:
  assumes "cells s a = Some ConcreteComponent" "cells s b = Some (ConcreteDecorator f (Some a))"
    and "cells s c = Some (ConcreteDecorator g (Some b))"
  shows "\<exists>t. free (Some a) s = Done () t
    \<and> operation (Some b) t = Some (Undef (Dangling a)) \<and> operation (Some c) t = Some (Undef (Dangling a))"
proof -
  have ne: "a \<noteq> b" "a \<noteq> c" using assms by auto
  let ?t = "s\<lparr>cells := (cells s)(a := None)\<rparr>"
  have "operation (Some a) ?t = Some (Undef (Dangling a))" by (rule operation_load(3)) simp
  with ne have b: "operation (Some b) ?t = Some (Undef (Dangling a))"
    by (intro operation_load(4) [of _ b f "Some a"]) (simp_all add: assms(2))
  with ne have "operation (Some c) ?t = Some (Undef (Dangling a))"
    by (intro operation_load(4) [of _ c g "Some b"]) (simp_all add: assms(3))
  with b assms(1) show ?thesis by (auto simp: free_def)
qed

theorem decorator_deleted_component_witness:
  "\<exists>t. free (Some 0) (boot\<lparr>cells := [0 \<mapsto> ConcreteComponent, 1 \<mapsto> ConcreteDecorator FeatureA (Some 0),
        2 \<mapsto> ConcreteDecorator FeatureC (Some 1)]\<rparr>) = Done () t
    \<and> operation (Some 2) t = Some (Undef (Dangling 0))"
  using decorator_deleted_component [of "boot\<lparr>cells := [0 \<mapsto> ConcreteComponent, 1 \<mapsto> ConcreteDecorator FeatureA (Some 0),
        2 \<mapsto> ConcreteDecorator FeatureC (Some 1)]\<rparr>" 0 1 FeatureA 2 FeatureC]
  by auto

lemma decorator_run_trace:
  "\<exists>t. decorator_run boot = Some (Done () t) \<and> live_addrs t = []"
  by (simp add: decorator_run_def clientCode_def new_Decorator_def machine operation_load live_addrs_def upt_conv_Cons)

lemma problem_components_freed:
  "case problem_run boot of Done _ t \<Rightarrow> live_addrs t = [] \<and> length (out t) = 5 | _ \<Rightarrow> False"
  by code_simp

end
