(* ===== verification/Facade.thy ===== *)
theory Facade
  imports Prelude
begin

text \<open>
  \<open>src/dp/structural/Facade.cpp\<close>.  Namespace \<open>problem\<close>: a client calls four subsystems itself.
  Namespace \<open>facade\<close>: a facade creates the subsystems it is not given, owns all four, and calls
  them in the right order.

  Lemmas: what a facade does for every combination of given and created subsystems, and that it
  frees all of them; it prints exactly what the client of the subsystems prints.
\<close>

datatype obj =
    AuthSubSystem int
  | ValidatorSubSystem int
  | LoggerSubSystem int
  | ProblemBackend int
  | BackendSubSystem
  | MockBackendSubSystem
  | RequestFacade ptr ptr ptr ptr

section \<open>Subsystems\<close>

text \<open>
  The subsystems of the two namespaces are the same but for the backend, and for \<open>check\<close>, which is
  virtual in namespace \<open>problem\<close>.
\<close>

definition login :: "ptr \<Rightarrow> (obj world, unit) prog" where
  "login this = seq (cout (''AuthSubSystem: login'' @ endl)) (\<lambda>_. seq (load this) (\<lambda>x. case x of
      AuthSubSystem d \<Rightarrow> seq (incr32 d) (\<lambda>e. store this (AuthSubSystem e)) | _ \<Rightarrow> undef WrongType))"

definition check :: "ptr \<Rightarrow> (obj world, unit) prog" where
  "check this = seq (load this) (\<lambda>x. case x of
      ValidatorSubSystem d \<Rightarrow> seq (cout (''ValidatorSubSystem: check input'' @ endl)) (\<lambda>_.
        seq (incr32 d) (\<lambda>e. store this (ValidatorSubSystem e)))
    | _ \<Rightarrow> undef WrongType)"

definition write_log :: "ptr \<Rightarrow> (obj world, unit) prog" where
  "write_log this = seq (cout (''LoggerSubSystem: write log'' @ endl)) (\<lambda>_. seq (load this) (\<lambda>x. case x of
      LoggerSubSystem d \<Rightarrow> seq (incr32 d) (\<lambda>e. store this (LoggerSubSystem e)) | _ \<Rightarrow> undef WrongType))"

definition problem_login :: "ptr \<Rightarrow> (obj world, unit) prog" where
  "problem_login this = seq (cout (''AuthSubSystem: login'' @ endl)) (\<lambda>_. seq (load this) (\<lambda>x. case x of
      AuthSubSystem d \<Rightarrow> seq (incr32 d) (\<lambda>e. store this (AuthSubSystem e)) | _ \<Rightarrow> undef WrongType))"

definition problem_check :: "ptr \<Rightarrow> (obj world, unit) prog" where
  "problem_check this = seq (load this) (\<lambda>x. case x of
      ValidatorSubSystem d \<Rightarrow> seq (cout (''ValidatorSubSystem: check input'' @ endl)) (\<lambda>_.
        seq (incr32 d) (\<lambda>e. store this (ValidatorSubSystem e)))
    | _ \<Rightarrow> undef WrongType)"

definition problem_write :: "ptr \<Rightarrow> (obj world, unit) prog" where
  "problem_write this = seq (cout (''LoggerSubSystem: write log'' @ endl)) (\<lambda>_. seq (load this) (\<lambda>x. case x of
      LoggerSubSystem d \<Rightarrow> seq (incr32 d) (\<lambda>e. store this (LoggerSubSystem e)) | _ \<Rightarrow> undef WrongType))"

definition problem_send :: "ptr \<Rightarrow> (obj world, unit) prog" where
  "problem_send this = seq (cout (''BackendSubSystem: send request'' @ endl)) (\<lambda>_. seq (load this) (\<lambda>x. case x of
      ProblemBackend d \<Rightarrow> seq (incr32 d) (\<lambda>e. store this (ProblemBackend e)) | _ \<Rightarrow> undef WrongType))"

definition send :: "ptr \<Rightarrow> (obj world, unit) prog" where
  "send this = seq (load this) (\<lambda>x. case x of
      BackendSubSystem \<Rightarrow> cout (''BackendSubSystem: send request'' @ endl)
    | MockBackendSubSystem \<Rightarrow> cout (''[MockBackend] fake-send'' @ endl)
    | _ \<Rightarrow> undef WrongType)"

text \<open>The common operations behave alike in both namespaces.\<close>

lemma problem_subsystems: "problem_login = login" "problem_check = check" "problem_write = write_log"
  by (rule ext, simp add: problem_login_def login_def problem_check_def check_def problem_write_def write_log_def)+

section \<open>A client of the subsystems\<close>

definition problem_client1 :: "ptr \<Rightarrow> ptr \<Rightarrow> ptr \<Rightarrow> ptr \<Rightarrow> (obj world, unit) prog" where
  "problem_client1 s1 s2 s3 s4 = block [problem_check s1, problem_login s2, problem_write s3, problem_send s4]"

definition problem_client2 :: "ptr \<Rightarrow> (obj world, unit) prog" where
  "problem_client2 s1 = problem_check s1"

text \<open>The subsystems of \<open>problem::run\<close> are local variables, destroyed in reverse order.\<close>

definition problem_run :: "(obj world, unit) prog" where
  "problem_run =
     seq (cout (endl @ endl @ ''Problem'' @ endl)) (\<lambda>_.
     seq (alloc (ValidatorSubSystem 0)) (\<lambda>v.
     seq (alloc (AuthSubSystem 0)) (\<lambda>a.
     seq (alloc (LoggerSubSystem 0)) (\<lambda>l.
     seq (alloc (ProblemBackend 0)) (\<lambda>b.
     block [problem_client1 v a l b, problem_client2 v, free b, free l, free a, free v])))))"

section \<open>The facade\<close>

definition given_or_new :: "ptr \<Rightarrow> obj \<Rightarrow> (obj world, ptr) prog" where
  "given_or_new p x = (if p \<noteq> None then ret p else alloc x)"

definition new_RequestFacade :: "ptr \<Rightarrow> ptr \<Rightarrow> ptr \<Rightarrow> ptr \<Rightarrow> (obj world, ptr) prog" where
  "new_RequestFacade s1 s2 s3 s4 =
     seq (given_or_new s1 (AuthSubSystem 0)) (\<lambda>auth.
     seq (given_or_new s2 (ValidatorSubSystem 0)) (\<lambda>validator.
     seq (given_or_new s3 (LoggerSubSystem 0)) (\<lambda>logger.
     seq (given_or_new s4 BackendSubSystem) (\<lambda>backend.
     alloc (RequestFacade auth validator logger backend)))))"

definition fields :: "ptr \<Rightarrow> (obj world, ptr \<times> ptr \<times> ptr \<times> ptr) prog" where
  "fields this = seq (load this) (\<lambda>x. case x of
      RequestFacade a v l b \<Rightarrow> ret (a, v, l, b) | _ \<Rightarrow> undef WrongType)"

definition delete_RequestFacade :: "ptr \<Rightarrow> (obj world, unit) prog" where
  "delete_RequestFacade this = seq (fields this) (\<lambda>(a, v, l, b). block [free a, free v, free l, free b, free this])"

definition sendRequest :: "ptr \<Rightarrow> (obj world, unit) prog" where
  "sendRequest this = seq (fields this) (\<lambda>(a, v, l, b). block [check v, login a, write_log l, send b])"

definition validate :: "ptr \<Rightarrow> (obj world, unit) prog" where
  "validate this = seq (fields this) (\<lambda>(a, v, l, b). check v)"

definition client1 :: "ptr \<Rightarrow> (obj world, unit) prog" where
  "client1 facade = sendRequest facade"

definition client2 :: "ptr \<Rightarrow> (obj world, unit) prog" where
  "client2 facade = validate facade"

definition facade_run :: "(obj world, unit) prog" where
  "facade_run =
     seq (cout (endl @ endl @ ''Facade'' @ endl)) (\<lambda>_.
     seq (new_RequestFacade None None None None) (\<lambda>facade.
     seq (block [client1 facade, client2 facade, delete_RequestFacade facade]) (\<lambda>_.
     seq (cout endl) (\<lambda>_.
     seq (alloc MockBackendSubSystem) (\<lambda>b.
     seq (new_RequestFacade None None None b) (\<lambda>facade.
     seq (client1 facade) (\<lambda>_. delete_RequestFacade facade)))))))"

lemmas facade_defs [defs] = login_def check_def write_log_def problem_send_def send_def problem_client1_def problem_subsystems
  problem_client2_def given_or_new_def new_RequestFacade_def fields_def delete_RequestFacade_def
  sendRequest_def validate_def client1_def client2_def

section \<open>Any number of requests\<close>

fun send_line :: "obj option \<Rightarrow> line" where
  "send_line (Some MockBackendSubSystem) = Cout (''[MockBackend] fake-send'' @ endl)"
| "send_line _ = Cout (''BackendSubSystem: send request'' @ endl)"

definition request_lines :: "obj option \<Rightarrow> line list" where
  "request_lines b = [Cout (''ValidatorSubSystem: check input'' @ endl), Cout (''AuthSubSystem: login'' @ endl),
     Cout (''LoggerSubSystem: write log'' @ endl), send_line b]"

text \<open>The subsystems at \<open>a\<close>, \<open>v\<close>, \<open>l\<close> and \<open>b\<close> after \<open>n\<close> requests.\<close>

definition ready :: "(nat \<Rightarrow> obj option) \<Rightarrow> nat \<Rightarrow> nat \<Rightarrow> nat \<Rightarrow> nat \<Rightarrow> obj \<Rightarrow> int \<Rightarrow> (nat \<Rightarrow> obj option)" where
  "ready rest a v l b x n =
     rest(a \<mapsto> AuthSubSystem n, v \<mapsto> ValidatorSubSystem n, l \<mapsto> LoggerSubSystem n, b \<mapsto> x)"

lemma subsystem_steps:
  "cells s v = Some (ValidatorSubSystem d) \<Longrightarrow> int32 (d + 1) \<Longrightarrow> check (Some v) s = Done ()
     (says (s\<lparr>cells := (cells s)(v \<mapsto> ValidatorSubSystem (d + 1))\<rparr>) [Cout (''ValidatorSubSystem: check input'' @ endl)])"
  "cells s a = Some (AuthSubSystem d) \<Longrightarrow> int32 (d + 1) \<Longrightarrow> login (Some a) s = Done ()
     (says (s\<lparr>cells := (cells s)(a \<mapsto> AuthSubSystem (d + 1))\<rparr>) [Cout (''AuthSubSystem: login'' @ endl)])"
  "cells s l = Some (LoggerSubSystem d) \<Longrightarrow> int32 (d + 1) \<Longrightarrow> write_log (Some l) s = Done ()
     (says (s\<lparr>cells := (cells s)(l \<mapsto> LoggerSubSystem (d + 1))\<rparr>) [Cout (''LoggerSubSystem: write log'' @ endl)])"
  "cells s b = Some x \<Longrightarrow> x = BackendSubSystem \<or> x = MockBackendSubSystem \<Longrightarrow>
     send (Some b) s = Done () (says s [send_line (Some x)])"
  by (auto simp: check_def login_def write_log_def send_def incr32_def machine)

lemma sendRequest_step:
  assumes "cells s = (ready rest a v l b x d)(f \<mapsto> RequestFacade (Some a) (Some v) (Some l) (Some b))"
    and "distinct [a, v, l, b, f]" "x = BackendSubSystem \<or> x = MockBackendSubSystem" "0 \<le> d" "d + 1 < 2 ^ 31"
  shows "\<exists>u. sendRequest (Some f) s = Done () u \<and> brk u = brk s
    \<and> cells u = (ready rest a v l b x (d + 1))(f \<mapsto> RequestFacade (Some a) (Some v) (Some l) (Some b))
    \<and> out u = out s @ request_lines (Some x)"
proof -
  have i: "int32 (d + 1)" using assms(4,5) by (simp add: int32_def)
  have ne: "a \<noteq> v" "a \<noteq> l" "a \<noteq> b" "a \<noteq> f" "v \<noteq> l" "v \<noteq> b" "v \<noteq> f" "l \<noteq> b" "l \<noteq> f" "b \<noteq> f"
    using assms(2) by auto
  let ?c = "(cells s)(v \<mapsto> ValidatorSubSystem (d + 1), a \<mapsto> AuthSubSystem (d + 1), l \<mapsto> LoggerSubSystem (d + 1))"
  have "sendRequest (Some f) s = Done () (says (s\<lparr>cells := ?c\<rparr>) (request_lines (Some x)))"
    using i ne assms(3)
    by (simp add: sendRequest_def fields_def seq_def ret_def load_def subsystem_steps assms(1) ready_def request_lines_def)
  moreover have "?c = (ready rest a v l b x (d + 1))(f \<mapsto> RequestFacade (Some a) (Some v) (Some l) (Some b))"
    unfolding assms(1) ready_def using ne by (simp add: fun_upd_twist)
  ultimately show ?thesis by simp
qed

lemma send_requests:
  assumes "cells s = (ready rest a v l b x d)(f \<mapsto> RequestFacade (Some a) (Some v) (Some l) (Some b))"
    and "distinct [a, v, l, b, f]" "x = BackendSubSystem \<or> x = MockBackendSubSystem" "0 \<le> d" "d + int n < 2 ^ 31"
  shows "\<exists>t. repeat n (sendRequest (Some f)) s = Done () t \<and> brk t = brk s
    \<and> cells t = (ready rest a v l b x (d + int n))(f \<mapsto> RequestFacade (Some a) (Some v) (Some l) (Some b))
    \<and> out t = out s @ concat (replicate n (request_lines (Some x)))"
  using assms
proof (induction n arbitrary: s d)
  case 0
  then show ?case by (simp add: ret_def)
next
  case (Suc n)
  let ?c = "(ready rest a v l b x (d + 1))(f \<mapsto> RequestFacade (Some a) (Some v) (Some l) (Some b))"
  have "\<exists>u. sendRequest (Some f) s = Done () u \<and> brk u = brk s \<and> cells u = ?c
      \<and> out u = out s @ request_lines (Some x)"
    using sendRequest_step [OF Suc.prems(1-3)] Suc.prems(4,5) by simp
  then obtain u where u: "sendRequest (Some f) s = Done () u" "brk u = brk s" "cells u = ?c"
    "out u = out s @ request_lines (Some x)" by blast
  have "\<exists>t. repeat n (sendRequest (Some f)) u = Done () t \<and> brk t = brk u
      \<and> cells t = (ready rest a v l b x (d + 1 + int n))(f \<mapsto> RequestFacade (Some a) (Some v) (Some l) (Some b))
      \<and> out t = out u @ concat (replicate n (request_lines (Some x)))"
    by (rule Suc.IH [OF u(3)]) (use Suc.prems in auto)
  then obtain t where t: "repeat n (sendRequest (Some f)) u = Done () t" "brk t = brk u"
    "cells t = (ready rest a v l b x (d + 1 + int n))(f \<mapsto> RequestFacade (Some a) (Some v) (Some l) (Some b))"
    "out t = out u @ concat (replicate n (request_lines (Some x)))" by blast
  have "repeat (Suc n) (sendRequest (Some f)) s = Done () t" using t(1) u(1) by (simp add: seq_def)
  with t u show ?case by (simp add: algebra_simps fun_upd_def cong: if_cong)
qed

lemma delete_facade:
  assumes "cells s f = Some (RequestFacade (Some a) (Some v) (Some l) (Some b))" "distinct [a, v, l, b, f]"
    and "\<forall>p \<in> set [a, v, l, b]. cells s p \<noteq> None"
  shows "delete_RequestFacade (Some f) s = Done () (without s {a, v, l, b, f})"
proof -
  have "delete_RequestFacade (Some f) s = for_each (map Some [a, v, l, b, f]) free s"
    using assms(1) by (simp add: delete_RequestFacade_def fields_def seq_def ret_def load_def)
  also have "\<dots> = Done () (without s (set [a, v, l, b, f]))"
    by (rule for_each_free_without) (use assms in auto)
  finally show ?thesis by simp
qed

section \<open>Properties\<close>

text \<open>
  A facade that is given no subsystem, or only a backend (a mock, say), creates the others;
  any number of requests each run validation, login, logging and sending in this order, on the
  given backend; and deleting the facade deletes all four subsystems, the given one included.
\<close>

theorem facade_lifecycle:
  assumes "fresh_above s" "int n < 2 ^ 31"
    and "case g of None \<Rightarrow> True | Some b \<Rightarrow> cells s b = Some BackendSubSystem \<or> cells s b = Some MockBackendSubSystem"
  shows "\<exists>t. seq (new_RequestFacade None None None g) (\<lambda>f.
        seq (repeat n (sendRequest f)) (\<lambda>_. delete_RequestFacade f)) s = Done () t
    \<and> out t = out s @ concat (replicate n (request_lines (case g of None \<Rightarrow> Some BackendSubSystem | Some b \<Rightarrow> cells s b)))
    \<and> cells t = (case g of None \<Rightarrow> cells s | Some b \<Rightarrow> (cells s)(b := None))"
proof -
  define k where "k = brk s"
  have fresh: "\<forall>a \<ge> k. cells s a = None" using assms(1) by (simp add: fresh_above_def k_def)
  obtain b f x rest where b: "distinct [k, Suc k, Suc (Suc k), b, f]" "x = BackendSubSystem \<or> x = MockBackendSubSystem"
    and new: "\<exists>u. new_RequestFacade None None None g s = Done (Some f) u \<and> out u = out s
      \<and> cells u = (ready rest k (Suc k) (Suc (Suc k)) b x 0)(f \<mapsto> RequestFacade (Some k) (Some (Suc k)) (Some (Suc (Suc k))) (Some b))"
    and x: "Some x = (case g of None \<Rightarrow> Some BackendSubSystem | Some b \<Rightarrow> cells s b)"
    and rest: "rest(k := None, Suc k := None, Suc (Suc k) := None, b := None, f := None)
      = (case g of None \<Rightarrow> cells s | Some b \<Rightarrow> (cells s)(b := None))"
  proof (cases g)
    case None
    show thesis
      by (rule that [of "Suc (Suc (Suc k))" "Suc (Suc (Suc (Suc k)))" BackendSubSystem "cells s"])
        (use None fresh in \<open>auto simp: new_RequestFacade_def given_or_new_def machine ready_def k_def fun_eq_iff\<close>)
  next
    case (Some b)
    with assms(3) obtain x where x: "cells s b = Some x" "x = BackendSubSystem \<or> x = MockBackendSubSystem" by auto
    have b: "b < k" unfolding k_def by (rule fresh_above_live [OF assms(1) x(1)])
    show thesis
      by (rule that [of b "Suc (Suc (Suc k))" x "cells s"])
        (use Some x b fresh in \<open>auto simp: new_RequestFacade_def given_or_new_def machine ready_def k_def fun_eq_iff\<close>)
  qed
  obtain u where u: "new_RequestFacade None None None g s = Done (Some f) u" "out u = out s"
    "cells u = (ready rest k (Suc k) (Suc (Suc k)) b x 0)(f \<mapsto> RequestFacade (Some k) (Some (Suc k)) (Some (Suc (Suc k))) (Some b))"
    using new by blast
  from send_requests [OF u(3) b, of n, simplified] assms(2) obtain t where t: "repeat n (sendRequest (Some f)) u = Done () t"
    "cells t = (ready rest k (Suc k) (Suc (Suc k)) b x (int n))(f \<mapsto> RequestFacade (Some k) (Some (Suc k)) (Some (Suc (Suc k))) (Some b))"
    "out t = out u @ concat (replicate n (request_lines (Some x)))" by auto
  let ?v = "t\<lparr>cells := rest(k := None, Suc k := None, Suc (Suc k) := None, b := None, f := None)\<rparr>"
  have del: "delete_RequestFacade (Some f) t = Done () (without t {k, Suc k, Suc (Suc k), b, f})"
    by (rule delete_facade) (use b(1) t(2) in \<open>simp_all add: ready_def\<close>)
  have "without t {k, Suc k, Suc (Suc k), b, f} = ?v"
    unfolding without_def t(2) ready_def by (auto intro!: arg_cong [where f = "\<lambda>c. t\<lparr>cells := c\<rparr>"])
  with del have "delete_RequestFacade (Some f) t = Done () ?v" by simp
  with u(1) t(1) have "seq (new_RequestFacade None None None g) (\<lambda>f.
      seq (repeat n (sendRequest f)) (\<lambda>_. delete_RequestFacade f)) s = Done () ?v"
    by (simp add: seq_def)
  with rest x u(2) t(3) show ?thesis by simp
qed

theorem facade_lifecycle_witness:
  "\<exists>t. seq (new_RequestFacade None None None (Some 0)) (\<lambda>f.
        seq (repeat 2 (sendRequest f)) (\<lambda>_. delete_RequestFacade f)) (boot\<lparr>cells := [0 \<mapsto> MockBackendSubSystem], brk := 1\<rparr>)
      = Done () t
    \<and> cells t = Map.empty"
  using facade_lifecycle [of "boot\<lparr>cells := [0 \<mapsto> MockBackendSubSystem], brk := 1\<rparr>" 2 "Some 0"]
  by (auto simp: fresh_above_def)

text \<open>The direct client prints the same lines as a request to a facade with the real backend.\<close>

lemma problem_client_lines:
  assumes "cells s v = Some (ValidatorSubSystem d1)" "cells s a = Some (AuthSubSystem d2)"
    and "cells s l = Some (LoggerSubSystem d3)" "cells s b = Some (ProblemBackend d4)"
    and "\<forall>d \<in> {d1, d2, d3, d4}. 0 \<le> d \<and> d < 2 ^ 31 - 1"
  shows "\<exists>t. problem_client1 (Some v) (Some a) (Some l) (Some b) s = Done () t
    \<and> out t = out s @ request_lines (Some BackendSubSystem)"
proof -
  have "distinct [v, a, l, b]" using assms(1-4) by auto
  with assms show ?thesis
    by (simp add: problem_client1_def problem_subsystems check_def login_def write_log_def problem_send_def machine request_lines_def)
qed

lemma facade_run_no_leak:
  "case facade_run boot of Done _ t \<Rightarrow> live_addrs t = [] | _ \<Rightarrow> False"
  by code_simp

lemma problem_subsystems_freed:
  "case problem_run boot of Done _ t \<Rightarrow> live_addrs t = [] \<and> length (out t) = 6 | _ \<Rightarrow> False"
  by code_simp

end
