(* ===== verification/Flyweight.thy ===== *)
theory Flyweight
  imports Prelude
begin

text \<open>
  \<open>src/dp/structural/Flyweight.cpp\<close>.  Namespace \<open>flyweight_pattern\<close>: a factory keeps one flyweight
  per key in a \<open>std::unordered_map\<close>, here an association list with distinct keys; a reference to a
  flyweight is the factory and the key.  Each flyweight owns an \<open>int\<close> array.  Namespace \<open>problem\<close> is
  in \<open>ImageContexts\<close>.  Floating point values are never computed with in the
  flyweight part: they are an arbitrary type \<open>'f\<close> with its output function \<open>showf\<close>.

  Lemmas: after any sequence of requests there is one flyweight per key and a request gets the
  flyweight of the first request with its key; different images with one key; the copy
  constructor's use of an uninitialised pointer; who frees the arrays.
\<close>

section \<open>Data\<close>

text \<open>The fields of a flyweight: \<open>fileName_\<close>, \<open>width_\<close>, \<open>height_\<close>, \<open>dpi_\<close>, \<open>data_\<close>.\<close>

datatype fly = ImageFlyweight (fileName: string) (width: int) (height: int) (dpi: int) (data: ptr)

datatype 'f obj =
    Ints "int option list"
  | ImageFlyweightFactory "(string \<times> fly) list"
  | ImageContext 'f 'f "ptr \<times> string"

text \<open>\<open>new int[n]\<close> with uninitialised elements.\<close>

definition new_ints :: "int \<Rightarrow> ('f obj world, ptr) prog" where
  "new_ints n = (if n < 0 then throw ''std::bad_array_new_length'' else alloc (Ints (replicate (nat n) None)))"

definition ints :: "ptr \<Rightarrow> ('f obj world, int option list) prog" where
  "ints p = seq (load p) (\<lambda>x. case x of Ints xs \<Rightarrow> ret xs | _ \<Rightarrow> undef WrongType)"

definition mult32 :: "int \<Rightarrow> int \<Rightarrow> ('s, int) prog" where
  "mult32 a b = to_int32 (a * b)"

section \<open>The flyweight\<close>

definition new_ImageFlyweight :: "string \<Rightarrow> int \<Rightarrow> int \<Rightarrow> int \<Rightarrow> ('f obj world, fly) prog" where
  "new_ImageFlyweight fn w h d = seq (mult32 w h) (\<lambda>n. seq (new_ints n) (\<lambda>p. ret (ImageFlyweight fn w h d p)))"

definition delete_ImageFlyweight :: "fly \<Rightarrow> ('f obj world, unit) prog" where
  "delete_ImageFlyweight x = free (data x)"

text \<open>The loop that copies the array, from index \<open>i\<close> for \<open>n\<close> more elements.\<close>

fun copy_ints :: "ptr \<Rightarrow> ptr \<Rightarrow> nat \<Rightarrow> nat \<Rightarrow> ('f obj world, unit) prog" where
  "copy_ints to from i 0 = ret ()"
| "copy_ints to from i (Suc n) =
     seq (ints from) (\<lambda>xs. seq (ints to) (\<lambda>ys.
     if i < length xs \<and> i < length ys then
       (case xs ! i of None \<Rightarrow> undef Uninitialised
        | Some v \<Rightarrow> seq (store to (Ints (ys[i := Some v]))) (\<lambda>_. copy_ints to from (Suc i) n))
     else undef BadIndex))"

text \<open>
  \<open>deepCopy\<close> into an object whose current \<open>data_\<close> is \<open>old\<close>: \<open>None\<close> for a member that was never
  initialised, \<open>Some p\<close> for the pointer \<open>p\<close>.
\<close>

definition deepCopy :: "ptr option \<Rightarrow> fly \<Rightarrow> ('f obj world, fly) prog" where
  "deepCopy old other = (case old of
      None \<Rightarrow> undef Uninitialised
    | Some p \<Rightarrow>
        seq (free p) (\<lambda>_.
        if data other \<noteq> None then
          seq (mult32 (width other) (height other)) (\<lambda>n.
          seq (new_ints n) (\<lambda>q.
          seq (copy_ints q (data other) 0 (nat n)) (\<lambda>_.
          ret (ImageFlyweight (fileName other) (width other) (height other) (dpi other) q))))
        else ret (ImageFlyweight (fileName other) (width other) (height other) (dpi other) None)))"

text \<open>The copy constructor has no initialiser list; the copy assignment copies into an object.\<close>

definition copy_ImageFlyweight :: "fly \<Rightarrow> ('f obj world, fly) prog" where
  "copy_ImageFlyweight other = deepCopy None other"

definition assign_ImageFlyweight :: "fly \<Rightarrow> fly \<Rightarrow> ('f obj world, fly) prog" where
  "assign_ImageFlyweight this other = deepCopy (Some (data this)) other"

text \<open>The move constructor: the new object and the emptied source (a moved-from string is empty).\<close>

definition move_ImageFlyweight :: "fly \<Rightarrow> fly \<times> fly" where
  "move_ImageFlyweight source = (source, ImageFlyweight '''' 0 0 0 None)"

definition move_assign_ImageFlyweight :: "fly \<Rightarrow> fly \<Rightarrow> ('f obj world, fly \<times> fly) prog" where
  "move_assign_ImageFlyweight this source = seq (free (data this)) (\<lambda>_. ret (source, ImageFlyweight '''' 0 0 0 None))"

definition display_fly :: "('f \<Rightarrow> string) \<Rightarrow> fly \<Rightarrow> 'f \<Rightarrow> 'f \<Rightarrow> ('f obj world, unit) prog" where
  "display_fly showf x scale opacity = block [
     cout (''Image: '' @ fileName x @ '' displayed. '' @ endl),
     cout (tab @ ''Width: '' @ show_int (width x) @ '' Height: '' @ show_int (height x)
       @ '' DPI: '' @ show_int (dpi x) @ endl),
     cout (tab @ ''Scale: '' @ showf scale @ '' Opacity: '' @ showf opacity @ endl)]"

section \<open>The factory\<close>

definition getKey :: "string \<Rightarrow> int \<Rightarrow> int \<Rightarrow> int \<Rightarrow> ('s, string) prog" where
  "getKey n w h d = seq (mult32 w h) (\<lambda>a. seq (mult32 a d) (\<lambda>b. ret (''key_'' @ n @ show_int b)))"

definition pool :: "ptr \<Rightarrow> ('f obj world, (string \<times> fly) list) prog" where
  "pool this = seq (load this) (\<lambda>x. case x of ImageFlyweightFactory m \<Rightarrow> ret m | _ \<Rightarrow> undef WrongType)"

text \<open>
  The new flyweight is a temporary that is moved into the pair and from there into the map; the
  two emptied temporaries are destroyed.
\<close>

definition getImangeFlyweight :: "ptr \<Rightarrow> string \<Rightarrow> int \<Rightarrow> int \<Rightarrow> int \<Rightarrow> ('f obj world, ptr \<times> string) prog" where
  "getImangeFlyweight this fn w h d =
     seq (getKey fn w h d) (\<lambda>key.
     seq (cout (''Key: '' @ key @ endl)) (\<lambda>_.
     seq (pool this) (\<lambda>m.
     seq (case map_of m key of
         None \<Rightarrow>
           seq (cout (''ImageFlyweightFactory: Can't find a image flyweight, creating new one.'' @ endl)) (\<lambda>_.
           seq (new_ImageFlyweight fn w h d) (\<lambda>tmp.
           case move_ImageFlyweight tmp of (in_pair, tmp') \<Rightarrow>
           (case move_ImageFlyweight in_pair of (in_map, pair') \<Rightarrow>
           seq (store this (ImageFlyweightFactory (m @ [(key, in_map)]))) (\<lambda>_.
           seq (delete_ImageFlyweight pair') (\<lambda>_. delete_ImageFlyweight tmp')))))
       | Some _ \<Rightarrow> cout (''ImageFlyweightFactory: Reusing existing image flyweight.'' @ endl)) (\<lambda>_.
     ret (this, key)))))"

definition delete_Factory :: "ptr \<Rightarrow> ('f obj world, unit) prog" where
  "delete_Factory this = seq (pool this) (\<lambda>m.
     seq (for_each (map (\<lambda>e. data (snd e)) m) free) (\<lambda>_. free this))"

text \<open>Reading a flyweight through a reference.\<close>

definition deref :: "ptr \<times> string \<Rightarrow> ('f obj world, fly) prog" where
  "deref r = seq (pool (fst r)) (\<lambda>m. case map_of m (snd r) of None \<Rightarrow> undef BadIndex | Some x \<Rightarrow> ret x)"

definition new_ImageContext :: "ptr \<times> string \<Rightarrow> 'f \<Rightarrow> 'f \<Rightarrow> ('f obj world, ptr) prog" where
  "new_ImageContext r s o' = alloc (ImageContext s o' r)"

definition display :: "('f \<Rightarrow> string) \<Rightarrow> ptr \<Rightarrow> ('f obj world, unit) prog" where
  "display showf this = seq (load this) (\<lambda>x. case x of
      ImageContext s o' r \<Rightarrow> seq (deref r) (\<lambda>y. display_fly showf y s o')
    | _ \<Rightarrow> undef WrongType)"

text \<open>\<open>flyweight_pattern::run\<close> for the opacities \<open>os\<close> (0.1 to 0.5 in the code), the scale \<open>one\<close>, and
  the size of the objects, which the compiler fixes.\<close>

primrec show_images :: "('f \<Rightarrow> string) \<Rightarrow> ptr \<Rightarrow> 'f \<Rightarrow> 'f list \<Rightarrow> ('f obj world, ptr list) prog" where
  "show_images showf reg one [] = ret []"
| "show_images showf reg one (o' # os) =
     seq (getImangeFlyweight reg ''img1.svg'' 8 8 96) (\<lambda>r.
     seq (new_ImageContext r one o') (\<lambda>img.
     seq (display showf img) (\<lambda>_.
     seq (show_images showf reg one os) (\<lambda>imgs. ret (img # imgs)))))"

definition flyweight_run :: "('f \<Rightarrow> string) \<Rightarrow> 'f \<Rightarrow> 'f list \<Rightarrow> int \<Rightarrow> ('f obj world, unit) prog" where
  "flyweight_run showf one os bytes =
     seq (cout (endl @ endl @ ''Flyweight'' @ endl)) (\<lambda>_.
     seq (alloc (ImageFlyweightFactory [])) (\<lambda>reg.
     seq (show_images showf reg one os) (\<lambda>imgs. block [
       cout (''Size of objects: '' @ show_int bytes @ endl),
       for_each imgs free,
       delete_Factory reg])))"

lemmas flyweight_defs [defs] = new_ints_def ints_def new_ImageFlyweight_def delete_ImageFlyweight_def
  move_ImageFlyweight_def display_fly_def getKey_def pool_def getImangeFlyweight_def delete_Factory_def
  deref_def new_ImageContext_def display_def

section \<open>Requests\<close>

type_synonym request = "string \<times> int \<times> int \<times> int"

fun request :: "ptr \<Rightarrow> request \<Rightarrow> ('f obj world, ptr \<times> string) prog" where
  "request f (fn, w, h, d) = getImangeFlyweight f fn w h d"

text \<open>A request whose sizes fit: the products are in the range of \<open>int\<close>, the area is not negative.\<close>

fun valid :: "request \<Rightarrow> bool" where
  "valid (fn, w, h, d) \<longleftrightarrow> int32 (w * h) \<and> int32 (w * h * d) \<and> 0 \<le> w * h"

fun key :: "request \<Rightarrow> string" where
  "key (fn, w, h, d) = ''key_'' @ fn @ show_int (w * h * d)"

fun attrs :: "fly \<Rightarrow> request" where
  "attrs (ImageFlyweight fn w h d p) = (fn, w, h, d)"

text \<open>The factory at \<open>f\<close> holds \<open>m\<close>: one entry per key, each owning an array of its own.\<close>

definition pooled :: "'f obj world \<Rightarrow> nat \<Rightarrow> (string \<times> fly) list \<Rightarrow> bool" where
  "pooled s f m \<longleftrightarrow> fresh_above s \<and> cells s f = Some (ImageFlyweightFactory m) \<and> distinct (map fst m)
     \<and> distinct (map (\<lambda>e. data (snd e)) m)
     \<and> (\<forall>e \<in> set m. \<exists>a xs. data (snd e) = Some a \<and> a \<noteq> f \<and> cells s a = Some (Ints xs))"

lemma getKey_valid: "valid (fn, w, h, d) \<Longrightarrow> getKey fn w h d = ret (key (fn, w, h, d))"
  by (simp add: getKey_def mult32_def to_int32_def)

lemma request_hit:
  assumes "pooled s f m" "valid r" "map_of m (key r) = Some x"
  shows "\<exists>ls. request (Some f) r s = Done (Some f, key r) (says s ls)"
proof (cases r)
  case (fields fn w h d)
  with assms show ?thesis
    by (auto simp: getImangeFlyweight_def getKey_valid pool_def pooled_def machine simp del: valid.simps key.simps)
qed

lemma request_miss:
  assumes "pooled s f m" "valid r" "map_of m (key r) = None"
  shows "\<exists>t x. request (Some f) r s = Done (Some f, key r) t \<and> attrs x = r \<and> pooled t f (m @ [(key r, x)])"
proof (cases r)
  case (fields fn w h d)
  let ?x = "ImageFlyweight fn w h d (Some (brk s))"
  have f: "cells s f = Some (ImageFlyweightFactory m)" and fresh: "cells s (brk s) = None"
    using assms(1) by (auto simp: pooled_def fresh_above_def)
  have fb: "f < brk s" using assms(1) fresh_above_live [of s f] by (auto simp: pooled_def)
  have all: "\<forall>e \<in> set m. \<exists>a xs. data (snd e) = Some a \<and> a \<noteq> f \<and> cells s a = Some (Ints xs)"
    and fa: "fresh_above s" using assms(1) by (simp_all add: pooled_def)
  have below: "a < brk s" if e: "e \<in> set m" "data (snd e) = Some a" for e a
  proof -
    obtain xs where "cells s a = Some (Ints xs)" using bspec [OF all e(1)] e(2) by auto
    with fa show ?thesis by (rule fresh_above_live)
  qed
  have new: "new_ImageFlyweight fn w h d s' = Done (ImageFlyweight fn w h d (Some (brk s')))
      (s'\<lparr>cells := (cells s')(brk s' \<mapsto> Ints (replicate (nat (w * h)) None)), brk := Suc (brk s')\<rparr>)" for s' :: "'f obj world"
    using assms(2) fields by (simp add: new_ImageFlyweight_def mult32_def to_int32_def new_ints_def machine)
  obtain t where t: "request (Some f) r s = Done (Some f, key r) t" "brk t = Suc (brk s)"
    "cells t = (cells s)(brk s \<mapsto> Ints (replicate (nat (w * h)) None), f \<mapsto> ImageFlyweightFactory (m @ [(key r, ?x)]))"
    using assms f fb fields
    by (simp add: getImangeFlyweight_def getKey_valid pool_def new move_ImageFlyweight_def
        delete_ImageFlyweight_def machine del: valid.simps key.simps)
  have "key r \<notin> fst ` set m" using assms(3) by (simp add: map_of_eq_None_iff)
  moreover have "Some (brk s) \<notin> (\<lambda>e. data (snd e)) ` set m"
  proof
    assume "Some (brk s) \<in> (\<lambda>e. data (snd e)) ` set m"
    then obtain e where "e \<in> set m" "data (snd e) = Some (brk s)" by auto
    from below [OF this] show False by simp
  qed
  moreover have "\<exists>a xs. data (snd e) = Some a \<and> a \<noteq> f \<and> cells t a = Some (Ints xs)" if e: "e \<in> set m" for e
  proof -
    obtain a xs where "data (snd e) = Some a" "a \<noteq> f" "cells s a = Some (Ints xs)"
      using bspec [OF all e] by auto
    with below [OF e] t(3) show ?thesis by auto
  qed
  ultimately have "pooled t f (m @ [(key r, ?x)])"
    using assms(1) t(2,3) fb by (auto simp: pooled_def fresh_above_def)
  with t(1) fields show ?thesis by (intro exI [of _ t] exI [of _ ?x]) simp
qed

lemma pooled_says: "pooled s f m \<Longrightarrow> pooled (says s ls) f m"
  by (simp add: pooled_def fresh_above_update)

text \<open>What is registered under a key.\<close>

definition registered :: "(string \<times> fly) list \<Rightarrow> string \<Rightarrow> request option" where
  "registered m k = map_option attrs (map_of m k)"

lemma request_step:
  assumes "pooled s f m" "valid r"
  shows "\<exists>t m'. request (Some f) r s = Done (Some f, key r) t \<and> pooled t f m'
    \<and> registered m' = (\<lambda>k. case registered m k of Some x \<Rightarrow> Some x | None \<Rightarrow> if key r = k then Some r else None)"
proof (cases "map_of m (key r)")
  case None
  then obtain t x where "request (Some f) r s = Done (Some f, key r) t" "attrs x = r" "pooled t f (m @ [(key r, x)])"
    using request_miss [OF assms] by blast
  moreover have "registered (m @ [(key r, x)])
      = (\<lambda>k. case registered m k of Some x \<Rightarrow> Some x | None \<Rightarrow> if key r = k then Some r else None)"
    using \<open>attrs x = r\<close> by (auto simp: registered_def fun_eq_iff map_add_def split: option.split)
  ultimately show ?thesis by blast
next
  case (Some x)
  then obtain ls where "request (Some f) r s = Done (Some f, key r) (says s ls)"
    using request_hit [OF assms] by blast
  moreover have "registered m
      = (\<lambda>k. case registered m k of Some x \<Rightarrow> Some x | None \<Rightarrow> if key r = k then Some r else None)"
    using Some by (auto simp: registered_def fun_eq_iff split: option.split)
  ultimately show ?thesis using pooled_says [OF assms(1)] by metis
qed

definition ignore :: "('s, 'a) prog \<Rightarrow> ('s, unit) prog" where
  "ignore m = seq m (\<lambda>_. ret ())"

lemma request_all:
  assumes "pooled s f m" "\<forall>r \<in> set rs. valid r"
  shows "\<exists>t m'. block (map (\<lambda>r. ignore (request (Some f) r)) rs) s = Done () t \<and> pooled t f m'
    \<and> registered m' = (\<lambda>k. case registered m k of Some x \<Rightarrow> Some x | None \<Rightarrow> find (\<lambda>r. key r = k) rs)"
  using assms
proof (induction rs arbitrary: s m)
  case Nil
  have "registered m = (\<lambda>k. case registered m k of Some x \<Rightarrow> Some x | None \<Rightarrow> find (\<lambda>r. key r = k) [])"
    by (auto simp: fun_eq_iff split: option.split)
  with Nil show ?case by (auto simp only: list.map block.simps ret_def)
next
  case (Cons r rs)
  then obtain u m1 where u: "request (Some f) r s = Done (Some f, key r) u" "pooled u f m1"
    "registered m1 = (\<lambda>k. case registered m k of Some x \<Rightarrow> Some x | None \<Rightarrow> if key r = k then Some r else None)"
    using request_step [of s f m r] by auto
  from Cons.IH [OF u(2)] Cons.prems(2) obtain t m' where t:
    "block (map (\<lambda>r. ignore (request (Some f) r)) rs) u = Done () t" "pooled t f m'"
    "registered m' = (\<lambda>k. case registered m1 k of Some x \<Rightarrow> Some x | None \<Rightarrow> find (\<lambda>r. key r = k) rs)"
    by auto
  have "registered m' = (\<lambda>k. case registered m k of Some x \<Rightarrow> Some x | None \<Rightarrow> find (\<lambda>r. key r = k) (r # rs))"
    unfolding t(3) u(3) by (auto simp: fun_eq_iff split: option.split)
  moreover have "ignore (request (Some f) r) s = Done () u" using u(1) by (simp add: ignore_def seq_def ret_def)
  then have "block (map (\<lambda>r. ignore (request (Some f) r)) (r # rs)) s = Done () t"
    using t(1) by (simp add: seq_def [of "ignore (request (Some f) r)"])
  ultimately show ?case using t(2) by blast
qed

section \<open>Copying\<close>

text \<open>The copying loop fills the new array from the old one.\<close>

lemma copy_ints_all:
  assumes "cells s a = Some (Ints xs)" "cells s b = Some (Ints ys)" "a \<noteq> b"
    and "\<forall>x \<in> set xs. x \<noteq> None" "length xs = i + n" "length ys = i + n" "take i ys = take i xs"
  shows "copy_ints (Some b) (Some a) i n s = Done () (s\<lparr>cells := (cells s)(b \<mapsto> Ints xs)\<rparr>)"
  using assms
proof (induction n arbitrary: i s ys)
  case 0
  then have "ys = xs" by simp
  with 0 have "(cells s)(b \<mapsto> Ints xs) = cells s" by auto
  then show ?case by (simp add: ret_def)
next
  case (Suc n)
  then have i: "i < length xs" "i < length ys" by simp_all
  then obtain v where v: "xs ! i = Some v" using Suc.prems(4) nth_mem by fastforce
  let ?s = "s\<lparr>cells := (cells s)(b \<mapsto> Ints (ys[i := Some v]))\<rparr>"
  have "take (Suc i) (ys[i := Some v]) = take (Suc i) xs"
    using Suc.prems(7) i v by (simp add: take_Suc_conv_app_nth)
  then have "copy_ints (Some b) (Some a) (Suc i) n ?s = Done () (?s\<lparr>cells := (cells ?s)(b \<mapsto> Ints xs)\<rparr>)"
    using Suc.prems by (intro Suc.IH [of ?s "ys[i := Some v]" "Suc i"]) auto
  then show ?case
    using Suc.prems(1-3) i v by (simp add: ints_def machine fun_upd_def cong: if_cong)
qed

section \<open>Properties\<close>

text \<open>
  After any sequence of requests with sizes that fit, a further request returns a reference to
  the flyweight of the first request with its key, and the pool has exactly one flyweight per key,
  each with an array of its own.
\<close>

theorem flyweight_first_request:
  assumes "pooled s f []" "\<forall>r \<in> set rs. valid r" "valid r"
  shows "\<exists>t u m. block (map (\<lambda>r. ignore (request (Some f) r)) rs) s = Done () t
    \<and> request (Some f) r t = Done (Some f, key r) u \<and> pooled u f m
    \<and> (\<forall>k. map_option attrs (map_of m k) = find (\<lambda>x. key x = k) (rs @ [r]))"
proof -
  obtain t m where t: "block (map (\<lambda>r. ignore (request (Some f) r)) rs) s = Done () t" "pooled t f m"
    "registered m = (\<lambda>k. find (\<lambda>r. key r = k) rs)"
    using request_all [OF assms(1,2)] by (auto simp: registered_def)
  obtain u m' where u: "request (Some f) r t = Done (Some f, key r) u" "pooled u f m'"
    "registered m' = (\<lambda>k. case registered m k of Some x \<Rightarrow> Some x | None \<Rightarrow> if key r = k then Some r else None)"
    using request_step [OF t(2) assms(3)] by blast
  have "find P (rs @ [r]) = (case find P rs of Some x \<Rightarrow> Some x | None \<Rightarrow> if P r then Some r else None)" for P
    by (induction rs) auto
  with t u show ?thesis by (auto simp: registered_def fun_eq_iff)
qed

definition empty_factory :: "string obj world" where
  "empty_factory = \<lparr>cells = [0 \<mapsto> ImageFlyweightFactory []], brk = 1, out = []\<rparr>"

theorem flyweight_first_request_witness:
  "\<exists>t u m. block (map (\<lambda>r. ignore (request (Some 0) r)) [(''a'', 2, 3, 1), (''b'', 1, 1, 1)]) empty_factory = Done () t
    \<and> request (Some 0) (''a'', 3, 2, 1) t = Done (Some 0, key (''a'', 3, 2, 1)) u
    \<and> map_option attrs (map_of m (key (''a'', 3, 2, 1))) = Some (''a'', 2, 3, 1)"
proof -
  have "pooled empty_factory 0 []" by (simp add: empty_factory_def pooled_def fresh_above_def)
  moreover have "\<forall>r \<in> set [(''a'', 2, 3, 1), (''b'', 1, 1, 1)]. valid r" "valid (''a'', 3, 2, 1)"
    by (simp_all add: int32_def)
  moreover have "find (\<lambda>x. key x = key (''a'', 3, 2, 1)) ([(''a'', 2, 3, 1), (''b'', 1, 1, 1)] @ [(''a'', 3, 2, 1)])
      = Some (''a'', 2, 3, 1)" by simp
  ultimately show ?thesis
    using flyweight_first_request [of empty_factory 0 "[(''a'', 2, 3, 1), (''b'', 1, 1, 1)]" "(''a'', 3, 2, 1)"]
    by metis
qed

text \<open>
  The key only has the product of the three sizes: of two different images with the same file
  name and product, the one requested second is given the flyweight of the first, and displayed
  with the width, height and resolution of the first.
\<close>

theorem flyweight_key_collision:
  assumes "pooled s f []" "valid (fn, w, h, d)" "valid (fn, w', h', d')" "w * h * d = w' * h' * d'"
  shows "\<exists>x u. seq (request (Some f) (fn, w, h, d)) (\<lambda>_. seq (request (Some f) (fn, w', h', d')) deref) s
    = Done x u \<and> attrs x = (fn, w, h, d)"
proof -
  have k: "key (fn, w', h', d') = key (fn, w, h, d)" using assms(4) by simp
  obtain t x where t: "request (Some f) (fn, w, h, d) s = Done (Some f, key (fn, w, h, d)) t"
    "attrs x = (fn, w, h, d)" "pooled t f ([] @ [(key (fn, w, h, d), x)])"
    using request_miss [OF assms(1,2)] by auto
  moreover obtain ls where "request (Some f) (fn, w', h', d') t = Done (Some f, key (fn, w', h', d')) (says t ls)"
    using request_hit [OF t(3) assms(3)] k by auto
  moreover have "deref (Some f, key (fn, w, h, d)) (says t ls) = Done x (says t ls)" for ls
    using t(3) by (simp add: deref_def pool_def seq_def load_def ret_def pooled_def del: key.simps)
  ultimately show ?thesis
    using k by (auto simp add: seq_def simp del: key.simps request.simps)
qed

theorem flyweight_key_collision_witness:
  "\<exists>x u. seq (request (Some 0) (''a'', 8, 8, 96)) (\<lambda>_. seq (request (Some 0) (''a'', 64, 1, 96)) deref) empty_factory
    = Done x u \<and> attrs x = (''a'', 8, 8, 96)"
proof -
  have "pooled empty_factory 0 []" by (simp add: empty_factory_def pooled_def fresh_above_def)
  moreover have "valid (''a'', 8, 8, 96)" "valid (''a'', 64, 1, 96)" by (simp_all add: int32_def)
  ultimately show ?thesis
    using flyweight_key_collision [of empty_factory 0 "''a''" 8 8 96 64 1 96] by simp
qed

text \<open>
  Assigning one flyweight to another copies deeply: the target's old array is deleted, and it
  owns a new array with the same elements; the source and its array stay as they are.
\<close>

theorem flyweight_assignment_copies:
  assumes "cells s a = Some (Ints xs)" "cells s b = Some (Ints ys)" "a \<noteq> b" "fresh_above s"
    and "int32 (w * h)" "length xs = nat (w * h)" "0 \<le> w * h" "\<forall>x \<in> set xs. x \<noteq> None"
  shows "\<exists>t. assign_ImageFlyweight (ImageFlyweight fn' w' h' d' (Some b)) (ImageFlyweight fn w h d (Some a)) s
      = Done (ImageFlyweight fn w h d (Some (brk s))) t
    \<and> cells t = (cells s)(b := None, brk s \<mapsto> Ints xs) \<and> brk s \<noteq> a"
proof -
  have n: "a < brk s" "b < brk s" using fresh_above_live [OF assms(4,1)] fresh_above_live [OF assms(4,2)] by simp_all
  let ?s = "s\<lparr>cells := (cells s)(b := None, brk s \<mapsto> Ints (replicate (length xs) None)), brk := Suc (brk s)\<rparr>"
  have "copy_ints (Some (brk s)) (Some a) 0 (length xs) ?s = Done () (?s\<lparr>cells := (cells ?s)(brk s \<mapsto> Ints xs)\<rparr>)"
    using n assms(1,3,8) by (intro copy_ints_all [where ys = "replicate (length xs) None"]) auto
  with assms n show ?thesis
    by (simp add: assign_ImageFlyweight_def deepCopy_def mult32_def new_ints_def seq_def free_def alloc_def ret_def
        to_int32_def)
qed

theorem flyweight_assignment_copies_witness:
  "\<exists>t. assign_ImageFlyweight (ImageFlyweight ''b'' 0 0 0 (Some 1)) (ImageFlyweight ''a'' 1 2 3 (Some 0))
      \<lparr>cells = [0 \<mapsto> Ints [Some 7, Some 8], 1 \<mapsto> Ints []], brk = 2, out = []\<rparr>
      = Done (ImageFlyweight ''a'' 1 2 3 (Some 2)) t
    \<and> cells t = ([0 \<mapsto> Ints [Some 7, Some 8], 1 \<mapsto> Ints []])(1 := None, 2 \<mapsto> Ints [Some 7, Some 8])"
  using flyweight_assignment_copies [of "\<lparr>cells = [0 \<mapsto> Ints [Some 7, Some 8], 1 \<mapsto> Ints []], brk = 2, out = []\<rparr>"
      0 "[Some 7, Some 8]" 1 "[]" 1 2 "''b''" 0 0 0 "''a''" 3]
  by (auto simp: fresh_above_def int32_def)

text \<open>
  The copy constructor has no initialiser list, so the \<open>delete[]\<close> in \<open>deepCopy\<close> reads a pointer that
  was never initialised, whatever is copied.
\<close>

lemma flyweight_copy_constructor: "copy_ImageFlyweight x s = Undef Uninitialised"
  by (simp add: copy_ImageFlyweight_def deepCopy_def undef_def)

text \<open>The demonstration shares one flyweight among its five images and frees everything.\<close>

lemma flyweight_run_no_leak:
  "\<exists>t. flyweight_run showf one [o1, o2] bytes boot = Done () t \<and> live_addrs t = [] \<and> brk t = 4"
  by (simp add: flyweight_run_def flyweight_defs mult32_def to_int32_def int32_def machine live_addrs_def upt_conv_Cons)

end
