(* ===== verification/Proxy.thy ===== *)
theory Proxy
  imports Prelude
begin

text \<open>
  \<open>src/dp/structural/Proxy.cpp\<close>.  Namespace \<open>problem\<close>: a server that is constructed at once and
  checks every request itself.  Namespace \<open>proxy_pattern\<close>: a proxy that checks access, creates the
  server at the first permitted request and forwards to it.

  Lemmas: what any sequence of requests to a proxy prints and allocates, for an administrator and
  for anyone else; the requests the two designs serve are the same.
\<close>

datatype obj =
    ProblemServer string
  | Server string
  | ServerProxy string ptr

definition kAdmin :: string where
  "kAdmin = ''admin''"

datatype request = request1 | request2 | request3

fun digit :: "request \<Rightarrow> string" where
  "digit request1 = ''1''"
| "digit request2 = ''2''"
| "digit request3 = ''3''"

definition handling :: "request \<Rightarrow> string \<Rightarrow> string" where
  "handling r i = ''[Server] Handling request-'' @ digit r @ '' for: '' @ i @ endl"

section \<open>The server without a proxy\<close>

definition new_ProblemServer :: "string \<Rightarrow> (obj world, ptr) prog" where
  "new_ProblemServer i = seq (cout (''[Server] Constructor: '' @ i @ endl)) (\<lambda>_. alloc (ProblemServer i))"

definition problem_request :: "request \<Rightarrow> ptr \<Rightarrow> (obj world, unit) prog" where
  "problem_request r this = seq (load this) (\<lambda>x. case x of
      ProblemServer i \<Rightarrow> if i \<noteq> kAdmin then cout (''[Server] Invalid ID: '' @ i @ endl) else cout (handling r i)
    | _ \<Rightarrow> undef WrongType)"

definition problem_clientCode :: "ptr \<Rightarrow> (obj world, unit) prog" where
  "problem_clientCode s = (if s \<noteq> None
     then block [problem_request request1 s, problem_request request2 s, problem_request request3 s]
     else ret ())"

definition problem_run :: "(obj world, unit) prog" where
  "problem_run =
     seq (cout (endl @ endl)) (\<lambda>_.
     seq (new_ProblemServer ''admin'') (\<lambda>server.
     seq (block [cout (''User request'' @ endl), problem_clientCode server, free server]) (\<lambda>_.
     seq (new_ProblemServer ''xxx'') (\<lambda>server.
     seq (problem_clientCode server) (\<lambda>_. free server)))))"

section \<open>Server and proxy\<close>

definition new_Server :: "string \<Rightarrow> (obj world, ptr) prog" where
  "new_Server i = seq (cout (''[Server] Constructor: '' @ i @ endl)) (\<lambda>_. alloc (Server i))"

definition server_request :: "request \<Rightarrow> ptr \<Rightarrow> (obj world, unit) prog" where
  "server_request r this = seq (load this) (\<lambda>x. case x of
      Server i \<Rightarrow> cout (handling r i)
    | _ \<Rightarrow> undef WrongType)"

definition proxy :: "ptr \<Rightarrow> (obj world, string \<times> ptr) prog" where
  "proxy this = seq (load this) (\<lambda>x. case x of ServerProxy i p \<Rightarrow> ret (i, p) | _ \<Rightarrow> undef WrongType)"

definition checkAccess :: "ptr \<Rightarrow> (obj world, bool) prog" where
  "checkAccess this =
     seq (cout (''[Proxy] Checking access before forwarding request.'' @ endl)) (\<lambda>_.
     seq (proxy this) (\<lambda>(i, p).
     if i \<noteq> kAdmin then ret False
     else if p = None then seq (new_Server i) (\<lambda>q. seq (store this (ServerProxy i q)) (\<lambda>_. ret True))
     else ret True))"

definition logAccess :: "ptr \<Rightarrow> (obj world, unit) prog" where
  "logAccess this = seq (proxy this) (\<lambda>(i, p). cout (''[Proxy] Logging request time: '' @ i @ '' .'' @ endl))"

definition new_ServerProxy :: "string \<Rightarrow> (obj world, ptr) prog" where
  "new_ServerProxy i = seq (cout (''[Proxy] Constructor: '' @ i @ endl)) (\<lambda>_. alloc (ServerProxy i None))"

definition delete_ServerProxy :: "ptr \<Rightarrow> (obj world, unit) prog" where
  "delete_ServerProxy this = seq (proxy this) (\<lambda>(i, p). block [
     cout (''[Proxy] Destructor: '' @ i @ endl), free p, free this])"

definition proxy_request :: "request \<Rightarrow> ptr \<Rightarrow> (obj world, unit) prog" where
  "proxy_request r this = seq (checkAccess this) (\<lambda>b.
     if b then seq (proxy this) (\<lambda>(i, p). seq (server_request r p) (\<lambda>_. logAccess this))
     else ret ())"

text \<open>A call through the interface \<open>IServer\<close>.\<close>

definition request :: "request \<Rightarrow> ptr \<Rightarrow> (obj world, unit) prog" where
  "request r this = seq (load this) (\<lambda>x. case x of
      Server _ \<Rightarrow> server_request r this
    | ServerProxy _ _ \<Rightarrow> proxy_request r this
    | _ \<Rightarrow> undef WrongType)"

definition clientCode :: "ptr \<Rightarrow> (obj world, unit) prog" where
  "clientCode s = (if s \<noteq> None then block [request request1 s, request request2 s, request request3 s] else ret ())"

definition proxy_run :: "(obj world, unit) prog" where
  "proxy_run =
     seq (cout (endl @ endl)) (\<lambda>_.
     seq (new_ServerProxy ''admin'') (\<lambda>server.
     seq (block [cout (''User request'' @ endl), clientCode server, delete_ServerProxy server]) (\<lambda>_.
     seq (new_Server ''xxx'') (\<lambda>server.
     seq (clientCode server) (\<lambda>_. free server)))))"

lemmas proxy_defs [defs] = kAdmin_def handling_def new_ProblemServer_def problem_request_def problem_clientCode_def
  new_Server_def server_request_def proxy_def checkAccess_def logAccess_def new_ServerProxy_def
  delete_ServerProxy_def proxy_request_def request_def clientCode_def

section \<open>Sessions\<close>

definition check_line :: line where
  "check_line = Cout (''[Proxy] Checking access before forwarding request.'' @ endl)"

definition construct_line :: "string \<Rightarrow> line" where
  "construct_line i = Cout (''[Server] Constructor: '' @ i @ endl)"

definition log_line :: "string \<Rightarrow> line" where
  "log_line i = Cout (''[Proxy] Logging request time: '' @ i @ '' .'' @ endl)"

fun session :: "request list \<Rightarrow> line list" where
  "session [] = []"
| "session (r # rs) = [check_line, construct_line kAdmin, Cout (handling r kAdmin), log_line kAdmin]
     @ concat (map (\<lambda>r. [check_line, Cout (handling r kAdmin), log_line kAdmin]) rs)"

lemmas line_defs = check_line_def construct_line_def log_line_def

lemma denied_requests:
  assumes "cells s p = Some (ServerProxy i None)" "i \<noteq> kAdmin"
  shows "block (map (\<lambda>r. request r (Some p)) rs) s = Done () (says s (replicate (length rs) check_line))"
  using assms(1)
proof (induction rs arbitrary: s)
  case Nil
  then show ?case by (simp add: machine)
next
  case (Cons r rs)
  have "request r (Some p) s = Done () (says s [check_line])"
    using Cons.prems assms(2) by (simp add: request_def proxy_request_def checkAccess_def proxy_def machine check_line_def)
  with Cons show ?case by (simp add: seq_def)
qed

lemma served_requests:
  assumes "cells s p = Some (ServerProxy kAdmin (Some a))" "cells s a = Some (Server kAdmin)"
  shows "block (map (\<lambda>r. request r (Some p)) rs) s
    = Done () (says s (concat (map (\<lambda>r. [check_line, Cout (handling r kAdmin), log_line kAdmin]) rs)))"
  using assms
proof (induction rs arbitrary: s)
  case Nil
  then show ?case by (simp add: machine)
next
  case (Cons r rs)
  have "request r (Some p) s = Done () (says s [check_line, Cout (handling r kAdmin), log_line kAdmin])"
    using Cons.prems by (simp add: request_def proxy_request_def checkAccess_def proxy_def server_request_def
        logAccess_def machine line_defs)
  with Cons show ?case by (simp add: seq_def)
qed

section \<open>Properties\<close>

text \<open>
  For anyone but the administrator, any sequence of requests to a fresh proxy prints the access
  check for each and nothing else: no server is ever constructed and the store is unchanged.
\<close>

theorem proxy_denies_others:
  assumes "i \<noteq> kAdmin" "fresh_above s"
  shows "\<exists>t. seq (new_ServerProxy i) (\<lambda>p. block (map (\<lambda>r. request r p) rs)) s = Done () t
    \<and> cells t = (cells s)(brk s \<mapsto> ServerProxy i None)
    \<and> out t = out s @ Cout (''[Proxy] Constructor: '' @ i @ endl) # replicate (length rs) check_line"
proof -
  let ?s = "says (s\<lparr>cells := (cells s)(brk s \<mapsto> ServerProxy i None), brk := Suc (brk s)\<rparr>)
      [Cout (''[Proxy] Constructor: '' @ i @ endl)]"
  have "new_ServerProxy i s = Done (Some (brk s)) ?s" by (simp add: new_ServerProxy_def machine)
  moreover have "block (map (\<lambda>r. request r (Some (brk s))) rs) ?s
      = Done () (says ?s (replicate (length rs) check_line))"
    by (rule denied_requests [OF _ assms(1)]) simp
  ultimately show ?thesis by (simp add: seq_def)
qed

theorem proxy_denies_others_witness:
  "\<exists>t. seq (new_ServerProxy ''xxx'') (\<lambda>p. block (map (\<lambda>r. request r p) [request2])) boot = Done () t
    \<and> cells t = [0 \<mapsto> ServerProxy ''xxx'' None]"
  using proxy_denies_others [of "''xxx''" boot "[request2]"] by (auto simp: kAdmin_def boot_sel)

text \<open>
  For the administrator, the server is constructed exactly once, at the first request and not
  before; every request is checked, handled and logged, in this order; and deleting the proxy
  deletes the server it created.
\<close>

theorem proxy_lazy_server:
  assumes "cells s p = Some (ServerProxy kAdmin None)" "fresh_above s" "rs \<noteq> []"
  shows "\<exists>t a. block (map (\<lambda>r. request r (Some p)) rs) s = Done () t
    \<and> out t = out s @ session rs
    \<and> a \<noteq> p \<and> cells t = (cells s)(p \<mapsto> ServerProxy kAdmin (Some a), a \<mapsto> Server kAdmin)
    \<and> (\<exists>u. delete_ServerProxy (Some p) t = Done () u \<and> cells u = (cells s)(p := None))"
proof -
  obtain r rs' where rs: "rs = r # rs'" using assms(3) by (cases rs) auto
  have p: "p < brk s" "cells s (brk s) = None"
    using fresh_above_live [OF assms(2,1)] assms(2) by (auto simp: fresh_above_def)
  let ?c = "(cells s)(p \<mapsto> ServerProxy kAdmin (Some (brk s)), brk s \<mapsto> Server kAdmin)"
  obtain u where u: "request r (Some p) s = Done () u" "cells u = ?c"
    "out u = out s @ [check_line, construct_line kAdmin, Cout (handling r kAdmin), log_line kAdmin]"
    using assms(1) p by (simp add: request_def proxy_request_def checkAccess_def proxy_def server_request_def
        new_Server_def logAccess_def machine line_defs fun_upd_twist)
  have "block (map (\<lambda>r. request r (Some p)) rs') u
      = Done () (says u (concat (map (\<lambda>r. [check_line, Cout (handling r kAdmin), log_line kAdmin]) rs')))"
    using p by (intro served_requests [of _ _ "brk s"]) (simp_all add: u(2))
  with u(1) have "block (map (\<lambda>r. request r (Some p)) rs) s
      = Done () (says u (concat (map (\<lambda>r. [check_line, Cout (handling r kAdmin), log_line kAdmin]) rs')))"
    by (simp add: rs seq_def)
  moreover have "\<exists>v. delete_ServerProxy (Some p) (says u ls) = Done () v \<and> cells v = (cells s)(p := None)" for ls
    using p u(2) by (auto simp: delete_ServerProxy_def proxy_def machine fun_eq_iff)
  ultimately show ?thesis
    using u(2,3) p(1) rs by (intro exI [of _ "says u _"] exI [of _ "brk s"]) auto
qed

theorem proxy_lazy_server_witness:
  "\<exists>t a. block (map (\<lambda>r. request r (Some 0)) [request1, request1]) (boot\<lparr>cells := [0 \<mapsto> ServerProxy kAdmin None], brk := 1\<rparr>) = Done () t
    \<and> length (out t) = 7 \<and> a \<noteq> 0 \<and> cells t = [0 \<mapsto> ServerProxy kAdmin (Some a), a \<mapsto> Server kAdmin]"
  using proxy_lazy_server [of "boot\<lparr>cells := [0 \<mapsto> ServerProxy kAdmin None], brk := 1\<rparr>" 0 "[request1, request1]"]
  by (auto simp: fresh_above_def boot_sel)

text \<open>
  The demonstration's second part uses a \<open>Server\<close> for the invalid name, although its comment says
  that no server is constructed then: the server is constructed and handles the requests.
\<close>

lemma proxy_run_serves_invalid:
  "case proxy_run boot of Done _ t \<Rightarrow> live_addrs t = []
      \<and> construct_line ''xxx'' \<in> set (out t) \<and> Cout (handling request1 ''xxx'') \<in> set (out t) | _ \<Rightarrow> False"
  by code_simp

lemma problem_servers_freed:
  "case problem_run boot of Done _ t \<Rightarrow> live_addrs t = [] | _ \<Rightarrow> False"
  by code_simp

end
