(* ===== verification/Registry.thy ===== *)
theory Registry
  imports Prelude "HOL-Library.AList" "HOL-Library.Multiset"
begin

text \<open>
  \<open>include/IExample.h\<close> and \<open>include/ExampleRegistry.h\<close>: every example registers a factory under its
  group and name in a map of maps.  An \<open>std::unordered_map\<close> is an association list with distinct
  keys, in an order nothing may depend on.  The registrations run during static initialisation, so
  their order across source files is unspecified.

  Lemmas: what \<open>create\<close> returns after any registrations; with distinct names the result does not
  depend on the order of the registrations.
\<close>

text \<open>
  An implementation of the interface \<open>IExample\<close>: the strings its three getters return, and the
  functions its \<open>execute\<close> calls, in order.
\<close>

datatype IExample = IExample (group: string) (name: string) (description: string) (execute: "string list")

type_synonym 'f registry = "(string \<times> (string \<times> 'f) list) list"

section \<open>Operations\<close>

text \<open>\<open>registry_[group][name] = factory\<close>: \<open>operator[]\<close> inserts an empty inner map when needed.\<close>

definition registerExample :: "string \<Rightarrow> string \<Rightarrow> 'f \<Rightarrow> ('f registry, unit) prog" where
  "registerExample g n factory reg =
     (let examples = (case map_of reg g of None \<Rightarrow> [] | Some m \<Rightarrow> m)
      in Done () (AList.update g (AList.update n factory examples) reg))"

definition getAll :: "('f registry, 'f registry) prog" where
  "getAll reg = Done reg reg"

text \<open>\<open>registry_.at(group).at(name)\<close>, the factory that \<open>create\<close> calls.\<close>

definition create :: "string \<Rightarrow> string \<Rightarrow> ('f registry, 'f) prog" where
  "create g n reg = (case map_of reg g of
      None \<Rightarrow> Thrown ''out_of_range'' reg
    | Some m \<Rightarrow> (case map_of m n of None \<Rightarrow> Thrown ''out_of_range'' reg | Some f \<Rightarrow> Done f reg))"

text \<open>The registrar object of \<open>REGISTER_EXAMPLE\<close>, and the static initialisation of a program.\<close>

definition registrar :: "IExample \<Rightarrow> (IExample registry, unit) prog" where
  "registrar obj = registerExample (group obj) (name obj) obj"

definition static_init :: "IExample list \<Rightarrow> (IExample registry, unit) prog" where
  "static_init es = block (map registrar es)"

lemmas registry_defs [defs] = registerExample_def getAll_def create_def registrar_def static_init_def

section \<open>What a registry contains\<close>

definition entry :: "'f registry \<Rightarrow> string \<times> string \<Rightarrow> 'f option" where
  "entry reg k = Option.bind (map_of reg (fst k)) (\<lambda>m. map_of m (snd k))"

text \<open>Distinct keys in the outer map and in every inner map.\<close>

definition well_formed :: "'f registry \<Rightarrow> bool" where
  "well_formed reg \<longleftrightarrow> distinct (map fst reg) \<and> (\<forall>e \<in> set reg. distinct (map fst (snd e)))"

definition key :: "IExample \<Rightarrow> string \<times> string" where
  "key e = (group e, name e)"

lemma entry_Nil [simp]: "entry [] k = None"
  by (simp add: entry_def)

lemma create_entry: "create g n reg = (case entry reg (g, n) of
    None \<Rightarrow> Thrown ''out_of_range'' reg | Some f \<Rightarrow> Done f reg)"
  by (simp add: create_def entry_def split: option.split)

lemma registerExample_entry:
  "registerExample g n f reg = Done () r \<Longrightarrow> entry r = (entry reg)((g, n) \<mapsto> f)"
  by (auto simp: registerExample_def Let_def entry_def update_conv' fun_eq_iff split: option.splits)

lemma registerExample_total: "\<exists>r. registerExample g n f reg = Done () r"
  by (simp add: registerExample_def Let_def)

lemma registerExample_well_formed:
  assumes "well_formed reg" "registerExample g n f reg = Done () r"
  shows "well_formed r"
proof -
  let ?m = "case map_of reg g of None \<Rightarrow> [] | Some m \<Rightarrow> m"
  have m: "distinct (map fst ?m)"
  proof (cases "map_of reg g")
    case (Some m)
    then have "(g, m) \<in> set reg" by (rule map_of_SomeD)
    with assms(1) Some show ?thesis by (force simp: well_formed_def)
  qed simp
  have r: "r = AList.update g (AList.update n f ?m) reg"
    using assms(2) by (simp add: registerExample_def Let_def)
  have d: "distinct (map fst r)" using assms(1) by (simp add: r well_formed_def distinct_update)
  moreover have "distinct (map fst (snd e))" if "e \<in> set r" for e
  proof -
    have "map_of r (fst e) = Some (snd e)" using d that by simp
    then have "fst e = g \<and> snd e = AList.update n f ?m \<or> map_of reg (fst e) = Some (snd e)"
      by (auto simp: r update_conv' split: if_splits)
    then show ?thesis
    proof
      assume "map_of reg (fst e) = Some (snd e)"
      then have "(fst e, snd e) \<in> set reg" by (rule map_of_SomeD)
      with assms(1) show ?thesis by (auto simp: well_formed_def)
    qed (simp add: m distinct_update)
  qed
  ultimately show ?thesis by (simp add: well_formed_def)
qed

lemma static_init_run:
  assumes "well_formed reg"
  shows "\<exists>r. static_init es reg = Done () r \<and> well_formed r
    \<and> entry r = entry reg ++ map_of (rev (map (\<lambda>e. (key e, e)) es))"
  using assms
proof (induction es arbitrary: reg)
  case Nil
  then show ?case by (simp add: static_init_def ret_def)
next
  case (Cons e es)
  obtain u where u: "registerExample (group e) (name e) e reg = Done () u"
    using registerExample_total [of "group e" "name e" e reg] by auto
  have w: "well_formed u" by (rule registerExample_well_formed [OF Cons.prems u])
  obtain r where r: "static_init es u = Done () r" "well_formed r"
    "entry r = entry u ++ map_of (rev (map (\<lambda>e. (key e, e)) es))" using Cons.IH [OF w] by blast
  have "entry r = entry reg ++ map_of (rev (map (\<lambda>e. (key e, e)) (e # es)))"
    by (simp add: r(3) registerExample_entry [OF u] key_def)
  moreover have "static_init (e # es) reg = Done () r"
    using u r(1) by (simp add: static_init_def registrar_def seq_def)
  ultimately show ?case using r(2) by blast
qed

lemma map_of_mset:
  assumes "mset xs = mset ys" "distinct (map fst xs)"
  shows "map_of xs = map_of ys"
proof -
  have "mset (map fst xs) = mset (map fst ys)" using assms(1) by (simp add: mset_map)
  then have d: "distinct (map fst ys)" using assms(2) mset_eq_imp_distinct_iff by blast
  have "map_of xs k = Some v \<longleftrightarrow> map_of ys k = Some v" for k v
    using map_of_eq_Some_iff [OF assms(2)] map_of_eq_Some_iff [OF d] mset_eq_setD [OF assms(1)] by simp
  then have "map_of xs k = map_of ys k" for k
    by (cases "map_of ys k") (metis not_None_eq, simp)
  then show ?thesis by (rule ext)
qed

section \<open>Properties\<close>

text \<open>
  After any registrations, in static initialisation order: creating by a group and a name gives
  the example registered last under that pair; a pair that was never registered raises
  \<open>out_of_range\<close>.  The registry is not changed by a lookup.
\<close>

theorem registry_create_last:
  "\<exists>reg. static_init es [] = Done () reg \<and> well_formed reg \<and>
     (\<forall>g n. create g n reg = (case find (\<lambda>e. key e = (g, n)) (rev es) of
        None \<Rightarrow> Thrown ''out_of_range'' reg | Some e \<Rightarrow> Done e reg))"
proof -
  obtain reg where reg: "static_init es [] = Done () reg" "well_formed reg"
    "entry reg = entry [] ++ map_of (rev (map (\<lambda>e. (key e, e)) es))"
    using static_init_run [of "[]" es] by (auto simp: well_formed_def)
  have "map_of (map (\<lambda>e. (key e, e)) xs) k = find (\<lambda>e. key e = k) xs" for xs k
    by (induction xs) auto
  then have "entry reg (g, n) = find (\<lambda>e. key e = (g, n)) (rev es)" for g n
    using reg(3) by (simp add: rev_map map_add_def split: option.split)
  with reg(1,2) show ?thesis by (simp add: create_entry)
qed

text \<open>
  Static initialisation may run the registrations in any order: when no two examples share
  group and name, every order gives a registry that creates the same example for every pair.
\<close>

theorem registry_order_independent:
  assumes "mset es = mset es'" "distinct (map key es)"
  shows "\<exists>reg reg'. static_init es [] = Done () reg \<and> static_init es' [] = Done () reg'
    \<and> (\<forall>g n. (\<exists>e. create g n reg = Done e reg \<and> create g n reg' = Done e reg')
         \<or> create g n reg = Thrown ''out_of_range'' reg \<and> create g n reg' = Thrown ''out_of_range'' reg')"
proof -
  obtain reg where reg: "static_init es [] = Done () reg"
    "entry reg = entry [] ++ map_of (rev (map (\<lambda>e. (key e, e)) es))"
    using static_init_run [of "[]" es] by (auto simp: well_formed_def)
  obtain reg' where reg': "static_init es' [] = Done () reg'"
    "entry reg' = entry [] ++ map_of (rev (map (\<lambda>e. (key e, e)) es'))"
    using static_init_run [of "[]" es'] by (auto simp: well_formed_def)
  have "map_of (rev (map (\<lambda>e. (key e, e)) es)) = map_of (rev (map (\<lambda>e. (key e, e)) es'))"
    by (rule map_of_mset) (use assms in \<open>simp_all add: rev_map [symmetric] comp_def\<close>)
  with reg reg' have "entry reg = entry reg'" by simp
  with reg(1) reg'(1) show ?thesis by (auto simp: create_entry split: option.split)
qed

end
