(* ===== verification/Catalogue.thy ===== *)
theory Catalogue
  imports Registry
begin

text \<open>
  Every example the program registers with \<open>REGISTER_EXAMPLE\<close>, with its group, its name, its
  description and the functions its \<open>execute\<close> calls, one definition per class.

  Lemmas: no two examples share a group and a name, so none replaces another in the registry and
  the registry does not depend on the order of the static initialisation.
\<close>

section \<open>Group \<open>controller\<close>\<close>

definition PIDSim :: IExample where
  "PIDSim = IExample ''controller'' ''PIDSim'' ''PID example''
     [''run'']"

section \<open>Group \<open>core\<close>\<close>

definition Linkage :: IExample where
  "Linkage = IExample ''core'' ''Linkage'' ''Linkage''
     [''internal::run'', ''external::run'']"

definition ShallowDeepCopying :: IExample where
  "ShallowDeepCopying = IExample ''core'' ''ShallowDeepCopying'' ''''
     [''shallow::run'', ''deep_copying::run'']"

definition Sharing :: IExample where
  "Sharing = IExample ''core'' ''Sharing'' ''SharingGlobalConstantsAcrossMultipleFiles''
     [''internal_way::run'', ''external_way::run'', ''inline_way::run'']"

section \<open>Group \<open>core/basics\<close>\<close>

definition ControlFlow :: IExample where
  "ControlFlow = IExample ''core/basics'' ''ControlFlow'' ''ControlFlow''
     [''conditionals'', ''jumps'', ''functionCalls'', ''loops'', ''halts'', ''exceptions'']"

definition Initialization :: IExample where
  "Initialization = IExample ''core/basics'' ''Initialization'' ''Initialization Examples''
     [''default_ini'', ''value_ini'', ''direct_ini'', ''copy_ini'', ''list_ini'', ''aggregate_ini'']"

definition Operations :: IExample where
  "Operations = IExample ''core/basics'' ''Operations'' ''Operation''
     [''arithmeticOperator'', ''logicalOperator'', ''bitWiseOperator'']"

definition TypeQualifier :: IExample where
  "TypeQualifier = IExample ''core/basics'' ''TypeQualifier'' ''TypeQualifier''
     [''run'']"

section \<open>Group \<open>core/class\<close>\<close>

definition Binding :: IExample where
  "Binding = IExample ''core/class'' ''Binding'' ''Binding examples''
     [''early_binding::run'', ''late_binding::run'']"

definition Constructor :: IExample where
  "Constructor = IExample ''core/class'' ''Constructor'' ''''
     [''initializer_list::constructers'', ''default_constructor::constructers'', ''delegate::constructors'', ''copy::constructors'', ''move::constructers'']"

definition Destructor :: IExample where
  "Destructor = IExample ''core/class'' ''Destructor'' ''''
     [''basic::destructers'', ''virtual_desctructor::destructers'']"

definition Encapsulation :: IExample where
  "Encapsulation = IExample ''core/class'' ''Encapsulation'' ''Examples demonstrating encapsulation in C++''
     [''run'']"

definition Friend :: IExample where
  "Friend = IExample ''core/class'' ''Friend'' ''Friend examples''
     [''NonMember::run'', ''Member::run'', ''Class::run'']"

definition Relationship :: IExample where
  "Relationship = IExample ''core/class'' ''Relationship'' ''Relationship examples''
     [''composition::run'', ''aggregations::run'', ''associations::run'', ''dependency::run'']"

definition RoleOfThreeFiveZero :: IExample where
  "RoleOfThreeFiveZero = IExample ''core/class'' ''RoleOfThreeFiveZero'' ''''
     [''problem::run'', ''role_of_three::run'', ''role_of_five::run'', ''role_of_zero::run'']"

definition VirtualBase :: IExample where
  "VirtualBase = IExample ''core/class'' ''VirtualBase'' ''VirtualBase examples''
     [''problem::run'', ''virtual_base_classes::run'']"

section \<open>Group \<open>core/concurrency\<close>\<close>

definition ConditionVariable :: IExample where
  "ConditionVariable = IExample ''core/concurrency'' ''ConditionVariable'' ''The examples for <thread> condition variable''
     [''run'']"

definition FuturePromise :: IExample where
  "FuturePromise = IExample ''core/concurrency'' ''FuturePromise'' ''The examples for <future>''
     [''async_example::run'', ''promise_example::run'']"

definition RaceCondition :: IExample where
  "RaceCondition = IExample ''core/concurrency'' ''RaceCondition'' ''The examples for <thread> race condition''
     [''problem::run'', ''atomic::run'', ''mutex::run'']"

definition SharingData :: IExample where
  "SharingData = IExample ''core/concurrency'' ''SharingData'' ''The examples for <thread> sharing data''
     [''run'']"

definition ThreadManagement :: IExample where
  "ThreadManagement = IExample ''core/concurrency'' ''ThreadManagement'' ''The examples for <thread>''
     [''join::run'', ''detach::run'', ''exception_before_join::run'']"

definition Timing :: IExample where
  "Timing = IExample ''core/concurrency'' ''Timing'' ''The examples for <chrono> code timing''
     [''run'']"

section \<open>Group \<open>core/container\<close>\<close>

definition Array :: IExample where
  "Array = IExample ''core/container'' ''Array'' ''''
     [''run'']"

definition Deque :: IExample where
  "Deque = IExample ''core/container'' ''Deque'' ''std::deque Example''
     [''run'']"

definition Queue :: IExample where
  "Queue = IExample ''core/container'' ''Queue'' ''std::queue Example''
     [''run'']"

definition Set :: IExample where
  "Set = IExample ''core/container'' ''Set'' ''std::set Example''
     [''run'']"

definition Stack :: IExample where
  "Stack = IExample ''core/container'' ''Stack'' ''std::stack Example''
     [''run'']"

definition UnorderedMap :: IExample where
  "UnorderedMap = IExample ''core/container'' ''UnorderedMap'' ''''
     [''run'']"

definition Vector :: IExample where
  "Vector = IExample ''core/container'' ''Vector'' ''''
     [''run'']"

section \<open>Group \<open>core/datatype\<close>\<close>

definition CArray :: IExample where
  "CArray = IExample ''core/datatype'' ''Array'' ''''
     [''arrayExamples'']"

definition CEnum :: IExample where
  "CEnum = IExample ''core/datatype'' ''Enum'' ''Compound type: Enum''
     [''enums'']"

definition CPointers :: IExample where
  "CPointers = IExample ''core/datatype'' ''Pointer'' ''Compound type: Pointers''
     [''pointers'']"

definition CReferences :: IExample where
  "CReferences = IExample ''core/datatype'' ''Reference'' ''Compound type: References''
     [''references'', ''rvalue_reference::run'']"

definition CStruct :: IExample where
  "CStruct = IExample ''core/datatype'' ''Struct'' ''Compound type: Struct''
     [''structs'']"

definition CTypeConversion :: IExample where
  "CTypeConversion = IExample ''core/datatype'' ''TypeConversion'' ''''
     [''implicitConversion'', ''explicitConversion'', ''typeAliases'', ''typeDeduction'']"

definition CUnion :: IExample where
  "CUnion = IExample ''core/datatype'' ''Union'' ''Compound type: Union''
     [''unionDemo'']"

definition Fundamental :: IExample where
  "Fundamental = IExample ''core/datatype'' ''Fundamental'' ''Fundamental''
     [''primative'']"

section \<open>Group \<open>core/datetime\<close>\<close>

definition CTime :: IExample where
  "CTime = IExample ''core/datetime'' ''Time'' ''''
     [''run'']"

section \<open>Group \<open>core/exception\<close>\<close>

definition BasicHandle :: IExample where
  "BasicHandle = IExample ''core/exception'' ''BasicHandle'' ''Basic Expception Handle Example''
     [''run'']"

definition ThrowNoexcept :: IExample where
  "ThrowNoexcept = IExample ''core/exception'' ''ThrowNoexcept'' ''Exception throw/noexcept Example''
     [''run'']"

section \<open>Group \<open>core/filehandle\<close>\<close>

definition BinaryFileHandling :: IExample where
  "BinaryFileHandling = IExample ''core/filehandle'' ''BinaryFileHandling'' ''Binary file handling''
     [''run'']"

definition Directory :: IExample where
  "Directory = IExample ''core/filehandle'' ''Directory'' ''''
     [''run'']"

definition FileIO :: IExample where
  "FileIO = IExample ''core/filehandle'' ''FileIO'' ''''
     [''run'']"

definition IOStream :: IExample where
  "IOStream = IExample ''core/filehandle'' ''IOStream'' ''''
     [''run'']"

definition OutputFormatting :: IExample where
  "OutputFormatting = IExample ''core/filehandle'' ''OutputFormatting'' ''''
     [''run'']"

definition StringStream :: IExample where
  "StringStream = IExample ''core/filehandle'' ''StringStream'' ''''
     [''runStringStreamExample'']"

definition TerminalColor :: IExample where
  "TerminalColor = IExample ''core/filehandle'' ''TerminalColor'' ''''
     [''run'']"

section \<open>Group \<open>core/function\<close>\<close>

definition FunctionPointer :: IExample where
  "FunctionPointer = IExample ''core/function'' ''FunctionPointer'' ''Function Pointer Example''
     [''run'']"

definition Functional :: IExample where
  "Functional = IExample ''core/function'' ''Functional'' ''Functional Example''
     [''run'']"

definition Lambda :: IExample where
  "Lambda = IExample ''core/function'' ''Lambda'' ''Lambda Expression Example''
     [''run'']"

section \<open>Group \<open>core/overloading_operator\<close>\<close>

definition AllocationOperator :: IExample where
  "AllocationOperator = IExample ''core/overloading_operator'' ''AllocationOperator'' ''''
     [''run'']"

definition ArithmeticOperator :: IExample where
  "ArithmeticOperator = IExample ''core/overloading_operator'' ''ArithmeticOperator'' ''''
     [''run'']"

definition AssignmentOperator :: IExample where
  "AssignmentOperator = IExample ''core/overloading_operator'' ''Assignment Operator'' ''''
     [''run'']"

definition ClassMemberAccessOperator :: IExample where
  "ClassMemberAccessOperator = IExample ''core/overloading_operator'' ''ClassMemberAccessOperator'' ''''
     [''run'']"

definition ComparisonOperator :: IExample where
  "ComparisonOperator = IExample ''core/overloading_operator'' ''ComparisonOperator'' ''''
     [''run'']"

definition FunctionCallOperator :: IExample where
  "FunctionCallOperator = IExample ''core/overloading_operator'' ''FunctionCallOperator'' ''''
     [''run'']"

definition InDecOperator :: IExample where
  "InDecOperator = IExample ''core/overloading_operator'' ''InDecOperator'' ''''
     [''run'']"

definition StreamOperator :: IExample where
  "StreamOperator = IExample ''core/overloading_operator'' ''StreamOperator'' ''''
     [''run'']"

definition SubscriptOperator :: IExample where
  "SubscriptOperator = IExample ''core/overloading_operator'' ''SubscriptOperator'' ''''
     [''run'']"

definition TypeCast :: IExample where
  "TypeCast = IExample ''core/overloading_operator'' ''TypeCast'' ''''
     [''run'']"

definition UnaryOperator :: IExample where
  "UnaryOperator = IExample ''core/overloading_operator'' ''UnaryOperator'' ''''
     [''run'']"

section \<open>Group \<open>core/smart_pointer\<close>\<close>

definition Shared :: IExample where
  "Shared = IExample ''core/smart_pointer'' ''Shared'' ''Shared Pointer Example''
     [''run'']"

definition Unique :: IExample where
  "Unique = IExample ''core/smart_pointer'' ''Unique'' ''Unique Pointer Example''
     [''run'']"

definition Weak :: IExample where
  "Weak = IExample ''core/smart_pointer'' ''Weak'' ''Weak Pointer Example''
     [''run'']"

section \<open>Group \<open>core/string\<close>\<close>

definition CString :: IExample where
  "CString = IExample ''core/string'' ''C-String'' ''C-String Example''
     [''create::run'', ''copy::run'', ''concat::run'', ''compare::run'', ''parse::run'', ''number_conversion::run'']"

definition StdString :: IExample where
  "StdString = IExample ''core/string'' ''StdString'' ''StdString Example''
     [''create::run'', ''modify::run'', ''sub::run'', ''search::run'', ''compare::run'', ''convert::run'', ''parsing::run'']"

definition StringFormatting :: IExample where
  "StringFormatting = IExample ''core/string'' ''StringFormatting'' ''String formatting examples (std::format, concatenation, stringstream, C-style)''
     [''std_format::run'', ''concatenation::run'', ''stream::run'', ''c_style::run'']"

section \<open>Group \<open>core/utils\<close>\<close>

definition Algorithm :: IExample where
  "Algorithm = IExample ''core/utils'' ''std::algorithm'' ''The examples for <algorithm> header''
     [''find_if_example::run'']"

definition Optional :: IExample where
  "Optional = IExample ''core/utils'' ''std::optional'' ''The examples for <optional>''
     [''run'']"

definition Regex :: IExample where
  "Regex = IExample ''core/utils'' ''Regex'' ''The examples for regular expression <regex>''
     [''run'']"

definition TypeTrait :: IExample where
  "TypeTrait = IExample ''core/utils'' ''std::type_traits'' ''Examples for <type_traits> with improved logging and SFINAE checks''
     [''type_trait::run'']"

definition Variadic :: IExample where
  "Variadic = IExample ''core/utils'' ''Variadic'' ''Examples for C-style variadic arguments''
     [''c_variadic_style::run'', ''modern_variadic_style::run'']"

section \<open>Group \<open>dp/behavioral\<close>\<close>

definition ChainOfResponsibilityExample :: IExample where
  "ChainOfResponsibilityExample = IExample ''dp/behavioral'' ''ChainOfResponsibility'' ''CoR Pattern Example''
     [''co_r::run'']"

definition CommandExample :: IExample where
  "CommandExample = IExample ''dp/behavioral'' ''Command'' ''Command Pattern Example''
     [''command::run'']"

definition IteratorExample :: IExample where
  "IteratorExample = IExample ''dp/behavioral'' ''Iterator'' ''Iterator Pattern Example''
     [''iterator::run'']"

definition MediatorExample :: IExample where
  "MediatorExample = IExample ''dp/behavioral'' ''Mediator'' ''Mediator Pattern Example''
     [''mediator::run'']"

definition MementoExample :: IExample where
  "MementoExample = IExample ''dp/behavioral'' ''Memento'' ''Memento Pattern Example ''
     [''memento::run'']"

definition ObserverExample :: IExample where
  "ObserverExample = IExample ''dp/behavioral'' ''Observer'' ''Observer Pattern Example''
     [''observer::run'']"

definition StateExample :: IExample where
  "StateExample = IExample ''dp/behavioral'' ''State'' ''State Pattern Example''
     [''state::run'']"

definition StrategyExample :: IExample where
  "StrategyExample = IExample ''dp/behavioral'' ''Strategy'' ''Strategy Pattern Example''
     [''strategy::run'']"

definition TemplateMethodExample :: IExample where
  "TemplateMethodExample = IExample ''dp/behavioral'' ''TemplateMethod'' ''TemplateMethod Pattern Example''
     [''template_method::run'']"

definition VisitorExample :: IExample where
  "VisitorExample = IExample ''dp/behavioral'' ''Visitor'' ''Visitor Pattern Example''
     [''visitor::run'']"

section \<open>Group \<open>dp/creational\<close>\<close>

definition AbstractFactoryExample :: IExample where
  "AbstractFactoryExample = IExample ''dp/creational'' ''AbstractFactory'' ''AbstractFactory Pattern Example''
     [''abstract_factory::run'']"

definition BuilderExample :: IExample where
  "BuilderExample = IExample ''dp/creational'' ''Builder'' ''Builder Pattern Example''
     [''builder_pattern::run'']"

definition FactoryMethodExample :: IExample where
  "FactoryMethodExample = IExample ''dp/creational'' ''FactoryMethod'' ''FactoryMethod Pattern Example''
     [''factory_method::run'']"

definition PrototypeExample :: IExample where
  "PrototypeExample = IExample ''dp/creational'' ''Prototype'' ''Clone configured objects via a prototype interface + registry''
     [''prototy::run'']"

definition SingletonExample :: IExample where
  "SingletonExample = IExample ''dp/creational'' ''Singleton'' ''Singleton Pattern Example''
     [''singleton_pattern::run'']"

section \<open>Group \<open>dp/structural\<close>\<close>

definition AdapterExample :: IExample where
  "AdapterExample = IExample ''dp/structural'' ''Adapter'' ''Factory Pattern Example''
     [''adapter_pattern::run'', ''case_study::run'']"

definition BridgeExample :: IExample where
  "BridgeExample = IExample ''dp/structural'' ''Bridge'' ''Bridge Pattern Example''
     [''problem::run'', ''bridge_pattern::run'']"

definition CompositeExample :: IExample where
  "CompositeExample = IExample ''dp/structural'' ''Composite'' ''Composite Pattern Example''
     [''problem::run'', ''composite_pattern::run'']"

definition DecoratorExample :: IExample where
  "DecoratorExample = IExample ''dp/structural'' ''Decorator'' ''Decorator Pattern Example''
     [''problem::run'', ''decorator_pattern::run'']"

definition FacadeExample :: IExample where
  "FacadeExample = IExample ''dp/structural'' ''Facade'' ''Facade Pattern Example''
     [''problem::run'', ''facade::run'']"

definition FlyweightExample :: IExample where
  "FlyweightExample = IExample ''dp/structural'' ''Flyweight'' ''Flyweight Pattern Example''
     [''problem::run'', ''flyweight_pattern::run'']"

definition ProxyExample :: IExample where
  "ProxyExample = IExample ''dp/structural'' ''Proxy'' ''Proxy Pattern Example''
     [''problem::run'', ''proxy_pattern::run'']"

section \<open>Group \<open>socket/tcp\<close>\<close>

definition MultiTCPServer :: IExample where
  "MultiTCPServer = IExample ''socket/tcp'' ''MultiTCPServer'' (''Multi TCP server listening on port 8080.'' @ endl @ ''Run `telnet localhost 8080` to connect.'')
     [''run'']"

definition SimpleTCPClient :: IExample where
  "SimpleTCPClient = IExample ''socket/tcp'' ''SimpleTCPClient'' ''Simple TCP Client''
     [''run'']"

definition SimpleTCPServer :: IExample where
  "SimpleTCPServer = IExample ''socket/tcp'' ''SimpleTCPServer'' (''Simple TCP server listening on port 8080.'' @ endl @ ''Run `telnet localhost 8080` to connect.'')
     [''run'']"

section \<open>The catalogue\<close>

definition controller_examples :: "IExample list" where
  "controller_examples = [PIDSim]"

definition core_examples :: "IExample list" where
  "core_examples = [Linkage, ShallowDeepCopying, Sharing]"

definition core_basics_examples :: "IExample list" where
  "core_basics_examples = [ControlFlow, Initialization, Operations, TypeQualifier]"

definition core_class_examples :: "IExample list" where
  "core_class_examples = [Binding, Constructor, Destructor, Encapsulation, Friend,
     Relationship, RoleOfThreeFiveZero, VirtualBase]"

definition core_concurrency_examples :: "IExample list" where
  "core_concurrency_examples = [ConditionVariable, FuturePromise, RaceCondition, SharingData, ThreadManagement,
     Timing]"

definition core_container_examples :: "IExample list" where
  "core_container_examples = [Array, Deque, Queue, Set, Stack,
     UnorderedMap, Vector]"

definition core_datatype_examples :: "IExample list" where
  "core_datatype_examples = [CArray, CEnum, CPointers, CReferences, CStruct,
     CTypeConversion, CUnion, Fundamental]"

definition core_datetime_examples :: "IExample list" where
  "core_datetime_examples = [CTime]"

definition core_exception_examples :: "IExample list" where
  "core_exception_examples = [BasicHandle, ThrowNoexcept]"

definition core_filehandle_examples :: "IExample list" where
  "core_filehandle_examples = [BinaryFileHandling, Directory, FileIO, IOStream, OutputFormatting,
     StringStream, TerminalColor]"

definition core_function_examples :: "IExample list" where
  "core_function_examples = [FunctionPointer, Functional, Lambda]"

definition core_overloading_operator_examples :: "IExample list" where
  "core_overloading_operator_examples = [AllocationOperator, ArithmeticOperator, AssignmentOperator, ClassMemberAccessOperator, ComparisonOperator,
     FunctionCallOperator, InDecOperator, StreamOperator, SubscriptOperator, TypeCast,
     UnaryOperator]"

definition core_smart_pointer_examples :: "IExample list" where
  "core_smart_pointer_examples = [Shared, Unique, Weak]"

definition core_string_examples :: "IExample list" where
  "core_string_examples = [CString, StdString, StringFormatting]"

definition core_utils_examples :: "IExample list" where
  "core_utils_examples = [Algorithm, Optional, Regex, TypeTrait, Variadic]"

definition dp_behavioral_examples :: "IExample list" where
  "dp_behavioral_examples = [ChainOfResponsibilityExample, CommandExample, IteratorExample, MediatorExample, MementoExample,
     ObserverExample, StateExample, StrategyExample, TemplateMethodExample, VisitorExample]"

definition dp_creational_examples :: "IExample list" where
  "dp_creational_examples = [AbstractFactoryExample, BuilderExample, FactoryMethodExample, PrototypeExample, SingletonExample]"

definition dp_structural_examples :: "IExample list" where
  "dp_structural_examples = [AdapterExample, BridgeExample, CompositeExample, DecoratorExample, FacadeExample,
     FlyweightExample, ProxyExample]"

definition socket_tcp_examples :: "IExample list" where
  "socket_tcp_examples = [MultiTCPServer, SimpleTCPClient, SimpleTCPServer]"

definition catalogue :: "IExample list" where
  "catalogue = concat [controller_examples, core_examples, core_basics_examples,
     core_class_examples, core_concurrency_examples, core_container_examples,
     core_datatype_examples, core_datetime_examples, core_exception_examples,
     core_filehandle_examples, core_function_examples, core_overloading_operator_examples,
     core_smart_pointer_examples, core_string_examples, core_utils_examples,
     dp_behavioral_examples, dp_creational_examples, dp_structural_examples,
     socket_tcp_examples]"

lemmas example_defs =
  PIDSim_def Linkage_def ShallowDeepCopying_def Sharing_def ControlFlow_def
  Initialization_def Operations_def TypeQualifier_def Binding_def Constructor_def
  Destructor_def Encapsulation_def Friend_def Relationship_def RoleOfThreeFiveZero_def
  VirtualBase_def ConditionVariable_def FuturePromise_def RaceCondition_def SharingData_def
  ThreadManagement_def Timing_def Array_def Deque_def Queue_def
  Set_def Stack_def UnorderedMap_def Vector_def CArray_def
  CEnum_def CPointers_def CReferences_def CStruct_def CTypeConversion_def
  CUnion_def Fundamental_def CTime_def BasicHandle_def ThrowNoexcept_def
  BinaryFileHandling_def Directory_def FileIO_def IOStream_def OutputFormatting_def
  StringStream_def TerminalColor_def FunctionPointer_def Functional_def Lambda_def
  AllocationOperator_def ArithmeticOperator_def AssignmentOperator_def ClassMemberAccessOperator_def ComparisonOperator_def
  FunctionCallOperator_def InDecOperator_def StreamOperator_def SubscriptOperator_def TypeCast_def
  UnaryOperator_def Shared_def Unique_def Weak_def CString_def
  StdString_def StringFormatting_def Algorithm_def Optional_def Regex_def
  TypeTrait_def Variadic_def ChainOfResponsibilityExample_def CommandExample_def IteratorExample_def
  MediatorExample_def MementoExample_def ObserverExample_def StateExample_def StrategyExample_def
  TemplateMethodExample_def VisitorExample_def AbstractFactoryExample_def BuilderExample_def FactoryMethodExample_def
  PrototypeExample_def SingletonExample_def AdapterExample_def BridgeExample_def CompositeExample_def
  DecoratorExample_def FacadeExample_def FlyweightExample_def ProxyExample_def MultiTCPServer_def
  SimpleTCPClient_def SimpleTCPServer_def

lemmas group_defs =
  controller_examples_def core_examples_def core_basics_examples_def core_class_examples_def
  core_concurrency_examples_def core_container_examples_def core_datatype_examples_def core_datetime_examples_def
  core_exception_examples_def core_filehandle_examples_def core_function_examples_def core_overloading_operator_examples_def
  core_smart_pointer_examples_def core_string_examples_def core_utils_examples_def dp_behavioral_examples_def
  dp_creational_examples_def dp_structural_examples_def socket_tcp_examples_def

section \<open>Names are distinct\<close>

lemma catalogue_length: "length catalogue = 97"
  by (simp add: catalogue_def group_defs)

text \<open>Names need to be distinct within a group only.\<close>

lemma distinct_groups:
  "list_all2 (\<lambda>g es. list_all (\<lambda>e. group e = g) es \<and> distinct (map name es)) gs ess \<Longrightarrow> distinct gs \<Longrightarrow>
     distinct (map key (concat ess)) \<and> group ` set (concat ess) \<subseteq> set gs"
proof (induction rule: list_all2_induct)
  case Nil
  then show ?case by simp
next
  case (Cons g gs es ess)
  then have g: "\<forall>e \<in> set es. group e = g" and d: "distinct (map name es)" by (auto simp: list_all_iff)
  have "distinct (map key es)"
    using d by (auto simp: distinct_map key_def inj_on_def)
  moreover have "key ` set es \<inter> key ` set (concat ess) = {}"
  proof (rule equals0I)
    fix k assume "k \<in> key ` set es \<inter> key ` set (concat ess)"
    then obtain e e' where e: "e \<in> set es" "e' \<in> set (concat ess)" "key e = key e'" by auto
    then have "group e' = g" using g by (simp add: key_def)
    with e(2) Cons show False by auto
  qed
  moreover have "distinct (map key (concat ess))" "group ` set (concat ess) \<subseteq> set gs" using Cons by auto
  moreover have "group ` set es \<subseteq> {g}" using g by auto
  ultimately show ?case by (simp add: image_Un del: set_concat) blast
qed

lemma catalogue_distinct: "distinct (map key catalogue)"
proof -
  have "list_all2 (\<lambda>g es. list_all (\<lambda>e. group e = g) es \<and> distinct (map name es))
      [''controller'', ''core'', ''core/basics'', ''core/class'',
       ''core/concurrency'', ''core/container'', ''core/datatype'', ''core/datetime'',
       ''core/exception'', ''core/filehandle'', ''core/function'', ''core/overloading_operator'',
       ''core/smart_pointer'', ''core/string'', ''core/utils'', ''dp/behavioral'',
       ''dp/creational'', ''dp/structural'', ''socket/tcp'']
      [controller_examples, core_examples, core_basics_examples,
       core_class_examples, core_concurrency_examples, core_container_examples,
       core_datatype_examples, core_datetime_examples, core_exception_examples,
       core_filehandle_examples, core_function_examples, core_overloading_operator_examples,
       core_smart_pointer_examples, core_string_examples, core_utils_examples,
       dp_behavioral_examples, dp_creational_examples, dp_structural_examples,
       socket_tcp_examples]"
    by code_simp
  moreover have "distinct [''controller'', ''core'', ''core/basics'', ''core/class'',
       ''core/concurrency'', ''core/container'', ''core/datatype'', ''core/datetime'',
       ''core/exception'', ''core/filehandle'', ''core/function'', ''core/overloading_operator'',
       ''core/smart_pointer'', ''core/string'', ''core/utils'', ''dp/behavioral'',
       ''dp/creational'', ''dp/structural'', ''socket/tcp'']"
    by code_simp
  ultimately show ?thesis unfolding catalogue_def by (rule distinct_groups [THEN conjunct1])
qed

section \<open>Properties\<close>

text \<open>
  In whatever order the translation units are initialised, the registry has all 97 examples:
  creating by the group and the name of an example gives that example, none being replaced by
  another.
\<close>

theorem catalogue_complete:
  assumes "mset es = mset catalogue"
  shows "\<exists>reg. static_init es [] = Done () reg \<and> (\<forall>e \<in> set catalogue. create (group e) (name e) reg = Done e reg)"
proof -
  obtain reg where reg: "static_init es [] = Done () reg"
    "entry reg = entry [] ++ map_of (rev (map (\<lambda>e. (key e, e)) es))"
    using static_init_run [of "[]" es] by (auto simp: well_formed_def)
  have m: "map_of (map (\<lambda>e. (key e, e)) catalogue) = map_of (rev (map (\<lambda>e. (key e, e)) es))"
    by (rule map_of_mset) (use assms catalogue_distinct in \<open>simp_all add: rev_map [symmetric] comp_def\<close>)
  have "entry reg (group e, name e) = Some e" if "e \<in> set catalogue" for e
  proof -
    have "map_of (map (\<lambda>e. (key e, e)) catalogue) (key e) = Some e"
      using that catalogue_distinct by (intro map_of_is_SomeI) (auto simp: comp_def)
    with reg(2) m show ?thesis by (simp add: key_def map_add_def)
  qed
  with reg(1) show ?thesis by (auto simp: create_entry)
qed

theorem catalogue_complete_witness:
  "\<exists>reg. static_init (rev catalogue) [] = Done () reg \<and> (\<forall>e \<in> set catalogue. create (group e) (name e) reg = Done e reg)"
  using catalogue_complete [of "rev catalogue"] by simp

end
