(* ===== verification/MainMenu.thy ===== *)
theory MainMenu
  imports Registry "HOL-Library.List_Lexorder" "HOL-Library.Char_ord"
begin

text \<open>
  \<open>src/main.cpp\<close>: reading a number from standard input, the two nested menus over the registered
  examples, and the command line.  Standard input is the string that is still to be read; the end
  of the string is the end of the input.  Loops that may run forever are partial functions.

  Lemmas: what \<open>readChoice\<close> returns for any text, and that it never returns at the end of the input;
  a whole session with the menus, driven by text; the mode chosen by the command line.
\<close>

record io = "unit world" +
  stdin :: string

type_synonym 'a ioprog = "(io, 'a) prog"

section \<open>Reading numbers\<close>

definition is_space :: "char \<Rightarrow> bool" where
  "is_space c \<longleftrightarrow> c \<in> {CHR '' '', CHR 0x09, CHR 0x0A, CHR 0x0B, CHR 0x0C, CHR 0x0D}"

definition is_digit :: "char \<Rightarrow> bool" where
  "is_digit c \<longleftrightarrow> CHR ''0'' \<le> c \<and> c \<le> CHR ''9''"

text \<open>An optional sign: whether it is a minus, and the rest.\<close>

fun sign :: "string \<Rightarrow> bool \<times> string" where
  "sign [] = (False, [])"
| "sign (c # cs) = (if c = CHR ''-'' then (True, cs) else if c = CHR ''+'' then (False, cs) else (False, c # cs))"

text \<open>
  \<open>std::cin >> x\<close> for an \<open>int\<close>: white space is skipped, then a sign and digits are read.  It fails
  without digits or when the value is out of range; the second component is what is left to read.
\<close>

definition read_int :: "string \<Rightarrow> int option \<times> string" where
  "read_int inp =
     (let (neg, rest) = sign (dropWhile is_space inp);
          ds = takeWhile is_digit rest;
          v = (if neg then - int (read_nat ds) else int (read_nat ds))
      in (if ds \<noteq> [] \<and> int32 v then Some v else None, dropWhile is_digit rest))"

text \<open>\<open>std::cin.ignore(max, '\n')\<close>.\<close>

definition ignore_line :: "string \<Rightarrow> string" where
  "ignore_line inp = tl (dropWhile (\<lambda>c. c \<noteq> CHR 0x0A) inp)"

partial_function (option) readChoice :: "io \<Rightarrow> (io, int) result option" where
  "readChoice s = (case read_int (stdin s) of
      (Some x, rest) \<Rightarrow> Some (Done x (s\<lparr>stdin := ignore_line rest\<rparr>))
    | (None, rest) \<Rightarrow> readChoice (says (s\<lparr>stdin := ignore_line rest\<rparr>) [Cout ''Invalid input. Try again: '']))"

text \<open>\<open>std::cin.get()\<close>.\<close>

definition get_char :: "unit ioprog" where
  "get_char s = Done () (s\<lparr>stdin := tl (stdin s)\<rparr>)"

section \<open>The menus\<close>

text \<open>
  What the menu uses of an example object: its name, its description and \<open>execute\<close>, a program that
  may read the input, print and not end.  A factory gives such an object or a null pointer.
\<close>

record example =
  ex_name :: string
  ex_description :: string
  ex_execute :: "io \<Rightarrow> (io, unit) result option"

type_synonym data = "example option registry"

definition setw2 :: "string \<Rightarrow> string" where
  "setw2 x = replicate (2 - length x) CHR '' '' @ x"

definition rule_line :: string where
  "rule_line = replicate 40 CHR ''='' @ endl"

definition dash_line :: string where
  "dash_line = replicate 40 CHR ''-'' @ endl"

text \<open>Conversion of an \<open>int\<close> to \<open>size_t\<close>.\<close>

definition to_size :: "int \<Rightarrow> int" where
  "to_size i = i mod 2 ^ 64"

text \<open>A numbered list, from the number \<open>i\<close> on.\<close>

fun numbered :: "nat \<Rightarrow> string list \<Rightarrow> line list" where
  "numbered i [] = []"
| "numbered i (x # xs) = Cout (setw2 (show_nat i) @ ''. '' @ x @ endl) # numbered (Suc i) xs"

definition run_example :: "example option \<Rightarrow> (io, unit) oprog" where
  "run_example e = (case e of
      None \<Rightarrow> terminating (ret ())
    | Some x \<Rightarrow>
        oseq (terminating (cout (endl @ ''--- Running Example ['' @ ex_name x @ ''] ['' @ ex_description x @ '']---'' @ endl @ endl))) (\<lambda>_.
        oseq (ex_execute x) (\<lambda>_.
        terminating (block [
          cout (endl @ ''--- Finished ---'' @ endl),
          cout (''Press any key to continue ...'' @ endl),
          get_char]))))"

text \<open>
  The body of the inner loop, inside its \<open>try\<close>: the result says whether the loop goes on.  The
  lookups \<open>at\<close> read the registry, which the menu does not change.
\<close>

definition examples_body :: "data \<Rightarrow> string \<Rightarrow> (io, bool) oprog" where
  "examples_body data g = (case map_of data g of
      None \<Rightarrow> terminating (throw ''out_of_range'')
    | Some examples \<Rightarrow>
        (let names = map fst examples; e_index = int (length names) + 1 in
        oseq (terminating (block [
          for_each (numbered 1 names) emit,
          cout (setw2 (show_int e_index) @ ''. Back'' @ endl),
          cout dash_line,
          cout ''Enter choice: ''])) (\<lambda>_.
        oseq readChoice (\<lambda>e_choice.
        if e_choice = e_index then terminating (ret False)
        else if e_choice < 1 \<or> e_choice > e_index then
          oseq (terminating (cout (''Invalid example choice'' @ endl))) (\<lambda>_. terminating (ret True))
        else (case create g (names ! nat (e_choice - 1)) data of
            Thrown e _ \<Rightarrow> terminating (throw e)
          | Undef u \<Rightarrow> terminating (undef u)
          | Done e _ \<Rightarrow> oseq (run_example e) (\<lambda>_. terminating (ret True)))))))"

text \<open>The loop with its \<open>catch (std::out_of_range&)\<close>; \<open>what\<close> is the text of the exception.\<close>

definition caught :: "string \<Rightarrow> (io, bool) result \<Rightarrow> (io, bool) result" where
  "caught what r = (case r of
      Thrown e s \<Rightarrow> if e = ''out_of_range''
        then Done True (says s [Cout (endl @ ''Error'' @ what), Cout (endl @ ''Invalid example. Try again.'' @ endl)])
        else Thrown e s
    | _ \<Rightarrow> r)"

partial_function (option) examples_menu :: "string \<Rightarrow> data \<Rightarrow> string \<Rightarrow> io \<Rightarrow> (io, unit) result option" where
  "examples_menu what data g s = Option.bind (examples_body data g s) (\<lambda>r. case caught what r of
      Done b t \<Rightarrow> if b then examples_menu what data g t else Some (Done () t)
    | Thrown e t \<Rightarrow> Some (Thrown e t)
    | Undef u \<Rightarrow> Some (Undef u))"

definition groups_body :: "string \<Rightarrow> data \<Rightarrow> (io, bool) oprog" where
  "groups_body what data =
     oseq (terminating (block [
       cout (endl @ rule_line),
       cout (''         CPP LAB - Examples Menu        '' @ endl),
       cout rule_line])) (\<lambda>_.
     if data = [] then oseq (terminating (cout (''No examples registered.'' @ endl))) (\<lambda>_. terminating (ret False))
     else
       (let groups = sort (map fst data); g_index = int (length groups) + 1 in
       oseq (terminating (block [
         for_each (numbered 1 groups) emit,
         cout (show_int g_index @ ''. Exit'' @ endl),
         cout dash_line,
         cout ''Enter choice: ''])) (\<lambda>_.
       oseq readChoice (\<lambda>x.
       let g_choice = to_size x in
       if g_choice = g_index then
         oseq (terminating (cout (endl @ ''--- Exit ---'' @ endl))) (\<lambda>_. terminating (ret False))
       else if g_choice < 1 \<or> g_choice > int (length groups) then
         oseq (terminating (cout (''Invalid group choice'' @ endl))) (\<lambda>_. terminating (ret True))
       else oseq (examples_menu what data (groups ! nat (g_choice - 1))) (\<lambda>_. terminating (ret True))))))"

partial_function (option) runMenu :: "string \<Rightarrow> data \<Rightarrow> io \<Rightarrow> (io, unit) result option" where
  "runMenu what data s = Option.bind (groups_body what data s) (\<lambda>r. case r of
      Done b t \<Rightarrow> if b then runMenu what data t else Some (Done () t)
    | Thrown e t \<Rightarrow> Some (Thrown e t)
    | Undef u \<Rightarrow> Some (Undef u))"

section \<open>Version, mode and command line\<close>

text \<open>The value of \<open>__cplusplus\<close> and the three strings of the generated \<open>version.h\<close> are arguments.\<close>

definition printInfo :: "int \<Rightarrow> string \<Rightarrow> string \<Rightarrow> string \<Rightarrow> (('o, 'z) world_scheme, unit) prog" where
  "printInfo cplusplus app_name app_version app_description = block [
     cout endl,
     cout (if cplusplus = 202302 then ''C++23''
       else if cplusplus = 202002 then ''C++20''
       else if cplusplus = 201703 then ''C++17''
       else if cplusplus = 201402 then ''C++14''
       else if cplusplus = 201103 then ''C++11''
       else if cplusplus = 199711 then ''C++98''
       else ''pre-standard C++ or an unknown version: '' @ show_int cplusplus),
     cout endl,
     cout (app_name @ '' v'' @ app_version @ endl),
     cout (app_description @ endl)]"

datatype ApplicationMode = kDev | kUAT | kProd

fun toString :: "ApplicationMode \<Rightarrow> string" where
  "toString kDev = ''dev''"
| "toString kUAT = ''uat''"
| "toString kProd = ''prod''"

definition parseMode :: "string \<Rightarrow> ('s, ApplicationMode) prog" where
  "parseMode val =
     (if val = ''Dev'' then ret kDev
      else if val = ''Uat'' then ret kUAT
      else if val = ''Prod'' then ret kProd
      else throw (''Invalid mode: '' @ val @ ''. Expected: dev, uat, prod''))"

text \<open>The application: its standard streams and the static variable \<open>mode\<close>.\<close>

record app = io +
  mode :: ApplicationMode

definition set_mode :: "ApplicationMode \<Rightarrow> (app, unit) prog" where
  "set_mode m s = Done () (s\<lparr>mode := m\<rparr>)"

text \<open>The arguments after the name of the executable.\<close>

fun handleArg :: "string list \<Rightarrow> (app, unit) prog" where
  "handleArg [] = ret ()"
| "handleArg (arg # args) =
     (if arg = ''-mode'' then
        (case args of
           [] \<Rightarrow> emit (Cerr (''Missing value for -mode'' @ endl))
         | val # rest \<Rightarrow>
             seq (try_catch (seq (parseMode val) set_mode) (\<lambda>e. emit (Cerr (e @ endl)))) (\<lambda>_. handleArg rest))
      else seq (emit (Cerr (''Invalid argv param: '' @ arg @ endl))) (\<lambda>_. handleArg args))"

section \<open>Numbers and lines\<close>

abbreviation nl :: char where
  "nl \<equiv> CHR 0x0A"

lemma is_digit_char: "d < 10 \<Longrightarrow> is_digit (digit_char d)"
proof -
  assume "d < 10"
  then have "d \<in> {0, 1, 2, 3, 4, 5, 6, 7, 8, 9}" by auto
  then show ?thesis by (auto simp: digit_char_literals is_digit_def less_eq_char_def)
qed

lemma show_nat_digits: "list_all is_digit (show_nat n)" "show_nat n \<noteq> []"
proof -
  have "list_all is_digit (show_nat n) \<and> show_nat n \<noteq> []"
  proof (induction n rule: show_nat.induct)
    case (1 n)
    then show ?case by (subst (1 2) show_nat.simps) (auto simp: is_digit_char)
  qed
  then show "list_all is_digit (show_nat n)" "show_nat n \<noteq> []" by auto
qed

lemma is_digit_classes: "is_digit c \<Longrightarrow> \<not> is_space c \<and> c \<noteq> CHR ''-'' \<and> c \<noteq> CHR ''+'' \<and> c \<noteq> nl"
  by (auto simp: is_digit_def is_space_def less_eq_char_def)

lemma nl_classes [simp]: "is_space nl" "\<not> is_digit nl"
  by (auto simp: is_digit_def is_space_def less_eq_char_def)

lemma takeWhile_digits: "takeWhile is_digit (x @ nl # y) = takeWhile is_digit x"
  "dropWhile is_digit (x @ nl # y) = dropWhile is_digit x @ nl # y"
  by (induction x) auto

lemma sign_append: "x \<noteq> [] \<Longrightarrow> sign (x @ y) = (fst (sign x), snd (sign x) @ y)"
  by (cases x) auto

lemma dropWhile_blank: "\<exists>c \<in> set g. \<not> is_space c \<Longrightarrow>
    dropWhile is_space (g @ y) = dropWhile is_space g @ y \<and> dropWhile is_space g \<noteq> []"
  by (induction g) auto

text \<open>What is read depends on the first line that is not blank only.\<close>

lemma read_int_line:
  "\<exists>c \<in> set g. \<not> is_space c \<Longrightarrow> read_int (g @ nl # y) = (fst (read_int g), snd (read_int g) @ nl # y)"
  by (simp add: read_int_def dropWhile_blank sign_append takeWhile_digits Let_def case_prod_unfold)

lemma read_int_suffix: "set (snd (read_int g)) \<subseteq> set g"
proof -
  have "set (snd (sign x)) \<subseteq> set x" for x by (cases x) auto
  then show ?thesis by (auto simp: read_int_def Let_def case_prod_unfold dest!: set_dropWhileD)
qed

lemma read_int_number: "int32 (int n) \<Longrightarrow> read_int (show_nat n) = (Some (int n), [])"
proof -
  assume n: "int32 (int n)"
  obtain d ds where ds: "show_nat n = d # ds" using show_nat_digits(2) by (cases "show_nat n") auto
  have dig: "\<forall>c \<in> set (show_nat n). is_digit c" using show_nat_digits(1) by (simp add: list_all_iff)
  then have "dropWhile is_space (show_nat n) = show_nat n" "sign (show_nat n) = (False, show_nat n)"
    using is_digit_classes by (auto simp: ds)
  moreover have tw: "takeWhile is_digit (show_nat n) = show_nat n" "dropWhile is_digit (show_nat n) = []"
    using dig by (auto simp: takeWhile_eq_all_conv)
  ultimately show ?thesis using n show_nat_digits(2) by (simp add: read_int_def read_show_nat Let_def tw)
qed

lemma ignore_line_rest: "nl \<notin> set x \<Longrightarrow> ignore_line (x @ nl # y) = y"
proof -
  assume "nl \<notin> set x"
  then have "dropWhile (\<lambda>c. c \<noteq> nl) (x @ nl # y) = nl # y" by (induction x) auto
  then show ?thesis by (simp add: ignore_line_def)
qed

text \<open>A line that gives a number, and a line that is not blank and gives none.\<close>

definition accepted :: "string \<Rightarrow> int \<Rightarrow> bool" where
  "accepted l x \<longleftrightarrow> nl \<notin> set l \<and> fst (read_int l) = Some x"

definition rejected :: "string \<Rightarrow> bool" where
  "rejected l \<longleftrightarrow> nl \<notin> set l \<and> (\<exists>c \<in> set l. \<not> is_space c) \<and> fst (read_int l) = None"

lemma accepted_nonblank: "accepted l x \<Longrightarrow> \<exists>c \<in> set l. \<not> is_space c"
proof (rule ccontr)
  assume a: "accepted l x" and "\<not> (\<exists>c \<in> set l. \<not> is_space c)"
  then have "dropWhile is_space l = []" by simp
  with a show False by (simp add: accepted_def read_int_def)
qed

lemma stdin_says [simp]:
  "stdin (says s ls) = stdin s"
  "(says s ls)\<lparr>stdin := x\<rparr> = says (s\<lparr>stdin := x\<rparr>) ls"
  by (simp_all add: says_def)

lemma readChoice_accepted:
  assumes "accepted l x" "stdin s = l @ nl # y"
  shows "readChoice s = Some (Done x (s\<lparr>stdin := y\<rparr>))"
proof -
  have "read_int (stdin s) = (Some x, snd (read_int l) @ nl # y)"
    using read_int_line [OF accepted_nonblank [OF assms(1)], of y] assms by (simp add: accepted_def)
  moreover have "ignore_line (snd (read_int l) @ nl # y) = y"
    using assms(1) read_int_suffix [of l] by (intro ignore_line_rest) (auto simp: accepted_def)
  ultimately show ?thesis by (subst readChoice.simps) simp
qed

lemma readChoice_rejected:
  assumes "rejected l" "stdin s = l @ nl # y"
  shows "readChoice s = readChoice (says (s\<lparr>stdin := y\<rparr>) [Cout ''Invalid input. Try again: ''])"
proof -
  have "read_int (stdin s) = (None, snd (read_int l) @ nl # y)"
    using read_int_line [of l y] assms by (simp add: rejected_def)
  moreover have "ignore_line (snd (read_int l) @ nl # y) = y"
    using assms(1) read_int_suffix [of l] by (intro ignore_line_rest) (auto simp: rejected_def)
  ultimately show ?thesis by (subst readChoice.simps) simp
qed

text \<open>A text of lines.\<close>

definition lines :: "string list \<Rightarrow> string" where
  "lines ls = concat (map (\<lambda>l. l @ [nl]) ls)"

definition retries :: "string list \<Rightarrow> line list" where
  "retries gs = replicate (length gs) (Cout ''Invalid input. Try again: '')"

lemma readChoice_lines:
  assumes "\<forall>g \<in> set gs. rejected g" "stdin s = lines gs @ y"
  shows "readChoice s = readChoice (says (s\<lparr>stdin := y\<rparr>) (retries gs))"
  using assms
proof (induction gs arbitrary: s)
  case Nil
  then have "s\<lparr>stdin := y\<rparr> = s" by (simp add: lines_def)
  then show ?case by (simp add: retries_def)
next
  case (Cons g gs)
  let ?s = "says (s\<lparr>stdin := lines gs @ y\<rparr>) [Cout ''Invalid input. Try again: '']"
  have "readChoice s = readChoice ?s"
    using Cons.prems by (intro readChoice_rejected [of g]) (simp_all add: lines_def)
  also have "\<dots> = readChoice (says (?s\<lparr>stdin := y\<rparr>) (retries gs))"
    using Cons.prems(1) by (intro Cons.IH) simp_all
  also have "says (?s\<lparr>stdin := y\<rparr>) (retries gs) = says (s\<lparr>stdin := y\<rparr>) (retries (g # gs))"
    by (simp add: says_def retries_def)
  finally show ?case .
qed

text \<open>Nothing but white space is left: the loop never ends.\<close>

lemma readChoice_end:
  assumes "\<forall>c \<in> set (stdin s). is_space c"
  shows "readChoice s = None"
proof (rule ccontr)
  assume "readChoice s \<noteq> None"
  then obtain r where "readChoice s = Some r" by auto
  then have "\<not> (\<forall>c \<in> set (stdin s). is_space c)"
  proof (rule readChoice.raw_induct [rotated])
    fix f :: "io \<Rightarrow> (io, int) result option" and s :: io and r
    assume IH: "\<And>s r. f s = Some r \<Longrightarrow> \<not> (\<forall>c \<in> set (stdin s). is_space c)"
    assume eq: "(case read_int (stdin s) of
        (Some x, rest) \<Rightarrow> Some (Done x (s\<lparr>stdin := ignore_line rest\<rparr>))
      | (None, rest) \<Rightarrow> f (says (s\<lparr>stdin := ignore_line rest\<rparr>) [Cout ''Invalid input. Try again: ''])) = Some r"
    show "\<not> (\<forall>c \<in> set (stdin s). is_space c)"
    proof
      assume "\<forall>c \<in> set (stdin s). is_space c"
      then have "dropWhile is_space (stdin s) = []" by simp
      then have "read_int (stdin s) = (None, [])" by (simp add: read_int_def del: dropWhile_eq_Nil_conv)
      with eq IH [of "says (s\<lparr>stdin := ignore_line []\<rparr>) [Cout ''Invalid input. Try again: '']" r] show False
        by (simp add: ignore_line_def)
    qed
  qed
  with assms show False by simp
qed

section \<open>Properties of the input\<close>

text \<open>
  Reading a choice skips every line that is not a number in the range of \<open>int\<close>, with one prompt
  each, then returns the number on the first line that has one and drops the rest of that line; what
  follows stays to be read.
\<close>

theorem readChoice_first_number:
  assumes "\<forall>g \<in> set gs. rejected g" "accepted l x" "stdin s = lines gs @ l @ nl # y"
  shows "readChoice s = Some (Done x (says (s\<lparr>stdin := y\<rparr>) (retries gs)))"
proof -
  let ?s = "says (s\<lparr>stdin := l @ nl # y\<rparr>) (retries gs)"
  have "readChoice s = readChoice ?s" by (rule readChoice_lines [OF assms(1,3)])
  also have "\<dots> = Some (Done x (?s\<lparr>stdin := y\<rparr>))" by (rule readChoice_accepted [OF assms(2)]) simp
  finally show ?thesis by (simp add: says_def)
qed

definition typed :: "string \<Rightarrow> io" where
  "typed x = \<lparr>cells = Map.empty, brk = 0, out = [], stdin = x\<rparr>"

theorem readChoice_first_number_witness:
  "readChoice (typed (''abc'' @ nl # '' 12 x'' @ nl # ''7'')) =
    Some (Done 12 (says (typed ''7'') [Cout ''Invalid input. Try again: '']))"
proof -
  have "rejected ''abc''" "accepted '' 12 x'' 12"
    by (simp_all add: rejected_def accepted_def read_int_def is_space_def is_digit_def less_eq_char_def
        read_nat_def digit_val_def int32_def)
  then show ?thesis
    using readChoice_first_number [of "[''abc'']" "'' 12 x''" 12 "typed (''abc'' @ nl # '' 12 x'' @ nl # ''7'')" "''7''"]
    by (simp add: lines_def typed_def retries_def)
qed

text \<open>
  When the input ends before a number was read, after any lines that are no numbers, reading a
  choice never returns: at the end of the input the loop only clears the error and tries again.
\<close>

theorem readChoice_end_of_input:
  assumes "\<forall>g \<in> set gs. rejected g" "\<forall>c \<in> set y. is_space c" "stdin s = lines gs @ y"
  shows "readChoice s = None"
  using readChoice_lines [OF assms(1,3)] readChoice_end assms(2) by simp

theorem readChoice_end_of_input_witness:
  "readChoice (typed (''quit'' @ [nl])) = None"
proof -
  have "rejected ''quit''"
    by (simp add: rejected_def read_int_def is_space_def is_digit_def less_eq_char_def)
  then show ?thesis
    using readChoice_end_of_input [of "[''quit'']" "''''" "typed (''quit'' @ [nl])"] by (simp add: lines_def typed_def)
qed

section \<open>A session with the menus\<close>

text \<open>
  What a session is observed by: the input left, and the logged lines (the menus print to \<open>std::cout\<close>
  only, so these are the examples' own).
\<close>

fun is_log :: "line \<Rightarrow> bool" where
  "is_log (Log _) = True"
| "is_log _ = False"

definition logged :: "io \<Rightarrow> line list" where
  "logged s = filter is_log (out s)"

text \<open>An example that reads no input, ends, and prints the lines \<open>ls\<close>.\<close>

definition prints :: "example \<Rightarrow> line list \<Rightarrow> bool" where
  "prints e ls \<longleftrightarrow> (\<forall>s. \<exists>t. ex_execute e s = Some (Done () t) \<and> stdin t = stdin s \<and> out t = out s @ ls)"

lemma accepted_number: "int32 (int n) \<Longrightarrow> accepted (show_nat n) (int n)"
  using show_nat_digits(1) [of n] is_digit_classes by (auto simp: accepted_def read_int_number list_all_iff)

lemma readChoice_number:
  "int32 (int n) \<Longrightarrow> stdin s = show_nat n @ nl # y \<Longrightarrow> readChoice s = Some (Done (int n) (s\<lparr>stdin := y\<rparr>))"
  by (rule readChoice_accepted [OF accepted_number])

lemma logged_simps [simp]:
  "logged (s\<lparr>stdin := x\<rparr>) = logged s"
  "logged (says s ls) = logged s @ filter is_log ls"
  by (simp_all add: logged_def)

lemma numbered_logs [simp]: "filter is_log (numbered i xs) = []"
  by (induction i xs rule: numbered.induct) simp_all

lemma emit_all: "for_each ls emit s = Done () (says s ls)"
  using for_each_emit [of ls "\<lambda>x. x" s] by simp

text \<open>The menu of one group, with all the text it prints.\<close>

definition group_menu :: "string list \<Rightarrow> line list" where
  "group_menu names = numbered 1 names @ [Cout (setw2 (show_int (int (length names) + 1)) @ ''. Back'' @ endl),
     Cout dash_line, Cout ''Enter choice: '']"

lemma group_menu_logs [simp]: "filter is_log (group_menu names) = []"
  by (simp add: group_menu_def)

lemma examples_body_choice:
  assumes "map_of data g = Some m" "stdin s = show_nat n @ nl # y" "int32 (int n)"
  shows "examples_body data g s =
     (let e_index = int (length m) + 1; t = says (s\<lparr>stdin := y\<rparr>) (group_menu (map fst m)) in
      if int n = e_index then Some (Done False t)
      else if int n < 1 \<or> int n > e_index then Some (Done True (says t [Cout (''Invalid example choice'' @ endl)]))
      else (case create g (map fst m ! nat (int n - 1)) data of
            Thrown e _ \<Rightarrow> Some (Thrown e t)
          | Undef u \<Rightarrow> Some (Undef u)
          | Done e _ \<Rightarrow> oseq (run_example e) (\<lambda>_. terminating (ret True)) t))"
proof -
  let ?m = "says s (group_menu (map fst m))"
  have "readChoice ?m = Some (Done (int n) (?m\<lparr>stdin := y\<rparr>))"
    using assms(2,3) by (intro readChoice_number) simp_all
  then show ?thesis
    using assms(1) by (simp add: examples_body_def Let_def emit_all oseq_def terminating_def seq_def ret_def throw_def
        undef_def cout_def emit_def group_menu_def split: result.split)
qed

lemma run_example_prints:
  assumes "prints e ls" "stdin s = c # y"
  shows "\<exists>t. run_example (Some e) s = Some (Done () t) \<and> stdin t = y \<and> logged t = logged s @ filter is_log ls"
proof -
  let ?s = "says s [Cout (endl @ ''--- Running Example ['' @ ex_name e @ ''] ['' @ ex_description e @ '']---'' @ endl @ endl)]"
  obtain t where "ex_execute e ?s = Some (Done () t)" "stdin t = stdin ?s" "out t = out ?s @ ls"
    using assms(1) unfolding prints_def by blast
  then show ?thesis
    using assms(2) by (simp add: run_example_def machine get_char_def logged_def)
qed

text \<open>A visit of a group: its number in the sorted list, and the numbers of the examples to run.\<close>

datatype visit = Visit (group_no: nat) (example_nos: "nat list")

definition examples_of :: "data \<Rightarrow> nat \<Rightarrow> (string \<times> example option) list" where
  "examples_of data i = the (map_of data (sort (map fst data) ! i))"

definition number_line :: "nat \<Rightarrow> string" where
  "number_line n = show_nat n @ [nl]"

text \<open>What is typed: the number of each example and the key that ends its output, then the way back.\<close>

definition examples_text :: "nat \<Rightarrow> nat list \<Rightarrow> string" where
  "examples_text k js = concat (map (\<lambda>j. number_line (j + 1) @ [nl]) js) @ number_line (k + 1)"

definition session_text :: "data \<Rightarrow> visit list \<Rightarrow> string" where
  "session_text data vs =
     concat (map (\<lambda>v. number_line (group_no v + 1) @ examples_text (length (examples_of data (group_no v))) (example_nos v)) vs)
     @ number_line (length data + 1)"

definition fits :: "nat \<Rightarrow> bool" where
  "fits n \<longleftrightarrow> n < 2 ^ 31 - 1"

text \<open>The menu runs on a registry with distinct names whose factories give printing examples.\<close>

definition menu_data :: "data \<Rightarrow> (example \<Rightarrow> line list) \<Rightarrow> bool" where
  "menu_data data ls \<longleftrightarrow> well_formed data \<and> data \<noteq> [] \<and> fits (length data)
     \<and> (\<forall>(g, m) \<in> set data. fits (length m) \<and> (\<forall>(n, e) \<in> set m. \<exists>x. e = Some x \<and> prints x (ls x)))"

definition valid_visit :: "data \<Rightarrow> visit \<Rightarrow> bool" where
  "valid_visit data v \<longleftrightarrow> group_no v < length data
     \<and> (\<forall>j \<in> set (example_nos v). j < length (examples_of data (group_no v)))"

text \<open>What a visit logs.\<close>

definition visit_logs :: "data \<Rightarrow> (example \<Rightarrow> line list) \<Rightarrow> visit \<Rightarrow> line list" where
  "visit_logs data ls v =
     concat (map (\<lambda>j. filter is_log (ls (the (snd (examples_of data (group_no v) ! j))))) (example_nos v))"

lemma fits_int32: "fits n \<Longrightarrow> m \<le> n \<Longrightarrow> int32 (int (m + 1))"
  by (simp add: fits_def int32_def)

lemma examples_menu_session:
  assumes "menu_data data ls" "map_of data g = Some m" "\<forall>j \<in> set js. j < length m"
    and "stdin s = examples_text (length m) js @ y"
  shows "\<exists>t. examples_menu what data g s = Some (Done () t) \<and> stdin t = y
    \<and> logged t = logged s @ concat (map (\<lambda>j. filter is_log (ls (the (snd (m ! j))))) js)"
  using assms(3,4)
proof (induction js arbitrary: s)
  case Nil
  have fit: "fits (length m)" using assms(1) map_of_SomeD [OF assms(2)] by (auto simp: menu_data_def)
  have "examples_body data g s = Some (Done False (says (s\<lparr>stdin := y\<rparr>) (group_menu (map fst m))))"
    using examples_body_choice [OF assms(2), of s "length m + 1" y] Nil.prems(2) fits_int32 [OF fit order_refl]
    by (simp add: examples_text_def number_line_def Let_def)
  then show ?case by (subst examples_menu.simps) (simp add: caught_def)
next
  case (Cons j js)
  have dm: "(g, m) \<in> set data" using assms(2) by (rule map_of_SomeD)
  have fit: "fits (length m)" using assms(1) dm by (auto simp: menu_data_def)
  have j: "j < length m" using Cons.prems(1) by simp
  obtain n e where nj: "m ! j = (n, Some e)" and e: "prints e (ls e)"
  proof -
    have "m ! j \<in> set m" using j by simp
    then obtain n x where "m ! j = (n, x)" "(n, x) \<in> set m" by (metis surj_pair)
    moreover from this assms(1) dm obtain e where "x = Some e" "prints e (ls e)" by (fastforce simp: menu_data_def)
    ultimately show thesis using that by blast
  qed
  have dist: "distinct (map fst m)" using assms(1) dm by (auto simp: menu_data_def well_formed_def)
  have "map_of m n = Some (Some e)" using dist j nj by (metis map_of_eq_Some_iff nth_mem)
  then have cr: "create g (map fst m ! j) data = Done (Some e) data" using assms(2) nj j by (simp add: create_def)
  let ?t = "says (s\<lparr>stdin := nl # examples_text (length m) js @ y\<rparr>) (group_menu (map fst m))"
  have "examples_body data g s = oseq (run_example (Some e)) (\<lambda>_. terminating (ret True)) ?t"
    using examples_body_choice [OF assms(2), of s "j + 1" "nl # examples_text (length m) js @ y"]
      Cons.prems(2) fits_int32 [OF fit less_imp_le [OF j]] j cr
    by (simp add: examples_text_def number_line_def Let_def nat_add_distrib)
  moreover obtain u where u: "run_example (Some e) ?t = Some (Done () u)" "stdin u = examples_text (length m) js @ y"
    "logged u = logged ?t @ filter is_log (ls e)"
    using run_example_prints [OF e, of ?t nl "examples_text (length m) js @ y"] by auto
  ultimately have body: "examples_body data g s = Some (Done True u)" by (simp add: oseq_def terminating_def ret_def)
  obtain t where t: "examples_menu what data g u = Some (Done () t)" "stdin t = y"
    "logged t = logged u @ concat (map (\<lambda>j. filter is_log (ls (the (snd (m ! j))))) js)"
    using Cons.IH [OF _ u(2)] Cons.prems(1) by auto
  have "examples_menu what data g s = Some (Done () t)"
    using t(1) body by (subst examples_menu.simps) (simp add: caught_def)
  with t(2,3) u(3) nj show ?case by simp
qed

text \<open>The menu of the groups, with all the text it prints.\<close>

definition main_menu :: "string list \<Rightarrow> line list" where
  "main_menu groups = [Cout (endl @ rule_line), Cout (''         CPP LAB - Examples Menu        '' @ endl), Cout rule_line]
     @ numbered 1 groups @ [Cout (show_int (int (length groups) + 1) @ ''. Exit'' @ endl),
     Cout dash_line, Cout ''Enter choice: '']"

lemma main_menu_logs [simp]: "filter is_log (main_menu groups) = []"
  by (simp add: main_menu_def)

lemma groups_body_choice:
  assumes "data \<noteq> []" "stdin s = show_nat n @ nl # y" "int32 (int n)"
  shows "groups_body what data s =
     (let groups = sort (map fst data); g_index = int (length data) + 1; t = says (s\<lparr>stdin := y\<rparr>) (main_menu groups) in
      if int n = g_index then Some (Done False (says t [Cout (endl @ ''--- Exit ---'' @ endl)]))
      else if int n < 1 \<or> int n > int (length data) then Some (Done True (says t [Cout (''Invalid group choice'' @ endl)]))
      else oseq (examples_menu what data (groups ! nat (int n - 1))) (\<lambda>_. terminating (ret True)) t)"
proof -
  let ?m = "says s (main_menu (sort (map fst data)))"
  have "readChoice ?m = Some (Done (int n) (?m\<lparr>stdin := y\<rparr>))"
    using assms(2,3) by (intro readChoice_number) simp_all
  moreover have "to_size (int n) = int n" using assms(3) by (simp add: to_size_def int32_def)
  ultimately show ?thesis
    using assms(1) by (simp add: groups_body_def Let_def emit_all oseq_def terminating_def seq_def ret_def throw_def
        undef_def cout_def emit_def main_menu_def split: result.split)
qed

lemma runMenu_session:
  assumes "menu_data data ls" "\<forall>v \<in> set vs. valid_visit data v" "stdin s = session_text data vs @ y"
  shows "\<exists>t. runMenu what data s = Some (Done () t) \<and> stdin t = y
    \<and> logged t = logged s @ concat (map (visit_logs data ls) vs)"
  using assms(2,3)
proof (induction vs arbitrary: s)
  case Nil
  have d: "data \<noteq> []" "fits (length data)" using assms(1) by (auto simp: menu_data_def)
  have "\<exists>t. groups_body what data s = Some (Done False t) \<and> stdin t = y \<and> logged t = logged s"
    using groups_body_choice [OF d(1), of s "length data + 1" y] Nil.prems(2) fits_int32 [OF d(2) order_refl]
    by (simp add: session_text_def number_line_def Let_def)
  then obtain t where "groups_body what data s = Some (Done False t)" "stdin t = y" "logged t = logged s" by blast
  then show ?case by (subst runMenu.simps) simp
next
  case (Cons v vs)
  have d: "data \<noteq> []" "fits (length data)" using assms(1) by (auto simp: menu_data_def)
  let ?i = "group_no v" and ?js = "example_nos v"
  have i: "?i < length data" and js: "\<forall>j \<in> set ?js. j < length (examples_of data ?i)"
    using Cons.prems(1) by (auto simp: valid_visit_def)
  let ?g = "sort (map fst data) ! ?i"
  have "?g \<in> set (sort (map fst data))" using i by (intro nth_mem) simp
  then obtain m where m: "map_of data ?g = Some m" by (auto simp: map_of_eq_None_iff dest!: weak_map_of_SomeI)
  then have ex: "examples_of data ?i = m" by (simp add: examples_of_def)
  let ?y = "session_text data vs @ y"
  let ?rest = "examples_text (length m) ?js @ ?y"
  let ?t = "says (s\<lparr>stdin := ?rest\<rparr>) (main_menu (sort (map fst data)))"
  have "groups_body what data s = oseq (examples_menu what data ?g) (\<lambda>_. terminating (ret True)) ?t"
    using groups_body_choice [OF d(1), of s "?i + 1" ?rest] Cons.prems(2) fits_int32 [OF d(2) less_imp_le [OF i]] i
    by (simp add: session_text_def number_line_def Let_def nat_add_distrib ex)
  moreover obtain u where u: "examples_menu what data ?g ?t = Some (Done () u)" "stdin u = ?y"
    "logged u = logged ?t @ concat (map (\<lambda>j. filter is_log (ls (the (snd (m ! j))))) ?js)"
    using examples_menu_session [OF assms(1) m, of ?js ?t ?y] js by (auto simp: ex)
  ultimately have body: "groups_body what data s = Some (Done True u)" by (simp add: oseq_def terminating_def ret_def)
  obtain t where t: "runMenu what data u = Some (Done () t)" "stdin t = y"
    "logged t = logged u @ concat (map (visit_logs data ls) vs)"
    using Cons.IH [OF _ u(2)] Cons.prems(1) by auto
  have "runMenu what data s = Some (Done () t)" using t(1) body by (subst runMenu.simps) simp
  with t(2,3) u(3) show ?case by (simp add: visit_logs_def [of data ls v] ex)
qed

section \<open>Properties of the menus and the command line\<close>

text \<open>
  A session: for any registry of printing examples and any sequence of group visits, each
  running any examples of its group, typing the numbers of the groups, of the examples and of the
  entries Back and Exit makes the menu end, having read exactly the session's input and having run
  exactly the chosen examples, in order.
\<close>

theorem runMenu_runs_session:
  assumes "menu_data data ls" "\<forall>v \<in> set vs. valid_visit data v" "stdin s = session_text data vs @ y"
  shows "\<exists>t. runMenu what data s = Some (Done () t) \<and> stdin t = y
    \<and> logged t = logged s @ concat (map (visit_logs data ls) vs)"
  by (rule runMenu_session [OF assms])

definition demo_example :: "string \<Rightarrow> example" where
  "demo_example n = \<lparr>ex_name = n, ex_description = n, ex_execute = terminating (LOG n)\<rparr>"

definition demo_lines :: "example \<Rightarrow> line list" where
  "demo_lines e = [Log (ex_name e)]"

definition demo_data :: data where
  "demo_data = [(''b'', [(''x'', Some (demo_example ''x'')), (''y'', Some (demo_example ''y''))]),
     (''a'', [(''z'', Some (demo_example ''z''))])]"

lemma demo_data_ok: "menu_data demo_data demo_lines"
  by (auto simp: menu_data_def demo_data_def well_formed_def fits_def prints_def demo_example_def demo_lines_def machine)

theorem runMenu_runs_session_witness:
  "\<exists>t. runMenu ''map::at'' demo_data (typed (session_text demo_data [Visit 1 [1, 0]])) = Some (Done () t)
    \<and> stdin t = '''' \<and> logged t = [Log ''y'', Log ''x'']"
proof -
  have "sort [''b'', ''a''] = [''a'', ''b'']" by simp
  then have e: "examples_of demo_data 1 = [(''x'', Some (demo_example ''x'')), (''y'', Some (demo_example ''y''))]"
    by (simp add: examples_of_def demo_data_def)
  moreover have "length demo_data = 2" by (simp add: demo_data_def)
  ultimately have v: "\<forall>v \<in> set [Visit 1 [1, 0]]. valid_visit demo_data v" by (simp add: valid_visit_def)
  have "visit_logs demo_data demo_lines (Visit 1 [1, 0]) = [Log ''y'', Log ''x'']"
    using e by (simp add: visit_logs_def demo_example_def demo_lines_def)
  with runMenu_runs_session [OF demo_data_ok v, of "typed (session_text demo_data [Visit 1 [1, 0]])" "''''" "''map::at''"]
  show ?thesis by (simp add: typed_def logged_def)
qed

text \<open>The last valid value among the values given with \<open>-mode\<close>, or the mode from before.\<close>

fun named_mode :: "string \<Rightarrow> ApplicationMode option" where
  "named_mode v = (if v = ''Dev'' then Some kDev else if v = ''Uat'' then Some kUAT else if v = ''Prod'' then Some kProd else None)"

fun chosen_mode :: "ApplicationMode \<Rightarrow> string list \<Rightarrow> ApplicationMode" where
  "chosen_mode m [] = m"
| "chosen_mode m (v # vs) = chosen_mode (case named_mode v of None \<Rightarrow> m | Some n \<Rightarrow> n) vs"

definition mode_args :: "string list \<Rightarrow> string list" where
  "mode_args vs = concat (map (\<lambda>v. [''-mode'', v]) vs)"

definition mode_errors :: "string list \<Rightarrow> line list" where
  "mode_errors vs = map (\<lambda>v. Cerr (''Invalid mode: '' @ v @ ''. Expected: dev, uat, prod'' @ endl))
     (filter (\<lambda>v. named_mode v = None) vs)"

text \<open>
  Any list of values given with \<open>-mode\<close>: each invalid value is reported and skipped, no
  exception escapes, and the mode is the last valid value, or unchanged when there is none.
\<close>

theorem handleArg_modes:
  "\<exists>t. handleArg (mode_args vs) s = Done () t \<and> mode t = chosen_mode (mode s) vs
    \<and> out t = out s @ mode_errors vs"
proof (induction vs arbitrary: s)
  case Nil
  then show ?case by (simp add: mode_args_def mode_errors_def ret_def)
next
  case (Cons v vs)
  show ?case
  proof (cases "named_mode v")
    case None
    let ?s = "says s [Cerr (''Invalid mode: '' @ v @ ''. Expected: dev, uat, prod'' @ endl)]"
    have "handleArg (mode_args (v # vs)) s = handleArg (mode_args vs) ?s"
      using None by (simp add: mode_args_def parseMode_def machine split: if_splits)
    moreover have "mode ?s = mode s" by (simp add: says_def)
    ultimately show ?thesis using Cons.IH [of ?s] None by (simp add: mode_errors_def)
  next
    case (Some m)
    let ?s = "s\<lparr>mode := m\<rparr>"
    have "handleArg (mode_args (v # vs)) s = handleArg (mode_args vs) ?s"
      using Some by (auto simp: mode_args_def parseMode_def set_mode_def machine split: if_splits)
    then show ?thesis using Cons.IH [of ?s] Some by (simp add: mode_errors_def)
  qed
qed

text \<open>
  A mode as the program prints it is not a mode it accepts: parsing the text of any mode fails,
  with a message that asks for exactly such a text.
\<close>

theorem parseMode_rejects_toString:
  "parseMode (toString m) s = Thrown (''Invalid mode: '' @ toString m @ ''. Expected: dev, uat, prod'') s
    \<and> toString m \<in> {''dev'', ''uat'', ''prod''}"
  by (cases m) (simp_all add: parseMode_def throw_def)

end
