(* ===== verification/Sockets.thy ===== *)
theory Sockets
  imports Prelude "HOL-Library.Word" "HOL-Library.Sublist"
begin

text \<open>
  The system calls the TCP classes use (\<open>src/socket\<close>), and the loop that sends a whole buffer.

  The operating system is a parameter: the record \<open>os\<close> has one function per call, from the number of
  calls made so far (and what the call can depend on) to the answer.  The state of a process adds to
  the console the open descriptors, the bytes sent and received per descriptor, and the closes of
  descriptors that were not open.

  Lemmas: with a system that keeps its documented promises, the send loop delivers the whole buffer
  or throws, having delivered less.
\<close>

section \<open>The operating system\<close>

record os =
  socket_ans :: "nat \<Rightarrow> int list \<Rightarrow> int"
  setsockopt_ans :: "nat \<Rightarrow> int"
  bind_ans :: "nat \<Rightarrow> int"
  listen_ans :: "nat \<Rightarrow> int"
  accept_ans :: "nat \<Rightarrow> int list \<Rightarrow> int \<times> string"
  connect_ans :: "nat \<Rightarrow> int"
  recv_ans :: "nat \<Rightarrow> nat \<Rightarrow> string option"
  send_ans :: "nat \<Rightarrow> nat \<Rightarrow> int"
  pton_ans :: "string \<Rightarrow> int"

text \<open>
  What the manual pages promise: a descriptor that is returned is not open already, \<open>recv\<close> (whose
  answer is \<open>None\<close> for an error and else the bytes, none when the peer has closed) delivers at
  most as many bytes as the buffer has, and \<open>send\<close> takes at most as many as it is given.
\<close>

definition posix :: "os \<Rightarrow> bool" where
  "posix os \<longleftrightarrow> (\<forall>k F. socket_ans os k F \<ge> 0 \<longrightarrow> socket_ans os k F \<notin> set F)
     \<and> (\<forall>k F. fst (accept_ans os k F) \<ge> 0 \<longrightarrow> fst (accept_ans os k F) \<notin> set F)
     \<and> (\<forall>k n d. recv_ans os k n = Some d \<longrightarrow> length d \<le> n)
     \<and> (\<forall>k n. send_ans os k n \<le> int n)"

section \<open>The process\<close>

record net = "unit world" +
  calls :: nat
  fds :: "int list"
  sent :: "(int \<times> string) list"
  got :: "(int \<times> string) list"
  bad_close :: "int list"

lemma net_says [simp]:
  "calls (says s ls) = calls s" "fds (says s ls) = fds s" "sent (says s ls) = sent s"
  "got (says s ls) = got s" "bad_close (says s ls) = bad_close s"
  by (simp_all add: says_def)

definition cerr :: "string \<Rightarrow> (('o, 'z) world_scheme, unit) prog" where
  "cerr m = emit (Cerr m)"

text \<open>\<open>try { m } catch (const std::exception& e) { h }\<close> around calls that may not end.\<close>

definition otry :: "('s, 'a) oprog \<Rightarrow> (string \<Rightarrow> ('s, 'a) oprog) \<Rightarrow> ('s, 'a) oprog" where
  "otry m h s = (case m s of None \<Rightarrow> None
     | Some r \<Rightarrow> (case r of Thrown e t \<Rightarrow> h e t | _ \<Rightarrow> Some r))"

text \<open>A call without effect on the descriptors.\<close>

definition sys :: "(nat \<Rightarrow> 'a) \<Rightarrow> ('z net_scheme, 'a) prog" where
  "sys f s = Done (f (calls s)) (s\<lparr>calls := Suc (calls s)\<rparr>)"

definition opens :: "int \<Rightarrow> 'z net_scheme \<Rightarrow> 'z net_scheme" where
  "opens fd s = s\<lparr>calls := Suc (calls s), fds := (if fd < 0 then fds s else fd # fds s)\<rparr>"

definition sys_socket :: "os \<Rightarrow> ('z net_scheme, int) prog" where
  "sys_socket os s = (let fd = socket_ans os (calls s) (fds s) in Done fd (opens fd s))"

definition sys_accept :: "os \<Rightarrow> ('z net_scheme, int \<times> string) prog" where
  "sys_accept os s = (let a = accept_ans os (calls s) (fds s) in Done a (opens (fst a) s))"

definition sys_recv :: "os \<Rightarrow> int \<Rightarrow> nat \<Rightarrow> ('z net_scheme, string option) prog" where
  "sys_recv os fd n s = (let a = recv_ans os (calls s) n in
     Done a (s\<lparr>calls := Suc (calls s), got := got s @ (case a of None \<Rightarrow> [] | Some d \<Rightarrow> [(fd, d)])\<rparr>))"

definition sys_send :: "os \<Rightarrow> int \<Rightarrow> string \<Rightarrow> ('z net_scheme, int) prog" where
  "sys_send os fd d s = (let r = send_ans os (calls s) (length d) in
     Done r (s\<lparr>calls := Suc (calls s), sent := sent s @ (if r \<le> 0 then [] else [(fd, take (nat r) d)])\<rparr>))"

definition sys_close :: "int \<Rightarrow> ('z net_scheme, unit) prog" where
  "sys_close fd s = Done () (if fd \<in> set (fds s)
     then s\<lparr>calls := Suc (calls s), fds := remove1 fd (fds s)\<rparr>
     else s\<lparr>calls := Suc (calls s), bad_close := bad_close s @ [fd]\<rparr>)"

lemmas sys_defs [machine] = sys_def opens_def sys_socket_def sys_accept_def sys_recv_def sys_send_def
  sys_close_def cerr_def

section \<open>Sending a whole buffer\<close>

text \<open>The loop of \<open>TCPServer::sendAll\<close> and of \<open>TCPClient::send\<close>, from \<open>tot\<close> (\<open>total\<close> in the code) bytes on.\<close>

function send_from :: "os \<Rightarrow> int \<Rightarrow> string \<Rightarrow> nat \<Rightarrow> 'z net_scheme \<Rightarrow> ('z net_scheme, unit) result" where
  "send_from os fd data tot s =
     (if tot < length data then
        (case sys_send os fd (drop tot data) s of
           Done r t \<Rightarrow> if r \<le> 0 then Thrown ''send failed'' t else send_from os fd data (tot + nat r) t
         | Thrown e t \<Rightarrow> Thrown e t
         | Undef u \<Rightarrow> Undef u)
      else Done () s)"
  by pat_completeness auto

termination
  by (relation "measure (\<lambda>(os, fd, data, tot, s). length data - tot)") auto

declare send_from.simps [simp del]

text \<open>What calls on one connection may change: \<open>cs\<close> was sent and \<open>gs\<close> received on it, \<open>k\<close> calls were made.\<close>

definition exchanged :: "nat \<Rightarrow> int \<Rightarrow> string list \<Rightarrow> string list \<Rightarrow> 'z net_scheme \<Rightarrow> 'z net_scheme" where
  "exchanged k fd cs gs s = s\<lparr>calls := calls s + k, sent := sent s @ map (Pair fd) cs, got := got s @ map (Pair fd) gs\<rparr>"

lemma exchanged_simps [simp]:
  "calls (exchanged k fd cs gs s) = calls s + k"
  "fds (exchanged k fd cs gs s) = fds s"
  "sent (exchanged k fd cs gs s) = sent s @ map (Pair fd) cs"
  "got (exchanged k fd cs gs s) = got s @ map (Pair fd) gs"
  "bad_close (exchanged k fd cs gs s) = bad_close s"
  "out (exchanged k fd cs gs s) = out s"
  "exchanged 0 fd [] [] s = s"
  "exchanged j fd cs' gs' (exchanged k fd cs gs s) = exchanged (k + j) fd (cs @ cs') (gs @ gs') s"
  "says (exchanged k fd cs gs s) ls = exchanged k fd cs gs (says s ls)"
  by (simp_all add: exchanged_def says_def)

lemma sys_send_exchanged:
  "sys_send os fd d s = (let r = send_ans os (calls s) (length d) in
     Done r (exchanged 1 fd (if r \<le> 0 then [] else [take (nat r) d]) [] s))"
  by (simp add: sys_send_def exchanged_def Let_def)

lemma sys_recv_exchanged:
  "sys_recv os fd n s = (let a = recv_ans os (calls s) n in
     Done a (exchanged 1 fd [] (case a of None \<Rightarrow> [] | Some d \<Rightarrow> [d]) s))"
  by (simp add: sys_recv_def exchanged_def Let_def split: option.split)

text \<open>The loop returns when everything was sent, or throws with a proper part of the data sent.\<close>

lemma send_from_result:
  assumes "posix os" "tot \<le> length data"
  shows "\<exists>k cs. send_from os fd data tot s = Done () (exchanged k fd cs [] s) \<and> concat cs = drop tot data
    \<or> send_from os fd data tot s = Thrown ''send failed'' (exchanged k fd cs [] s)
       \<and> strict_prefix (concat cs) (drop tot data)"
  using assms
proof (induction os fd data tot s rule: send_from.induct)
  case (1 os fd data tot s)
  let ?d = "drop tot data" and ?r = "send_ans os (calls s) (length data - tot)"
  show ?case
  proof (cases "tot < length data")
    case False
    then have "send_from os fd data tot s = Done () (exchanged 0 fd [] [] s)" "concat [] = ?d"
      using "1.prems"(2) by (simp_all add: send_from.simps)
    then show ?thesis using False by blast
  next
    case lt: True
    show ?thesis
    proof (cases "?r \<le> 0")
      case True
      then have "send_from os fd data tot s = Thrown ''send failed'' (exchanged 1 fd [] [] s)"
        using lt by (subst send_from.simps) (simp add: sys_send_exchanged Let_def)
      moreover have "strict_prefix (concat []) ?d" using lt by (simp add: strict_prefix_def)
      ultimately show ?thesis by blast
    next
      case False
      let ?t = "exchanged 1 fd [take (nat ?r) ?d] [] s"
      have step: "sys_send os fd ?d s = Done ?r ?t"
        using False by (simp add: sys_send_exchanged Let_def)
      have "?r \<le> int (length data - tot)" using "1.prems"(1) by (simp add: posix_def)
      then have le: "tot + nat ?r \<le> length data" using lt by linarith
      obtain k cs where IH: "send_from os fd data (tot + nat ?r) ?t = Done () (exchanged k fd cs [] ?t) \<and> concat cs = drop (tot + nat ?r) data
          \<or> send_from os fd data (tot + nat ?r) ?t = Thrown ''send failed'' (exchanged k fd cs [] ?t)
             \<and> strict_prefix (concat cs) (drop (tot + nat ?r) data)"
        using "1.IH" [OF lt step False "1.prems"(1) le] by blast
      have d: "?d = take (nat ?r) ?d @ drop (tot + nat ?r) data"
        by (simp add: add.commute [of tot] flip: drop_drop)
      have eq: "send_from os fd data tot s = send_from os fd data (tot + nat ?r) ?t"
        using lt False by (subst send_from.simps) (simp add: step)
      let ?cs = "take (nat ?r) ?d # cs"
      have "concat cs = drop (tot + nat ?r) data \<Longrightarrow> concat ?cs = ?d" using d by simp
      moreover have "strict_prefix (concat ?cs) ?d" if "strict_prefix (concat cs) (drop (tot + nat ?r) data)"
        using that by (subst d) (simp add: strict_prefix_def)
      ultimately have "send_from os fd data tot s = Done () (exchanged (1 + k) fd ?cs [] s) \<and> concat ?cs = ?d
          \<or> send_from os fd data tot s = Thrown ''send failed'' (exchanged (1 + k) fd ?cs [] s)
            \<and> strict_prefix (concat ?cs) ?d"
        using IH by (elim disjE) (simp_all add: eq)
      then show ?thesis by blast
    qed
  qed
qed

section \<open>A concrete system\<close>

text \<open>Descriptors are the lowest free number, calls take everything, and the bytes to receive are given by \<open>f\<close>.\<close>

definition lowest_free :: "int list \<Rightarrow> int" where
  "lowest_free F = (if F = [] then 0 else Max (set F) + 1)"

definition demo_os :: "(nat \<Rightarrow> string option) \<Rightarrow> os" where
  "demo_os f = \<lparr>socket_ans = (\<lambda>k F. max 3 (lowest_free F)), setsockopt_ans = (\<lambda>_. 0), bind_ans = (\<lambda>_. 0),
     listen_ans = (\<lambda>_. 0), accept_ans = (\<lambda>k F. (max 3 (lowest_free F), ''127.0.0.1'')), connect_ans = (\<lambda>_. 0),
     recv_ans = (\<lambda>k n. map_option (take n) (f k)), send_ans = (\<lambda>k n. int n), pton_ans = (\<lambda>_. 1)\<rparr>"

lemma lowest_free_new: "x \<in> set F \<Longrightarrow> x < max 3 (lowest_free F)"
  by (auto simp: lowest_free_def less_max_iff_disj Max_ge less_Suc_eq intro!: disjI2 zle_add1_eq_le [THEN iffD2])

lemma posix_demo_os: "posix (demo_os f)"
  unfolding posix_def demo_os_def using lowest_free_new by (auto simp: map_option_case split: option.splits)

end
