(* ===== verification/TcpServer.thy ===== *)
theory TcpServer
  imports Sockets
begin

text \<open>
  \<open>src/socket/simple_tcp/TCPServer.h\<close>, \<open>TCPServer.cpp\<close> and \<open>SimpleTCPServer.cpp\<close>: an echo server that
  serves one client at a time.  The fields of the server object are fields of the state.

  Lemmas: what a session sends back, that every accepted connection is closed exactly once however
  its session ends, that a started server never returns, and what a failed start leaves behind.
\<close>

section \<open>The server object\<close>

record srv = net +
  port :: "16 word"
  server_fd :: int
  running :: bool

lemma srv_says [simp]:
  "port (says s ls) = port s" "server_fd (says s ls) = server_fd s" "running (says s ls) = running s"
  by (simp_all add: says_def)

lemma srv_exchanged [simp]:
  "port (exchanged k fd cs gs s) = port s" "server_fd (exchanged k fd cs gs s) = server_fd s"
  "running (exchanged k fd cs gs s) = running s"
  by (simp_all add: exchanged_def)

definition new_TCPServer :: "16 word \<Rightarrow> ('z srv_scheme, unit) prog" where
  "new_TCPServer p s = Done () (s\<lparr>port := p, server_fd := -1, running := False\<rparr>)"

definition delete_TCPServer :: "('z srv_scheme, unit) prog" where
  "delete_TCPServer s = (if server_fd s \<ge> 0 then sys_close (server_fd s) s else Done () s)"

definition getPort :: "('z srv_scheme, 16 word) prog" where
  "getPort s = Done (port s) s"

definition setPort :: "16 word \<Rightarrow> ('z srv_scheme, unit) prog" where
  "setPort p s = Done () (if \<not> running s then s\<lparr>port := p\<rparr> else s)"

definition isRunning :: "('z srv_scheme, bool) prog" where
  "isRunning s = Done (running s) s"

definition getServerFD :: "('z srv_scheme, int) prog" where
  "getServerFD s = Done (server_fd s) s"

definition setServerFD :: "int \<Rightarrow> ('z srv_scheme, unit) prog" where
  "setServerFD fd s = Done () (s\<lparr>server_fd := fd\<rparr>)"

section \<open>Starting\<close>

definition createSocket :: "os \<Rightarrow> ('z srv_scheme, unit) prog" where
  "createSocket os =
     seq (sys_socket os) (\<lambda>fd.
     seq (setServerFD fd) (\<lambda>_.
     if fd < 0 then throw ''socket creation failed''
     else seq (sys (setsockopt_ans os)) (\<lambda>r.
       if r < 0 then throw ''setsockopt(SO_REUSEADDR) failed'' else ret ())))"

definition show_port :: "16 word \<Rightarrow> string" where
  "show_port p = show_nat (unat p)"

definition bindSocket :: "os \<Rightarrow> ('z srv_scheme, unit) prog" where
  "bindSocket os =
     seq (sys (bind_ans os)) (\<lambda>r.
     if r < 0 then throw ''bind failed''
     else seq getPort (\<lambda>p. cout (''Server running on 127.0.0.1:'' @ show_port p @ endl)))"

definition listenSocket :: "os \<Rightarrow> ('z srv_scheme, unit) prog" where
  "listenSocket os =
     seq (sys (listen_ans os)) (\<lambda>r.
     if r < 0 then throw ''listen failed''
     else seq getPort (\<lambda>p. cout (''[TCPServer] listening on port '' @ show_port p @ endl)))"

section \<open>A client session\<close>

definition sendAll :: "os \<Rightarrow> int \<Rightarrow> string \<Rightarrow> ('z net_scheme, unit) prog" where
  "sendAll os fd data = send_from os fd data 0"

definition greeting :: "16 word \<Rightarrow> string" where
  "greeting p = ''Connected to the TCP Server on port '' @ show_port p @ endl
     @ ''Type '' @ [CHR 0x27] @ ''Q'' @ [CHR 0x27] @ '' to stop the connection.'' @ endl"

text \<open>\<open>line.erase(line.find_last_not_of("\r\n") + 1)\<close>; when there is no such character all is erased.\<close>

definition without_newline :: "string \<Rightarrow> string" where
  "without_newline line = rev (dropWhile (\<lambda>c. c \<in> {CHR 0x0D, CHR 0x0A}) (rev line))"

text \<open>
  One round of the loop of \<open>handleClient\<close>; the result says whether the loop goes on.  The buffer has
  1024 bytes; it is printed up to its first zero byte but sent back whole.
\<close>

definition client_turn :: "os \<Rightarrow> int \<Rightarrow> ('z net_scheme, bool) prog" where
  "client_turn os fd =
     seq (sys_recv os fd 1023) (\<lambda>a. case a of
       None \<Rightarrow> throw ''recv failed''
     | Some d \<Rightarrow>
         if d = '''' then seq (cout (''[TCPServer] client closed connection'' @ endl)) (\<lambda>_. ret False)
         else if length d \<ge> 1024 then undef BadIndex
         else seq (cout (''client '' @ show_int fd @ '': '' @ takeWhile (\<lambda>c. c \<noteq> CHR 0x00) d)) (\<lambda>_.
           seq (sendAll os fd d) (\<lambda>_.
           if without_newline d = ''Q'' then seq (cout (''[TCPServer] client disconnected'' @ endl)) (\<lambda>_. ret False)
           else ret True)))"

partial_function (option) client_loop :: "os \<Rightarrow> int \<Rightarrow> 'z net_scheme \<Rightarrow> ('z net_scheme, unit) result option" where
  "client_loop os fd s = (case client_turn os fd s of
      Done b t \<Rightarrow> if b then client_loop os fd t else Some (Done () t)
    | Thrown e t \<Rightarrow> Some (Thrown e t)
    | Undef u \<Rightarrow> Some (Undef u))"

definition handleClient :: "os \<Rightarrow> int \<Rightarrow> ('z srv_scheme, unit) oprog" where
  "handleClient os fd =
     oseq (terminating (seq getPort (\<lambda>p. sendAll os fd (greeting p)))) (\<lambda>_.
     oseq (client_loop os fd) (\<lambda>_.
     terminating (sys_close fd)))"

section \<open>The accept loop\<close>

definition accept_turn :: "os \<Rightarrow> ('z srv_scheme, unit) oprog" where
  "accept_turn os =
     oseq (terminating (sys_accept os)) (\<lambda>(client_fd, addr).
     if client_fd < 0 then terminating (cerr (''[TCPServer] accept failed'' @ endl))
     else
       oseq (terminating (cout (''[TCPServer] client '' @ addr @ '' connected'' @ endl))) (\<lambda>_.
       otry (handleClient os client_fd) (\<lambda>e. terminating (block [
         cerr (''[TCPServer] client error: '' @ e @ endl),
         sys_close client_fd]))))"

partial_function (option) acceptLoop :: "os \<Rightarrow> 'z srv_scheme \<Rightarrow> ('z srv_scheme, unit) result option" where
  "acceptLoop os s = (if running s
     then Option.bind (accept_turn os s) (\<lambda>r. case r of
        Done _ t \<Rightarrow> acceptLoop os t
      | Thrown e t \<Rightarrow> Some (Thrown e t)
      | Undef u \<Rightarrow> Some (Undef u))
     else Some (Done () s))"

definition start_running :: "('z srv_scheme, unit) prog" where
  "start_running s = Done () (s\<lparr>running := True\<rparr>)"

text \<open>\<open>start\<close> calls the virtual \<open>acceptLoop\<close>, which is an argument here.\<close>

definition start :: "os \<Rightarrow> ('z srv_scheme, unit) oprog \<Rightarrow> ('z srv_scheme, unit) oprog" where
  "start os accept_loop =
     oseq (terminating (block [
       cout (''[TCPServer] Starting...'' @ endl),
       createSocket os,
       bindSocket os,
       listenSocket os,
       start_running])) (\<lambda>_. accept_loop)"

definition stop :: "('z srv_scheme, unit) prog" where
  "stop s = (if running s
     then seq (sys_close (server_fd s)) (\<lambda>_ t. Done () (t\<lparr>running := False\<rparr>)) s
     else Done () s)"

definition server_run :: "os \<Rightarrow> (srv, unit) oprog" where
  "server_run os =
     oseq (terminating (new_TCPServer 8080)) (\<lambda>_.
     oseq (otry (start os (acceptLoop os)) (\<lambda>e. terminating (block [cerr (e @ endl), stop]))) (\<lambda>_.
     terminating delete_TCPServer))"

lemmas server_defs [defs] = new_TCPServer_def delete_TCPServer_def getPort_def setPort_def isRunning_def
  getServerFD_def setServerFD_def createSocket_def bindSocket_def listenSocket_def start_running_def start_def stop_def

section \<open>What a session exchanges\<close>

lemma sendAll_result:
  assumes "posix os"
  shows "\<exists>k cs. sendAll os fd data s = Done () (exchanged k fd cs [] s) \<and> concat cs = data
    \<or> sendAll os fd data s = Thrown ''send failed'' (exchanged k fd cs [] s) \<and> strict_prefix (concat cs) data"
  using send_from_result [OF assms, of 0 data fd s] by (simp add: sendAll_def)

text \<open>The session goes on with the answer of call number \<open>k\<close>.\<close>

definition serving :: "os \<Rightarrow> nat \<Rightarrow> bool" where
  "serving os k \<longleftrightarrow> (\<exists>d. recv_ans os k 1023 = Some d \<and> d \<noteq> '''' \<and> without_newline d \<noteq> ''Q'')"

text \<open>The outcome of calls on a connection: all of \<open>intro\<close> and of what was received was sent, or an
  exception came before that.\<close>

definition echoed :: "int \<Rightarrow> string \<Rightarrow> 'z net_scheme \<Rightarrow> ('z net_scheme, 'a) result \<Rightarrow> bool" where
  "echoed fd intro s r \<longleftrightarrow> (\<exists>k cs gs ls. let t = exchanged k fd cs gs (says s ls) in
     (\<exists>x. r = Done x t) \<and> concat cs = intro @ concat gs
     \<or> (\<exists>e. r = Thrown e t) \<and> prefix (concat cs) (intro @ concat gs))"

lemma echoedI:
  "concat cs = intro @ concat gs \<Longrightarrow> echoed fd intro s (Done x (exchanged k fd cs gs (says s ls)))"
  "prefix (concat cs) (intro @ concat gs) \<Longrightarrow> echoed fd intro s (Thrown e (exchanged k fd cs gs (says s ls)))"
  unfolding echoed_def Let_def by blast+

lemma echoedE:
  assumes "echoed fd intro s r"
  obtains k cs gs ls x where "r = Done x (exchanged k fd cs gs (says s ls))" "concat cs = intro @ concat gs"
  | k cs gs ls e where "r = Thrown e (exchanged k fd cs gs (says s ls))" "prefix (concat cs) (intro @ concat gs)"
  using assms unfolding echoed_def Let_def by blast

lemma echoed_then:
  assumes "echoed fd intro s (Done x t)" "echoed fd '''' t r"
  shows "echoed fd intro s r"
proof -
  obtain k cs gs ls where t: "t = exchanged k fd cs gs (says s ls)" "concat cs = intro @ concat gs"
    using assms(1) by (auto elim: echoedE)
  from assms(2) show ?thesis
    by (cases rule: echoedE) (auto simp: t intro!: echoedI)
qed

lemma client_turn_echoed:
  assumes "posix os"
  shows "echoed fd '''' s (client_turn os fd s)"
    and "client_turn os fd s = Done b t \<Longrightarrow> (b \<longleftrightarrow> serving os (calls s)) \<and> calls s < calls t"
proof -
  let ?a = "recv_ans os (calls s) 1023"
  have *: "echoed fd '''' s (client_turn os fd s)
    \<and> (\<forall>b t. client_turn os fd s = Done b t \<longrightarrow> (b \<longleftrightarrow> serving os (calls s)) \<and> calls s < calls t)"
  proof (cases ?a)
    case None
    then have "client_turn os fd s = Thrown ''recv failed'' (exchanged 1 fd [] [] (says s []))"
      by (simp add: client_turn_def sys_recv_exchanged machine)
    then show ?thesis using echoedI(2) [of "[]" "''''" "[]" fd s "''recv failed''" 1 "[]"] by simp
  next
    case (Some d)
    show ?thesis
    proof (cases "d = ''''")
      case True
      then have "client_turn os fd s = Done False (exchanged 1 fd [] [''''] (says s [Cout (''[TCPServer] client closed connection'' @ endl)]))"
        using Some by (simp add: client_turn_def sys_recv_exchanged machine)
      then show ?thesis using Some True echoedI(1) [of "[]" "''''" "['''']"] by (simp add: serving_def)
    next
      case False
      let ?ls = "[Cout (''client '' @ show_int fd @ '': '' @ takeWhile (\<lambda>c. c \<noteq> CHR 0x00) d)]"
      let ?u = "exchanged (Suc 0) fd [] [d] (says s ?ls)"
      have len: "length d < 1024" using Some assms by (force simp: posix_def)
      have turn: "client_turn os fd s = seq (sendAll os fd d) (\<lambda>_.
           if without_newline d = ''Q'' then seq (cout (''[TCPServer] client disconnected'' @ endl)) (\<lambda>_. ret False)
           else ret True) ?u"
        using Some False len by (simp add: client_turn_def sys_recv_exchanged machine)
      obtain k cs where "sendAll os fd d ?u = Done () (exchanged k fd cs [] ?u) \<and> concat cs = d
          \<or> sendAll os fd d ?u = Thrown ''send failed'' (exchanged k fd cs [] ?u) \<and> strict_prefix (concat cs) d"
        using sendAll_result [OF assms] by blast
      then show ?thesis
      proof (elim disjE conjE)
        assume snd: "sendAll os fd d ?u = Done () (exchanged k fd cs [] ?u)" "concat cs = d"
        let ?q = "if without_newline d = ''Q'' then [Cout (''[TCPServer] client disconnected'' @ endl)] else []"
        have "client_turn os fd s = Done (serving os (calls s)) (exchanged (Suc k) fd cs [d] (says s (?ls @ ?q)))"
          using snd(1) Some False by (simp add: turn machine serving_def)
        moreover have "echoed fd '''' s (Done (serving os (calls s)) (exchanged (Suc k) fd cs [d] (says s (?ls @ ?q))))"
          using snd(2) by (intro echoedI) simp
        ultimately show ?thesis by (simp split del: if_split)
      next
        assume snd: "sendAll os fd d ?u = Thrown ''send failed'' (exchanged k fd cs [] ?u)" "strict_prefix (concat cs) d"
        then have "client_turn os fd s = Thrown ''send failed'' (exchanged (Suc k) fd cs [d] (says s ?ls))"
          using snd(1) by (simp add: turn machine)
        moreover have "echoed fd '''' s (Thrown ''send failed'' (exchanged (Suc k) fd cs [d] (says s ?ls)) :: (_, bool) result)"
          using snd(2) by (intro echoedI) (simp add: strict_prefix_def)
        ultimately show ?thesis by simp
      qed
    qed
  qed
  show "echoed fd '''' s (client_turn os fd s)" using * by simp
  show "client_turn os fd s = Done b t \<Longrightarrow> (b \<longleftrightarrow> serving os (calls s)) \<and> calls s < calls t" using * by simp
qed

lemma client_loop_echoed:
  assumes "posix os" "client_loop os fd s = Some r"
  shows "echoed fd '''' s r"
proof (rule client_loop.raw_induct [where P = "\<lambda>os fd s r. posix os \<longrightarrow> echoed fd '''' s r", OF _ assms(2), rule_format])
  fix loop :: "os \<Rightarrow> int \<Rightarrow> 'a net_scheme \<Rightarrow> ('a net_scheme, unit) result option" and os fd s r
  assume IH: "\<And>os fd s r. loop os fd s = Some r \<Longrightarrow> posix os \<Longrightarrow> echoed fd '''' s r" and p: "posix os"
    and eq: "(case client_turn os fd s of
      Done b t \<Rightarrow> if b then loop os fd t else Some (Done () t)
    | Thrown e t \<Rightarrow> Some (Thrown e t)
    | Undef u \<Rightarrow> Some (Undef u)) = Some r"
  have turn: "echoed fd '''' s (client_turn os fd s)" by (rule client_turn_echoed(1) [OF p])
  then show "echoed fd '''' s r"
  proof (cases rule: echoedE)
    case (1 k cs gs ls b)
    let ?t = "exchanged k fd cs gs (says s ls)"
    show ?thesis
    proof (cases b)
      case True
      then have "loop os fd ?t = Some r" using eq 1 by simp
      with IH p have "echoed fd '''' ?t r" by blast
      with turn 1 show ?thesis by (simp add: echoed_then)
    next
      case False
      with eq 1 show ?thesis by (auto intro: echoedI)
    qed
  next
    case (2 k cs gs ls e)
    with eq show ?thesis by (auto intro: echoedI)
  qed
qed (rule assms(1))

text \<open>The peer ends the session with call number \<open>n\<close> at the latest: it closes, fails or sends \<open>Q\<close>.\<close>

definition peer_ends :: "os \<Rightarrow> nat \<Rightarrow> bool" where
  "peer_ends os n \<longleftrightarrow> (\<forall>k \<ge> n. \<not> serving os k)"

lemma client_loop_returns:
  assumes "posix os" "peer_ends os n"
  shows "\<exists>r. client_loop os fd s = Some r"
proof (induction "n - calls s" arbitrary: s rule: less_induct)
  case less
  show ?case
  proof (cases "client_turn os fd s")
    case (Done b t)
    note turn = client_turn_echoed(2) [OF assms(1) Done]
    show ?thesis
    proof (cases b)
      case True
      then have "calls s < n" using turn assms(2) by (metis not_less peer_ends_def)
      then obtain r where "client_loop os fd t = Some r" using less [of t] turn by force
      then show ?thesis using Done True by (subst client_loop.simps) simp
    qed (subst client_loop.simps, simp add: Done)
  qed (subst client_loop.simps, simp)+
qed

lemma handleClient_result:
  assumes "posix os" "handleClient os fd s = Some r"
  obtains k cs gs ls where "r = sys_close fd (exchanged k fd cs gs (says s ls))"
      "concat cs = greeting (port s) @ concat gs"
  | k cs gs ls e where "r = Thrown e (exchanged k fd cs gs (says s ls))"
      "prefix (concat cs) (greeting (port s) @ concat gs)"
proof -
  let ?hello = "greeting (port s)"
  obtain k cs where "sendAll os fd ?hello s = Done () (exchanged k fd cs [] s) \<and> concat cs = ?hello
      \<or> sendAll os fd ?hello s = Thrown ''send failed'' (exchanged k fd cs [] s) \<and> strict_prefix (concat cs) ?hello"
    using sendAll_result [OF assms(1)] by blast
  then show thesis
  proof (elim disjE conjE)
    assume snd: "sendAll os fd ?hello s = Thrown ''send failed'' (exchanged k fd cs [] s)" "strict_prefix (concat cs) ?hello"
    then have "r = Thrown ''send failed'' (exchanged k fd cs [] (says s []))"
      using assms(2) by (auto simp: handleClient_def getPort_def machine)
    then show thesis by (rule that(2)) (use snd(2) in \<open>simp add: strict_prefix_def\<close>)
  next
    let ?u = "exchanged k fd cs [] s"
    assume snd: "sendAll os fd ?hello s = Done () ?u" "concat cs = ?hello"
    then have eq: "oseq (client_loop os fd) (\<lambda>_. terminating (sys_close fd)) ?u = Some r"
      using assms(2) by (simp add: handleClient_def getPort_def machine)
    then obtain q where q: "client_loop os fd ?u = Some q" by (auto simp: oseq_def split: option.splits)
    have "echoed fd ?hello s (Done () ?u)"
      using echoedI(1) [of cs ?hello "[]" fd s "()" k "[]"] snd(2) by simp
    then have "echoed fd ?hello s q" by (rule echoed_then) (rule client_loop_echoed [OF assms(1) q])
    then show thesis
    proof (cases rule: echoedE)
      case (1 k cs gs ls x)
      then have "r = sys_close fd (exchanged k fd cs gs (says s ls))" using eq q by (simp add: oseq_def terminating_def)
      then show thesis using 1(2) by (rule that(1))
    next
      case (2 k cs gs ls e)
      then have "r = Thrown e (exchanged k fd cs gs (says s ls))" using eq q by (simp add: oseq_def)
      then show thesis using 2(2) by (rule that(2))
    qed
  qed
qed

lemma handleClient_returns:
  assumes "posix os" "peer_ends os n"
  shows "\<exists>r. handleClient os fd s = Some r"
proof -
  let ?u = "sendAll os fd (greeting (port s)) s"
  show ?thesis
  proof (cases ?u)
    case (Done x t)
    obtain r where "client_loop os fd t = Some r" using client_loop_returns [OF assms] by blast
    with Done show ?thesis by (cases r) (simp_all add: handleClient_def getPort_def machine)
  qed (simp_all add: handleClient_def getPort_def machine)
qed

section \<open>The accept loop serves and closes\<close>

text \<open>The server object and the descriptors are as before, and every close was one of an open descriptor.\<close>

definition undisturbed :: "'z srv_scheme \<Rightarrow> 'z srv_scheme \<Rightarrow> bool" where
  "undisturbed s t \<longleftrightarrow> fds t = fds s \<and> bad_close t = bad_close s
     \<and> port t = port s \<and> server_fd t = server_fd s \<and> running t = running s"

lemma undisturbed_trans: "undisturbed s t \<Longrightarrow> undisturbed t u \<Longrightarrow> undisturbed s u"
  by (simp add: undisturbed_def)

lemma close_new_connection:
  assumes "fds u = fd # fds s" "bad_close u = bad_close s" "port u = port s" "server_fd u = server_fd s"
    "running u = running s"
  shows "\<exists>v. sys_close fd u = Done () v \<and> undisturbed s v"
  using assms by (simp add: sys_close_def undisturbed_def)

lemma accept_turn_result:
  assumes "posix os" "accept_turn os s = Some r"
  shows "\<exists>t. r = Done () t \<and> undisturbed s t"
proof -
  obtain fd addr where a: "accept_ans os (calls s) (fds s) = (fd, addr)" by fastforce
  show ?thesis
  proof (cases "fd < 0")
    case True
    then show ?thesis
      using assms(2) by (auto simp: accept_turn_def sys_accept_def a oseq_def terminating_def cerr_def emit_def
          opens_def undisturbed_def)
  next
    case False
    have "0 \<le> fst (accept_ans os (calls s) (fds s)) \<longrightarrow> fst (accept_ans os (calls s) (fds s)) \<notin> set (fds s)"
      using assms(1) unfolding posix_def by blast
    with False have fd: "0 \<le> fd" "fd \<notin> set (fds s)" by (simp_all add: a)
    let ?u = "says (opens fd s) [Cout (''[TCPServer] client '' @ addr @ '' connected'' @ endl)]"
    have eq: "otry (handleClient os fd) (\<lambda>e. terminating (block [cerr (''[TCPServer] client error: '' @ e @ endl), sys_close fd])) ?u = Some r"
      using assms(2) False by (simp add: accept_turn_def sys_accept_def a oseq_def terminating_def cout_def emit_def)
    then obtain q where q: "handleClient os fd ?u = Some q" by (auto simp: otry_def split: option.splits)
    from assms(1) q show ?thesis
    proof (cases rule: handleClient_result)
      case (1 k cs gs ls)
      have "\<exists>v. sys_close fd (exchanged k fd cs gs (says ?u ls)) = Done () v \<and> undisturbed s v"
        by (rule close_new_connection) (use fd in \<open>simp_all add: opens_def\<close>)
      with eq q 1(1) show ?thesis by (auto simp: otry_def)
    next
      case (2 k cs gs ls e)
      let ?w = "says (exchanged k fd cs gs (says ?u ls)) [Cerr (''[TCPServer] client error: '' @ e @ endl)]"
      have "\<exists>v. sys_close fd ?w = Done () v \<and> undisturbed s v"
        by (rule close_new_connection) (use fd in \<open>simp_all add: opens_def\<close>)
      with eq q 2(1) show ?thesis by (auto simp: otry_def terminating_def seq_def ret_def cerr_def emit_def)
    qed
  qed
qed

lemma accept_turn_returns:
  assumes "posix os" "peer_ends os n"
  shows "\<exists>t. accept_turn os s = Some (Done () t) \<and> undisturbed s t"
proof -
  obtain fd addr where a: "accept_ans os (calls s) (fds s) = (fd, addr)" by fastforce
  obtain r where "handleClient os fd (says (opens fd s) [Cout (''[TCPServer] client '' @ addr @ '' connected'' @ endl)]) = Some r"
    using handleClient_returns [OF assms] by blast
  then have "\<exists>r. accept_turn os s = Some r"
    by (cases r) (simp_all add: accept_turn_def sys_accept_def a oseq_def terminating_def otry_def cout_def emit_def)
  then show ?thesis using accept_turn_result [OF assms(1)] by blast
qed

lemma acceptLoop_never_returns:
  assumes "posix os" "acceptLoop os s = Some r"
  shows "\<not> running s"
proof (rule acceptLoop.raw_induct [where P = "\<lambda>os s r. posix os \<longrightarrow> \<not> running s", OF _ assms(2), rule_format])
  fix loop :: "os \<Rightarrow> 'a srv_scheme \<Rightarrow> ('a srv_scheme, unit) result option" and os s r
  assume IH: "\<And>os s r. loop os s = Some r \<Longrightarrow> posix os \<Longrightarrow> \<not> running s" and p: "posix os"
    and eq: "(if running s then Option.bind (accept_turn os s) (\<lambda>r. case r of
        Done _ t \<Rightarrow> loop os t | Thrown e t \<Rightarrow> Some (Thrown e t) | Undef u \<Rightarrow> Some (Undef u))
     else Some (Done () s)) = Some r"
  show "\<not> running s"
  proof
    assume run: "running s"
    then obtain q where q: "accept_turn os s = Some q" using eq by (cases "accept_turn os s") auto
    then obtain t where t: "q = Done () t" "undisturbed s t" using accept_turn_result [OF p] by blast
    then have "loop os t = Some r" using eq run q by simp
    then have "\<not> running t" using IH p by blast
    with t(2) run show False by (simp add: undisturbed_def)
  qed
qed (rule assms(1))

section \<open>Properties of the server\<close>


text \<open>
  Any number of rounds of the accept loop, with clients that end their sessions normally, by
  closing or with an error: each round returns, no connection stays open, no descriptor is closed
  twice, and the server keeps running.
\<close>

theorem server_rounds_close_connections:
  assumes "posix os" "peer_ends os n"
  shows "\<exists>t. ofor_each [0..<m] (\<lambda>_. accept_turn os) s = Some (Done () t) \<and> fds t = fds s
    \<and> bad_close t = bad_close s \<and> running t = running s"
proof -
  have "\<exists>t. ofor_each is (\<lambda>_. accept_turn os) s = Some (Done () t) \<and> undisturbed s t" for "is" :: "nat list"
  proof (induction "is" arbitrary: s)
    case Nil
    then show ?case by (simp add: terminating_def ret_def undisturbed_def)
  next
    case (Cons i "is")
    obtain u where u: "accept_turn os s = Some (Done () u)" "undisturbed s u"
      using accept_turn_returns [OF assms] by blast
    with Cons.IH [of u] show ?case by (auto simp: oseq_def intro: undisturbed_trans)
  qed
  then show ?thesis unfolding undisturbed_def by blast
qed

text \<open>The answers to the four calls of \<open>start\<close>, made from call number \<open>k\<close> on.\<close>

definition setup_succeeds :: "os \<Rightarrow> 'z net_scheme \<Rightarrow> bool" where
  "setup_succeeds os s \<longleftrightarrow> (let k = calls s in 0 \<le> socket_ans os k (fds s) \<and> 0 \<le> setsockopt_ans os (k + 1)
     \<and> 0 \<le> bind_ans os (k + 2) \<and> 0 \<le> listen_ans os (k + 3))"

lemma start_result:
  assumes "posix os" "\<not> running s"
  shows "setup_succeeds os s \<Longrightarrow> \<exists>t. start os loop s = loop t \<and> running t"
    and "\<not> setup_succeeds os s \<Longrightarrow> \<exists>e t. start os loop s = Some (Thrown e t) \<and> \<not> running t
      \<and> bad_close t = bad_close s \<and> (if server_fd t < 0 then fds t = fds s
         else server_fd t \<notin> set (fds s) \<and> fds t = server_fd t # fds s)"
proof -
  have new: "0 \<le> socket_ans os (calls s) (fds s) \<longrightarrow> socket_ans os (calls s) (fds s) \<notin> set (fds s)"
    using assms(1) unfolding posix_def by blast
  note setup_defs = start_def createSocket_def bindSocket_def listenSocket_def setServerFD_def getPort_def
    start_running_def oseq_def terminating_def seq_def ret_def throw_def cout_def emit_def
    sys_socket_def sys_def opens_def setup_succeeds_def Let_def
  show "\<exists>t. start os loop s = loop t \<and> running t" if "setup_succeeds os s"
    using that by (auto simp: setup_defs numeral_3_eq_3 not_less [symmetric])
  show "\<exists>e t. start os loop s = Some (Thrown e t) \<and> \<not> running t
      \<and> bad_close t = bad_close s \<and> (if server_fd t < 0 then fds t = fds s
         else server_fd t \<notin> set (fds s) \<and> fds t = server_fd t # fds s)" if "\<not> setup_succeeds os s"
    using that new assms(2) by (auto simp: setup_defs numeral_3_eq_3 not_less)
qed

text \<open>
  C39.  Running the example: if creating, configuring, binding and listening all succeed, the call
  never returns, whatever the clients do; otherwise it returns with the failure reported on the
  error console, the socket (if one was created) closed once and no descriptor left open.
\<close>

theorem server_run_outcome:
  assumes "posix os"
  shows "if setup_succeeds os s then server_run os s = None
    else \<exists>e t. server_run os s = Some (Done () t) \<and> fds t = fds s \<and> bad_close t = bad_close s
      \<and> last (out t) = Cerr (e @ endl)"
proof -
  let ?s = "s\<lparr>port := 8080, server_fd := -1, running := False\<rparr>"
  have new: "server_run os s = oseq (otry (start os (acceptLoop os)) (\<lambda>e. terminating (block [cerr (e @ endl), stop])))
      (\<lambda>_. terminating delete_TCPServer) ?s"
    by (simp add: server_run_def new_TCPServer_def oseq_def terminating_def)
  have same: "setup_succeeds os ?s = setup_succeeds os s" by (simp add: setup_succeeds_def)
  show ?thesis
  proof (cases "setup_succeeds os s")
    case True
    then obtain t where "start os (acceptLoop os) ?s = acceptLoop os t" "running t"
      using start_result(1) [OF assms, of ?s "acceptLoop os"] same by auto
    moreover have "acceptLoop os t = None"
      using acceptLoop_never_returns [OF assms] \<open>running t\<close> by (cases "acceptLoop os t") auto
    ultimately show ?thesis using True by (simp add: new oseq_def otry_def)
  next
    case False
    then obtain e t where t: "start os (acceptLoop os) ?s = Some (Thrown e t)" "\<not> running t"
        "bad_close t = bad_close s"
        "if server_fd t < 0 then fds t = fds s else server_fd t \<notin> set (fds s) \<and> fds t = server_fd t # fds s"
      using start_result(2) [OF assms, of ?s "acceptLoop os"] same by (auto cong: if_cong)
    then have "server_run os s = Some (delete_TCPServer (says t [Cerr (e @ endl)]))"
      by (simp add: new oseq_def otry_def terminating_def seq_def ret_def cerr_def emit_def stop_def)
    then show ?thesis using False t(2-) by (auto simp: delete_TCPServer_def sys_close_def)
  qed
qed

text \<open>
  Stopping a running server and then destroying it closes its descriptor twice: \<open>stop\<close> does not
  forget the descriptor, and the destructor closes it again.
\<close>

theorem server_stop_double_close:
  assumes "running s" "0 \<le> server_fd s" "server_fd s \<in> set (fds s)" "distinct (fds s)"
  shows "\<exists>t. seq stop (\<lambda>_. delete_TCPServer) s = Done () t \<and> bad_close t = bad_close s @ [server_fd s]"
  using assms by (simp add: seq_def stop_def delete_TCPServer_def sys_close_def)

section \<open>Witnesses\<close>

definition demo_srv :: srv where
  "demo_srv = \<lparr>cells = (\<lambda>_. None), brk = 0, out = [], calls = 0, fds = [3], sent = [], got = [], bad_close = [],
     port = 8080, server_fd = 3, running = True\<rparr>"


theorem server_rounds_close_connections_witness:
  "\<exists>t. ofor_each [0..<5] (\<lambda>_. accept_turn (demo_os (\<lambda>k. None))) demo_srv = Some (Done () t)
    \<and> fds t = fds demo_srv \<and> bad_close t = bad_close demo_srv \<and> running t = running demo_srv"
  by (rule server_rounds_close_connections [OF posix_demo_os, of _ 0])
    (simp_all add: peer_ends_def serving_def demo_os_def)

theorem server_run_outcome_witness: "server_run (demo_os (\<lambda>k. Some ''hello'')) demo_srv = None"
  using server_run_outcome [OF posix_demo_os, of "\<lambda>k. Some ''hello''" demo_srv]
  by (simp add: setup_succeeds_def demo_os_def demo_srv_def lowest_free_def)

theorem server_stop_double_close_witness:
  "\<exists>t. seq stop (\<lambda>_. delete_TCPServer) demo_srv = Done () t \<and> bad_close t = [3]"
  using server_stop_double_close [of demo_srv] by (simp add: demo_srv_def)

end
