(* ===== verification/TcpClient.thy ===== *)
theory TcpClient
  imports Sockets
begin

text \<open>
  \<open>src/socket/simple_tcp/TCPClient.h\<close>, \<open>TCPClient.cpp\<close> and \<open>SimpleTCPClient.cpp\<close>: the client object,
  whose fields are fields of the state, and the interactive session over standard input.

  Lemmas: the session ends for every input, sends every line typed, and closes its descriptor exactly
  when nothing went wrong before the end of the input.
\<close>

section \<open>The client object\<close>

record cli = net +
  host :: string
  client_port :: "16 word"
  client_fd :: int
  input :: string

lemma cli_says [simp]:
  "host (says s ls) = host s" "client_port (says s ls) = client_port s"
  "client_fd (says s ls) = client_fd s" "input (says s ls) = input s"
  by (simp_all add: says_def)

lemma cli_exchanged [simp]:
  "host (exchanged k fd cs gs s) = host s" "client_port (exchanged k fd cs gs s) = client_port s"
  "client_fd (exchanged k fd cs gs s) = client_fd s" "input (exchanged k fd cs gs s) = input s"
  by (simp_all add: exchanged_def)

definition new_TCPClient :: "string \<Rightarrow> 16 word \<Rightarrow> (cli, unit) prog" where
  "new_TCPClient h p s = Done () (s\<lparr>host := h, client_port := p, client_fd := -1\<rparr>)"

definition getHost :: "(cli, string) prog" where
  "getHost s = Done (host s) s"

definition getPort :: "(cli, 16 word) prog" where
  "getPort s = Done (client_port s) s"

definition get_fd :: "(cli, int) prog" where
  "get_fd s = Done (client_fd s) s"

definition set_fd :: "int \<Rightarrow> (cli, unit) prog" where
  "set_fd fd s = Done () (s\<lparr>client_fd := fd\<rparr>)"

definition connect :: "os \<Rightarrow> (cli, bool) prog" where
  "connect os =
     seq (sys_socket os) (\<lambda>fd.
     seq (set_fd fd) (\<lambda>_.
     if fd < 0 then throw ''socket failed.''
     else seq getHost (\<lambda>h.
       if pton_ans os h \<le> 0 then throw ''invalid address''
       else seq (sys (connect_ans os)) (\<lambda>r. ret (r = 0)))))"

definition send :: "os \<Rightarrow> string \<Rightarrow> (cli, unit) prog" where
  "send os msg = seq get_fd (\<lambda>fd.
     if fd < 0 then throw ''socket not connected'' else send_from os fd msg 0)"

text \<open>The buffer has 1024 bytes, all of which are given to \<open>recv\<close>.\<close>

definition receive :: "os \<Rightarrow> (cli, string) prog" where
  "receive os = seq get_fd (\<lambda>fd.
     if fd < 0 then throw ''socket not connected''
     else seq (sys_recv os fd 1024) (\<lambda>a. case a of
       None \<Rightarrow> throw ''recv failed''
     | Some d \<Rightarrow> if d = '''' then throw ''connection closed''
         else if length d > 1024 then undef BadIndex else ret d))"

definition close :: "(cli, unit) prog" where
  "close = seq get_fd (\<lambda>fd. if fd \<ge> 0 then seq (sys_close fd) (\<lambda>_. set_fd (-1)) else ret ())"

section \<open>The session\<close>

text \<open>\<open>std::getline(std::cin, msg)\<close>: it fails when no character is left.\<close>

definition getline :: "(cli, string option) prog" where
  "getline s = (if input s = '''' then Done None s
     else Done (Some (takeWhile (\<lambda>c. c \<noteq> CHR 0x0A) (input s)))
       (s\<lparr>input := tl (dropWhile (\<lambda>c. c \<noteq> CHR 0x0A) (input s))\<rparr>))"

text \<open>One round of the loop of \<open>run\<close>; the result says whether the loop goes on.\<close>

definition session_turn :: "os \<Rightarrow> (cli, bool) prog" where
  "session_turn os = seq getline (\<lambda>l. case l of
      None \<Rightarrow> seq (cout (''get line failed'' @ endl)) (\<lambda>_. ret False)
    | Some msg \<Rightarrow>
        seq (send os (msg @ endl)) (\<lambda>_.
        seq (receive os) (\<lambda>response.
        seq (cout response) (\<lambda>_. ret True))))"

partial_function (option) session_loop :: "os \<Rightarrow> cli \<Rightarrow> (cli, unit) result option" where
  "session_loop os s = (case session_turn os s of
      Done b t \<Rightarrow> if b then session_loop os t else Some (Done () t)
    | Thrown e t \<Rightarrow> Some (Thrown e t)
    | Undef u \<Rightarrow> Some (Undef u))"

text \<open>The return after a failed \<open>connect\<close> leaves without \<open>close\<close>; \<open>TCPClient\<close> has no destructor of its own.\<close>

definition client_run :: "os \<Rightarrow> (cli, unit) oprog" where
  "client_run os = otry (
     oseq (terminating (new_TCPClient ''127.0.0.1'' 8080)) (\<lambda>_.
     oseq (terminating (connect os)) (\<lambda>ok.
     if \<not> ok then terminating (cout (''connect failed'' @ endl))
     else
       oseq (terminating (seq getHost (\<lambda>h. seq getPort (\<lambda>p.
         cout (''connected to host: '' @ h @ '' port:'' @ show_nat (unat p) @ endl))))) (\<lambda>_.
       oseq (terminating (receive os)) (\<lambda>response.
       oseq (terminating (cout (response @ endl))) (\<lambda>_.
       oseq (session_loop os) (\<lambda>_.
       terminating close)))))))
     (\<lambda>e. terminating (cout (''error: '' @ e @ endl)))"

lemmas client_defs [defs] = new_TCPClient_def getHost_def getPort_def get_fd_def set_fd_def connect_def
  send_def receive_def close_def getline_def

section \<open>What a session does\<close>

lemma rest_shorter: "inp \<noteq> '''' \<Longrightarrow> length (tl (dropWhile P inp)) < length inp"
  using length_dropWhile_le [of P inp] by (cases inp) (auto simp: less_Suc_eq_le intro: le_trans [OF diff_le_self])

text \<open>The lines of an input, the last one with or without its newline.\<close>

function lines_of :: "string \<Rightarrow> string list" where
  "lines_of inp = (if inp = '''' then []
     else takeWhile (\<lambda>c. c \<noteq> CHR 0x0A) inp # lines_of (tl (dropWhile (\<lambda>c. c \<noteq> CHR 0x0A) inp)))"
  by auto

termination
  by (relation "measure length") (auto simp: rest_shorter simp del: length_tl)

declare lines_of.simps [simp del]

lemma send_result:
  assumes "posix os" "0 \<le> client_fd s"
  shows "\<exists>k cs. send os msg s = Done () (exchanged k (client_fd s) cs [] s) \<and> concat cs = msg
    \<or> send os msg s = Thrown ''send failed'' (exchanged k (client_fd s) cs [] s) \<and> strict_prefix (concat cs) msg"
  using send_from_result [OF assms(1), of 0 msg "client_fd s" s] assms(2)
  by (simp add: send_def get_fd_def seq_def)

lemma receive_result:
  assumes "posix os" "0 \<le> client_fd s"
  shows "receive os s = (let t = exchanged 1 (client_fd s) []
        (case recv_ans os (calls s) 1024 of None \<Rightarrow> [] | Some d \<Rightarrow> [d]) s in
      case recv_ans os (calls s) 1024 of None \<Rightarrow> Thrown ''recv failed'' t
      | Some d \<Rightarrow> if d = '''' then Thrown ''connection closed'' t else Done d t)"
proof (cases "recv_ans os (calls s) 1024")
  case (Some d)
  then have "length d \<le> 1024" using assms(1) by (auto simp: posix_def)
  with Some assms(2) show ?thesis by (simp add: receive_def get_fd_def sys_recv_exchanged machine)
qed (use assms(2) in \<open>simp add: receive_def get_fd_def sys_recv_exchanged machine\<close>)

text \<open>What the client sends for an input: every line with a newline.\<close>

definition typed_lines :: "string \<Rightarrow> string" where
  "typed_lines inp = concat (map (\<lambda>l. l @ endl) (lines_of inp))"

lemma typed_lines_step: "inp \<noteq> '''' \<Longrightarrow> typed_lines inp = (takeWhile (\<lambda>c. c \<noteq> CHR 0x0A) inp @ endl)
    @ typed_lines (tl (dropWhile (\<lambda>c. c \<noteq> CHR 0x0A) inp))"
  unfolding typed_lines_def by (subst lines_of.simps) simp

lemma session_turn_result:
  assumes "posix os" "0 \<le> client_fd s" "input s \<noteq> ''''"
  defines "line \<equiv> takeWhile (\<lambda>c. c \<noteq> CHR 0x0A) (input s) @ endl"
    and "u \<equiv> s\<lparr>input := tl (dropWhile (\<lambda>c. c \<noteq> CHR 0x0A) (input s))\<rparr>"
  obtains k cs gs ls where "session_turn os s = Done True (exchanged k (client_fd s) cs gs (says u ls))" "concat cs = line"
  | k cs gs e where "session_turn os s = Thrown e (exchanged k (client_fd s) cs gs u)" "prefix (concat cs) line"
proof -
  have turn: "session_turn os s = seq (send os line) (\<lambda>_. seq (receive os) (\<lambda>response. seq (cout response) (\<lambda>_. ret True))) u"
    using assms(3) by (simp add: session_turn_def getline_def seq_def line_def u_def)
  have fd: "client_fd u = client_fd s" by (simp add: u_def)
  obtain k cs where "send os line u = Done () (exchanged k (client_fd s) cs [] u) \<and> concat cs = line
      \<or> send os line u = Thrown ''send failed'' (exchanged k (client_fd s) cs [] u) \<and> strict_prefix (concat cs) line"
    using send_result [OF assms(1), of u line] assms(2) by (auto simp: fd)
  then show thesis
  proof (elim disjE conjE)
    assume snd: "send os line u = Thrown ''send failed'' (exchanged k (client_fd s) cs [] u)" "strict_prefix (concat cs) line"
    then have "session_turn os s = Thrown ''send failed'' (exchanged k (client_fd s) cs [] u)" by (simp add: turn seq_def)
    then show thesis by (rule that(2)) (use snd(2) in \<open>simp add: strict_prefix_def\<close>)
  next
    let ?v = "exchanged k (client_fd s) cs [] u"
    assume snd: "send os line u = Done () ?v" "concat cs = line"
    have v: "0 \<le> client_fd ?v" using assms(2) by (simp add: fd)
    have turn': "session_turn os s = seq (receive os) (\<lambda>response. seq (cout response) (\<lambda>_. ret True)) ?v"
      by (simp add: turn snd(1) seq_def)
    note rcv = receive_result [OF assms(1) v]
    show thesis
    proof (cases "recv_ans os (calls ?v) 1024")
      case None
      then have "session_turn os s = Thrown ''recv failed'' (exchanged (k + 1) (client_fd s) cs [] u)"
        by (simp add: turn' rcv seq_def fd)
      then show thesis by (rule that(2)) (simp add: snd(2))
    next
      case (Some d)
      show thesis
      proof (cases "d = ''''")
        case True
        then have "session_turn os s = Thrown ''connection closed'' (exchanged (k + 1) (client_fd s) cs [''''] u)"
          using Some by (simp add: turn' rcv seq_def fd)
        then show thesis by (rule that(2)) (simp add: snd(2))
      next
        case False
        then have "session_turn os s = Done True (exchanged (k + 1) (client_fd s) cs [d] (says u [Cout d]))"
          using Some by (simp add: turn' rcv seq_def fd ret_def cout_def emit_def)
        then show thesis by (rule that(1)) (rule snd(2))
      qed
    qed
  qed
qed

text \<open>The loop ends: at the end of the input, having sent all of it, or with an exception.\<close>

lemma session_loop_result:
  assumes "posix os" "0 \<le> client_fd s"
  shows "\<exists>k cs gs ls inp. let t = exchanged k (client_fd s) cs gs (says (s\<lparr>input := inp\<rparr>) ls) in
    session_loop os s = Some (Done () t) \<and> inp = '''' \<and> concat cs = typed_lines (input s)
        \<and> ls \<noteq> [] \<and> last ls = Cout (''get line failed'' @ endl)
    \<or> (\<exists>e. session_loop os s = Some (Thrown e t)) \<and> prefix (concat cs) (typed_lines (input s))"
  using assms(2)
proof (induction "length (input s)" arbitrary: s rule: less_induct)
  case less
  show ?case
  proof (cases "input s = ''''")
    case True
    let ?l = "[Cout (''get line failed'' @ endl)]"
    have "session_turn os s = Done False (exchanged 0 (client_fd s) [] [] (says (s\<lparr>input := ''''\<rparr>) ?l))"
      using True by (simp add: session_turn_def getline_def machine)
    then have "session_loop os s = Some (Done () (exchanged 0 (client_fd s) [] [] (says (s\<lparr>input := ''''\<rparr>) ?l)))"
      by (subst session_loop.simps) simp
    moreover have "concat [] = typed_lines (input s)" using True by (simp add: typed_lines_def lines_of.simps)
    ultimately show ?thesis unfolding Let_def by (metis last.simps list.distinct(1))
  next
    case False
    let ?rest = "tl (dropWhile (\<lambda>c. c \<noteq> CHR 0x0A) (input s))"
    let ?u = "s\<lparr>input := ?rest\<rparr>" and ?line = "takeWhile (\<lambda>c. c \<noteq> CHR 0x0A) (input s) @ endl"
    have typed: "typed_lines (input s) = ?line @ typed_lines ?rest" by (rule typed_lines_step [OF False])
    from assms(1) less.prems False show ?thesis
    proof (cases rule: session_turn_result)
      case (1 k cs gs ls)
      let ?t = "exchanged k (client_fd s) cs gs (says ?u ls)"
      have loop: "session_loop os s = session_loop os ?t" by (subst session_loop.simps) (simp add: 1)
      have "length (input ?t) < length (input s)" using rest_shorter [OF False] by simp
      then obtain k' cs' gs' ls' inp where IH: "let t = exchanged k' (client_fd s) cs' gs' (says (?t\<lparr>input := inp\<rparr>) ls') in
          session_loop os ?t = Some (Done () t) \<and> inp = '''' \<and> concat cs' = typed_lines ?rest
            \<and> ls' \<noteq> [] \<and> last ls' = Cout (''get line failed'' @ endl)
          \<or> (\<exists>e. session_loop os ?t = Some (Thrown e t)) \<and> prefix (concat cs') (typed_lines ?rest)"
        using less.hyps [of ?t] less.prems by (simp del: length_tl) blast
      have "exchanged k' (client_fd s) cs' gs' (says (?t\<lparr>input := inp\<rparr>) ls')
          = exchanged (k + k') (client_fd s) (cs @ cs') (gs @ gs') (says (s\<lparr>input := inp\<rparr>) (ls @ ls'))"
        by (simp add: exchanged_def says_def)
      moreover have "concat cs' = typed_lines ?rest \<Longrightarrow> concat (cs @ cs') = typed_lines (input s)"
        "prefix (concat cs') (typed_lines ?rest) \<Longrightarrow> prefix (concat (cs @ cs')) (typed_lines (input s))"
        using 1(2) by (simp_all add: typed)
      moreover have "ls' \<noteq> [] \<Longrightarrow> ls @ ls' \<noteq> [] \<and> last (ls @ ls') = last ls'" by simp
      ultimately show ?thesis using IH unfolding Let_def loop by metis
    next
      case (2 k cs gs e)
      have "session_loop os s = Some (Thrown e (exchanged k (client_fd s) cs gs (says ?u [])))"
        by (subst session_loop.simps) (simp add: 2)
      moreover have "prefix (concat cs) (typed_lines (input s))" unfolding typed using 2(2) by (rule prefix_prefix)
      ultimately show ?thesis unfolding Let_def by blast
    qed
  qed
qed

section \<open>Properties of the client\<close>

text \<open>The state after the socket was created: the descriptor \<open>fd\<close> is open and known to the client.\<close>

definition opened :: "int \<Rightarrow> cli \<Rightarrow> cli" where
  "opened fd s = (opens fd (s\<lparr>host := ''127.0.0.1'', client_port := 8080\<rparr>))\<lparr>client_fd := fd\<rparr>"

lemma opened_simps [simp]:
  "client_fd (opened fd s) = fd" "input (opened fd s) = input s" "bad_close (opened fd s) = bad_close s"
  "sent (opened fd s) = sent s" "got (opened fd s) = got s" "0 \<le> fd \<Longrightarrow> fds (opened fd s) = fd # fds s"
  by (simp_all add: opened_def opens_def)

text \<open>The part of \<open>run\<close> after a successful \<open>connect\<close>.\<close>

definition talk :: "os \<Rightarrow> (cli, unit) oprog" where
  "talk os =
     oseq (terminating (seq getHost (\<lambda>h. seq getPort (\<lambda>p.
       cout (''connected to host: '' @ h @ '' port:'' @ show_nat (unat p) @ endl))))) (\<lambda>_.
     oseq (terminating (receive os)) (\<lambda>response.
     oseq (terminating (cout (response @ endl))) (\<lambda>_.
     oseq (session_loop os) (\<lambda>_.
     terminating close))))"

lemma talk_result:
  assumes "posix os" "0 \<le> client_fd u"
  shows "\<exists>k cs gs ls inp. let t = exchanged k (client_fd u) cs gs (says (u\<lparr>input := inp\<rparr>) ls) in
    talk os u = Some (close t) \<and> inp = '''' \<and> concat cs = typed_lines (input u)
        \<and> ls \<noteq> [] \<and> last ls = Cout (''get line failed'' @ endl)
    \<or> (\<exists>e. talk os u = Some (Thrown e t)) \<and> prefix (concat cs) (typed_lines (input u))"
proof -
  define l where "l = Cout (''connected to host: '' @ host u @ '' port:'' @ show_nat (unat (client_port u)) @ endl)"
  let ?v = "says u [l]"
  have v: "0 \<le> client_fd ?v" using assms(2) by simp
  have talk: "talk os u = oseq (terminating (receive os)) (\<lambda>response.
      oseq (terminating (cout (response @ endl))) (\<lambda>_. oseq (session_loop os) (\<lambda>_. terminating close))) ?v"
    by (simp add: talk_def oseq_def terminating_def getHost_def getPort_def seq_def cout_def emit_def l_def)
  note rcv = receive_result [OF assms(1) v]
  have stop: ?thesis if eq: "talk os u = Some (Thrown e (exchanged 1 (client_fd u) [] gs (says u [l])))" for e gs
    unfolding Let_def
    by (intro exI [of _ 1] exI [of _ "[]"] exI [of _ gs] exI [of _ "[l]"] exI [of _ "input u"]) (simp add: eq)
  show ?thesis
  proof (cases "recv_ans os (calls ?v) 1024")
    case None
    then show ?thesis by (intro stop [of "''recv failed''" "[]"]) (simp add: talk oseq_def terminating_def rcv)
  next
    case (Some d)
    show ?thesis
    proof (cases "d = ''''")
      case True
      with Some show ?thesis by (intro stop [of "''connection closed''" "['''']"]) (simp add: talk oseq_def terminating_def rcv)
    next
      case False
      let ?w = "exchanged 1 (client_fd u) [] [d] (says u [l, Cout (d @ endl)])"
      have eq: "talk os u = oseq (session_loop os) (\<lambda>_. terminating close) ?w"
        using Some False by (simp add: talk oseq_def terminating_def rcv cout_def emit_def)
      obtain k cs gs ls inp where IH: "let t = exchanged k (client_fd u) cs gs (says (?w\<lparr>input := inp\<rparr>) ls) in
          session_loop os ?w = Some (Done () t) \<and> inp = '''' \<and> concat cs = typed_lines (input u)
            \<and> ls \<noteq> [] \<and> last ls = Cout (''get line failed'' @ endl)
          \<or> (\<exists>e. session_loop os ?w = Some (Thrown e t)) \<and> prefix (concat cs) (typed_lines (input u))"
        using session_loop_result [OF assms(1), of ?w] assms(2) by auto
      have w: "exchanged k (client_fd u) cs gs (says (?w\<lparr>input := inp\<rparr>) ls)
          = exchanged (1 + k) (client_fd u) cs (d # gs) (says (u\<lparr>input := inp\<rparr>) ([l, Cout (d @ endl)] @ ls))"
        by (simp add: exchanged_def says_def)
      have "last ([l, Cout (d @ endl)] @ ls) = last ls" if "ls \<noteq> []" using that by simp
      moreover have "session_loop os ?w = Some (Done () t) \<Longrightarrow> talk os u = Some (close t)"
        "session_loop os ?w = Some (Thrown e t) \<Longrightarrow> talk os u = Some (Thrown e t)" for t e
        by (simp_all add: eq oseq_def terminating_def)
      ultimately show ?thesis using IH unfolding Let_def w by (metis append_is_Nil_conv)
    qed
  qed
qed

text \<open>The session after the connection was made.\<close>

lemma client_run_connected:
  assumes "posix os" "fd = socket_ans os (calls s) (fds s)"
    and 4: "0 \<le> fd" "0 < pton_ans os ''127.0.0.1''" "connect_ans os (Suc (calls s)) = 0"
  shows "\<exists>t cs. client_run os s = Some (Done () t) \<and> bad_close t = bad_close s
    \<and> sent t = sent s @ map (Pair fd) cs \<and> prefix (concat cs) (typed_lines (input s))
    \<and> (if fd < 0 then fds t = fds s \<and> cs = []
       else if last (out t) = Cout (''get line failed'' @ endl)
       then fds t = fds s \<and> concat cs = typed_lines (input s) \<and> input t = ''''
       else fds t = fd # fds s)"
proof -
  note run = client_run_def otry_def oseq_def terminating_def new_TCPClient_def connect_def sys_socket_def
    set_fd_def getHost_def seq_def ret_def throw_def cout_def emit_def sys_def opens_def assms(2) [symmetric]
  let ?u = "exchanged 1 fd [] [] (opened fd s)"
  have conn: "oseq (terminating (new_TCPClient ''127.0.0.1'' 8080)) (\<lambda>_. oseq (terminating (connect os)) f) s = f True ?u" for f :: "bool \<Rightarrow> (cli, unit) oprog"
    using 4 by (simp add: run exchanged_def opened_def)
  have eq: "client_run os s = otry (talk os) (\<lambda>e. terminating (cout (''error: '' @ e @ endl))) ?u"
    by (simp only: client_run_def otry_def conn not_True_eq_False if_False talk_def [symmetric])
  have u: "0 \<le> client_fd ?u" "client_fd ?u = fd" "input ?u = input s" using 4(1) by simp_all
  obtain k cs gs ls inp where tk: "let t = exchanged k fd cs gs (says (?u\<lparr>input := inp\<rparr>) ls) in
      talk os ?u = Some (close t) \<and> inp = '''' \<and> concat cs = typed_lines (input s)
        \<and> ls \<noteq> [] \<and> last ls = Cout (''get line failed'' @ endl)
      \<or> (\<exists>e. talk os ?u = Some (Thrown e t)) \<and> prefix (concat cs) (typed_lines (input s))"
    using talk_result [OF assms(1) u(1)] unfolding u(2,3) by blast
  let ?t = "exchanged k fd cs gs (says (?u\<lparr>input := inp\<rparr>) ls)"
  have t: "client_fd ?t = fd" "fds ?t = fd # fds s" "bad_close ?t = bad_close s" "sent ?t = sent s @ map (Pair fd) cs"
    "input ?t = inp" "out ?t = out (opened fd s) @ ls"
    using 4(1) by (simp_all add: exchanged_def says_def opened_def opens_def)
  from tk [unfolded Let_def] show ?thesis
  proof (elim disjE conjE exE)
    assume "talk os ?u = Some (close ?t)" and *: "inp = ''''" "concat cs = typed_lines (input s)" "ls \<noteq> []"
      "last ls = Cout (''get line failed'' @ endl)"
    moreover have "close ?t = Done () (?t\<lparr>calls := Suc (calls ?t), fds := fds s, client_fd := -1\<rparr>)"
      using 4(1) t(1,2) by (simp add: close_def get_fd_def set_fd_def seq_def sys_close_def del: exchanged_simps)
    ultimately have "client_run os s = Some (Done () (?t\<lparr>calls := Suc (calls ?t), fds := fds s, client_fd := -1\<rparr>))"
      by (simp add: eq otry_def)
    then show ?thesis
      by (intro exI [of _ "?t\<lparr>calls := Suc (calls ?t), fds := fds s, client_fd := -1\<rparr>"] exI [of _ cs])
        (use * 4(1) t in \<open>simp del: exchanged_simps\<close>)
  next
    fix e
    assume "talk os ?u = Some (Thrown e ?t)" and *: "prefix (concat cs) (typed_lines (input s))"
    then have "client_run os s = Some (Done () (says ?t [Cout (''error: '' @ e @ endl)]))"
      by (simp add: eq otry_def terminating_def cout_def emit_def)
    then show ?thesis
      by (intro exI [of _ "says ?t [Cout (''error: '' @ e @ endl)]"] exI [of _ cs])
        (use * 4(1) t in \<open>simp del: exchanged_simps\<close>)
  qed
qed

text \<open>
  C40.  The session returns for every input and every system.  Without a socket nothing is sent.  If
  the end of the input is reached, every line typed was sent, in order and with its newline, and
  the descriptor is closed.  In every other case (the address or the connection is refused, a
  call fails, the server closes) the descriptor is left open.
\<close>

theorem client_run_outcome:
  assumes "posix os" "fd = socket_ans os (calls s) (fds s)"
  shows "\<exists>t cs. client_run os s = Some (Done () t) \<and> bad_close t = bad_close s
    \<and> sent t = sent s @ map (Pair fd) cs \<and> prefix (concat cs) (typed_lines (input s))
    \<and> (if fd < 0 then fds t = fds s \<and> cs = []
       else if last (out t) = Cout (''get line failed'' @ endl)
       then fds t = fds s \<and> concat cs = typed_lines (input s) \<and> input t = ''''
       else fds t = fd # fds s)"
proof -
  note run = client_run_def otry_def oseq_def terminating_def new_TCPClient_def connect_def sys_socket_def
    set_fd_def getHost_def seq_def ret_def throw_def cout_def emit_def sys_def opens_def assms(2) [symmetric]
  consider "fd < 0" | "0 \<le> fd" "pton_ans os ''127.0.0.1'' \<le> 0"
    | "0 \<le> fd" "0 < pton_ans os ''127.0.0.1''" "connect_ans os (Suc (calls s)) \<noteq> 0"
    | "0 \<le> fd" "0 < pton_ans os ''127.0.0.1''" "connect_ans os (Suc (calls s)) = 0"
    by linarith
  then show ?thesis
  proof cases
    case 1
    then show ?thesis by (subst ex_comm, intro exI [of _ "[]"]) (simp add: run)
  next
    case 2
    then show ?thesis by (subst ex_comm, intro exI [of _ "[]"]) (simp add: run)
  next
    case 3
    then show ?thesis by (subst ex_comm, intro exI [of _ "[]"]) (simp add: run)
  next
    case 4
    then show ?thesis by (rule client_run_connected [OF assms])
  qed
qed

definition demo_cli :: cli where
  "demo_cli = \<lparr>cells = (\<lambda>_. None), brk = 0, out = [], calls = 0, fds = [0, 1, 2], sent = [], got = [],
     bad_close = [], host = '''', client_port = 0, client_fd = -1, input = ''hello'' @ endl @ ''Q''\<rparr>"

theorem client_run_outcome_witness:
  "\<exists>t cs. client_run (demo_os (\<lambda>k. Some ''ok'')) demo_cli = Some (Done () t) \<and> bad_close t = []
    \<and> sent t = map (Pair 3) cs \<and> prefix (concat cs) (''hello'' @ endl @ ''Q'' @ endl)
    \<and> (if last (out t) = Cout (''get line failed'' @ endl)
       then fds t = [0, 1, 2] \<and> concat cs = ''hello'' @ endl @ ''Q'' @ endl \<and> input t = ''''
       else fds t = [3, 0, 1, 2])"
proof -
  have "typed_lines (''hello'' @ endl @ ''Q'') = ''hello'' @ endl @ ''Q'' @ endl"
    by (simp add: typed_lines_def lines_of.simps endl_def)
  moreover have "3 = socket_ans (demo_os (\<lambda>k. Some ''ok'')) (calls demo_cli) (fds demo_cli)"
    by (simp add: demo_os_def demo_cli_def lowest_free_def)
  ultimately show ?thesis
    using client_run_outcome [OF posix_demo_os, of 3 "\<lambda>k. Some ''ok''" demo_cli]
    by (simp add: demo_cli_def cong: if_cong)
qed

end
