(* ===== verification/MultiTcpServer.thy ===== *)
theory MultiTcpServer
  imports TcpServer
begin

text \<open>
  \<open>src/socket/multiple_client\<close>: the server with one thread per client.  Its accept loop, the client
  threads and a call of \<open>stop\<close> from outside interleave; the model is a step relation between states.

  A step of a thread is one turn of \<open>handleClient\<close> (the greeting, one round of its loop, the closing of
  the connection), as defined for the sequential server; turns of different threads touch different
  connections, so only console output is interleaved more coarsely than in the program.

  Lemmas: an invariant of all reachable states, by induction on the steps: every thread that is not
  finished owns an open descriptor of its own, its client was sent the greeting and exactly what
  the client had sent, and no descriptor is ever closed twice.
\<close>

section \<open>Threads\<close>

datatype phase = Fresh | Serving | Leaving | Failed string | Finished

text \<open>The last two fields are not in the program: how long the logs of the process were at the
  start of the thread, for the statements about what it has sent and received.\<close>

record thread =
  conn :: int
  phase :: phase
  sent_before :: nat
  got_before :: nat

datatype main_phase = Testing | Accepting | Joining | Returned

record mtsrv = srv +
  client_threads :: "thread list"
  main :: main_phase

lemma mtsrv_says [simp]:
  "client_threads (says s ls) = client_threads s" "main (says s ls) = main s"
  by (simp_all add: says_def)

text \<open>The next turn of a thread: the lambda given to \<open>emplace_back\<close>.\<close>

definition thread_turn :: "os \<Rightarrow> int \<Rightarrow> phase \<Rightarrow> (mtsrv, phase) prog" where
  "thread_turn os fd ph = (case ph of
      Fresh \<Rightarrow> try_catch (seq getPort (\<lambda>p. seq (sendAll os fd (greeting p)) (\<lambda>_. ret Serving))) (\<lambda>e. ret (Failed e))
    | Serving \<Rightarrow> try_catch (seq (client_turn os fd) (\<lambda>b. ret (if b then Serving else Leaving))) (\<lambda>e. ret (Failed e))
    | Leaving \<Rightarrow> seq (sys_close fd) (\<lambda>_. ret Finished)
    | Failed e \<Rightarrow> seq (cerr (''[MultiTCPServer] client error: '' @ e @ endl)) (\<lambda>_. seq (sys_close fd) (\<lambda>_. ret Finished))
    | Finished \<Rightarrow> ret Finished)"

text \<open>The result of \<open>accept\<close> in the loop of \<open>acceptLoop\<close>.\<close>

definition accepted :: "int \<times> string \<Rightarrow> (mtsrv, main_phase) prog" where
  "accepted a = (if fst a < 0
     then seq isRunning (\<lambda>b. if \<not> b then ret Joining
       else seq (cerr (''[MultiTCPServer] accept failed'' @ endl)) (\<lambda>_. ret Testing))
     else seq (cout (''[MultiTCPServer] client '' @ snd a @ '' connected'' @ endl)) (\<lambda>_ s.
       Done Testing (s\<lparr>client_threads := client_threads s
         @ [\<lparr>conn = fst a, phase = Fresh, sent_before = length (sent s), got_before = length (got s)\<rparr>]\<rparr>)))"

text \<open>The steps: the main thread tests \<open>running_\<close>, accepts, and joins the client threads at the end; any
  client thread takes a turn; another thread calls \<open>stop\<close>.\<close>

inductive mstep :: "os \<Rightarrow> mtsrv \<Rightarrow> mtsrv \<Rightarrow> bool" for os where
  test: "main s = Testing \<Longrightarrow> mstep os s (s\<lparr>main := if running s then Accepting else Joining\<rparr>)"
| accept: "main s = Accepting \<Longrightarrow> seq (sys_accept os) accepted s = Done m t \<Longrightarrow> mstep os s (t\<lparr>main := m\<rparr>)"
| turn: "i < length (client_threads s) \<Longrightarrow> th = client_threads s ! i \<Longrightarrow> phase th \<noteq> Finished \<Longrightarrow>
    thread_turn os (conn th) (phase th) s = Done ph t \<Longrightarrow>
    mstep os s (t\<lparr>client_threads := (client_threads s)[i := th\<lparr>phase := ph\<rparr>]\<rparr>)"
| stopped: "stop s = Done () t \<Longrightarrow> mstep os s t"
| join: "main s = Joining \<Longrightarrow> \<forall>th \<in> set (client_threads s). phase th = Finished \<Longrightarrow> mstep os s (s\<lparr>main := Returned\<rparr>)"

inductive_cases mstepE: "mstep os s t"

inductive reachable :: "os \<Rightarrow> mtsrv \<Rightarrow> mtsrv \<Rightarrow> bool" for os s where
  begins: "reachable os s s"
| steps: "reachable os s t \<Longrightarrow> mstep os t u \<Longrightarrow> reachable os s u"

text \<open>
  \<open>MultiTCPServer::run\<close>; the accept loop, given as an argument to the common \<open>start\<close>, is the main
  thread of the step relation.
\<close>

definition multi_run :: "os \<Rightarrow> (mtsrv, unit) oprog \<Rightarrow> (mtsrv, unit) oprog" where
  "multi_run os accept_loop =
     oseq (terminating (setPort 8080)) (\<lambda>_.
     otry (start os accept_loop) (\<lambda>e. terminating (block [cerr (e @ endl), stop])))"

section \<open>The invariant\<close>

definition live :: "mtsrv \<Rightarrow> thread list" where
  "live s = filter (\<lambda>th. phase th \<noteq> Finished) (client_threads s)"

text \<open>The data for \<open>fd\<close> in a log from position \<open>n\<close> on.\<close>

definition since :: "nat \<Rightarrow> int \<Rightarrow> (int \<times> string) list \<Rightarrow> string" where
  "since n fd log = concat (map snd (filter (\<lambda>x. fst x = fd) (drop n log)))"

text \<open>What a thread has sent (\<open>S\<close>) and received (\<open>G\<close>) when it is at a phase.\<close>

definition progress :: "16 word \<Rightarrow> phase \<Rightarrow> string \<Rightarrow> string \<Rightarrow> bool" where
  "progress p ph S G = (case ph of
      Fresh \<Rightarrow> S = '''' \<and> G = ''''
    | Serving \<Rightarrow> S = greeting p @ G
    | Leaving \<Rightarrow> S = greeting p @ G
    | Failed e \<Rightarrow> prefix S (greeting p @ G)
    | Finished \<Rightarrow> True)"

definition served :: "16 word \<Rightarrow> (int \<times> string) list \<Rightarrow> (int \<times> string) list \<Rightarrow> thread \<Rightarrow> bool" where
  "served p sent_log got_log th \<longleftrightarrow> sent_before th \<le> length sent_log \<and> got_before th \<le> length got_log
     \<and> progress p (phase th) (since (sent_before th) (conn th) sent_log) (since (got_before th) (conn th) got_log)"

definition listening :: "'z srv_scheme \<Rightarrow> int set" where
  "listening s = (if running s then {server_fd s} else {})"

definition multi_inv :: "int set \<Rightarrow> int list \<Rightarrow> 16 word \<Rightarrow> mtsrv \<Rightarrow> bool" where
  "multi_inv base bad p s \<longleftrightarrow> distinct (fds s) \<and> distinct (map conn (live s))
     \<and> conn ` set (live s) \<inter> (base \<union> listening s) = {} \<and> base \<inter> listening s = {}
     \<and> set (fds s) = base \<union> listening s \<union> conn ` set (live s)
     \<and> bad_close s = bad \<and> port s = p
     \<and> (\<forall>th \<in> set (live s). served p (sent s) (got s) th)
     \<and> (main s = Joining \<or> main s = Returned \<longrightarrow> \<not> running s)
     \<and> (main s = Returned \<longrightarrow> live s = [])"

lemma since_more:
  "n \<le> length log \<Longrightarrow> since n fd (log @ map (Pair fd') cs) = since n fd log @ (if fd = fd' then concat cs else '''')"
  by (simp add: since_def filter_map comp_def)

lemma since_length [simp]: "since (length log) fd log = ''''"
  by (simp add: since_def)

lemma served_other:
  "served p S G th \<Longrightarrow> conn th \<noteq> fd \<Longrightarrow> served p (S @ map (Pair fd) cs) (G @ map (Pair fd) gs) th"
  by (simp add: served_def since_more)

text \<open>A turn of the thread at position \<open>i\<close> changes one entry of the live threads.\<close>

lemma live_turn:
  assumes "i < length ts" "phase (ts ! i) \<noteq> Finished"
  obtains A B where "filter (\<lambda>th. phase th \<noteq> Finished) ts = A @ ts ! i # B"
    "\<And>ph. filter (\<lambda>th. phase th \<noteq> Finished) (ts[i := (ts ! i)\<lparr>phase := ph\<rparr>])
       = A @ (if ph = Finished then [] else [(ts ! i)\<lparr>phase := ph\<rparr>]) @ B"
proof -
  have ts: "ts = take i ts @ ts ! i # drop (Suc i) ts" using assms(1) by (rule id_take_nth_drop)
  have upd: "ts[i := x] = take i ts @ x # drop (Suc i) ts" for x using assms(1) by (rule upd_conv_take_nth_drop)
  show thesis
    by (rule that [of "filter (\<lambda>th. phase th \<noteq> Finished) (take i ts)" "filter (\<lambda>th. phase th \<noteq> Finished) (drop (Suc i) ts)"])
      (use assms(2) in \<open>subst (1) ts, simp\<close>, simp add: upd)
qed

lemma turn_talks:
  assumes "posix os" "thread_turn os fd ph s = Done ph' t" "ph = Fresh \<or> ph = Serving"
  obtains k cs gs ls where "t = exchanged k fd cs gs (says s ls)" "ph' \<noteq> Finished"
    "\<And>S G. progress (port s) ph S G \<Longrightarrow> progress (port s) ph' (S @ concat cs) (G @ concat gs)"
  using assms(3)
proof
  assume ph: "ph = Fresh"
  obtain k cs where "sendAll os fd (greeting (port s)) s = Done () (exchanged k fd cs [] s) \<and> concat cs = greeting (port s)
      \<or> sendAll os fd (greeting (port s)) s = Thrown ''send failed'' (exchanged k fd cs [] s)
         \<and> strict_prefix (concat cs) (greeting (port s))"
    using sendAll_result [OF assms(1)] by blast
  then have "t = exchanged k fd cs [] (says s []) \<and> (ph' = Serving \<and> concat cs = greeting (port s)
      \<or> ph' = Failed ''send failed'' \<and> prefix (concat cs) (greeting (port s)))"
    using assms(2) ph by (auto simp: thread_turn_def getPort_def machine)
  then show thesis using ph by (intro that [of k cs "[]" "[]"]) (auto simp: progress_def)
next
  assume ph: "ph = Serving"
  from client_turn_echoed(1) [OF assms(1)] show thesis
  proof (cases rule: echoedE [where s = s and fd = fd])
    case (1 k cs gs ls b)
    then have t: "t = exchanged k fd cs gs (says s ls)" and ph': "ph' = (if b then Serving else Leaving)"
      using assms(2) ph by (simp_all add: thread_turn_def machine)
    from t show thesis by (rule that) (use ph ph' 1(2) in \<open>auto simp: progress_def\<close>)
  next
    case (2 k cs gs ls e)
    then have t: "t = exchanged k fd cs gs (says s ls)" and ph': "ph' = Failed e"
      using assms(2) ph by (simp_all add: thread_turn_def machine)
    from t show thesis by (rule that) (use ph ph' 2(2) in \<open>auto simp: progress_def\<close>)
  qed
qed

lemma turn_closes:
  assumes "thread_turn os fd ph s = Done ph' t" "ph = Leaving \<or> (\<exists>e. ph = Failed e)"
  obtains ls where "sys_close fd (says s ls) = Done () t" "ph' = Finished"
  using assms(2)
proof (elim disjE exE)
  assume "ph = Leaving"
  then have "sys_close fd (says s []) = Done () t" "ph' = Finished"
    using assms(1) by (auto simp: thread_turn_def seq_def ret_def split: result.splits)
  then show thesis by (rule that)
next
  fix e assume "ph = Failed e"
  then have "sys_close fd (says s [Cerr (''[MultiTCPServer] client error: '' @ e @ endl)]) = Done () t" "ph' = Finished"
    using assms(1) by (auto simp: thread_turn_def seq_def ret_def cerr_def emit_def split: result.splits)
  then show thesis by (rule that)
qed

section \<open>Every step keeps the invariant\<close>

lemma inv_accept_failed:
  assumes "multi_inv base bad p s" "m = Testing \<or> \<not> running s \<and> m = Joining" "main s = Accepting"
  shows "multi_inv base bad p ((says s ls)\<lparr>calls := c, main := m\<rparr>)"
  using assms by (auto simp: multi_inv_def live_def listening_def says_def)

lemma inv_spawn:
  assumes "multi_inv base bad p s" "fd \<notin> set (fds s)" "main s = Accepting"
  defines "th \<equiv> \<lparr>conn = fd, phase = Fresh, sent_before = length (sent s), got_before = length (got s)\<rparr>"
  shows "multi_inv base bad p ((says s ls)\<lparr>calls := c, fds := fd # fds s, client_threads := client_threads s @ [th], main := Testing\<rparr>)"
    (is "multi_inv base bad p ?t")
proof -
  have live: "live ?t = live s @ [th]" by (simp add: live_def th_def says_def)
  have "served p (sent s) (got s) th" by (simp add: served_def progress_def th_def)
  moreover have "conn th = fd" by (simp add: th_def)
  moreover have "sent ?t = sent s" "got ?t = got s" "bad_close ?t = bad_close s" "port ?t = port s"
    "fds ?t = fd # fds s" "main ?t = Testing" "listening ?t = listening s"
    by (simp_all add: says_def listening_def)
  ultimately show ?thesis using assms(1,2) unfolding multi_inv_def live by auto
qed

lemma inv_accept:
  assumes "posix os" "multi_inv base bad p s" "main s = Accepting" "seq (sys_accept os) accepted s = Done m t"
  shows "multi_inv base bad p (t\<lparr>main := m\<rparr>)"
proof -
  obtain fd addr where a: "accept_ans os (calls s) (fds s) = (fd, addr)" by fastforce
  have run: "accepted (fd, addr) (opens fd s) = Done m t"
    using assms(4) by (simp add: seq_def sys_accept_def a)
  show ?thesis
  proof (cases "fd < 0")
    case True
    let ?ls = "if running s then [Cerr (''[MultiTCPServer] accept failed'' @ endl)] else []"
    have "t\<lparr>main := m\<rparr> = (says s ?ls)\<lparr>calls := Suc (calls s), main := m\<rparr>"
      "m = Testing \<or> \<not> running s \<and> m = Joining"
      using run True
      by (auto simp: accepted_def isRunning_def seq_def ret_def cerr_def emit_def opens_def says_def split: if_splits)
    then show ?thesis using inv_accept_failed [OF assms(2) _ assms(3)] by simp
  next
    case False
    have "0 \<le> fst (accept_ans os (calls s) (fds s)) \<longrightarrow> fst (accept_ans os (calls s) (fds s)) \<notin> set (fds s)"
      using assms(1) unfolding posix_def by blast
    then have new: "fd \<notin> set (fds s)" using False by (simp add: a)
    have "t\<lparr>main := m\<rparr> = (says s [Cout (''[MultiTCPServer] client '' @ addr @ '' connected'' @ endl)])
       \<lparr>calls := Suc (calls s), fds := fd # fds s, client_threads := client_threads s
          @ [\<lparr>conn = fd, phase = Fresh, sent_before = length (sent s), got_before = length (got s)\<rparr>], main := Testing\<rparr>"
      using run False by (auto simp: accepted_def seq_def cout_def emit_def opens_def says_def)
    then show ?thesis using inv_spawn [OF assms(2) new assms(3)] by simp
  qed
qed

lemma inv_stop:
  assumes "multi_inv base bad p s" "stop s = Done () t"
  shows "multi_inv base bad p t"
proof (cases "running s")
  case True
  then have "listening s = {server_fd s}" "server_fd s \<in> set (fds s)"
    using assms(1) by (auto simp: multi_inv_def listening_def)
  moreover have "t = s\<lparr>calls := Suc (calls s), fds := remove1 (server_fd s) (fds s), running := False\<rparr>"
    using assms(2) True calculation by (simp add: stop_def seq_def sys_close_def)
  ultimately show ?thesis
    using assms(1) by (auto simp: multi_inv_def live_def listening_def set_remove1_eq)
qed (use assms in \<open>simp add: stop_def\<close>)

lemma inv_turn:
  assumes "posix os" "multi_inv base bad p s" "i < length (client_threads s)" "th = client_threads s ! i"
    "phase th \<noteq> Finished" "thread_turn os (conn th) (phase th) s = Done ph t"
  shows "multi_inv base bad p (t\<lparr>client_threads := (client_threads s)[i := th\<lparr>phase := ph\<rparr>]\<rparr>)"
    (is "multi_inv base bad p ?u")
proof -
  note inv = assms(2) [unfolded multi_inv_def]
  obtain A B where AB: "live s = A @ th # B"
    "\<And>ph. filter (\<lambda>th. phase th \<noteq> Finished) ((client_threads s)[i := th\<lparr>phase := ph\<rparr>])
       = A @ (if ph = Finished then [] else [th\<lparr>phase := ph\<rparr>]) @ B"
    using live_turn [of i "client_threads s"] assms(3-5) unfolding live_def by metis
  have live: "live ?u = A @ (if ph = Finished then [] else [th\<lparr>phase := ph\<rparr>]) @ B"
    using AB(2) [of ph] by (simp add: live_def)
  have open_: "conn th \<in> set (fds s)" and others: "conn th \<notin> conn ` set (A @ B)" and sv: "served p (sent s) (got s) th"
    using inv by (auto simp: AB(1))
  have port: "port s = p" using inv by simp
  consider "phase th = Fresh \<or> phase th = Serving" | "phase th = Leaving \<or> (\<exists>e. phase th = Failed e)"
    using assms(5) by (cases "phase th") auto
  then show ?thesis
  proof cases
    case 1
    obtain k cs gs ls where t: "t = exchanged k (conn th) cs gs (says s ls)" "ph \<noteq> Finished"
      "\<And>S G. progress p (phase th) S G \<Longrightarrow> progress p ph (S @ concat cs) (G @ concat gs)"
      using turn_talks [OF assms(1,6) 1] port by metis
    have u: "fds ?u = fds s" "bad_close ?u = bad_close s" "port ?u = port s" "main ?u = main s"
      "running ?u = running s" "server_fd ?u = server_fd s"
      "sent ?u = sent s @ map (Pair (conn th)) cs" "got ?u = got s @ map (Pair (conn th)) gs"
      by (simp_all add: t(1) exchanged_def says_def)
    have "served p (sent ?u) (got ?u) (th\<lparr>phase := ph\<rparr>)"
      using sv t(3) by (simp add: served_def u since_more)
    moreover have "served p (sent ?u) (got ?u) x" if "x \<in> set (A @ B)" for x
    proof -
      have "served p (sent s) (got s) x" using inv that by (auto simp: AB(1))
      moreover have "conn x \<noteq> conn th" using others that by (metis imageI)
      ultimately show ?thesis unfolding u by (rule served_other)
    qed
    moreover have "map conn (live ?u) = map conn (live s)" using t(2) by (simp add: live AB(1))
    ultimately show ?thesis
      using inv t(2) unfolding multi_inv_def listening_def u
      by (auto simp: live AB(1))
  next
    case 2
    obtain ls where t: "sys_close (conn th) (says s ls) = Done () t" "ph = Finished"
      using turn_closes [OF assms(6) 2] by blast
    have u: "fds ?u = remove1 (conn th) (fds s)" "bad_close ?u = bad_close s" "port ?u = port s" "main ?u = main s"
      "running ?u = running s" "server_fd ?u = server_fd s" "sent ?u = sent s" "got ?u = got s"
      using t(1) open_ by (auto simp: sys_close_def says_def)
    show ?thesis
      using inv t(2) others unfolding multi_inv_def listening_def u live
      by (auto simp: AB(1) set_remove1_eq)
  qed
qed

lemma step_inv:
  assumes "mstep os s t" "posix os" "multi_inv base bad p s"
  shows "multi_inv base bad p t"
  using assms(1)
proof (rule mstepE)
  assume "t = s\<lparr>main := if running s then Accepting else Joining\<rparr>" "main s = Testing"
  with assms(3) show ?thesis by (auto simp: multi_inv_def live_def listening_def)
next
  fix m u assume "t = u\<lparr>main := m\<rparr>" "main s = Accepting" "seq (sys_accept os) accepted s = Done m u"
  with inv_accept assms(2,3) show ?thesis by blast
next
  fix i ph u
  assume "t = u\<lparr>client_threads := (client_threads s)[i := (client_threads s ! i)\<lparr>phase := ph\<rparr>]\<rparr>"
    "i < length (client_threads s)" "phase (client_threads s ! i) \<noteq> Finished"
    "thread_turn os (conn (client_threads s ! i)) (phase (client_threads s ! i)) s = Done ph u"
  with inv_turn [OF assms(2,3)] show ?thesis by blast
next
  assume "stop s = Done () t"
  with inv_stop assms(3) show ?thesis by blast
next
  assume *: "t = s\<lparr>main := Returned\<rparr>" "main s = Joining" "\<forall>th \<in> set (client_threads s). phase th = Finished"
  then have "live s = []" by (simp add: live_def filter_empty_conv)
  with * assms(3) show ?thesis by (auto simp: multi_inv_def live_def listening_def)
qed

lemma reachable_inv: "reachable os s t \<Longrightarrow> posix os \<Longrightarrow> multi_inv base bad p s \<Longrightarrow> multi_inv base bad p t"
  by (induction rule: reachable.induct) (auto intro: step_inv)

text \<open>The state in which the accept loop begins.\<close>

definition loop_begins :: "os \<Rightarrow> mtsrv \<Rightarrow> mtsrv \<Rightarrow> bool" where
  "loop_begins os s t \<longleftrightarrow> \<not> running s \<and> client_threads s = [] \<and> main s = Testing \<and> distinct (fds s)
     \<and> start os (terminating (ret ())) s = Some (Done () t)"

lemma loop_begins_inv:
  assumes "posix os" "loop_begins os s t"
  shows "multi_inv (set (fds s)) (bad_close s) (port s) t"
proof -
  let ?fd = "socket_ans os (calls s) (fds s)"
  have new: "0 \<le> ?fd \<longrightarrow> ?fd \<notin> set (fds s)" using assms(1) unfolding posix_def by blast
  have "setup_succeeds os s"
  proof (rule ccontr)
    assume "\<not> setup_succeeds os s"
    then have "\<exists>e t. start os (terminating (ret ())) s = Some (Thrown e t)"
      using start_result(2) [OF assms(1), of s "terminating (ret ())"] assms(2) unfolding loop_begins_def by blast
    with assms(2) show False by (auto simp: loop_begins_def)
  qed
  then have fd: "0 \<le> ?fd" by (simp add: setup_succeeds_def Let_def)
  have "fds t = ?fd # fds s \<and> server_fd t = ?fd \<and> running t \<and> port t = port s \<and> bad_close t = bad_close s
      \<and> client_threads t = [] \<and> main t = Testing"
    using assms(2) fd
    by (auto simp: loop_begins_def start_def createSocket_def bindSocket_def listenSocket_def setServerFD_def getPort_def
      start_running_def oseq_def terminating_def seq_def ret_def throw_def cout_def emit_def says_def
      sys_socket_def sys_def opens_def Let_def split: if_splits)
  then show ?thesis using new fd assms(2) by (auto simp: multi_inv_def live_def listening_def loop_begins_def)
qed

section \<open>Properties\<close>

text \<open>
  C1.  Whatever the clients do and however the threads, the accept loop and calls of \<open>stop\<close> interleave:
  the threads that are still serving have open descriptors, no two the same and none of
  them the listening one; every client has been sent the greeting and then exactly the bytes it
  sent itself, never those of another client (or a prefix of that, if its connection failed); and no
  descriptor is closed twice.
\<close>

theorem multi_server_isolates_clients:
  assumes "posix os" "loop_begins os s t" "reachable os t u"
  shows "distinct (map conn (live u)) \<and> conn ` set (live u) \<subseteq> set (fds u)
    \<and> (running u \<longrightarrow> server_fd u \<notin> conn ` set (live u)) \<and> bad_close u = bad_close s
    \<and> (\<forall>th \<in> set (live u). progress (port s) (phase th) (since (sent_before th) (conn th) (sent u))
         (since (got_before th) (conn th) (got u)))"
proof -
  have "multi_inv (set (fds s)) (bad_close s) (port s) u"
    by (rule reachable_inv [OF assms(3,1)]) (rule loop_begins_inv [OF assms(1,2)])
  then show ?thesis by (auto simp: multi_inv_def listening_def served_def)
qed

text \<open>
  When the accept loop has returned, which it only does after \<open>stop\<close>, all threads have ended and
  the open descriptors are exactly those from before the start: neither a connection nor the
  listening socket is left open.
\<close>

theorem multi_server_shutdown:
  assumes "posix os" "loop_begins os s t" "reachable os t u" "main u = Returned"
  shows "set (fds u) = set (fds s) \<and> distinct (fds u) \<and> \<not> running u \<and> (\<forall>th \<in> set (client_threads u). phase th = Finished)"
proof -
  have "multi_inv (set (fds s)) (bad_close s) (port s) u"
    by (rule reachable_inv [OF assms(3,1)]) (rule loop_begins_inv [OF assms(1,2)])
  then show ?thesis using assms(4) by (auto simp: multi_inv_def listening_def live_def filter_empty_conv)
qed

section \<open>Witnesses\<close>

definition demo_mtsrv :: mtsrv where
  "demo_mtsrv = \<lparr>cells = (\<lambda>_. None), brk = 0, out = [], calls = 0, fds = [0, 1, 2], sent = [], got = [], bad_close = [],
     port = 8080, server_fd = -1, running = False, client_threads = [], main = Testing\<rparr>"

definition demo_started :: mtsrv where
  "demo_started = (case start (demo_os (\<lambda>_. None)) (terminating (ret ())) demo_mtsrv of
     Some (Done _ t) \<Rightarrow> t | _ \<Rightarrow> demo_mtsrv)"

lemma demo_loop_begins: "loop_begins (demo_os (\<lambda>_. None)) demo_mtsrv demo_started"
  by (simp add: loop_begins_def demo_started_def demo_mtsrv_def demo_os_def start_def createSocket_def bindSocket_def
      listenSocket_def setServerFD_def getPort_def start_running_def machine lowest_free_def)

lemma demo_started_running: "running demo_started" "main demo_started = Testing" "client_threads demo_started = []"
  by (simp_all add: demo_started_def demo_mtsrv_def demo_os_def start_def createSocket_def bindSocket_def
      listenSocket_def setServerFD_def getPort_def start_running_def machine lowest_free_def)

text \<open>A state in which a client was accepted, and one in which the server was stopped and has returned.\<close>

definition demo_accepted :: mtsrv where
  "demo_accepted = (case seq (sys_accept (demo_os (\<lambda>_. None))) accepted (demo_started\<lparr>main := Accepting\<rparr>) of
     Done m t \<Rightarrow> t\<lparr>main := m\<rparr> | _ \<Rightarrow> demo_started)"

definition demo_stopped :: mtsrv where
  "demo_stopped = (case stop demo_started of Done _ t \<Rightarrow> t | _ \<Rightarrow> demo_started)"

lemma demo_accepted_reachable:
  "reachable (demo_os (\<lambda>_. None)) demo_started demo_accepted \<and> map phase (live demo_accepted) = [Fresh]"
proof -
  let ?os = "demo_os (\<lambda>_. None)" and ?s = "demo_started\<lparr>main := Accepting\<rparr>"
  have "mstep ?os demo_started ?s" using mstep.test [of demo_started ?os] by (simp add: demo_started_running)
  moreover have acc: "\<exists>m t. seq (sys_accept ?os) accepted ?s = Done m t \<and> client_threads t =
      [\<lparr>conn = max 3 (lowest_free (fds demo_started)), phase = Fresh, sent_before = length (sent demo_started),
        got_before = length (got demo_started)\<rparr>]"
    by (simp add: seq_def sys_accept_def accepted_def demo_os_def cout_def emit_def opens_def demo_started_running)
  then have "mstep ?os ?s demo_accepted" using mstep.accept [of ?s ?os] by (auto simp: demo_accepted_def)
  ultimately have "reachable ?os demo_started demo_accepted" by (blast intro: reachable.intros)
  moreover have "map phase (live demo_accepted) = [Fresh]" using acc by (auto simp: demo_accepted_def live_def)
  ultimately show ?thesis by simp
qed

lemma demo_stopped_reachable: "reachable (demo_os (\<lambda>_. None)) demo_started (demo_stopped\<lparr>main := Returned\<rparr>)"
proof -
  let ?os = "demo_os (\<lambda>_. None)"
  have st: "stop demo_started = Done () demo_stopped" "\<not> running demo_stopped" "main demo_stopped = Testing"
    "client_threads demo_stopped = []"
    by (simp_all add: demo_stopped_def stop_def seq_def sys_close_def demo_started_running)
  have "mstep ?os demo_started demo_stopped" using st(1) by (rule mstep.stopped)
  moreover have "mstep ?os demo_stopped (demo_stopped\<lparr>main := Joining\<rparr>)"
    using mstep.test [OF st(3), of ?os] st(2) by simp
  moreover have "mstep ?os (demo_stopped\<lparr>main := Joining\<rparr>) (demo_stopped\<lparr>main := Joining, main := Returned\<rparr>)"
    by (rule mstep.join) (simp_all add: st(4))
  ultimately show ?thesis by simp (blast intro: reachable.intros)
qed

theorem multi_server_isolates_clients_witness:
  "live demo_accepted \<noteq> [] \<and> distinct (map conn (live demo_accepted)) \<and> conn ` set (live demo_accepted) \<subseteq> set (fds demo_accepted)
    \<and> bad_close demo_accepted = []"
  using multi_server_isolates_clients [OF posix_demo_os demo_loop_begins demo_accepted_reachable [THEN conjunct1]]
    demo_accepted_reachable [THEN conjunct2] by (auto simp: demo_mtsrv_def)

theorem multi_server_shutdown_witness: "set (fds demo_stopped) = {0, 1, 2}"
  using multi_server_shutdown [OF posix_demo_os demo_loop_begins demo_stopped_reachable] by (auto simp: demo_mtsrv_def)

end
