(* ===== verification/Screen.thy ===== *)
theory Screen
  imports Prelude
begin

text \<open>
  What the three applications under \<open>src/ap\<close> have in common: a window with an editor, a button and
  two monitors.  The user types into the editor and clicks the button, and the monitors show the
  text that was submitted last; an empty text is not submitted.

  The locale is the contract of one application: every action of the user is a step of the
  specification.  Its lemma carries this to whole sessions; it is interpreted on the three
  applications in their theories.
\<close>

datatype action = Type string | Click

text \<open>The text in the editor and the text on the monitors.\<close>

record ui =
  typed :: string
  submitted :: string

fun ui_step :: "action \<Rightarrow> ui \<Rightarrow> ui" where
  "ui_step (Type x) u = u\<lparr>typed := x\<rparr>"
| "ui_step Click u = (if typed u = '''' then u else u\<lparr>submitted := typed u\<rparr>)"

definition ui_start :: ui where
  "ui_start = \<lparr>typed = ''Initial Data'', submitted = ''Initial Data''\<rparr>"

lemma ui_typed_last: "typed (fold ui_step (as @ [Type x]) u) = x"
  by simp

lemma ui_submit: "x \<noteq> '''' \<Longrightarrow> submitted (fold ui_step (as @ [Type x, Click]) u) = x"
  by simp

abbreviation apos :: string where
  "apos \<equiv> [CHR 0x27]"

text \<open>Pango markup around a text: the colour and the other attributes of the span.\<close>

definition span_open :: "string \<Rightarrow> string \<Rightarrow> string" where
  "span_open color attributes = ''<span foreground='' @ apos @ color @ apos @ attributes @ ''>''"

definition span_close :: string where
  "span_close = ''</span>''"

definition span :: "string \<Rightarrow> string \<Rightarrow> string \<Rightarrow> string" where
  "span color attributes text = span_open color attributes @ text @ span_close"

text \<open>The attributes after the colour, with and without the weight of the font.\<close>

definition bold :: string where
  "bold = '' size='' @ apos @ ''x-large'' @ apos @ '' weight='' @ apos @ ''bold'' @ apos"

definition plain :: string where
  "plain = '' size='' @ apos @ ''x-large'' @ apos"

lemma span_inject [simp]: "span c a x = span c a y \<longleftrightarrow> x = y"
  by (simp add: span_def)

locale application =
  fixes displays :: "'s \<Rightarrow> ui \<Rightarrow> bool"
    and perform :: "action \<Rightarrow> ('s, unit) oprog"
  assumes perform_step: "displays s u \<Longrightarrow> \<exists>t. perform a s = Some (Done () t) \<and> displays t (ui_step a u)"
begin

lemma session: "displays s u \<Longrightarrow> \<exists>t. ofor_each as perform s = Some (Done () t) \<and> displays t (fold ui_step as u)"
proof (induction as arbitrary: s u)
  case Nil
  then show ?case by (simp add: terminating_def ret_def)
next
  case (Cons a as)
  obtain t where t: "perform a s = Some (Done () t)" "displays t (ui_step a u)"
    using perform_step [OF Cons.prems] by blast
  with Cons.IH [OF t(2)] show ?case by (simp add: oseq_def)
qed

end

end
