(* ===== verification/Mvc.thy ===== *)
theory Mvc
  imports Screen
begin

text \<open>
  \<open>src/ap/mvc\<close>: the shared data model with its observers, the controller, the editor and the display
  widgets, and the window that connects them.  Of the GTK widgets the texts are kept: the text of the
  entry and the markup of the label; frames, boxes and margins have no effect on them.

  Lemmas: an action of the user is a step of the specification of \<open>Screen\<close>, and so is every session.
\<close>

section \<open>Objects\<close>

datatype obj =
    SharedData string "ptr list"
  | Controller ptr
  | EditorWidget (entry: string) ptr
  | DisplayWidget string (labelData: string)

section \<open>Views\<close>

definition updateLabel :: "ptr \<Rightarrow> string \<Rightarrow> (obj world, unit) prog" where
  "updateLabel this text = seq (load this) (\<lambda>x. case x of
      DisplayWidget color _ \<Rightarrow>
        store this (DisplayWidget color (span color bold text))
    | _ \<Rightarrow> undef WrongType)"

text \<open>The virtual \<open>onDataChanged\<close> of both widgets.\<close>

definition onDataChanged :: "ptr \<Rightarrow> string \<Rightarrow> (obj world, unit) prog" where
  "onDataChanged this newData = seq (load this) (\<lambda>x. case x of
      EditorWidget e c \<Rightarrow> if e \<noteq> newData then store this (EditorWidget newData c) else ret ()
    | DisplayWidget _ _ \<Rightarrow> updateLabel this newData
    | _ \<Rightarrow> undef WrongType)"

section \<open>Model and controller\<close>

definition new_SharedData :: "(obj world, ptr) prog" where
  "new_SharedData = alloc (SharedData ''Initial Data'' [])"

definition shared_data :: "ptr \<Rightarrow> (obj world, string \<times> ptr list) prog" where
  "shared_data this = seq (load this) (\<lambda>x. case x of SharedData d obs \<Rightarrow> ret (d, obs) | _ \<Rightarrow> undef WrongType)"

definition notifyObservers :: "ptr \<Rightarrow> (obj world, unit) prog" where
  "notifyObservers this = seq (shared_data this) (\<lambda>(d, obs). for_each obs (\<lambda>o'. onDataChanged o' d))"

definition setData :: "ptr \<Rightarrow> string \<Rightarrow> (obj world, unit) prog" where
  "setData this data = seq (shared_data this) (\<lambda>(_, obs).
     seq (store this (SharedData data obs)) (\<lambda>_. notifyObservers this))"

definition getData :: "ptr \<Rightarrow> (obj world, string) prog" where
  "getData this = seq (shared_data this) (\<lambda>(d, _). ret d)"

definition addObserver :: "ptr \<Rightarrow> ptr \<Rightarrow> (obj world, unit) prog" where
  "addObserver this obs' = (if obs' \<noteq> None
     then seq (shared_data this) (\<lambda>(d, obs). store this (SharedData d (obs @ [obs']))) else ret ())"

definition new_Controller :: "ptr \<Rightarrow> (obj world, ptr) prog" where
  "new_Controller model = alloc (Controller model)"

definition updateRequest :: "ptr \<Rightarrow> string \<Rightarrow> (obj world, unit) prog" where
  "updateRequest this text = (if text = '''' then ret ()
     else seq (load this) (\<lambda>x. case x of Controller m \<Rightarrow> setData m text | _ \<Rightarrow> undef WrongType))"

section \<open>The window\<close>

definition new_EditorWidget :: "ptr \<Rightarrow> string \<Rightarrow> (obj world, ptr) prog" where
  "new_EditorWidget c initData = alloc (EditorWidget initData c)"

definition new_DisplayWidget :: "string \<Rightarrow> string \<Rightarrow> (obj world, ptr) prog" where
  "new_DisplayWidget color startData =
     seq (alloc (DisplayWidget color '''')) (\<lambda>p. seq (updateLabel p startData) (\<lambda>_. ret p))"

text \<open>The lambda connected to \<open>signal_clicked\<close>.\<close>

definition clicked :: "ptr \<Rightarrow> (obj world, unit) prog" where
  "clicked this = seq (load this) (\<lambda>x. case x of
      EditorWidget e c \<Rightarrow> updateRequest c e
    | _ \<Rightarrow> undef WrongType)"

text \<open>The user types into the entry.\<close>

definition type_in :: "ptr \<Rightarrow> string \<Rightarrow> (obj world, unit) prog" where
  "type_in this text = seq (load this) (\<lambda>x. case x of
      EditorWidget _ c \<Rightarrow> store this (EditorWidget text c)
    | _ \<Rightarrow> undef WrongType)"

record window =
  dataModel :: ptr
  controller :: ptr
  editorView :: ptr
  displayViewLeft :: ptr
  displayViewRight :: ptr

definition new_ContainerWindow :: "(obj world, window) prog" where
  "new_ContainerWindow =
     seq new_SharedData (\<lambda>m.
     seq (new_Controller m) (\<lambda>c.
     seq (getData m) (\<lambda>d1. seq (new_EditorWidget c d1) (\<lambda>e.
     seq (getData m) (\<lambda>d2. seq (new_DisplayWidget ''blue'' d2) (\<lambda>l.
     seq (getData m) (\<lambda>d3. seq (new_DisplayWidget ''red'' d3) (\<lambda>r.
     seq (block [addObserver m e, addObserver m l, addObserver m r]) (\<lambda>_.
     ret \<lparr>dataModel = m, controller = c, editorView = e, displayViewLeft = l, displayViewRight = r\<rparr>)))))))))"

definition perform :: "window \<Rightarrow> action \<Rightarrow> (obj world, unit) oprog" where
  "perform w a = terminating (case a of Type x \<Rightarrow> type_in (editorView w) x | Click \<Rightarrow> clicked (editorView w))"

lemmas mvc_defs [defs] = updateLabel_def onDataChanged_def new_SharedData_def shared_data_def notifyObservers_def
  setData_def getData_def addObserver_def new_Controller_def updateRequest_def new_EditorWidget_def
  new_DisplayWidget_def clicked_def type_in_def

section \<open>The window shows what was submitted\<close>

definition monitor :: "string \<Rightarrow> string \<Rightarrow> string" where
  "monitor color text = span color bold text"

text \<open>The objects of a window and what its widgets show.\<close>

definition window_shows :: "window \<Rightarrow> obj world \<Rightarrow> ui \<Rightarrow> bool" where
  "window_shows w s u \<longleftrightarrow> (\<exists>m c e l r. distinct [m, c, e, l, r]
     \<and> w = \<lparr>dataModel = Some m, controller = Some c, editorView = Some e, displayViewLeft = Some l, displayViewRight = Some r\<rparr>
     \<and> cells s m = Some (SharedData (submitted u) [Some e, Some l, Some r])
     \<and> cells s c = Some (Controller (Some m))
     \<and> cells s e = Some (EditorWidget (typed u) (Some c))
     \<and> cells s l = Some (DisplayWidget ''blue'' (monitor ''blue'' (submitted u)))
     \<and> cells s r = Some (DisplayWidget ''red'' (monitor ''red'' (submitted u))))"

lemma perform_shows:
  assumes "window_shows w s u"
  shows "\<exists>t. perform w a s = Some (Done () t) \<and> window_shows w t (ui_step a u)"
proof -
  obtain m c e l r where w: "distinct [m, c, e, l, r]"
    "w = \<lparr>dataModel = Some m, controller = Some c, editorView = Some e, displayViewLeft = Some l, displayViewRight = Some r\<rparr>"
    "cells s m = Some (SharedData (submitted u) [Some e, Some l, Some r])" "cells s c = Some (Controller (Some m))"
    "cells s e = Some (EditorWidget (typed u) (Some c))"
    "cells s l = Some (DisplayWidget ''blue'' (monitor ''blue'' (submitted u)))"
    "cells s r = Some (DisplayWidget ''red'' (monitor ''red'' (submitted u)))"
    using assms unfolding window_shows_def by blast
  show ?thesis
  proof (cases a)
    case (Type x)
    then show ?thesis using w(1,3-7)
      by (auto simp: perform_def w(2) type_in_def machine window_shows_def)
  next
    case Click
    then show ?thesis using w(1,3-7)
      by (auto simp: perform_def w(2) mvc_defs machine window_shows_def monitor_def)
  qed
qed

interpretation mvc: application "window_shows w" "perform w"
  by unfold_locales (rule perform_shows)

lemma new_window_shows: "\<exists>w t. new_ContainerWindow s = Done w t \<and> window_shows w t ui_start"
  by (simp add: new_ContainerWindow_def mvc_defs machine window_shows_def ui_start_def monitor_def)

text \<open>
  A session with the window, any sequence of typing and clicking: every call returns, the editor
  shows what was typed last, and the model and both monitors have the text submitted last (the
  initial text before that; an empty text is never submitted).
\<close>

theorem mvc_session:
  "\<exists>w t t'. new_ContainerWindow s = Done w t \<and> ofor_each as (perform w) t = Some (Done () t')
    \<and> window_shows w t' (fold ui_step as ui_start)"
  using new_window_shows mvc.session by blast

end
