(* ===== verification/SimpleAp.thy ===== *)
theory SimpleAp
  imports Mvc Mvvm
begin

text \<open>
  \<open>src/ap/simple_ap.cpp\<close>: the application as a single window class whose button writes to the two
  labels itself; and the comparison of the three applications.

  Lemmas: the single class is an application in the sense of \<open>Screen\<close>, and the three applications show
  the same texts after the same actions; their markup differs in the weight of the font.
\<close>

section \<open>The window class\<close>

datatype obj = MainWindow (entry_Input: string) (m_labelMonitorA: string) (m_labelMonitorB: string)

definition markup :: "string \<Rightarrow> string \<Rightarrow> string" where
  "markup color text = span color plain text"

definition new_MainWindow :: "(obj world, ptr) prog" where
  "new_MainWindow = alloc (MainWindow ''Initial Data'' (markup ''blue'' ''Initial Data'') (markup ''red'' ''Initial Data''))"

text \<open>The lambda connected to \<open>signal_clicked\<close>, and the user typing into the entry.\<close>

definition clicked :: "ptr \<Rightarrow> (obj world, unit) prog" where
  "clicked this = seq (load this) (\<lambda>x. let text = entry_Input x in
     if text = '''' then ret ()
     else
       seq (store this (MainWindow text (markup ''blue'' text) (m_labelMonitorB x))) (\<lambda>_.
       seq (load this) (\<lambda>y.
       seq (store this (MainWindow (entry_Input y) (m_labelMonitorA y) (markup ''red'' text))) (\<lambda>_.
       cout (''Updated directly without Model!'' @ endl)))))"

definition type_in :: "ptr \<Rightarrow> string \<Rightarrow> (obj world, unit) prog" where
  "type_in this text = seq (load this) (\<lambda>x. store this (MainWindow text (m_labelMonitorA x) (m_labelMonitorB x)))"

definition perform :: "ptr \<Rightarrow> action \<Rightarrow> (obj world, unit) oprog" where
  "perform w a = terminating (case a of Type x \<Rightarrow> type_in w x | Click \<Rightarrow> clicked w)"

definition window_shows :: "ptr \<Rightarrow> obj world \<Rightarrow> ui \<Rightarrow> bool" where
  "window_shows w s u \<longleftrightarrow> (\<exists>a. w = Some a
     \<and> cells s a = Some (MainWindow (typed u) (markup ''blue'' (submitted u)) (markup ''red'' (submitted u))))"

lemma perform_writes: "window_shows w s u \<Longrightarrow> \<exists>t. perform w a s = Some (Done () t) \<and> window_shows w t (ui_step a u)"
  by (cases a) (auto simp: window_shows_def perform_def type_in_def clicked_def machine Let_def)

interpretation simple: application "window_shows w" "perform w"
  by unfold_locales (rule perform_writes)

section \<open>The three applications agree\<close>

text \<open>The texts on the screen: the editor's and the two labels' without their markup.\<close>

definition unspan :: "string \<Rightarrow> string \<Rightarrow> string \<Rightarrow> string option" where
  "unspan color attributes m =
     (let text = take (length m - length (span_open color attributes @ span_close)) (drop (length (span_open color attributes)) m)
      in if m = span color attributes text then Some text else None)"

lemma unspan_span [simp]: "unspan c a (span c a x) = Some x"
  by (simp add: unspan_def span_def)

definition mvc_screen :: "Mvc.window \<Rightarrow> Mvc.obj world \<Rightarrow> string option list" where
  "mvc_screen w s = (case (cells s (the (Mvc.editorView w)), cells s (the (Mvc.displayViewLeft w)), cells s (the (Mvc.displayViewRight w))) of
      (Some (Mvc.EditorWidget e _), Some (Mvc.DisplayWidget cl l), Some (Mvc.DisplayWidget cr r)) \<Rightarrow>
        [Some e, unspan ''blue'' bold l, unspan ''red'' bold r]
    | _ \<Rightarrow> [])"

definition mvvm_screen :: "Mvvm.window \<Rightarrow> Mvvm.obj world \<Rightarrow> string option list" where
  "mvvm_screen w s = (case (cells s (the (Mvvm.editorView w)), cells s (the (Mvvm.displayViewLeft w)), cells s (the (Mvvm.displayViewRight w))) of
      (Some (Mvvm.EditorWidget e _), Some (Mvvm.DisplayWidget cl l _), Some (Mvvm.DisplayWidget cr r _)) \<Rightarrow>
        [Some e, unspan ''blue'' bold l, unspan ''red'' bold r]
    | _ \<Rightarrow> [])"

definition simple_screen :: "ptr \<Rightarrow> obj world \<Rightarrow> string option list" where
  "simple_screen w s = (case cells s (the w) of
      Some (MainWindow e l r) \<Rightarrow> [Some e, unspan ''blue'' plain l, unspan ''red'' plain r]
    | None \<Rightarrow> [])"

definition ui_screen :: "ui \<Rightarrow> string option list" where
  "ui_screen u = [Some (typed u), Some (submitted u), Some (submitted u)]"

lemma screens:
  "Mvc.window_shows w s u \<Longrightarrow> mvc_screen w s = ui_screen u"
  "Mvvm.window_shows w' s' u \<Longrightarrow> mvvm_screen w' s' = ui_screen u"
  "window_shows w'' s'' u \<Longrightarrow> simple_screen w'' s'' = ui_screen u"
  by (auto simp: Mvc.window_shows_def Mvvm.window_shows_def window_shows_def mvc_screen_def mvvm_screen_def
      simple_screen_def ui_screen_def Mvc.monitor_def Mvvm.monitor_def markup_def)

text \<open>
  C23.  The three applications are equivalent for their user: after any sequence of typing and
  clicking, from the start of each, all of them show the same text in the editor and the same text
  on both monitors.
\<close>

theorem applications_agree:
  "\<exists>w1 s1 t1 w2 s2 t2 w3 s3 t3.
     Mvc.new_ContainerWindow boot = Done w1 s1 \<and> ofor_each as (Mvc.perform w1) s1 = Some (Done () t1)
   \<and> Mvvm.new_ContainerWindow boot = Done w2 s2 \<and> ofor_each as (Mvvm.perform 2 w2) s2 = Some (Done () t2)
   \<and> new_MainWindow boot = Done w3 s3 \<and> ofor_each as (perform w3) s3 = Some (Done () t3)
   \<and> mvc_screen w1 t1 = mvvm_screen w2 t2 \<and> mvvm_screen w2 t2 = simple_screen w3 t3
   \<and> simple_screen w3 t3 = ui_screen (fold ui_step as ui_start)"
proof -
  obtain w1 s1 t1 where 1: "Mvc.new_ContainerWindow boot = Done w1 s1" "ofor_each as (Mvc.perform w1) s1 = Some (Done () t1)"
      "Mvc.window_shows w1 t1 (fold ui_step as ui_start)"
    using Mvc.new_window_shows mvc.session by blast
  obtain w2 s2 t2 where 2: "Mvvm.new_ContainerWindow boot = Done w2 s2" "ofor_each as (Mvvm.perform (0 + 2) w2) s2 = Some (Done () t2)"
      "Mvvm.window_shows w2 t2 (fold ui_step as ui_start)"
    using Mvvm.new_window_displays mvvm.session [of _ _ _ _ 0] by blast
  have "\<exists>w s. new_MainWindow boot = Done w s \<and> window_shows w s ui_start"
    by (simp add: new_MainWindow_def window_shows_def ui_start_def machine)
  then obtain w3 s3 t3 where 3: "new_MainWindow boot = Done w3 s3" "ofor_each as (perform w3) s3 = Some (Done () t3)"
      "window_shows w3 t3 (fold ui_step as ui_start)"
    using simple.session by blast
  note e = screens(1) [OF 1(3)] screens(2) [OF 2(3)] screens(3) [OF 3(3)]
  show ?thesis
    by (rule exI [of _ w1], rule exI [of _ s1], rule exI [of _ t1], rule exI [of _ w2], rule exI [of _ s2],
        rule exI [of _ t2], rule exI [of _ w3], rule exI [of _ s3], rule exI [of _ t3])
      (use 1(1,2) 2(1,2) 3(1,2) e in \<open>simp flip: numeral_2_eq_2\<close>)
qed

end
