(* ===== verification/Pid.thy ===== *)
theory Pid
  imports Complex_Main Prelude
begin

text \<open>
  \<open>src/controller/pid\<close>: the PID controller behind a pointer to its implementation, and the simulation of
  \<open>PIDSim.cpp\<close>.

  The type \<open>double\<close> is a parameter \<open>'f\<close> with its operations, so that what is proved for every
  arithmetic holds for the machine's, rounding and the values without order included.

  Lemmas: the output is never beyond its limits, for every arithmetic; over the real numbers it is the
  textbook law of proportional, integral and derivative terms, limited; and the simulation owns
  nothing at its end.
\<close>

section \<open>Floating point arithmetic\<close>

record 'f arithmetic =
  add :: "'f \<Rightarrow> 'f \<Rightarrow> 'f"
  sub :: "'f \<Rightarrow> 'f \<Rightarrow> 'f"
  mul :: "'f \<Rightarrow> 'f \<Rightarrow> 'f"
  quot :: "'f \<Rightarrow> 'f \<Rightarrow> 'f"
  greater :: "'f \<Rightarrow> 'f \<Rightarrow> bool"
  literal :: "string \<Rightarrow> 'f"

section \<open>The controller\<close>

datatype 'f obj =
    PIDImpl (dt: 'f) (max_out: 'f) (min_out: 'f) (Kp: 'f) (Kd: 'f) (Ki: 'f) (pre_error: 'f) (integral: 'f)
  | PID ptr

definition new_PIDImpl :: "'f arithmetic \<Rightarrow> 'f \<Rightarrow> 'f \<Rightarrow> 'f \<Rightarrow> 'f \<Rightarrow> 'f \<Rightarrow> 'f \<Rightarrow> ('f obj world, ptr) prog" where
  "new_PIDImpl fp t mx mn p d i = alloc (PIDImpl t mx mn p d i (literal fp ''0'') (literal fp ''0''))"

definition restrict :: "'f arithmetic \<Rightarrow> 'f \<Rightarrow> 'f \<Rightarrow> 'f \<Rightarrow> 'f" where
  "restrict fp mx mn output = (if greater fp output mx then mx else if greater fp mn output then mn else output)"

text \<open>\<open>PIDImpl::calculate\<close>; the comparison \<open>output < _min\<close> is \<open>greater\<close> with its arguments exchanged.\<close>

definition impl_calculate :: "'f arithmetic \<Rightarrow> ptr \<Rightarrow> 'f \<Rightarrow> 'f \<Rightarrow> ('f obj world, 'f) prog" where
  "impl_calculate fp this setpoint pv = seq (load this) (\<lambda>x. case x of
      PIDImpl t mx mn p d i pre acc \<Rightarrow>
        (let error = sub fp setpoint pv;
             Pout = mul fp p error;
             acc' = add fp acc (mul fp error t);
             Iout = mul fp i acc';
             derivative = quot fp (sub fp error pre) t;
             Dout = mul fp d derivative;
             output = restrict fp mx mn (add fp (add fp Pout Iout) Dout)
         in seq (store this (PIDImpl t mx mn p d i error acc')) (\<lambda>_. ret output))
    | _ \<Rightarrow> undef WrongType)"

definition new_PID :: "'f arithmetic \<Rightarrow> 'f \<Rightarrow> 'f \<Rightarrow> 'f \<Rightarrow> 'f \<Rightarrow> 'f \<Rightarrow> 'f \<Rightarrow> ('f obj world, ptr) prog" where
  "new_PID fp t mx mn p d i = seq (new_PIDImpl fp t mx mn p d i) (\<lambda>q. alloc (PID q))"

definition pimpl :: "ptr \<Rightarrow> ('f obj world, ptr) prog" where
  "pimpl this = seq (load this) (\<lambda>x. case x of PID q \<Rightarrow> ret q | _ \<Rightarrow> undef WrongType)"

definition calculate :: "'f arithmetic \<Rightarrow> ptr \<Rightarrow> 'f \<Rightarrow> 'f \<Rightarrow> ('f obj world, 'f) prog" where
  "calculate fp this setpoint pv = seq (pimpl this) (\<lambda>q. impl_calculate fp q setpoint pv)"

definition delete_PID :: "ptr \<Rightarrow> ('f obj world, unit) prog" where
  "delete_PID this = seq (pimpl this) (\<lambda>q. seq (free q) (\<lambda>_. free this))"

section \<open>The simulation\<close>

text \<open>The loop of \<open>run\<close> for the number of rounds that are left; \<open>showf\<close> is the printing of a \<open>double\<close>.\<close>

primrec simulate :: "'f arithmetic \<Rightarrow> ('f \<Rightarrow> string) \<Rightarrow> ptr \<Rightarrow> 'f \<Rightarrow> nat \<Rightarrow> 'f \<Rightarrow> ('f obj world, 'f) prog" where
  "simulate fp showf pid setpoint 0 val = ret val"
| "simulate fp showf pid setpoint (Suc n) val =
     seq (calculate fp pid setpoint val) (\<lambda>inc.
     seq (cout (''setpoint:'' @ showf setpoint @ '' - val:'' @ showf val @ '' - inc:'' @ showf inc @ endl)) (\<lambda>_.
     simulate fp showf pid setpoint n (add fp val inc)))"

definition pid_run :: "'f arithmetic \<Rightarrow> ('f \<Rightarrow> string) \<Rightarrow> ('f obj world, unit) prog" where
  "pid_run fp showf =
     (let l = literal fp in
     seq (new_PID fp (l ''0.1'') (l ''100'') (l ''-100'') (l ''0.1'') (l ''0.01'') (l ''0.5'')) (\<lambda>pid.
     seq (simulate fp showf pid (l ''100'') 200 (l ''20'')) (\<lambda>_.
     delete_PID pid)))"

lemmas pid_defs [defs] = new_PIDImpl_def impl_calculate_def new_PID_def pimpl_def calculate_def delete_PID_def

section \<open>Limits, for every arithmetic\<close>

text \<open>The controller at \<open>c\<close> with its implementation at \<open>q\<close>.\<close>

definition controller :: "nat \<Rightarrow> nat \<Rightarrow> 'f obj world \<Rightarrow> bool" where
  "controller c q s \<longleftrightarrow> c \<noteq> q \<and> cells s c = Some (PID (Some q))
     \<and> (\<exists>t mx mn p d i e n. cells s q = Some (PIDImpl t mx mn p d i e n))"

text \<open>What the comparison has to satisfy on the two limits alone.\<close>

definition proper_limits :: "'f arithmetic \<Rightarrow> 'f \<Rightarrow> 'f \<Rightarrow> bool" where
  "proper_limits fp mx mn \<longleftrightarrow> \<not> greater fp mx mx \<and> \<not> greater fp mn mn \<and> \<not> greater fp mn mx"

lemma restrict_limits: "proper_limits fp mx mn \<Longrightarrow>
    \<not> greater fp (restrict fp mx mn x) mx \<and> \<not> greater fp mn (restrict fp mx mn x)"
  by (simp add: restrict_def proper_limits_def)

lemma calculate_step:
  assumes "c \<noteq> q" "cells s c = Some (PID (Some q))" "cells s q = Some (PIDImpl t mx mn p d i e n)"
  shows "calculate fp (Some c) sp pv s =
     (let error = sub fp sp pv; n' = add fp n (mul fp error t) in
      Done (restrict fp mx mn (add fp (add fp (mul fp p error) (mul fp i n')) (mul fp d (quot fp (sub fp error e) t))))
        (s\<lparr>cells := (cells s)(q \<mapsto> PIDImpl t mx mn p d i error n')\<rparr>))"
  using assms by (simp add: calculate_def pimpl_def impl_calculate_def machine Let_def)

text \<open>A sequence of calls with setpoints and process values, and the outputs.\<close>

primrec feed :: "'f arithmetic \<Rightarrow> ptr \<Rightarrow> ('f \<times> 'f) list \<Rightarrow> ('f obj world, 'f list) prog" where
  "feed fp this [] = ret []"
| "feed fp this (x # xs) = seq (calculate fp this (fst x) (snd x)) (\<lambda>y.
     seq (feed fp this xs) (\<lambda>ys. ret (y # ys)))"

lemma feed_limits:
  assumes "proper_limits fp mx mn" "c \<noteq> q" "cells s c = Some (PID (Some q))" "cells s q = Some (PIDImpl t mx mn p d i e n)"
  shows "\<exists>ys u. feed fp (Some c) xs s = Done ys u \<and> length ys = length xs
    \<and> (\<forall>y \<in> set ys. \<not> greater fp y mx \<and> \<not> greater fp mn y)"
  using assms(3,4)
proof (induction xs arbitrary: s e n)
  case Nil
  then show ?case by (simp add: ret_def)
next
  case (Cons x xs)
  obtain y e' n' where y: "calculate fp (Some c) (fst x) (snd x) s = Done y (s\<lparr>cells := (cells s)(q \<mapsto> PIDImpl t mx mn p d i e' n')\<rparr>)"
    "\<not> greater fp y mx \<and> \<not> greater fp mn y"
    using calculate_step [OF assms(2) Cons.prems] restrict_limits [OF assms(1)] by (simp add: Let_def)
  let ?s = "s\<lparr>cells := (cells s)(q \<mapsto> PIDImpl t mx mn p d i e' n')\<rparr>"
  have s: "cells ?s c = Some (PID (Some q))" "cells ?s q = Some (PIDImpl t mx mn p d i e' n')"
    using Cons.prems assms(2) by simp_all
  obtain ys u where ys: "feed fp (Some c) xs ?s = Done ys u" "length ys = length xs"
    "\<forall>y \<in> set ys. \<not> greater fp y mx \<and> \<not> greater fp mn y"
    using Cons.IH [OF s] by blast
  have "feed fp (Some c) (x # xs) s = Done (y # ys) u" using y(1) ys(1) by (simp add: seq_def ret_def)
  with y(2) ys(2,3) show ?case by auto
qed

section \<open>The control law over the real numbers\<close>

definition exact :: "(string \<Rightarrow> real) \<Rightarrow> real arithmetic" where
  "exact l = \<lparr>add = (+), sub = (-), mul = (*), quot = (/), greater = (>), literal = l\<rparr>"

lemma exact_simps [simp]:
  "add (exact l) = (+)" "sub (exact l) = (-)" "mul (exact l) = (*)" "quot (exact l) = (/)"
  "greater (exact l) x y \<longleftrightarrow> y < x" "literal (exact l) = l"
  by (simp_all add: exact_def)

definition error_of :: "real \<times> real \<Rightarrow> real" where
  "error_of x = fst x - snd x"

text \<open>The output after the calls \<open>xs\<close> and \<open>x\<close>: each term from all the errors so far.\<close>

definition control_law :: "real \<Rightarrow> real \<Rightarrow> real \<Rightarrow> real \<Rightarrow> real \<Rightarrow> real \<Rightarrow> (real \<times> real) list \<Rightarrow> real \<times> real \<Rightarrow> real" where
  "control_law t mx mn p d i xs x =
     (let es = map error_of xs; e = error_of x;
          y = p * e + i * (sum_list (es @ [e]) * t) + d * ((e - last (0 # es)) / t)
      in if y > mx then mx else if y < mn then mn else y)"

fun outputs :: "real \<Rightarrow> real \<Rightarrow> real \<Rightarrow> real \<Rightarrow> real \<Rightarrow> real \<Rightarrow> (real \<times> real) list \<Rightarrow> (real \<times> real) list \<Rightarrow> real list" where
  "outputs t mx mn p d i past [] = []"
| "outputs t mx mn p d i past (x # xs) = control_law t mx mn p d i past x # outputs t mx mn p d i (past @ [x]) xs"

lemma feed_law:
  assumes "c \<noteq> q" "cells s c = Some (PID (Some q))"
    and "cells s q = Some (PIDImpl t mx mn p d i (last (0 # map error_of past)) (sum_list (map error_of past) * t))"
  shows "\<exists>u. feed (exact l) (Some c) xs s = Done (outputs t mx mn p d i past xs) u"
  using assms(2,3)
proof (induction xs arbitrary: s past)
  case Nil
  then show ?case by (simp add: ret_def)
next
  case (Cons x xs)
  let ?e = "error_of x" and ?n = "sum_list (map error_of past) * t"
  let ?s = "s\<lparr>cells := (cells s)(q \<mapsto> PIDImpl t mx mn p d i ?e (sum_list (map error_of (past @ [x])) * t))\<rparr>"
  have "calculate (exact l) (Some c) (fst x) (snd x) s = Done (control_law t mx mn p d i past x) ?s"
    using calculate_step [OF assms(1) Cons.prems, of "exact l" "fst x" "snd x"]
    by (simp add: Let_def restrict_def control_law_def distrib_right flip: error_of_def)
  moreover obtain u where "feed (exact l) (Some c) xs ?s = Done (outputs t mx mn p d i (past @ [x]) xs) u"
    using Cons.IH [of ?s "past @ [x]"] Cons.prems(1) assms(1) by auto
  ultimately show ?case by (simp add: seq_def ret_def)
qed

section \<open>Properties\<close>

text \<open>
  C15.  With any floating point arithmetic whose comparison is sane on the two limits: whatever
  setpoints and process values a new controller is fed, each call returns a value that is neither
  above the maximum nor below the minimum.
\<close>

theorem pid_output_limited:
  assumes "proper_limits fp mx mn"
  shows "\<exists>pid ys u. new_PID fp t mx mn p d i s = Done pid u
    \<and> (\<exists>v. feed fp pid xs u = Done ys v) \<and> length ys = length xs
    \<and> (\<forall>y \<in> set ys. \<not> greater fp y mx \<and> \<not> greater fp mn y)"
proof -
  let ?u = "s\<lparr>cells := (cells s)(brk s \<mapsto> PIDImpl t mx mn p d i (literal fp ''0'') (literal fp ''0''),
      Suc (brk s) \<mapsto> PID (Some (brk s))), brk := Suc (Suc (brk s))\<rparr>"
  have "new_PID fp t mx mn p d i s = Done (Some (Suc (brk s))) ?u"
    by (simp add: new_PID_def new_PIDImpl_def machine)
  moreover have "\<exists>ys v. feed fp (Some (Suc (brk s))) xs ?u = Done ys v \<and> length ys = length xs
      \<and> (\<forall>y \<in> set ys. \<not> greater fp y mx \<and> \<not> greater fp mn y)"
    by (rule feed_limits [OF assms, where q = "brk s"]) simp_all
  ultimately show ?thesis by blast
qed

theorem pid_output_limited_witness:
  "\<exists>pid ys u. new_PID (exact (\<lambda>_. 0)) 1 100 (-100) 10 0 0 boot = Done pid u
    \<and> (\<exists>v. feed (exact (\<lambda>_. 0)) pid [(100, 20), (100, 120)] u = Done ys v) \<and> length ys = 2
    \<and> (\<forall>y \<in> set ys. \<not> 100 < y \<and> \<not> y < - 100)"
  using pid_output_limited [of "exact (\<lambda>_. 0)" 100 "-100" 1 10 0 0 boot "[(100, 20), (100, 120)]"]
  by (simp add: proper_limits_def eval_nat_numeral)

text \<open>
  C22.  In exact arithmetic the controller computes the textbook law: the n-th output is the gain times
  the error, plus the integral gain times the sum of all errors so far times the interval, plus the
  derivative gain times the difference quotient with the error before, restricted to the limits.
  The integral is not restricted when the output is.
\<close>

theorem pid_control_law:
  assumes "l ''0'' = 0"
  shows "\<exists>pid u v. new_PID (exact l) t mx mn p d i s = Done pid u
    \<and> feed (exact l) pid xs u = Done (outputs t mx mn p d i [] xs) v"
proof -
  let ?u = "s\<lparr>cells := (cells s)(brk s \<mapsto> PIDImpl t mx mn p d i 0 0, Suc (brk s) \<mapsto> PID (Some (brk s))), brk := Suc (Suc (brk s))\<rparr>"
  have "new_PID (exact l) t mx mn p d i s = Done (Some (Suc (brk s))) ?u"
    using assms by (simp add: new_PID_def new_PIDImpl_def machine)
  moreover have "\<exists>v. feed (exact l) (Some (Suc (brk s))) xs ?u = Done (outputs t mx mn p d i [] xs) v"
    by (rule feed_law [where q = "brk s"]) simp_all
  ultimately show ?thesis by blast
qed

theorem pid_control_law_witness:
  "\<exists>pid u v. new_PID (exact (\<lambda>_. 0)) 1 100 (-100) 2 1 3 boot = Done pid u
    \<and> feed (exact (\<lambda>_. 0)) pid [(10, 4), (10, 9)] u = Done [36, 18] v"
  using pid_control_law [of "\<lambda>_. 0" 1 100 "-100" 2 1 3 boot "[(10, 4), (10, 9)]"]
  by (simp add: control_law_def error_of_def Let_def)

text \<open>The simulation returns, prints one line per round and frees the controller and its implementation.\<close>

lemma simulate_returns:
  assumes "controller c q s"
  shows "\<exists>v u. simulate fp showf (Some c) sp n val s = Done v u \<and> controller c q u \<and> brk u = brk s
    \<and> length (out u) = length (out s) + n \<and> (\<forall>a. a \<noteq> q \<longrightarrow> cells u a = cells s a)"
  using assms
proof (induction n arbitrary: s val)
  case 0
  then show ?case by (simp add: ret_def)
next
  case (Suc n)
  then obtain t mx mn p d i e k where c: "c \<noteq> q" "cells s c = Some (PID (Some q))" "cells s q = Some (PIDImpl t mx mn p d i e k)"
    by (auto simp: controller_def)
  obtain y e' k' where y: "calculate fp (Some c) sp val s = Done y (s\<lparr>cells := (cells s)(q \<mapsto> PIDImpl t mx mn p d i e' k')\<rparr>)"
    using calculate_step [OF c] by (simp add: Let_def)
  let ?l = "Cout (''setpoint:'' @ showf sp @ '' - val:'' @ showf val @ '' - inc:'' @ showf y @ endl)"
  let ?s = "says (s\<lparr>cells := (cells s)(q \<mapsto> PIDImpl t mx mn p d i e' k')\<rparr>) [?l]"
  have "controller c q ?s" using c by (simp add: controller_def)
  from Suc.IH [OF this, of "add fp val y"] show ?case
    using y by (auto simp: seq_def cout_def emit_def)
qed

lemma pid_run_no_leak:
  "\<exists>t. pid_run fp showf boot = Done () t \<and> live_addrs t = [] \<and> length (out t) = 200"
proof -
  let ?l = "literal fp"
  let ?s = "boot\<lparr>cells := [0 \<mapsto> PIDImpl (?l ''0.1'') (?l ''100'') (?l ''-100'') (?l ''0.1'') (?l ''0.01'') (?l ''0.5'') (?l ''0'') (?l ''0''),
      1 \<mapsto> PID (Some 0)], brk := 2\<rparr>"
  have "controller 1 0 ?s" by (simp add: controller_def)
  then obtain v u where u: "simulate fp showf (Some 1) (?l ''100'') 200 (?l ''20'') ?s = Done v u" "controller 1 0 u"
    "brk u = 2" "length (out u) = 200" "\<forall>a. a \<noteq> 0 \<longrightarrow> cells u a = cells ?s a"
    using simulate_returns [of 1 0 ?s fp showf "?l ''100''" 200 "?l ''20''"] by (auto simp: boot_sel)
  have "pid_run fp showf boot = seq (simulate fp showf (Some 1) (?l ''100'') 200 (?l ''20'')) (\<lambda>_. delete_PID (Some 1)) ?s"
    by (simp add: pid_run_def new_PID_def new_PIDImpl_def machine Let_def numeral_2_eq_2)
  moreover have "delete_PID (Some 1) u = Done () (u\<lparr>cells := (cells u)(0 := None, 1 := None)\<rparr>)"
    using u(2) by (auto simp: delete_PID_def pimpl_def controller_def machine)
  ultimately show ?thesis using u by (simp add: seq_def live_addrs_def upt_conv_Cons)
qed

end
