(* ===== verification/Ownership.thy ===== *)
theory Ownership
  imports Prelude
begin

text \<open>
  Classes that own a heap object through a raw pointer: the variables of the program, each with the
  pointer of its object, on top of the heap.  A store of values describes them: a variable is dead,
  alive with a null pointer, or alive with the value it owns.

  Lemmas: how the correspondence is kept by an allocation, a deletion, an exchange of two pointers and
  an update of the owned object; each keeps exactly one owner for every object of the heap.
\<close>

record 'o stack = "'o world" +
  vars :: "nat \<Rightarrow> ptr option"

lemma vars_says [simp]: "vars (says s ls) = vars s"
  by (simp add: says_def)

lemma says_vars [machine]: "says (s\<lparr>vars := f\<rparr>) ls = (says s ls)\<lparr>vars := f\<rparr>"
  by (simp add: says_def)

text \<open>The pointer of the object \<open>v\<close>, which must be alive, and its update.\<close>

definition pointer :: "nat \<Rightarrow> (('o, 'z) stack_scheme, ptr) prog" where
  "pointer v s = (case vars s v of None \<Rightarrow> Undef (Dangling v) | Some p \<Rightarrow> Done p s)"

definition set_pointer :: "nat \<Rightarrow> ptr \<Rightarrow> (('o, 'z) stack_scheme, unit) prog" where
  "set_pointer v p s = Done () (s\<lparr>vars := (vars s)(v \<mapsto> p)\<rparr>)"

definition end_of_life :: "nat \<Rightarrow> (('o, 'z) stack_scheme, unit) prog" where
  "end_of_life v s = Done () (s\<lparr>vars := (vars s)(v := None)\<rparr>)"

lemmas ownership_defs = pointer_def set_pointer_def end_of_life_def

section \<open>A store of values\<close>

text \<open>The objects have the values, and every object has exactly one owner.\<close>

definition holds_values :: "(nat \<Rightarrow> 'o option option) \<Rightarrow> ('o, 'z) stack_scheme \<Rightarrow> bool" where
  "holds_values \<sigma> s \<longleftrightarrow> fresh_above s
     \<and> (\<forall>v. \<sigma> v = (case vars s v of None \<Rightarrow> None | Some p \<Rightarrow> Some (Option.bind p (cells s))))
     \<and> (\<forall>v b. vars s v = Some (Some b) \<longrightarrow> cells s b \<noteq> None)
     \<and> (\<forall>v w b. vars s v = Some (Some b) \<longrightarrow> vars s w = Some (Some b) \<longrightarrow> v = w)
     \<and> (\<forall>b. cells s b \<noteq> None \<longrightarrow> (\<exists>v. vars s v = Some (Some b)))"

lemma var_cases:
  assumes "holds_values \<sigma> s"
  shows "\<sigma> v = None \<longleftrightarrow> vars s v = None"
    and "\<sigma> v = Some None \<longleftrightarrow> vars s v = Some None"
    and "\<sigma> v = Some (Some x) \<longleftrightarrow> (\<exists>b. vars s v = Some (Some b) \<and> cells s b = Some x)"
proof -
  have e: "\<And>v. \<sigma> v = (case vars s v of None \<Rightarrow> None | Some p \<Rightarrow> Some (Option.bind p (cells s)))"
    and l: "\<And>v b. vars s v = Some (Some b) \<Longrightarrow> cells s b \<noteq> None"
    using assms by (simp_all add: holds_values_def)
  show "\<sigma> v = None \<longleftrightarrow> vars s v = None"
    and "\<sigma> v = Some None \<longleftrightarrow> vars s v = Some None"
    and "\<sigma> v = Some (Some x) \<longleftrightarrow> (\<exists>b. vars s v = Some (Some b) \<and> cells s b = Some x)"
    using e [of v] l [of v] by (auto split: option.splits bind_splits)
qed

lemma holds_values_facts:
  assumes "holds_values \<sigma> s"
  shows "cells s (brk s) = None" and "vars s v \<noteq> Some (Some (brk s))"
    and "vars s v = Some (Some b) \<Longrightarrow> cells s b \<noteq> None"
    and "vars s v = Some (Some b) \<Longrightarrow> vars s w = Some (Some b) \<Longrightarrow> v = w"
  using assms by (fastforce simp: holds_values_def fresh_above_def)+

lemma holds_values_says [simp]: "holds_values \<sigma> (says s ls) = holds_values \<sigma> s"
  by (simp add: holds_values_def fresh_above_def says_def cong: option.case_cong)

lemma holds_valuesI:
  assumes "fresh_above s"
    and "\<And>v. \<sigma> v = (case vars s v of None \<Rightarrow> None | Some p \<Rightarrow> Some (Option.bind p (cells s)))"
    and "\<And>v b. vars s v = Some (Some b) \<Longrightarrow> cells s b \<noteq> None"
    and "\<And>v w b. vars s v = Some (Some b) \<Longrightarrow> vars s w = Some (Some b) \<Longrightarrow> v = w"
    and "\<And>b. cells s b \<noteq> None \<Longrightarrow> \<exists>v. vars s v = Some (Some b)"
  shows "holds_values \<sigma> s"
  unfolding holds_values_def using assms by blast

lemma holds_valuesD:
  assumes "holds_values \<sigma> s"
  shows "fresh_above s" and "\<sigma> v = (case vars s v of None \<Rightarrow> None | Some p \<Rightarrow> Some (Option.bind p (cells s)))"
    and "cells s b \<noteq> None \<Longrightarrow> \<exists>v. vars s v = Some (Some b)"
  using assms unfolding holds_values_def by blast+

lemma values_new_array:
  assumes h: "holds_values \<sigma> s" and v: "vars s v = None"
  shows "holds_values (\<sigma>(v \<mapsto> Some x))
    (s\<lparr>cells := (cells s)(brk s \<mapsto> x), brk := Suc (brk s), vars := (vars s)(v \<mapsto> Some (brk s))\<rparr>)"
    (is "holds_values ?\<sigma> ?t")
proof (rule holds_valuesI)
  note f = holds_values_facts [OF h] holds_valuesD [OF h]
  show "fresh_above ?t" using f(5) by (auto simp: fresh_above_def)
  show "?\<sigma> w = (case vars ?t w of None \<Rightarrow> None | Some p \<Rightarrow> Some (Option.bind p (cells ?t)))" for w
    using f(6) [of w] f(2) [of w] by (auto split: option.splits bind_splits)
  show "cells ?t b \<noteq> None" if "vars ?t w = Some (Some b)" for w b
    using that f(3) [of w b] by (auto split: if_splits)
  show "w = w'" if "vars ?t w = Some (Some b)" "vars ?t w' = Some (Some b)" for w w' b
    using that f(2) f(4) [of w b w'] by (auto split: if_splits)
  show "\<exists>w. vars ?t w = Some (Some b)" if "cells ?t b \<noteq> None" for b
    using that f(7) [of b] v by (auto split: if_splits) (metis option.distinct(1))
qed

lemma values_drop:
  assumes h: "holds_values \<sigma> s" and v: "vars s v = Some p"
  shows "holds_values (\<sigma>(v := None))
    (s\<lparr>cells := (case p of None \<Rightarrow> cells s | Some b \<Rightarrow> (cells s)(b := None)), vars := (vars s)(v := None)\<rparr>)"
    (is "holds_values ?\<sigma> ?t")
proof (rule holds_valuesI)
  note f = holds_values_facts [OF h] holds_valuesD [OF h]
  show "fresh_above ?t" using f(5) by (auto simp: fresh_above_def split: option.split)
  show "?\<sigma> w = (case vars ?t w of None \<Rightarrow> None | Some p \<Rightarrow> Some (Option.bind p (cells ?t)))" for w
    using f(6) [of w] f(4) [of v _ w] v by (auto split: option.splits bind_splits)
  show "cells ?t b \<noteq> None" if "vars ?t w = Some (Some b)" for w b
    using that f(3) [of w b] f(4) [of v b w] v by (auto split: if_splits option.splits)
  show "w = w'" if "vars ?t w = Some (Some b)" "vars ?t w' = Some (Some b)" for w w' b
    using that f(4) [of w b w'] by (auto split: if_splits)
  show "\<exists>w. vars ?t w = Some (Some b)" if "cells ?t b \<noteq> None" for b
  proof -
    from that have "cells s b \<noteq> None" "p \<noteq> Some b" by (auto split: option.splits if_splits)
    moreover from this obtain w where "vars s w = Some (Some b)" using f(7) [of b] by blast
    ultimately show ?thesis using v by (intro exI [of _ w]) auto
  qed
qed

lemma values_null:
  assumes h: "holds_values \<sigma> s" and v: "vars s v = None"
  shows "holds_values (\<sigma>(v \<mapsto> None)) (s\<lparr>vars := (vars s)(v \<mapsto> None)\<rparr>)" (is "holds_values ?\<sigma> ?t")
proof (rule holds_valuesI)
  note f = holds_values_facts [OF h] holds_valuesD [OF h]
  show "fresh_above ?t" using f(5) by (auto simp: fresh_above_def)
  show "?\<sigma> w = (case vars ?t w of None \<Rightarrow> None | Some p \<Rightarrow> Some (Option.bind p (cells ?t)))" for w
    using f(6) [of w] by (auto split: option.splits)
  show "cells ?t b \<noteq> None" if "vars ?t w = Some (Some b)" for w b
    using that f(3) [of w b] by (auto split: if_splits)
  show "w = w'" if "vars ?t w = Some (Some b)" "vars ?t w' = Some (Some b)" for w w' b
    using that f(4) [of w b w'] by (auto split: if_splits)
  show "\<exists>w. vars ?t w = Some (Some b)" if "cells ?t b \<noteq> None" for b
  proof -
    from that obtain w where "vars s w = Some (Some b)" using f(7) [of b] by auto
    with v show ?thesis by (intro exI [of _ w]) auto
  qed
qed

text \<open>Exchanging the pointers of two variables exchanges their values.\<close>

lemma values_exchange:
  assumes h: "holds_values \<sigma> s"
  shows "holds_values (\<sigma>(v := \<sigma> w, w := \<sigma> v)) (s\<lparr>vars := (vars s)(v := vars s w, w := vars s v)\<rparr>)"
    (is "holds_values ?\<sigma> ?t")
proof (rule holds_valuesI)
  note f = holds_values_facts [OF h] holds_valuesD [OF h]
  show "fresh_above ?t" using f(5) by (auto simp: fresh_above_def)
  show "?\<sigma> u = (case vars ?t u of None \<Rightarrow> None | Some p \<Rightarrow> Some (Option.bind p (cells ?t)))" for u
    using f(6) [of u] f(6) [of v] f(6) [of w] by (auto cong: option.case_cong)
  show "cells ?t b \<noteq> None" if "vars ?t u = Some (Some b)" for u b
    using that f(3) by (auto split: if_splits)
  show "u = u'" if "vars ?t u = Some (Some b)" "vars ?t u' = Some (Some b)" for u u' b
    using that f(4) by (auto split: if_splits)
  show "\<exists>u. vars ?t u = Some (Some b)" if "cells ?t b \<noteq> None" for b
  proof -
    from that obtain u where u: "vars s u = Some (Some b)" using f(7) [of b] by auto
    show ?thesis
      by (rule exI [of _ "if u = v then w else if u = w then v else u"]) (use u in auto)
  qed
qed

lemma values_store:
  assumes h: "holds_values \<sigma> s" and v: "vars s v = Some (Some a)" 
  shows "holds_values (\<sigma>(v \<mapsto> Some x)) (s\<lparr>cells := (cells s)(a \<mapsto> x)\<rparr>)" (is "holds_values ?\<sigma> ?t")
proof (rule holds_valuesI)
  note f = holds_values_facts [OF h] holds_valuesD [OF h]
  show "fresh_above ?t" using f(5) f(3) [OF v] by (auto simp: fresh_above_def)
  show "?\<sigma> w = (case vars ?t w of None \<Rightarrow> None | Some p \<Rightarrow> Some (Option.bind p (cells ?t)))" for w
  proof (cases "w = v")
    case True
    with v show ?thesis by simp
  next
    case False
    then have "vars s w \<noteq> Some (Some a)" using f(4) [of v a w] v by blast
    with False show ?thesis using f(6) [of w] by (auto split: option.split bind_split)
  qed
  show "cells ?t b \<noteq> None" if "vars ?t w = Some (Some b)" for w b
    using that f(3) [of w b] by auto
  show "w = w'" if "vars ?t w = Some (Some b)" "vars ?t w' = Some (Some b)" for w w' b
    using that f(4) [of w b w'] by auto
  show "\<exists>w. vars ?t w = Some (Some b)" if "cells ?t b \<noteq> None" for b
    using that f(7) [of b] v by (auto split: if_splits)
qed

lemma all_destroyed: "holds_values (\<lambda>_. None) t \<Longrightarrow> cells t = (\<lambda>_. None)"
  by (rule ext) (metis holds_valuesD(3) option.distinct(1) var_cases(1))

end
