(* ===== verification/RuleOfFive.thy ===== *)
theory RuleOfFive
  imports Ownership
begin

text \<open>
  \<open>src/core/class/RoleOfThreeFiveZero.cpp\<close>: a class that holds a C string on the heap, without special
  members (namespace \<open>problem\<close>), with the three, with the five, and with a \<open>std::string\<close>.

  An object has one field, the pointer \<open>cstring_\<close>; the objects are variables, the character arrays,
  with their terminating zero, are the cells of the heap.

  Lemmas: with the five members the class has value semantics: it refines a store of values, and every
  array has exactly one owner.  Without them two objects share an array.
\<close>

section \<open>Variables and character arrays\<close>

type_synonym strings = "string stack"

type_synonym 'a sprog = "(strings, 'a) prog"

abbreviation NUL :: char where
  "NUL \<equiv> CHR 0x00"

definition c_string :: "string \<Rightarrow> string" where
  "c_string b = takeWhile (\<lambda>c. c \<noteq> NUL) b"

text \<open>\<open>std::strlen\<close> and \<open>std::strcpy\<close> need a terminated array; the result is the copied array.\<close>

definition dup :: "ptr \<Rightarrow> ptr sprog" where
  "dup p = (if p = None then ret None
     else seq (load p) (\<lambda>b. if NUL \<in> set b then alloc (c_string b @ [NUL]) else undef BadIndex))"

text \<open>The constructor \<open>Model(const char* s)\<close>, for a literal or a null pointer.\<close>

definition new_Model :: "nat \<Rightarrow> string option \<Rightarrow> unit sprog" where
  "new_Model v l = (case l of None \<Rightarrow> set_pointer v None
     | Some x \<Rightarrow> seq (alloc (c_string x @ [NUL])) (set_pointer v))"

definition c_str :: "nat \<Rightarrow> ptr sprog" where
  "c_str v = pointer v"

definition set_first_char :: "nat \<Rightarrow> char \<Rightarrow> unit sprog" where
  "set_first_char v ch = seq (pointer v) (\<lambda>p. if p = None then ret ()
     else seq (load p) (\<lambda>b. if b = [] then undef BadIndex else store p (b[0 := ch])))"

text \<open>The text printed for a non-null \<open>const char*\<close>.\<close>

definition text_of :: "ptr \<Rightarrow> string sprog" where
  "text_of p = seq (load p) (\<lambda>b. if NUL \<in> set b then ret (c_string b) else undef BadIndex)"

definition text_or_null :: "ptr \<Rightarrow> string sprog" where
  "text_or_null p = (if p = None then ret ''null'' else text_of p)"

section \<open>Without special members\<close>

text \<open>The implicit copy constructor, and the destructor that only prints; \<open>at_addr\<close> prints an address.\<close>

definition problem_copy :: "nat \<Rightarrow> nat \<Rightarrow> unit sprog" where
  "problem_copy v other = seq (pointer other) (set_pointer v)"

definition problem_delete :: "(ptr \<Rightarrow> string) \<Rightarrow> nat \<Rightarrow> unit sprog" where
  "problem_delete at_addr v = seq (pointer v) (\<lambda>p.
     seq (cout (''Deleted cstring at: '' @ at_addr p @ endl)) (\<lambda>_. end_of_life v))"

definition show_two :: "string \<Rightarrow> string \<Rightarrow> unit sprog" where
  "show_two note1 note2 =
     seq (c_str 1) (\<lambda>p. seq (text_of p) (\<lambda>x. seq (cout (''  str1 = '' @ x @ note1 @ endl)) (\<lambda>_.
     seq (c_str 2) (\<lambda>q. seq (text_of q) (\<lambda>y. cout (''  str2 = '' @ y @ note2 @ endl))))))"

text \<open>The variables of each \<open>run\<close> are numbered: \<open>str1\<close>, \<open>str2\<close>, \<open>str\<close> and \<open>str_move\<close>; they are
  destroyed in reverse order at the end of the block.\<close>

definition problem_run :: "(ptr \<Rightarrow> string) \<Rightarrow> unit sprog" where
  "problem_run at_addr = block [
     cout (endl @ endl @ ''Problem'' @ endl),
     new_Model 1 (Some ''str1''),
     problem_copy 2 1,
     cout (''Before change:'' @ endl),
     show_two '''' '''',
     cout (endl @ ''[P1] Shallow copy (shared pointer).'' @ endl),
     set_first_char 2 (CHR ''X''),
     cout (endl @ ''After modifying str2.set_first_char('' @ [CHR 0x27] @ ''X'' @ [CHR 0x27] @ ''):'' @ endl),
     show_two ''   <-- also changed!'' '''',
     cout (endl @ ''[P2] Decontructor issue when releasing the shared pointer.'' @ endl),
     problem_delete at_addr 2,
     problem_delete at_addr 1]"

section \<open>The special members\<close>

definition delete_Model :: "(ptr \<Rightarrow> string) \<Rightarrow> nat \<Rightarrow> unit sprog" where
  "delete_Model at_addr v = seq (pointer v) (\<lambda>p. seq (free p) (\<lambda>_.
     seq (cout (''Deleted cstring at: '' @ at_addr p @ endl)) (\<lambda>_. end_of_life v)))"

definition copy_Model :: "nat \<Rightarrow> nat \<Rightarrow> unit sprog" where
  "copy_Model v other = seq (pointer other) (\<lambda>p. seq (dup p) (set_pointer v))"

text \<open>The copy assignment: a temporary copy, exchanged with this object and destroyed.\<close>

definition assign_Model :: "(ptr \<Rightarrow> string) \<Rightarrow> nat \<Rightarrow> nat \<Rightarrow> unit sprog" where
  "assign_Model at_addr v other = seq (pointer other) (\<lambda>p. seq (dup p) (\<lambda>temp.
     seq (pointer v) (\<lambda>old. seq (set_pointer v temp) (\<lambda>_.
     seq (free old) (\<lambda>_. cout (''Deleted cstring at: '' @ at_addr old @ endl))))))"

definition move_Model :: "nat \<Rightarrow> nat \<Rightarrow> unit sprog" where
  "move_Model v other = seq (pointer other) (\<lambda>p. seq (set_pointer other None) (\<lambda>_. set_pointer v p))"

definition move_assign_Model :: "nat \<Rightarrow> nat \<Rightarrow> unit sprog" where
  "move_assign_Model v other = seq (pointer v) (\<lambda>p. seq (pointer other) (\<lambda>q.
     seq (set_pointer v q) (\<lambda>_. set_pointer other p)))"

text \<open>The \<open>run\<close> of the namespaces \<open>role_of_three\<close> and \<open>role_of_five\<close>, which differ in the first line and in
  what \<open>std::move\<close> selects.\<close>

definition members_run :: "string \<Rightarrow> (nat \<Rightarrow> nat \<Rightarrow> unit sprog) \<Rightarrow> (ptr \<Rightarrow> string) \<Rightarrow> unit sprog" where
  "members_run header move at_addr = block [
     cout (endl @ endl @ header @ endl),
     new_Model 1 (Some ''str1''),
     copy_Model 2 1,
     cout (''Before change:'' @ endl),
     show_two '''' '''',
     set_first_char 2 (CHR ''X''),
     cout (endl @ ''After modifying str2.set_first_char('' @ [CHR 0x27] @ ''X'' @ [CHR 0x27] @ ''):'' @ endl),
     show_two ''   <-- not changed!'' '''',
     new_Model 3 (Some ''there''),
     move 4 3,
     cout (endl @ ''After moving str into str_move:'' @ endl),
     seq (c_str 3) (\<lambda>p. seq (text_or_null p) (\<lambda>x. cout (''  str.c_str()      = '' @ x @ endl))),
     seq (c_str 4) (\<lambda>p. seq (text_or_null p) (\<lambda>x. cout (''  str_move.c_str() = '' @ x @ endl))),
     delete_Model at_addr 4, delete_Model at_addr 3, delete_Model at_addr 2, delete_Model at_addr 1]"

definition role_of_three_run :: "(ptr \<Rightarrow> string) \<Rightarrow> unit sprog" where
  "role_of_three_run = members_run ''Role of three'' copy_Model"

definition role_of_five_run :: "(ptr \<Rightarrow> string) \<Rightarrow> unit sprog" where
  "role_of_five_run = members_run ''Role of Five'' move_Model"

lemmas member_defs [defs] = pointer_def set_pointer_def end_of_life_def dup_def new_Model_def set_first_char_def
  text_of_def text_or_null_def problem_copy_def problem_delete_def show_two_def c_str_def delete_Model_def
  copy_Model_def assign_Model_def move_Model_def move_assign_Model_def

section \<open>With \<open>std::string\<close>\<close>

text \<open>The namespace \<open>role_of_zero\<close>: the object is its string; \<open>moved\<close> is what the library leaves in a string
  that was moved from.\<close>

definition zero_set_first_char :: "string \<Rightarrow> char \<Rightarrow> ('s, string) prog" where
  "zero_set_first_char str ch = (if str = '''' then throw ''out_of_range'' else ret (str[0 := ch]))"

definition role_of_zero_run :: "string \<Rightarrow> (strings, unit) prog" where
  "role_of_zero_run moved =
     (let str1 = ''str1''; str2 = str1 in
     seq (block [cout (endl @ endl @ ''Role of Zero'' @ endl), cout (''Before change:'' @ endl),
       cout (''  str1 = '' @ str1 @ endl), cout (''  str2 = '' @ str2 @ endl)]) (\<lambda>_.
     seq (zero_set_first_char str2 (CHR ''X'')) (\<lambda>str2'.
     block [
       cout (endl @ ''After modifying str2.set_first_char('' @ [CHR 0x27] @ ''X'' @ [CHR 0x27] @ ''):'' @ endl),
       cout (''  str1 = '' @ str1 @ ''   <-- not changed!'' @ endl), cout (''  str2 = '' @ str2' @ endl),
       cout (endl @ ''After moving str into str_move:'' @ endl),
       cout (''  str.c_str()      = '' @ moved @ endl), cout (''  str_move.c_str() = '' @ ''there'' @ endl)])))"

section \<open>A store of values\<close>

text \<open>
  The specification: each live variable has a value, an array of characters or none.  A copy has the
  string of its source; a move takes the value away; a move assignment exchanges the values.
\<close>

type_synonym store = "nat \<Rightarrow> string option option"

datatype command =
    New nat "string option"
  | Copy nat nat
  | Assign nat nat
  | Move nat nat
  | MoveAssign nat nat
  | SetFirst nat char
  | Delete nat

fun run_command :: "(ptr \<Rightarrow> string) \<Rightarrow> command \<Rightarrow> unit sprog" where
  "run_command at_addr (New v l) = new_Model v l"
| "run_command at_addr (Copy v w) = copy_Model v w"
| "run_command at_addr (Assign v w) = assign_Model at_addr v w"
| "run_command at_addr (Move v w) = move_Model v w"
| "run_command at_addr (MoveAssign v w) = move_assign_Model v w"
| "run_command at_addr (SetFirst v c) = set_first_char v c"
| "run_command at_addr (Delete v) = delete_Model at_addr v"

definition terminated :: "string option option \<Rightarrow> bool" where
  "terminated x \<longleftrightarrow> (\<forall>b. x = Some (Some b) \<longrightarrow> NUL \<in> set b)"

definition copied :: "string option option \<Rightarrow> string option option" where
  "copied x = map_option (map_option (\<lambda>b. c_string b @ [NUL])) x"

text \<open>When the language allows the command: the constructed variable is new, the others are alive,
  and a copied array is terminated.\<close>

fun allowed :: "store \<Rightarrow> command \<Rightarrow> bool" where
  "allowed \<sigma> (New v l) \<longleftrightarrow> \<sigma> v = None"
| "allowed \<sigma> (Copy v w) \<longleftrightarrow> \<sigma> v = None \<and> \<sigma> w \<noteq> None \<and> terminated (\<sigma> w)"
| "allowed \<sigma> (Assign v w) \<longleftrightarrow> \<sigma> v \<noteq> None \<and> \<sigma> w \<noteq> None \<and> terminated (\<sigma> w)"
| "allowed \<sigma> (Move v w) \<longleftrightarrow> \<sigma> v = None \<and> \<sigma> w \<noteq> None"
| "allowed \<sigma> (MoveAssign v w) \<longleftrightarrow> \<sigma> v \<noteq> None \<and> \<sigma> w \<noteq> None"
| "allowed \<sigma> (SetFirst v c) \<longleftrightarrow> \<sigma> v \<noteq> None \<and> \<sigma> v \<noteq> Some (Some '''')"
| "allowed \<sigma> (Delete v) \<longleftrightarrow> \<sigma> v \<noteq> None"

fun spec_step :: "command \<Rightarrow> store \<Rightarrow> store" where
  "spec_step (New v l) \<sigma> = \<sigma>(v \<mapsto> map_option (\<lambda>x. c_string x @ [NUL]) l)"
| "spec_step (Copy v w) \<sigma> = \<sigma>(v := copied (\<sigma> w))"
| "spec_step (Assign v w) \<sigma> = \<sigma>(v := copied (\<sigma> w))"
| "spec_step (Move v w) \<sigma> = \<sigma>(w \<mapsto> None, v := \<sigma> w)"
| "spec_step (MoveAssign v w) \<sigma> = \<sigma>(v := \<sigma> w, w := \<sigma> v)"
| "spec_step (SetFirst v c) \<sigma> = \<sigma>(v := map_option (map_option (\<lambda>b. b[0 := c])) (\<sigma> v))"
| "spec_step (Delete v) \<sigma> = \<sigma>(v := None)"

fun all_allowed :: "store \<Rightarrow> command list \<Rightarrow> bool" where
  "all_allowed \<sigma> [] \<longleftrightarrow> True"
| "all_allowed \<sigma> (c # cs) \<longleftrightarrow> allowed \<sigma> c \<and> all_allowed (spec_step c \<sigma>) cs"

section \<open>Each operation implements its specification\<close>

abbreviation implements :: "unit sprog \<Rightarrow> (store \<Rightarrow> store) \<Rightarrow> store \<Rightarrow> strings \<Rightarrow> bool" where
  "implements m f \<sigma> s \<equiv> \<exists>t. m s = Done () t \<and> holds_values (f \<sigma>) t"

lemma new_Model_values:
  assumes "holds_values \<sigma> s" and "\<sigma> v = None"
  shows "implements (new_Model v l) (spec_step (New v l)) \<sigma> s"
proof (cases l)
  case None
  with assms show ?thesis by (simp add: new_Model_def set_pointer_def values_null var_cases)
next
  case (Some x)
  with assms show ?thesis
    by (simp add: new_Model_def set_pointer_def seq_def alloc_def values_new_array var_cases)
qed

lemma dup_values:
  assumes "holds_values \<sigma> s" and "vars s w = Some p" and "terminated (\<sigma> w)"
  shows "dup p s = (case p of None \<Rightarrow> Done None s
    | Some b \<Rightarrow> alloc (c_string (the (cells s b)) @ [NUL]) s)"
proof (cases p)
  case (Some b)
  obtain x where x: "cells s b = Some x" using holds_values_facts(3) assms Some by blast
  with assms Some have "\<sigma> w = Some (Some x)" by (simp add: var_cases(3))
  with assms(3) have "NUL \<in> set x" by (simp add: terminated_def)
  with Some x show ?thesis by (simp add: dup_def seq_def load_def)
qed (simp add: dup_def ret_def)

lemma copied_var:
  assumes "holds_values \<sigma> s" and "vars s w = Some p"
  shows "copied (\<sigma> w) = Some (map_option (\<lambda>b. c_string (the (cells s b)) @ [NUL]) p)"
  using assms holds_valuesD(2) [OF assms(1), of w] holds_values_facts(3) [OF assms(1), of w]
  by (cases p) (auto simp: copied_def)

lemma copy_Model_values:
  assumes "holds_values \<sigma> s" and "\<sigma> v = None" and "\<sigma> w \<noteq> None" and "terminated (\<sigma> w)"
  shows "implements (copy_Model v w) (spec_step (Copy v w)) \<sigma> s"
proof -
  obtain p where p: "vars s w = Some p" using assms by (auto simp: var_cases)
  with assms show ?thesis
    by (cases p) (simp_all add: copy_Model_def pointer_def set_pointer_def seq_def dup_values copied_var
      alloc_def values_new_array values_null var_cases)
qed

lemma delete_Model_values:
  assumes "holds_values \<sigma> s" and "\<sigma> v \<noteq> None"
  shows "implements (delete_Model at_addr v) (spec_step (Delete v)) \<sigma> s"
proof -
  obtain p where p: "vars s v = Some p" using assms by (auto simp: var_cases)
  define ls where "ls = [Cout (''Deleted cstring at: '' @ at_addr p @ endl)]"
  have "delete_Model at_addr v s = Done () (says (s\<lparr>cells := (case p of None \<Rightarrow> cells s | Some b \<Rightarrow> (cells s)(b := None)),
      vars := (vars s)(v := None)\<rparr>) ls)"
    using p holds_values_facts(3) [OF assms(1), of v]
    by (auto simp: delete_Model_def pointer_def end_of_life_def seq_def free_def cout_def emit_def ls_def says_def
      split: option.split)
  with values_drop [OF assms(1) p] show ?thesis by simp
qed

lemma move_assign_Model_values:
  assumes "holds_values \<sigma> s" and "\<sigma> v \<noteq> None" and "\<sigma> w \<noteq> None"
  shows "implements (move_assign_Model v w) (spec_step (MoveAssign v w)) \<sigma> s"
proof -
  obtain p q where p: "vars s v = Some p" "vars s w = Some q" using assms by (auto simp: var_cases)
  with values_exchange [OF assms(1), of v w] show ?thesis
    by (simp add: move_assign_Model_def pointer_def set_pointer_def seq_def)
qed

lemma move_Model_values:
  assumes "holds_values \<sigma> s" and "\<sigma> v = None" and "\<sigma> w \<noteq> None"
  shows "implements (move_Model v w) (spec_step (Move v w)) \<sigma> s"
proof -
  obtain p where p: "vars s w = Some p" "vars s v = None" using assms by (auto simp: var_cases)
  have "v \<noteq> w" using p by auto
  with values_exchange [OF values_null [OF assms(1) p(2)], of v w] p show ?thesis
    by (simp add: move_Model_def pointer_def set_pointer_def seq_def fun_upd_twist)
qed

lemma set_first_char_values:
  assumes "holds_values \<sigma> s" and "\<sigma> v \<noteq> None" and "\<sigma> v \<noteq> Some (Some '''')"
  shows "implements (set_first_char v c) (spec_step (SetFirst v c)) \<sigma> s"
proof -
  obtain p where p: "vars s v = Some p" using assms by (auto simp: var_cases)
  show ?thesis
  proof (cases p)
    case None
    with p assms have "\<sigma> v = Some None" by (simp add: var_cases)
    then have "spec_step (SetFirst v c) \<sigma> = \<sigma>" by auto
    with None p assms show ?thesis by (simp add: set_first_char_def pointer_def seq_def ret_def)
  next
    case (Some b)
    obtain x where x: "cells s b = Some x" using holds_values_facts(3) assms(1) p Some by blast
    with assms p Some have e: "\<sigma> v = Some (Some x)" by (simp add: var_cases(3))
    with assms(3) have "x \<noteq> []" by auto
    with values_store [OF assms(1), of v b "x[0 := c]"] p Some x e show ?thesis
      by (simp add: set_first_char_def pointer_def seq_def ret_def load_def store_def)
  qed
qed

text \<open>The replaced array is freed, and the fresh copy takes its place: also for \<open>x = x\<close>.\<close>

lemma assign_Model_values:
  assumes h: "holds_values \<sigma> s" and v: "\<sigma> v \<noteq> None" and w: "\<sigma> w \<noteq> None" "terminated (\<sigma> w)"
  shows "implements (assign_Model at_addr v w) (spec_step (Assign v w)) \<sigma> s"
proof -
  obtain p q where p: "vars s v = Some p" "vars s w = Some q" using assms by (auto simp: var_cases)
  define ls where "ls = [Cout (''Deleted cstring at: '' @ at_addr p @ endl)]"
  define t where "t = s\<lparr>cells := (case p of None \<Rightarrow> cells s | Some b \<Rightarrow> (cells s)(b := None)), vars := (vars s)(v := None)\<rparr>"
  have t: "holds_values (\<sigma>(v := None)) t" "vars t v = None" "brk t = brk s"
    using values_drop [OF h p(1)] by (simp_all add: t_def)
  note dup = dup_values [OF h p(2) w(2)] and live = holds_values_facts(1,2,3) [OF h]
  show ?thesis
  proof (cases q)
    case None
    have "assign_Model at_addr v w s = Done () (says (t\<lparr>vars := (vars t)(v \<mapsto> None)\<rparr>) ls)"
      using p live(3) [of v] dup None
      by (auto simp: assign_Model_def pointer_def set_pointer_def seq_def free_def cout_def emit_def ls_def says_def
        t_def split: option.split)
    with values_null [OF t(1,2)] h p None show ?thesis by (simp add: copied_var)
  next
    case (Some b)
    define x where "x = c_string (the (cells s b)) @ [NUL]"
    have "assign_Model at_addr v w s = Done () (says (t\<lparr>cells := (cells t)(brk t \<mapsto> x), brk := Suc (brk t),
        vars := (vars t)(v \<mapsto> Some (brk t))\<rparr>) ls)"
      using p live(2,3) [of v] live(1) dup Some
      by (auto simp: assign_Model_def pointer_def set_pointer_def seq_def free_def cout_def emit_def ls_def says_def
        t_def alloc_def x_def fun_upd_twist split: option.split)
    with values_new_array [OF t(1,2), of x] h p Some show ?thesis by (simp add: copied_var x_def)
  qed
qed

lemma run_command_values:
  assumes "holds_values \<sigma> s" and "allowed \<sigma> c"
  shows "implements (run_command at_addr c) (spec_step c) \<sigma> s"
  using assms
  by (cases c) (simp_all add: new_Model_values copy_Model_values assign_Model_values move_Model_values
    move_assign_Model_values set_first_char_values delete_Model_values del: spec_step.simps)

text \<open>
  C8.  With the five special members the class has the semantics of a value: any sequence of
  constructions, copies, assignments (also of an object to itself), moves, first-character updates and
  destructions that the language allows runs without undefined behaviour, leaves every variable with
  the value the store of values gives it, and keeps each array with exactly one owner.
\<close>

theorem rule_of_five_values:
  assumes "holds_values \<sigma> s" and "all_allowed \<sigma> cs"
  shows "\<exists>t. block (map (run_command at_addr) cs) s = Done () t \<and> holds_values (fold spec_step cs \<sigma>) t"
  using assms
proof (induction cs arbitrary: \<sigma> s)
  case Nil
  then show ?case by (simp add: ret_def)
next
  case (Cons c cs)
  then obtain t where t: "run_command at_addr c s = Done () t" "holds_values (spec_step c \<sigma>) t"
    using run_command_values by fastforce
  from Cons.IH [OF t(2)] Cons.prems(2) t(1) show ?case by (auto simp: seq_def)
qed

definition no_objects :: strings where
  "no_objects = \<lparr>cells = (\<lambda>_. None), brk = 0, out = [], vars = (\<lambda>_. None)\<rparr>"

definition copies_and_moves :: "command list" where
  "copies_and_moves = [New 0 (Some ''ab''), Copy 1 0, SetFirst 1 (CHR ''x''), Move 2 0, MoveAssign 1 2,
     Assign 1 1, Delete 0, New 0 None, Assign 2 0]"

lemma no_objects_values: "holds_values (\<lambda>_. None) no_objects"
  by (simp add: holds_values_def no_objects_def fresh_above_def)

lemma rule_of_five_values_witness:
  "\<exists>t. block (map (run_command (\<lambda>p. ''0x10'')) copies_and_moves) no_objects = Done () t
     \<and> holds_values (fold spec_step copies_and_moves (\<lambda>_. None)) t"
  by (rule rule_of_five_values [OF no_objects_values])
    (simp add: copies_and_moves_def terminated_def copied_def c_string_def)

section \<open>The demonstrations\<close>

text \<open>Without the members the copy shares the array: a change of one object shows in the other, and the
  array is still there when both objects are gone.\<close>

lemma problem_shares_array:
  assumes "vars s v = Some (Some a)" and "cells s a = Some (b # bs)"
  shows "\<exists>t. seq (problem_copy w v) (\<lambda>_. set_first_char w c) s = Done () t
     \<and> vars t v = vars s v \<and> cells t a = Some (c # bs)"
  using assms by (simp add: member_defs machine)

lemma problem_run_leaks:
  "\<exists>t. problem_run at_addr no_objects = Done () t \<and> live_addrs t = [0] \<and> cells t 0 = Some (''Xtr1'' @ [NUL])
     \<and> Cout (''  str1 = Xtr1   <-- also changed!'' @ endl) \<in> set (out t)"
  by (simp add: problem_run_def no_objects_def member_defs machine c_string_def live_addrs_def)

lemma role_of_three_outcome:
  "\<exists>t. role_of_three_run at_addr no_objects = Done () t \<and> cells t = (\<lambda>_. None) \<and> vars t = (\<lambda>_. None)
     \<and> Cout (''  str1 = str1   <-- not changed!'' @ endl) \<in> set (out t)
     \<and> Cout (''  str.c_str()      = there'' @ endl) \<in> set (out t)
     \<and> Cout (''  str_move.c_str() = there'' @ endl) \<in> set (out t)"
  by (simp add: role_of_three_run_def members_run_def no_objects_def member_defs machine c_string_def fun_eq_iff)

lemma role_of_five_outcome:
  "\<exists>t. role_of_five_run at_addr no_objects = Done () t \<and> cells t = (\<lambda>_. None) \<and> vars t = (\<lambda>_. None)
     \<and> Cout (''  str1 = str1   <-- not changed!'' @ endl) \<in> set (out t)
     \<and> Cout (''  str.c_str()      = null'' @ endl) \<in> set (out t)
     \<and> Cout (''  str_move.c_str() = there'' @ endl) \<in> set (out t)"
  by (simp add: role_of_five_run_def members_run_def no_objects_def member_defs machine c_string_def fun_eq_iff)

text \<open>An object made from the empty string has no terminating zero after its first character was set,
  and printing or copying it reads past the array.\<close>

lemma set_first_char_of_empty:
  assumes "vars s v = Some (Some a)" and "cells s a = Some [NUL]" and "c \<noteq> NUL"
  shows "seq (set_first_char v c) (\<lambda>_. copy_Model w v) s = Undef BadIndex"
    and "seq (set_first_char v c) (\<lambda>_. seq (c_str v) text_of) s = Undef BadIndex"
  using assms by (simp_all add: member_defs machine)

end
