(* ===== verification/Interleaving.thy ===== *)
theory Interleaving
  imports Prelude
begin

text \<open>
  What the models of programs with threads share: a system is a step relation between states, and
  the runs of the threads are all its sequences of steps.  The locales name what a component shows of
  its own system, and what then holds of every run.
\<close>

section \<open>Systems that can always finish\<close>

text \<open>An invariant, and from every state that is not final a step towards the end.\<close>

locale finishing =
  fixes step :: "'s \<Rightarrow> 's \<Rightarrow> bool"
    and inv :: "'s \<Rightarrow> bool"
    and final :: "'s \<Rightarrow> bool"
    and left :: "'s \<Rightarrow> nat"
  assumes inv_step: "inv s \<Longrightarrow> step s t \<Longrightarrow> inv t"
    and towards_end: "inv s \<Longrightarrow> \<not> final s \<Longrightarrow> \<exists>t. step s t \<and> left t < left s"
begin

lemma inv_run: "step\<^sup>*\<^sup>* s t \<Longrightarrow> inv s \<Longrightarrow> inv t"
  by (induction rule: rtranclp_induct) (auto intro: inv_step)

lemma can_finish: "inv s \<Longrightarrow> \<exists>t. step\<^sup>*\<^sup>* s t \<and> final t \<and> inv t"
proof (induction "left s" arbitrary: s rule: less_induct)
  case less
  show ?case
  proof (cases "final s")
    case True
    with less.prems show ?thesis by blast
  next
    case False
    then obtain t where t: "step s t" "left t < left s" using towards_end less.prems by blast
    then obtain u where "step\<^sup>*\<^sup>* t u" "final u" "inv u"
      using less.hyps [OF t(2)] inv_step [OF less.prems t(1)] by blast
    with t(1) show ?thesis by (blast intro: converse_rtranclp_into_rtranclp)
  qed
qed

lemma never_stuck: "step\<^sup>*\<^sup>* s t \<Longrightarrow> inv s \<Longrightarrow> \<exists>u. step\<^sup>*\<^sup>* t u \<and> final u \<and> inv u"
  using inv_run can_finish by blast

end

text \<open>Where every step goes towards the end, every run is finite, whatever the scheduler does.\<close>

locale ending = finishing +
  assumes every_step: "inv s \<Longrightarrow> step s t \<Longrightarrow> left t < left s"
begin

lemma run_length: "(step ^^ n) s t \<Longrightarrow> inv s \<Longrightarrow> n + left t \<le> left s"
proof (induction n arbitrary: t)
  case (Suc n)
  then obtain u where u: "(step ^^ n) s u" "step u t" by auto
  have "inv u" using inv_run [OF relpowp_imp_rtranclp [OF u(1)]] Suc.prems(2) by blast
  with Suc.IH [OF u(1) Suc.prems(2)] every_step [OF _ u(2)] show ?case by fastforce
qed auto

end

end
