(* ===== verification/RaceCondition.thy ===== *)
theory RaceCondition
  imports Interleaving
begin

text \<open>
  \<open>src/core/concurrency/RaceCondition.cpp\<close>: two threads that increment one variable in a loop, without
  protection, under a mutex, and with an atomic variable.  The threads and the caller interleave; an
  unprotected increment is a read and a write.

  Lemmas: with the mutex and with the atomic variable no data race is reachable, every run ends,
  and it prints the exact sum; without protection a data race is reachable and half of all
  increments can be lost.
\<close>

section \<open>The state\<close>

text \<open>Where a thread is: at the test of its loop, in the critical section before reading the variable,
  after reading it, after writing it, or returned.\<close>

datatype pc = Test | Enter | Loaded int | Leave | Ended

record thr =
  pc :: pc
  laps :: nat

datatype caller = Begin | Spawning | Joining | Returned

record race = "unit world" +
  global :: int
  owner :: "nat option"
  threads :: "thr list"
  caller :: caller

text \<open>The bodies of the loops in the namespaces \<open>problem\<close>, \<open>mutex\<close> and \<open>atomic\<close>.\<close>

datatype variant = Problem | Mutex | Atomic

section \<open>The threads\<close>

definition set_pc :: "nat \<Rightarrow> pc \<Rightarrow> (race, unit) prog" where
  "set_pc k p s = Done () (s\<lparr>threads := (threads s)[k := (threads s ! k)\<lparr>pc := p\<rparr>]\<rparr>)"

text \<open>The end of the loop body and \<open>++i\<close>.\<close>

definition next_lap :: "nat \<Rightarrow> (race, unit) prog" where
  "next_lap k s = Done () (s\<lparr>threads := (threads s)[k := \<lparr>pc = Test, laps = Suc (laps (threads s ! k))\<rparr>]\<rparr>)"

definition set_global :: "int \<Rightarrow> (race, unit) prog" where
  "set_global x s = Done () (s\<lparr>global := x\<rparr>)"

definition set_owner :: "nat option \<Rightarrow> (race, unit) prog" where
  "set_owner m s = Done () (s\<lparr>owner := m\<rparr>)"

text \<open>One step of thread \<open>k\<close>, whose loop runs \<open>n\<close> times; \<open>None\<close> when it waits for the mutex or has
  returned.\<close>

definition turn :: "variant \<Rightarrow> nat \<Rightarrow> nat \<Rightarrow> (race, unit) oprog" where
  "turn v n k s = (case pc (threads s ! k) of
      Test \<Rightarrow>
        if laps (threads s ! k) < n then
          (case v of
             Problem \<Rightarrow> Some (set_pc k Enter s)
           | Mutex \<Rightarrow> if owner s = None then Some (seq (set_owner (Some k)) (\<lambda>_. set_pc k Enter) s) else None
           | Atomic \<Rightarrow> Some (seq (to_int32 (global s + 1)) (\<lambda>x. seq (set_global x) (\<lambda>_. next_lap k)) s))
        else Some (set_pc k Ended s)
    | Enter \<Rightarrow> Some (set_pc k (Loaded (global s)) s)
    | Loaded x \<Rightarrow> Some (seq (to_int32 (x + 1)) (\<lambda>y. seq (set_global y) (\<lambda>_.
        if v = Mutex then set_pc k Leave else next_lap k)) s)
    | Leave \<Rightarrow> Some (seq (set_owner None) (\<lambda>_. next_lap k) s)
    | Ended \<Rightarrow> None)"

section \<open>The caller\<close>

definition set_caller :: "caller \<Rightarrow> (race, unit) prog" where
  "set_caller c s = Done () (s\<lparr>caller := c\<rparr>)"

definition show_global :: "(race, unit) prog" where
  "show_global s = cout (''global_variable: '' @ show_int (global s) @ endl) s"

definition run_case_begin :: "string \<Rightarrow> (race, unit) prog" where
  "run_case_begin name = block [set_global 0, LOG (name @ ''Begin''), show_global, set_caller Spawning]"

definition spawn :: "(race, unit) prog" where
  "spawn s = Done () (s\<lparr>threads := threads s @ [\<lparr>pc = Test, laps = 0\<rparr>],
     caller := if threads s = [] then Spawning else Joining\<rparr>)"

definition run_case_end :: "string \<Rightarrow> (race, unit) prog" where
  "run_case_end name = block [show_global, LOG (name @ ''End''), set_caller Returned]"

text \<open>The steps of the caller, which runs \<open>run_case\<close>, and of the two threads.\<close>

inductive step :: "variant \<Rightarrow> nat \<Rightarrow> string \<Rightarrow> race \<Rightarrow> race \<Rightarrow> bool" for v n name where
  begins: "caller s = Begin \<Longrightarrow> run_case_begin name s = Done () t \<Longrightarrow> step v n name s t"
| spawns: "caller s = Spawning \<Longrightarrow> spawn s = Done () t \<Longrightarrow> step v n name s t"
| joins: "caller s = Joining \<Longrightarrow> \<forall>th \<in> set (threads s). pc th = Ended \<Longrightarrow> run_case_end name s = Done () t \<Longrightarrow>
    step v n name s t"
| turns: "k < length (threads s) \<Longrightarrow> turn v n k s = Some (Done () t) \<Longrightarrow> step v n name s t"

text \<open>The length of the loops, and the three calls of \<open>run_case\<close>.\<close>

definition iterations :: nat where
  "iterations = 100000"

definition case_name :: "variant \<Rightarrow> string" where
  "case_name v = (case v of Problem \<Rightarrow> ''Problem'' | Mutex \<Rightarrow> ''Mutex'' | Atomic \<Rightarrow> ''Atomic'')"

definition run_step :: "variant \<Rightarrow> race \<Rightarrow> race \<Rightarrow> bool" where
  "run_step v = step v iterations (case_name v)"

text \<open>A data race: two threads are about to access the variable without synchronisation and one of
  them writes.\<close>

definition data_race :: "race \<Rightarrow> bool" where
  "data_race s \<longleftrightarrow> (\<exists>j < length (threads s). \<exists>k < length (threads s). j \<noteq> k
     \<and> (\<exists>x. pc (threads s ! j) = Loaded x) \<and> (pc (threads s ! k) = Enter \<or> (\<exists>y. pc (threads s ! k) = Loaded y)))"

definition before_case :: "race \<Rightarrow> bool" where
  "before_case s \<longleftrightarrow> caller s = Begin \<and> threads s = [] \<and> owner s = None"

lemmas race_defs = set_pc_def next_lap_def set_global_def set_owner_def set_caller_def show_global_def
  run_case_begin_def spawn_def run_case_end_def

lemma race_says [simp]:
  "global (says s ls) = global s" "owner (says s ls) = owner s" "threads (says s ls) = threads s"
  "caller (says s ls) = caller s"
  by (simp_all add: says_def)

section \<open>Protected counters\<close>

text \<open>The increments a thread has made so far.\<close>

definition made :: "thr \<Rightarrow> nat" where
  "made th = laps th + (if pc th = Leave then 1 else 0)"

definition critical :: "pc \<Rightarrow> bool" where
  "critical p \<longleftrightarrow> p = Enter \<or> (\<exists>x. p = Loaded x) \<or> p = Leave"

text \<open>A thread in a state where the variable has the value \<open>g\<close>.\<close>

definition thread_ok :: "variant \<Rightarrow> nat \<Rightarrow> int \<Rightarrow> bool \<Rightarrow> thr \<Rightarrow> bool" where
  "thread_ok v n g owns th \<longleftrightarrow> laps th \<le> n \<and> (critical (pc th) \<longrightarrow> laps th < n) \<and> (critical (pc th) \<longleftrightarrow> owns)
     \<and> (pc th = Ended \<longrightarrow> laps th = n) \<and> (\<forall>x. pc th = Loaded x \<longrightarrow> x = g)"

definition counter_inv :: "variant \<Rightarrow> nat \<Rightarrow> race \<Rightarrow> bool" where
  "counter_inv v n s \<longleftrightarrow>
     (\<forall>k < length (threads s). thread_ok v n (global s) (owner s = Some k) (threads s ! k))
     \<and> (\<forall>k. owner s = Some k \<longrightarrow> v = Mutex \<and> k < length (threads s))
     \<and> (caller s = Begin \<longrightarrow> threads s = [])
     \<and> (caller s \<noteq> Begin \<longrightarrow> global s = int (sum_list (map made (threads s))))
     \<and> (caller s = Spawning \<longrightarrow> length (threads s) < 2)
     \<and> (caller s \<in> {Joining, Returned} \<longrightarrow> length (threads s) = 2)
     \<and> (caller s = Returned \<longrightarrow> (\<forall>th \<in> set (threads s). pc th = Ended))"

lemma sum_made_update:
  assumes "k < length ths"
  shows "int (sum_list (map made (ths[k := th]))) = int (sum_list (map made ths)) + int (made th) - int (made (ths ! k))"
proof -
  have "made (ths ! k) \<le> sum_list (map made ths)"
    using assms member_le_sum_list [of "made (ths ! k)" "map made ths"] by simp
  with assms show ?thesis by (simp add: map_update sum_list_update)
qed

lemma sum_made_le: "\<forall>th \<in> set ths. made th \<le> n \<Longrightarrow> sum_list (map made ths) \<le> length ths * n"
  by (induction ths) auto

lemma thread_ok_made: "thread_ok v n g b th \<Longrightarrow> made th \<le> n"
  by (auto simp: thread_ok_def made_def critical_def)

lemma counter_invD:
  assumes "counter_inv v n s" "k < length (threads s)"
  shows "thread_ok v n (global s) (owner s = Some k) (threads s ! k)" and "caller s \<noteq> Begin"
    and "global s = int (sum_list (map made (threads s)))" and "length (threads s) \<le> 2"
  using assms by (cases "caller s"; auto simp: counter_inv_def)+

lemma counter_bound:
  assumes "counter_inv v n s" "k < length (threads s)" "made (threads s ! k) < n"
  shows "global s + 1 \<le> 2 * int n"
proof -
  let ?ths = "(threads s)[k := \<lparr>pc = Test, laps = Suc (made (threads s ! k))\<rparr>]"
  have "\<forall>th \<in> set (threads s). made th \<le> n"
    using counter_invD(1) [OF assms(1)] thread_ok_made by (fastforce simp: in_set_conv_nth)
  then have "\<forall>th \<in> set ?ths. made th \<le> n"
    using assms(3) set_update_subset_insert [of "threads s" k] by (fastforce simp: made_def)
  then have "sum_list (map made ?ths) \<le> length ?ths * n" by (rule sum_made_le)
  also have "\<dots> \<le> 2 * n" using counter_invD(4) [OF assms(1,2)] by simp
  finally have "int (sum_list (map made ?ths)) \<le> 2 * int n" by linarith
  with assms(2) counter_invD(3) [OF assms(1,2)] show ?thesis by (simp add: sum_made_update made_def)
qed

text \<open>Only the owner of the mutex is in its critical section.\<close>

lemma others_not_loaded:
  assumes "counter_inv v n s" "j < length (threads s)" "owner s \<noteq> Some j"
  shows "pc (threads s ! j) \<noteq> Loaded x"
  using counter_invD(1) [OF assms(1,2)] assms(3) by (auto simp: thread_ok_def critical_def)

lemma counter_inv_update:
  assumes inv: "counter_inv v n s" and k: "k < length (threads s)" and run: "caller s \<noteq> Returned"
    and th: "thread_ok v n g (m = Some k) th" and g: "g = global s + int (made th) - int (made (threads s ! k))"
    and others: "\<And>j. j \<noteq> k \<Longrightarrow> m = Some j \<longleftrightarrow> owner s = Some j"
    and own: "g = global s \<or> (\<forall>j. j \<noteq> k \<longrightarrow> owner s \<noteq> Some j)" and v: "m = Some k \<Longrightarrow> v = Mutex"
  shows "counter_inv v n (s\<lparr>global := g, owner := m, threads := (threads s)[k := th]\<rparr>)"
proof -
  note D = counter_invD [OF inv]
  have "thread_ok v n g (m = Some j) ((threads s)[k := th] ! j)" if "j < length (threads s)" for j
  proof (cases "j = k")
    case False
    with D(1) [OF that] others [OF False] own others_not_loaded [OF inv that]
    show ?thesis by (auto simp: thread_ok_def)
  qed (use k th in simp)
  moreover have "m = Some j \<longrightarrow> v = Mutex \<and> j < length (threads s)" for j
    using inv others [of j] k v by (cases "j = k") (auto simp: counter_inv_def)
  ultimately show ?thesis
    using inv k run g D(2,3) [OF k] by (auto simp: counter_inv_def sum_made_update)
qed

text \<open>The number of steps that are left.\<close>

definition turns_left :: "nat \<Rightarrow> thr \<Rightarrow> nat" where
  "turns_left n th = (case pc th of
      Test \<Rightarrow> 5 * (n - laps th) + 1
    | Enter \<Rightarrow> 5 * (n - laps th)
    | Loaded _ \<Rightarrow> 5 * (n - laps th) - 1
    | Leave \<Rightarrow> 5 * (n - laps th) - 2
    | Ended \<Rightarrow> 0)"

definition steps_left :: "nat \<Rightarrow> race \<Rightarrow> nat" where
  "steps_left n s = (case caller s of Begin \<Rightarrow> 3 | Spawning \<Rightarrow> 2 | Joining \<Rightarrow> 1 | Returned \<Rightarrow> 0)
     + sum_list (map (turns_left n) (threads s)) + (2 - length (threads s)) * (5 * n + 2)"

lemma turns_left_update:
  assumes "k < length ths" "turns_left n th < turns_left n (ths ! k)"
  shows "sum_list (map (turns_left n) (ths[k := th])) < sum_list (map (turns_left n) ths)"
proof -
  have "turns_left n (ths ! k) \<le> sum_list (map (turns_left n) ths)"
    using assms member_le_sum_list [of "turns_left n (ths ! k)" "map (turns_left n) ths"] by simp
  with assms show ?thesis by (simp add: map_update sum_list_update)
qed

lemma turn_progress:
  assumes inv: "counter_inv v n s" and v: "v \<noteq> Problem" and n: "2 * int n < 2 ^ 31"
    and k: "k < length (threads s)" and r: "turn v n k s = Some r"
  shows "\<exists>t. r = Done () t \<and> counter_inv v n t \<and> steps_left n t < steps_left n s \<and> caller t = caller s \<and> out t = out s"
proof -
  let ?th = "threads s ! k"
  have ok: "thread_ok v n (global s) (owner s = Some k) ?th" by (rule counter_invD(1) [OF inv k])
  have run: "caller s \<noteq> Returned"
    using inv k r by (auto simp: counter_inv_def turn_def)
  have none: "owner s = None" if "v = Atomic" using inv that by (cases "owner s") (auto simp: counter_inv_def)
  have step: ?thesis
    if e: "r = Done () (s\<lparr>global := g, owner := m, threads := (threads s)[k := th]\<rparr>)"
      and th: "thread_ok v n g (m = Some k) th" and g: "g = global s + int (made th) - int (made ?th)"
      and others: "\<And>j. j \<noteq> k \<Longrightarrow> m = Some j \<longleftrightarrow> owner s = Some j"
      and own: "g = global s \<or> (\<forall>j. j \<noteq> k \<longrightarrow> owner s \<noteq> Some j)" and vm: "m = Some k \<Longrightarrow> v = Mutex"
      and less: "turns_left n th < turns_left n ?th" for g m th
  proof -
    let ?t = "s\<lparr>global := g, owner := m, threads := (threads s)[k := th]\<rparr>"
    have "counter_inv v n ?t" by (rule counter_inv_update [OF inv k run th g others own vm])
    moreover have "steps_left n ?t < steps_left n s" using turns_left_update [OF k less] by (simp add: steps_left_def)
    ultimately show ?thesis using e by simp
  qed
  have add: "to_int32 (global s + 1) s = Done (global s + 1) s" if "made ?th < n"
    using counter_bound [OF inv k that] counter_invD(3) [OF inv k] n by (simp add: to_int32_def int32_def ret_def)
  have here: "threads s = (threads s)[k := ?th]" by simp
  show ?thesis
  proof (cases "pc ?th")
    case Test
    show ?thesis
    proof (cases "laps ?th < n")
      case True
      note T = this
      show ?thesis
      proof (cases v)
        case Mutex
        with r Test T have "owner s = None" by (auto simp: turn_def split: if_splits)
        with r Test T Mutex ok show ?thesis
          by (intro step [where g = "global s" and m = "Some k" and th = "?th\<lparr>pc := Enter\<rparr>"])
            (auto simp: turn_def race_defs seq_def thread_ok_def critical_def made_def turns_left_def)
      next
        case Atomic
        with r Test T ok none add show ?thesis
          by (intro step [where g = "global s + 1" and m = None and th = "\<lparr>pc = Test, laps = Suc (laps ?th)\<rparr>"])
            (auto simp: turn_def race_defs seq_def ret_def thread_ok_def critical_def made_def turns_left_def)
      qed (use v in simp)
    next
      case False
      with r Test ok show ?thesis
        by (intro step [where g = "global s" and m = "owner s" and th = "?th\<lparr>pc := Ended\<rparr>"])
          (auto simp: turn_def race_defs thread_ok_def critical_def made_def turns_left_def)
    qed
  next
    case Enter
    with ok have o: "owner s = Some k" by (simp add: thread_ok_def critical_def)
    with inv have "v = Mutex" by (simp add: counter_inv_def)
    with r Enter ok o show ?thesis
      by (intro step [where g = "global s" and m = "owner s" and th = "?th\<lparr>pc := Loaded (global s)\<rparr>"])
        (auto simp: turn_def race_defs thread_ok_def critical_def made_def turns_left_def)
  next
    case (Loaded x)
    with ok have o: "owner s = Some k" "x = global s" "laps ?th < n" by (simp_all add: thread_ok_def critical_def)
    with inv have "v = Mutex" by (simp add: counter_inv_def)
    with r Loaded ok o add show ?thesis
      by (intro step [where g = "global s + 1" and m = "owner s" and th = "?th\<lparr>pc := Leave\<rparr>"])
        (auto simp: turn_def race_defs seq_def ret_def thread_ok_def critical_def made_def turns_left_def)
  next
    case Leave
    with ok have o: "owner s = Some k" "laps ?th < n" by (simp_all add: thread_ok_def critical_def)
    with inv have "v = Mutex" by (simp add: counter_inv_def)
    with r Leave ok o show ?thesis
      by (intro step [where g = "global s" and m = None and th = "\<lparr>pc = Test, laps = Suc (laps ?th)\<rparr>"])
        (auto simp: turn_def race_defs seq_def thread_ok_def critical_def made_def turns_left_def)
  next
    case Ended
    with r show ?thesis by (simp add: turn_def)
  qed
qed

section \<open>Runs with a mutex or an atomic variable\<close>

text \<open>What the caller has printed.\<close>

definition transcript :: "string \<Rightarrow> nat \<Rightarrow> caller \<Rightarrow> line list" where
  "transcript name n c = (if c = Begin then []
     else [Log (name @ ''Begin''), Cout (''global_variable: '' @ show_int 0 @ endl)]
       @ (if c = Returned then [Cout (''global_variable: '' @ show_int (2 * int n) @ endl), Log (name @ ''End'')] else []))"

lemma run_case_begin_result: "run_case_begin name s = Done () (says (s\<lparr>global := 0, caller := Spawning\<rparr>)
    [Log (name @ ''Begin''), Cout (''global_variable: '' @ show_int 0 @ endl)])"
  by (simp add: race_defs LOG_def cout_def emit_def seq_def ret_def says_def)

lemma run_case_end_result: "run_case_end name s = Done () (says (s\<lparr>caller := Returned\<rparr>)
    [Cout (''global_variable: '' @ show_int (global s) @ endl), Log (name @ ''End'')])"
  by (simp add: race_defs LOG_def cout_def emit_def seq_def ret_def says_def)

lemma all_ended_sum:
  assumes "counter_inv v n s" and "\<forall>th \<in> set (threads s). pc th = Ended" and "length (threads s) = 2"
    and "caller s \<noteq> Begin"
  shows "global s = 2 * int n"
proof -
  have "made th = n" if "th \<in> set (threads s)" for th
    using that assms(2) counter_invD(1) [OF assms(1)] by (fastforce simp: in_set_conv_nth made_def thread_ok_def)
  then have "map made (threads s) = map (\<lambda>_. n) (threads s)" by (intro map_cong) simp_all
  then have "sum_list (map made (threads s)) = 2 * n" using assms(3) by (simp add: map_replicate_const sum_list_replicate)
  then show ?thesis using assms(1,4) by (simp add: counter_inv_def)
qed

lemma begin_progress:
  assumes "counter_inv v n s" and "caller s = Begin" and "run_case_begin name s = Done () t"
  shows "counter_inv v n t \<and> steps_left n t < steps_left n s \<and> out t = out s @ transcript name n (caller t)
    \<and> caller t = Spawning"
proof -
  have "threads s = []" "owner s = None" using assms(1,2) by (auto simp: counter_inv_def)
  moreover have "t = says (s\<lparr>global := 0, caller := Spawning\<rparr>)
      [Log (name @ ''Begin''), Cout (''global_variable: '' @ show_int 0 @ endl)]"
    using assms(3) by (simp add: run_case_begin_result)
  ultimately show ?thesis using assms(2) by (simp add: counter_inv_def steps_left_def transcript_def)
qed

lemma spawn_progress:
  assumes inv: "counter_inv v n s" and c: "caller s = Spawning" and "spawn s = Done () t"
  shows "counter_inv v n t \<and> steps_left n t < steps_left n s \<and> out t = out s \<and> caller t \<in> {Spawning, Joining}"
proof -
  let ?new = "\<lparr>pc = Test, laps = 0\<rparr>"
  have t: "t = s\<lparr>threads := threads s @ [?new], caller := if threads s = [] then Spawning else Joining\<rparr>"
    using assms(3) by (simp add: spawn_def)
  have len: "threads s = [] \<or> (\<exists>th. threads s = [th])"
    using inv c by (auto simp: counter_inv_def less_Suc_eq numeral_2_eq_2 length_Suc_conv)
  have own: "owner s = Some k \<Longrightarrow> v = Mutex \<and> k < length (threads s)" for k using inv by (simp add: counter_inv_def)
  have "thread_ok v n (global s) (owner s = Some k) ((threads s @ [?new]) ! k)" if "k < Suc (length (threads s))" for k
    using that counter_invD(1) [OF inv, of k] own [of k]
    by (cases "k < length (threads s)") (auto simp: nth_append thread_ok_def critical_def less_Suc_eq)
  moreover have "made ?new = 0" "turns_left n ?new = 5 * n + 1" by (simp_all add: made_def turns_left_def)
  moreover have "global s = int (sum_list (map made (threads s)))" using inv c by (simp add: counter_inv_def)
  moreover have "counter_inv v n t"
    using calculation len own by (auto simp: t counter_inv_def less_SucI)
  moreover have "steps_left n t < steps_left n s"
    using len c by (auto simp: t steps_left_def turns_left_def)
  ultimately show ?thesis by (simp add: t)
qed

lemma step_progress:
  assumes inv: "counter_inv v n s" and v: "v \<noteq> Problem" and n: "2 * int n < 2 ^ 31" and st: "step v n name s t"
  shows "counter_inv v n t \<and> steps_left n t < steps_left n s
    \<and> (out s = before @ transcript name n (caller s) \<longrightarrow> out t = before @ transcript name n (caller t))"
  using st
proof (cases rule: step.cases)
  case begins
  with begin_progress [OF inv begins] show ?thesis by (simp add: transcript_def)
next
  case spawns
  with spawn_progress [OF inv spawns] show ?thesis by (auto simp: transcript_def)
next
  case joins
  then have t: "t = says (s\<lparr>caller := Returned\<rparr>)
      [Cout (''global_variable: '' @ show_int (global s) @ endl), Log (name @ ''End'')]"
    by (simp add: run_case_end_result)
  have "length (threads s) = 2" using inv joins(1) by (simp add: counter_inv_def)
  with all_ended_sum [OF inv joins(2)] joins(1) have "global s = 2 * int n" by simp
  with joins(1) have "out s = before @ transcript name n (caller s) \<longrightarrow> out t = before @ transcript name n (caller t)"
    by (simp add: t transcript_def)
  moreover have "counter_inv v n t" using inv joins(1,2) by (auto simp: t counter_inv_def)
  ultimately show ?thesis using joins(1) by (simp add: t steps_left_def)
next
  case (turns k)
  with turn_progress [OF inv v n] show ?thesis by fastforce
qed

lemma step_possible:
  assumes inv: "counter_inv v n s" and v: "v \<noteq> Problem" and n: "2 * int n < 2 ^ 31" and run: "caller s \<noteq> Returned"
  shows "\<exists>t. step v n name s t"
proof -
  have turn: "\<exists>t. step v n name s t" if "k < length (threads s)" "turn v n k s \<noteq> None" for k
    using that turn_progress [OF inv v n] step.turns by fastforce
  show ?thesis
  proof (cases "caller s")
    case Begin
    then show ?thesis by (blast intro: step.begins run_case_begin_result)
  next
    case Spawning
    then show ?thesis by (blast intro: step.spawns spawn_def)
  next
    case Joining
    show ?thesis
    proof (cases "owner s")
      case (Some k)
      with inv have k: "k < length (threads s)" by (simp add: counter_inv_def)
      with counter_invD(1) [OF inv k] Some have "critical (pc (threads s ! k))" by (simp add: thread_ok_def)
      with k show ?thesis by (intro turn [of k]) (auto simp: critical_def turn_def)
    next
      case None
      show ?thesis
      proof (cases "\<forall>th \<in> set (threads s). pc th = Ended")
        case True
        with Joining show ?thesis by (blast intro: step.joins run_case_end_result)
      next
        case False
        then obtain k where k: "k < length (threads s)" "pc (threads s ! k) \<noteq> Ended" by (auto simp: in_set_conv_nth)
        with None v show ?thesis
          by (intro turn [of k]) (cases v; cases "pc (threads s ! k)"; simp add: turn_def)+
      qed
    qed
  qed (use run in simp)
qed

lemma before_case_inv: "before_case s \<Longrightarrow> counter_inv v n s"
  by (simp add: before_case_def counter_inv_def)

lemma no_data_race:
  assumes "counter_inv v n s"
  shows "\<not> data_race s"
proof
  assume "data_race s"
  then obtain j k where jk: "j < length (threads s)" "k < length (threads s)" "j \<noteq> k"
      "critical (pc (threads s ! j))" "critical (pc (threads s ! k))"
    by (auto simp: data_race_def critical_def)
  with counter_invD(1) [OF assms] have "owner s = Some j" "owner s = Some k" by (auto simp: thread_ok_def)
  with jk show False by simp
qed

lemma iterations_small: "2 * int iterations < 2 ^ 31"
  by (simp add: iterations_def)

interpretation mutex: ending "run_step Mutex" "counter_inv Mutex iterations" "\<lambda>s. caller s = Returned"
    "steps_left iterations"
proof
  fix s t
  assume inv: "counter_inv Mutex iterations s"
  show "run_step Mutex s t \<Longrightarrow> counter_inv Mutex iterations t"
    and "run_step Mutex s t \<Longrightarrow> steps_left iterations t < steps_left iterations s"
    using step_progress [OF inv _ iterations_small] by (simp_all add: run_step_def)
  show "caller s \<noteq> Returned \<Longrightarrow> \<exists>t. run_step Mutex s t \<and> steps_left iterations t < steps_left iterations s"
    using step_possible [OF inv _ iterations_small] step_progress [OF inv _ iterations_small]
    by (fastforce simp: run_step_def)
qed

interpretation atomic: ending "run_step Atomic" "counter_inv Atomic iterations" "\<lambda>s. caller s = Returned"
    "steps_left iterations"
proof
  fix s t
  assume inv: "counter_inv Atomic iterations s"
  show "run_step Atomic s t \<Longrightarrow> counter_inv Atomic iterations t"
    and "run_step Atomic s t \<Longrightarrow> steps_left iterations t < steps_left iterations s"
    using step_progress [OF inv _ iterations_small] by (simp_all add: run_step_def)
  show "caller s \<noteq> Returned \<Longrightarrow> \<exists>t. run_step Atomic s t \<and> steps_left iterations t < steps_left iterations s"
    using step_possible [OF inv _ iterations_small] step_progress [OF inv _ iterations_small]
    by (fastforce simp: run_step_def)
qed

lemma run_transcript:
  assumes "(run_step v)\<^sup>*\<^sup>* s t" and "v \<noteq> Problem" and "before_case s"
  shows "counter_inv v iterations t \<and> out t = out s @ transcript (case_name v) iterations (caller t)"
  using assms
proof (induction rule: rtranclp_induct)
  case base
  then show ?case by (simp add: before_case_inv) (simp add: before_case_def transcript_def)
next
  case (step t u)
  then have "step v iterations (case_name v) t u" by (simp add: run_step_def)
  with step show ?case using step_progress [OF _ _ iterations_small, of v t "case_name v" u "out s"] by blast
qed

text \<open>
  C2.  With the mutex and with the atomic variable, however the two threads and the caller interleave:
  no data race is reachable, every run is finite and can always be continued to the return of
  \<open>run_case\<close>, and then exactly twice the number of iterations has been printed.
\<close>

theorem protected_counter_exact:
  assumes "before_case s" and "v = Mutex \<or> v = Atomic"
  shows "(\<forall>t. (run_step v)\<^sup>*\<^sup>* s t \<longrightarrow> \<not> data_race t \<and> (\<exists>u. (run_step v)\<^sup>*\<^sup>* t u \<and> caller u = Returned))
    \<and> (\<forall>n t. (run_step v ^^ n) s t \<longrightarrow> n \<le> steps_left iterations s)
    \<and> (\<forall>t. (run_step v)\<^sup>*\<^sup>* s t \<longrightarrow> caller t = Returned \<longrightarrow> out t = out s @
        [Log (case_name v @ ''Begin''), Cout (''global_variable: '' @ show_int 0 @ endl),
         Cout (''global_variable: '' @ show_int (2 * int iterations) @ endl), Log (case_name v @ ''End'')])"
proof (intro conjI allI impI)
  note inv = before_case_inv [OF assms(1)]
  show "\<not> data_race t" if "(run_step v)\<^sup>*\<^sup>* s t" for t
    using that assms run_transcript no_data_race by blast
  show "\<exists>u. (run_step v)\<^sup>*\<^sup>* t u \<and> caller u = Returned" if "(run_step v)\<^sup>*\<^sup>* s t" for t
    using that assms(2) mutex.never_stuck [OF _ inv] atomic.never_stuck [OF _ inv] by blast
  show "n \<le> steps_left iterations s" if "(run_step v ^^ n) s t" for n t
    using that assms(2) mutex.run_length [OF _ inv] atomic.run_length [OF _ inv] by fastforce
  show "out t = out s @ [Log (case_name v @ ''Begin''), Cout (''global_variable: '' @ show_int 0 @ endl),
         Cout (''global_variable: '' @ show_int (2 * int iterations) @ endl), Log (case_name v @ ''End'')]"
    if "(run_step v)\<^sup>*\<^sup>* s t" "caller t = Returned" for t
    using run_transcript [OF that(1) _ assms(1)] assms(2) that(2) by (auto simp: transcript_def)
qed

section \<open>The mutex implements the atomic variable\<close>

text \<open>A thread is seen between two atomic increments: before the write in its critical section it has
  not made the increment, after the write it has.\<close>

definition as_atomic :: "race \<Rightarrow> race" where
  "as_atomic s = s\<lparr>owner := None,
     threads := map (\<lambda>th. \<lparr>pc = (if pc th = Ended then Ended else Test), laps = made th\<rparr>) (threads s)\<rparr>"

lemma as_atomic_sel [simp]:
  "global (as_atomic s) = global s" "owner (as_atomic s) = None" "caller (as_atomic s) = caller s" "out (as_atomic s) = out s"
  "length (threads (as_atomic s)) = length (threads s)" "threads (as_atomic s) = [] \<longleftrightarrow> threads s = []"
  "(\<forall>th \<in> set (threads (as_atomic s)). pc th = Ended) \<longleftrightarrow> (\<forall>th \<in> set (threads s). pc th = Ended)"
  by (simp_all add: as_atomic_def)

lemma as_atomic_turn:
  assumes inv: "counter_inv Mutex n s" and n: "2 * int n < 2 ^ 31" and k: "k < length (threads s)"
    and r: "turn Mutex n k s = Some (Done () t)"
  shows "as_atomic t = as_atomic s \<or> turn Atomic n k (as_atomic s) = Some (Done () (as_atomic t))"
proof (cases "pc (threads s ! k)")
  case Test
  with r k show ?thesis
    by (auto simp: turn_def race_defs seq_def as_atomic_def made_def map_update list_update_same_conv split: if_splits)
next
  case Enter
  with r k show ?thesis
    by (auto simp: turn_def race_defs seq_def as_atomic_def made_def map_update list_update_same_conv)
next
  case (Loaded x)
  with counter_invD(1) [OF inv k] have th: "laps (threads s ! k) < n" "x = global s" by (auto simp: thread_ok_def critical_def)
  with Loaded have "made (threads s ! k) < n" by (simp add: made_def)
  then have "int32 (global s + 1)"
    using counter_bound [OF inv k] counter_invD(3) [OF inv k] n by (simp add: int32_def)
  with r k Loaded th show ?thesis
    by (auto simp: turn_def race_defs seq_def ret_def to_int32_def as_atomic_def made_def map_update)
next
  case Leave
  with r k show ?thesis
    by (auto simp: turn_def race_defs seq_def as_atomic_def made_def map_update list_update_same_conv)
next
  case Ended
  with r show ?thesis by (simp add: turn_def)
qed

lemma as_atomic_step:
  assumes inv: "counter_inv Mutex n s" and n: "2 * int n < 2 ^ 31" and st: "step Mutex n name s t"
  shows "as_atomic t = as_atomic s \<or> step Atomic n name (as_atomic s) (as_atomic t)"
  using st
proof (cases rule: step.cases)
  case begins
  then have "run_case_begin name (as_atomic s) = Done () (as_atomic t)"
    by (auto simp: run_case_begin_result as_atomic_def says_def)
  with begins show ?thesis by (simp add: step.begins)
next
  case spawns
  then have "spawn (as_atomic s) = Done () (as_atomic t)" by (auto simp: spawn_def as_atomic_def made_def)
  with spawns show ?thesis by (simp add: step.spawns)
next
  case joins
  then have "run_case_end name (as_atomic s) = Done () (as_atomic t)"
    by (auto simp: run_case_end_result as_atomic_def says_def)
  with joins show ?thesis by (simp add: step.joins)
next
  case (turns k)
  with as_atomic_turn [OF inv n turns] step.turns [of k "as_atomic s" Atomic n "as_atomic t" name] show ?thesis by auto
qed

text \<open>
  C28.  The lock around the read and the write makes them one atomic increment: every run of the mutex
  variant, seen from outside the critical sections, is a run of the atomic variant, with the same
  values of the variable.
\<close>

theorem mutex_refines_atomic:
  assumes "counter_inv Mutex n s" and "2 * int n < 2 ^ 31" and "(step Mutex n name)\<^sup>*\<^sup>* s t"
  shows "(step Atomic n name)\<^sup>*\<^sup>* (as_atomic s) (as_atomic t)"
proof -
  have "counter_inv Mutex n t \<and> (step Atomic n name)\<^sup>*\<^sup>* (as_atomic s) (as_atomic t)"
    using assms(3)
  proof (induction rule: rtranclp_induct)
    case base
    with assms(1) show ?case by simp
  next
    case (step t u)
    with as_atomic_step [OF _ assms(2) step.hyps(2)] step_progress [OF _ _ assms(2) step.hyps(2)]
    show ?case by (metis rtranclp.rtrancl_into_rtrancl variant.distinct(1))
  qed
  then show ?thesis ..
qed

section \<open>The unprotected variable\<close>

text \<open>Both threads at the same lap of their loops.\<close>

definition both :: "race \<Rightarrow> int \<Rightarrow> pc \<Rightarrow> pc \<Rightarrow> nat \<Rightarrow> nat \<Rightarrow> race" where
  "both s g p q i j = s\<lparr>global := g, threads := [\<lparr>pc = p, laps = i\<rparr>, \<lparr>pc = q, laps = j\<rparr>], caller := Joining\<rparr>"

lemma turn_step: "k < length (threads s) \<Longrightarrow> turn v n k s = Some (Done () t) \<Longrightarrow> (step v n name)\<^sup>*\<^sup>* s t"
  by (blast intro: step.turns)

lemma both_turns:
  assumes "i < n"
  shows "(step Problem n name)\<^sup>*\<^sup>* (both s g Test Test i i) (both s g (Loaded g) (Loaded g) i i)"
proof -
  have "(step Problem n name)\<^sup>*\<^sup>* (both s g Test Test i i) (both s g Enter Test i i)"
    by (rule turn_step [of 0]) (simp_all add: both_def turn_def race_defs assms)
  also have "(step Problem n name)\<^sup>*\<^sup>* \<dots> (both s g Enter Enter i i)"
    by (rule turn_step [of 1]) (simp_all add: both_def turn_def race_defs assms)
  also have "(step Problem n name)\<^sup>*\<^sup>* \<dots> (both s g (Loaded g) Enter i i)"
    by (rule turn_step [of 0]) (simp_all add: both_def turn_def race_defs)
  also have "(step Problem n name)\<^sup>*\<^sup>* \<dots> (both s g (Loaded g) (Loaded g) i i)"
    by (rule turn_step [of 1]) (simp_all add: both_def turn_def race_defs)
  finally show ?thesis .
qed

text \<open>Two increments with the effect of one.\<close>

lemma lost_update:
  assumes "i < n" and "int32 (g + 1)"
  shows "(step Problem n name)\<^sup>*\<^sup>* (both s g Test Test i i) (both s (g + 1) Test Test (Suc i) (Suc i))"
proof -
  note both_turns [OF assms(1)]
  also have "(step Problem n name)\<^sup>*\<^sup>* (both s g (Loaded g) (Loaded g) i i) (both s (g + 1) Test (Loaded g) (Suc i) i)"
    by (rule turn_step [of 0]) (use assms(2) in \<open>simp_all add: both_def turn_def race_defs seq_def ret_def to_int32_def\<close>)
  also have "(step Problem n name)\<^sup>*\<^sup>* \<dots> (both s (g + 1) Test Test (Suc i) (Suc i))"
    by (rule turn_step [of 1]) (use assms(2) in \<open>simp_all add: both_def turn_def race_defs seq_def ret_def to_int32_def\<close>)
  finally show ?thesis .
qed

lemma lockstep:
  assumes "int n < 2 ^ 31"
  shows "i \<le> n \<Longrightarrow> (step Problem n name)\<^sup>*\<^sup>* (both s 0 Test Test 0 0) (both s (int i) Test Test i i)"
proof (induction i)
  case (Suc i)
  then have "(step Problem n name)\<^sup>*\<^sup>* (both s (int i) Test Test i i) (both s (int i + 1) Test Test (Suc i) (Suc i))"
    using assms by (intro lost_update) (auto simp: int32_def)
  with Suc show ?case by (simp add: add.commute)
qed simp

lemma started:
  assumes "before_case s"
  shows "(step v n name)\<^sup>*\<^sup>* s
    (both (says s [Log (name @ ''Begin''), Cout (''global_variable: '' @ show_int 0 @ endl)]) 0 Test Test 0 0)"
proof -
  note b = assms [unfolded before_case_def]
  let ?a = "says (s\<lparr>global := 0, caller := Spawning\<rparr>)
    [Log (name @ ''Begin''), Cout (''global_variable: '' @ show_int 0 @ endl)]"
  have "step v n name s ?a" using b by (blast intro: step.begins run_case_begin_result)
  moreover have "step v n name ?a (?a\<lparr>threads := [\<lparr>pc = Test, laps = 0\<rparr>]\<rparr>)"
    by (rule step.spawns) (use b in \<open>simp_all add: spawn_def says_def\<close>)
  moreover have "step v n name (?a\<lparr>threads := [\<lparr>pc = Test, laps = 0\<rparr>]\<rparr>)
      (both (says s [Log (name @ ''Begin''), Cout (''global_variable: '' @ show_int 0 @ endl)]) 0 Test Test 0 0)"
    by (rule step.spawns) (use b in \<open>simp_all add: spawn_def both_def says_def\<close>)
  ultimately show ?thesis by (meson converse_rtranclp_into_rtranclp rtranclp.rtrancl_refl)
qed

text \<open>
  Without protection the example has a data race, which is undefined behaviour; and even where every
  read and write takes effect at once, the threads can run in lock step, so that half of all
  increments are lost and the sum of one thread is printed.
\<close>

theorem unprotected_counter_loses:
  assumes "before_case s"
  shows "(\<exists>t. (run_step Problem)\<^sup>*\<^sup>* s t \<and> data_race t)
    \<and> (\<exists>t. (run_step Problem)\<^sup>*\<^sup>* s t \<and> caller t = Returned \<and>
        Cout (''global_variable: '' @ show_int (int iterations) @ endl) \<in> set (drop (length (out s)) (out t)))"
proof
  let ?n = iterations
  let ?a = "says s [Log (case_name Problem @ ''Begin''), Cout (''global_variable: '' @ show_int 0 @ endl)]"
  note start = started [OF assms, of Problem ?n "case_name Problem"]
  have "data_race (both ?a 0 (Loaded 0) (Loaded 0) 0 0)"
    unfolding data_race_def by (rule exI [of _ 0], simp add: both_def, rule exI [of _ 1], simp)
  moreover have "(step Problem ?n (case_name Problem))\<^sup>*\<^sup>* s (both ?a 0 (Loaded 0) (Loaded 0) 0 0)"
    using start both_turns by (rule rtranclp_trans) (simp add: iterations_def)
  ultimately show "\<exists>t. (run_step Problem)\<^sup>*\<^sup>* s t \<and> data_race t" by (auto simp: run_step_def)
  let ?r = "(step Problem ?n (case_name Problem))\<^sup>*\<^sup>*"
  let ?c = "both ?a (int ?n) Ended Ended ?n ?n"
  let ?d = "says (?c\<lparr>caller := Returned\<rparr>)
      [Cout (''global_variable: '' @ show_int (int ?n) @ endl), Log (case_name Problem @ ''End'')]"
  have "?r s (both ?a (int ?n) Test Test ?n ?n)"
    using start lockstep [of ?n ?n] by (rule rtranclp_trans) (simp_all add: iterations_def)
  moreover have "?r (both ?a (int ?n) Test Test ?n ?n) (both ?a (int ?n) Ended Test ?n ?n)"
    by (rule turn_step [of 0]) (simp_all add: both_def turn_def race_defs)
  moreover have "?r (both ?a (int ?n) Ended Test ?n ?n) ?c"
    by (rule turn_step [of 1]) (simp_all add: both_def turn_def race_defs)
  moreover have "step Problem ?n (case_name Problem) ?c ?d"
    by (rule step.joins) (simp_all add: run_case_end_result both_def)
  ultimately have "?r s ?d" by (meson rtranclp_trans rtranclp.rtrancl_into_rtrancl)
  then show "\<exists>t. (run_step Problem)\<^sup>*\<^sup>* s t \<and> caller t = Returned \<and>
      Cout (''global_variable: '' @ show_int (int iterations) @ endl) \<in> set (drop (length (out s)) (out t))"
    by (intro exI [of _ ?d]) (simp add: run_step_def both_def)
qed

section \<open>Witnesses\<close>

definition demo_race :: race where
  "demo_race = \<lparr>cells = (\<lambda>_. None), brk = 0, out = [], global = 7, owner = None, threads = [], caller = Begin\<rparr>"

lemma before_demo_race: "before_case demo_race"
  by (simp add: before_case_def demo_race_def)

lemma protected_counter_exact_witness:
  "(\<exists>t. (run_step Mutex)\<^sup>*\<^sup>* demo_race t \<and> caller t = Returned) \<and> \<not> data_race demo_race"
  using protected_counter_exact [OF before_demo_race, of Mutex] by auto

lemma mutex_refines_atomic_witness:
  "(step Atomic 2 ''M'')\<^sup>*\<^sup>* (as_atomic demo_race) (as_atomic (says (demo_race\<lparr>global := 0, caller := Spawning\<rparr>)
     [Log (''M'' @ ''Begin''), Cout (''global_variable: '' @ show_int 0 @ endl)]))"
  by (rule mutex_refines_atomic)
    (auto simp: before_case_inv [OF before_demo_race] run_case_begin_result intro!: r_into_rtranclp step.begins
      simp: demo_race_def [THEN arg_cong [of _ _ caller]])

lemma unprotected_counter_loses_witness: "\<exists>t. (run_step Problem)\<^sup>*\<^sup>* demo_race t \<and> data_race t"
  using unprotected_counter_loses [OF before_demo_race] by simp

end
