(* ===== verification/ConditionVariable.thy ===== *)
theory ConditionVariable
  imports Interleaving
begin

text \<open>
  \<open>src/core/concurrency/ConditionVariable.cpp\<close>: the caller hands data to a worker thread and waits for
  the result, both with one mutex and one condition variable.  Every access to the shared variables,
  every lock operation and every log line is a step; a sleeping thread may also wake up without a
  notification.

  Lemmas: in the first run no data race is reachable, no wake-up is lost, and the processed data is
  logged.  The flags are global and never reset, so in a second run the caller does not wait.
\<close>

section \<open>The state\<close>

datatype who = Caller | Worker

text \<open>Where the caller and the worker are.\<close>

datatype caller_pc = MBegin | MSpawn | MSignal | MLock | MData | MReady | MUnlock | MNote | MNotify
  | MLock2 | MLogWait | MTest | MSleep | MWake | MUnlock2 | MShow | MJoin | MReturned

datatype worker_pc = WNone | WStart | WLog | WTest | WSleep | WWake | WWork | WAppend | WFinish | WNote | WNotify | WUnlock | WEnd

record cvs = "unit world" +
  lock :: "who option"
  data :: string
  ready :: bool
  finish :: bool
  caller :: caller_pc
  worker :: worker_pc

section \<open>The threads\<close>

definition acquire :: "who \<Rightarrow> cvs \<Rightarrow> cvs option" where
  "acquire w s = (if lock s = None then Some (s\<lparr>lock := Some w\<rparr>) else None)"

definition release :: "cvs \<Rightarrow> cvs" where
  "release s = s\<lparr>lock := None\<rparr>"

text \<open>\<open>cv.notify_one()\<close>: at most the other thread waits.\<close>

definition notify_one :: "who \<Rightarrow> cvs \<Rightarrow> cvs" where
  "notify_one w s = (case w of
      Caller \<Rightarrow> if worker s = WSleep then s\<lparr>worker := WWake\<rparr> else s
    | Worker \<Rightarrow> if caller s = MSleep then s\<lparr>caller := MWake\<rparr> else s)"

text \<open>\<open>worker_thread\<close>: the wait tests its predicate with the lock held, gives the lock up while it
  sleeps, and takes it again before the next test.\<close>

definition worker_turn :: "cvs \<Rightarrow> cvs option" where
  "worker_turn s = (case worker s of
      WNone \<Rightarrow> None
    | WStart \<Rightarrow> map_option (\<lambda>t. t\<lparr>worker := WLog\<rparr>) (acquire Worker s)
    | WLog \<Rightarrow> Some (says s [Log ''Waiting for data''] \<lparr>worker := WTest\<rparr>)
    | WTest \<Rightarrow> Some (if ready s then s\<lparr>worker := WWork\<rparr> else (release s)\<lparr>worker := WSleep\<rparr>)
    | WSleep \<Rightarrow> None
    | WWake \<Rightarrow> map_option (\<lambda>t. t\<lparr>worker := WTest\<rparr>) (acquire Worker s)
    | WWork \<Rightarrow> Some (says s [Log ''Processing data''] \<lparr>worker := WAppend\<rparr>)
    | WAppend \<Rightarrow> Some (s\<lparr>data := data s @ '' after processing'', worker := WFinish\<rparr>)
    | WFinish \<Rightarrow> Some (s\<lparr>finish := True, worker := WNote\<rparr>)
    | WNote \<Rightarrow> Some (says s [Log ''cv.notify_one''] \<lparr>worker := WNotify\<rparr>)
    | WNotify \<Rightarrow> Some ((notify_one Worker s)\<lparr>worker := WUnlock\<rparr>)
    | WUnlock \<Rightarrow> Some ((release s)\<lparr>worker := WEnd\<rparr>)
    | WEnd \<Rightarrow> None)"

definition secret :: string where
  "secret = ''THIS IS A PRIVATE KEY: ABCxyz123''"

text \<open>\<open>run\<close>.\<close>

definition caller_turn :: "cvs \<Rightarrow> cvs option" where
  "caller_turn s = (case caller s of
      MBegin \<Rightarrow> Some (says s [Log ''Condition Example Begin''] \<lparr>caller := MSpawn\<rparr>)
    | MSpawn \<Rightarrow> Some (s\<lparr>worker := WStart, caller := MSignal\<rparr>)
    | MSignal \<Rightarrow> Some (says s [Log ''Signals data ready for processing''] \<lparr>caller := MLock\<rparr>)
    | MLock \<Rightarrow> map_option (\<lambda>t. t\<lparr>caller := MData\<rparr>) (acquire Caller s)
    | MData \<Rightarrow> Some (s\<lparr>data := secret, caller := MReady\<rparr>)
    | MReady \<Rightarrow> Some (s\<lparr>ready := True, caller := MUnlock\<rparr>)
    | MUnlock \<Rightarrow> Some ((release s)\<lparr>caller := MNote\<rparr>)
    | MNote \<Rightarrow> Some (says s [Log ''cv.notify_one''] \<lparr>caller := MNotify\<rparr>)
    | MNotify \<Rightarrow> Some ((notify_one Caller s)\<lparr>caller := MLock2\<rparr>)
    | MLock2 \<Rightarrow> map_option (\<lambda>t. t\<lparr>caller := MLogWait\<rparr>) (acquire Caller s)
    | MLogWait \<Rightarrow> Some (says s [Log ''Waiting for finishing''] \<lparr>caller := MTest\<rparr>)
    | MTest \<Rightarrow> Some (if finish s then s\<lparr>caller := MUnlock2\<rparr> else (release s)\<lparr>caller := MSleep\<rparr>)
    | MSleep \<Rightarrow> None
    | MWake \<Rightarrow> map_option (\<lambda>t. t\<lparr>caller := MTest\<rparr>) (acquire Caller s)
    | MUnlock2 \<Rightarrow> Some ((release s)\<lparr>caller := MShow\<rparr>)
    | MShow \<Rightarrow> Some (says s [Log (''data: '' @ data s)] \<lparr>caller := MJoin\<rparr>)
    | MJoin \<Rightarrow> if worker s = WEnd then Some (says s [Log ''Condition Example End''] \<lparr>caller := MReturned, worker := WNone\<rparr>)
        else None
    | MReturned \<Rightarrow> None)"

text \<open>The steps of both threads, and with the wake-ups without notification.\<close>

definition turn :: "cvs \<Rightarrow> cvs \<Rightarrow> bool" where
  "turn s t \<longleftrightarrow> caller_turn s = Some t \<or> worker_turn s = Some t"

inductive cstep :: "cvs \<Rightarrow> cvs \<Rightarrow> bool" where
  turns: "turn s t \<Longrightarrow> cstep s t"
| wakes_caller: "caller s = MSleep \<Longrightarrow> cstep s (s\<lparr>caller := MWake\<rparr>)"
| wakes_worker: "worker s = WSleep \<Longrightarrow> cstep s (s\<lparr>worker := WWake\<rparr>)"

text \<open>The caller reads the data without the lock while the worker is about to write it.\<close>

definition data_race :: "cvs \<Rightarrow> bool" where
  "data_race s \<longleftrightarrow> worker s = WAppend \<and> caller s \<in> {MData, MShow}"

lemma cvs_says [simp]:
  "lock (says s ls) = lock s" "data (says s ls) = data s" "ready (says s ls) = ready s" "finish (says s ls) = finish s"
  "caller (says s ls) = caller s" "worker (says s ls) = worker s"
  by (simp_all add: says_def)

lemmas turn_defs = caller_turn_def worker_turn_def acquire_def release_def notify_one_def

section \<open>The first run\<close>

definition first_run :: "cvs \<Rightarrow> bool" where
  "first_run s \<longleftrightarrow> lock s = None \<and> \<not> ready s \<and> \<not> finish s \<and> caller s = MBegin \<and> worker s = WNone"

definition caller_holds :: "caller_pc \<Rightarrow> bool" where
  "caller_holds p \<longleftrightarrow> p \<in> {MData, MReady, MUnlock, MLogWait, MTest, MUnlock2}"

definition worker_holds :: "worker_pc \<Rightarrow> bool" where
  "worker_holds p \<longleftrightarrow> p \<in> {WLog, WTest, WWork, WAppend, WFinish, WNote, WNotify, WUnlock}"

text \<open>
  The lock is held where the code says so; the flags tell how far the other thread has come; a thread
  that sleeps on a condition that holds is still going to be notified; the data is as far processed
  as the worker has come.
\<close>

definition cv_inv :: "cvs \<Rightarrow> bool" where
  "cv_inv s \<longleftrightarrow>
     (lock s = Some Caller \<longleftrightarrow> caller_holds (caller s)) \<and> (lock s = Some Worker \<longleftrightarrow> worker_holds (worker s))
     \<and> (worker s = WNone \<longleftrightarrow> caller s \<in> {MBegin, MSpawn, MReturned})
     \<and> (ready s \<longleftrightarrow> caller s \<notin> {MBegin, MSpawn, MSignal, MLock, MData, MReady})
     \<and> (finish s \<longleftrightarrow> worker s \<in> {WNote, WNotify, WUnlock, WEnd} \<or> caller s = MReturned)
     \<and> (worker s \<in> {WWork, WAppend, WFinish, WNote, WNotify, WUnlock, WEnd} \<longrightarrow> ready s)
     \<and> (caller s \<in> {MUnlock2, MShow, MJoin} \<longrightarrow> worker s = WEnd)
     \<and> (worker s = WSleep \<longrightarrow> ready s \<longrightarrow> caller s \<in> {MUnlock, MNote, MNotify})
     \<and> (caller s = MSleep \<longrightarrow> finish s \<longrightarrow> worker s \<in> {WNote, WNotify})
     \<and> (ready s \<or> caller s = MReady \<longrightarrow> data s =
          (if worker s \<in> {WFinish, WNote, WNotify, WUnlock, WEnd} \<or> caller s = MReturned
           then secret @ '' after processing'' else secret))"

text \<open>The turns that are left when no thread has to sleep again.\<close>

definition caller_left :: "bool \<Rightarrow> caller_pc \<Rightarrow> nat" where
  "caller_left fin p = (case p of MBegin \<Rightarrow> 19 | MSpawn \<Rightarrow> 18 | MSignal \<Rightarrow> 17 | MLock \<Rightarrow> 16 | MData \<Rightarrow> 15 | MReady \<Rightarrow> 14
    | MUnlock \<Rightarrow> 13 | MNote \<Rightarrow> 12 | MNotify \<Rightarrow> 11 | MLock2 \<Rightarrow> 10 | MLogWait \<Rightarrow> 9
    | MTest \<Rightarrow> if fin then 4 else 7 | MSleep \<Rightarrow> 6 | MWake \<Rightarrow> if fin then 5 else 8
    | MUnlock2 \<Rightarrow> 3 | MShow \<Rightarrow> 2 | MJoin \<Rightarrow> 1 | MReturned \<Rightarrow> 0)"

definition worker_left :: "bool \<Rightarrow> worker_pc \<Rightarrow> nat" where
  "worker_left rdy p = (case p of WNone \<Rightarrow> 0 | WStart \<Rightarrow> 17 | WLog \<Rightarrow> 16 | WTest \<Rightarrow> if rdy then 8 else 11 | WSleep \<Rightarrow> 10
    | WWake \<Rightarrow> if rdy then 9 else 12 | WWork \<Rightarrow> 7 | WAppend \<Rightarrow> 6 | WFinish \<Rightarrow> 5 | WNote \<Rightarrow> 4 | WNotify \<Rightarrow> 3 | WUnlock \<Rightarrow> 2 | WEnd \<Rightarrow> 1)"

text \<open>A worker that does not exist yet is counted with the caller.\<close>

definition turns_left :: "cvs \<Rightarrow> nat" where
  "turns_left s = caller_left (finish s) (caller s) + worker_left (ready s) (worker s)
     + (if caller s \<in> {MBegin, MSpawn} then 17 else 0)"

lemma first_run_inv: "first_run s \<Longrightarrow> cv_inv s"
  by (simp add: first_run_def cv_inv_def caller_holds_def worker_holds_def)

lemma caller_turn_inv: "cv_inv s \<Longrightarrow> case caller_turn s of None \<Rightarrow> True | Some t \<Rightarrow> cv_inv t"
  unfolding caller_turn_def acquire_def notify_one_def release_def
  by (cases "caller s"; cases "worker s"; auto simp: cv_inv_def caller_holds_def worker_holds_def)

lemma worker_turn_inv: "cv_inv s \<Longrightarrow> case worker_turn s of None \<Rightarrow> True | Some t \<Rightarrow> cv_inv t"
  unfolding worker_turn_def acquire_def notify_one_def release_def
  by (cases "worker s"; cases "caller s"; auto simp: cv_inv_def caller_holds_def worker_holds_def)

lemma caller_turn_left: "cv_inv s \<Longrightarrow> case caller_turn s of None \<Rightarrow> True | Some t \<Rightarrow> turns_left t < turns_left s"
  unfolding caller_turn_def acquire_def notify_one_def release_def
  by (cases "caller s"; cases "worker s"; auto simp: cv_inv_def turns_left_def caller_left_def worker_left_def)

lemma worker_turn_left: "cv_inv s \<Longrightarrow> case worker_turn s of None \<Rightarrow> True | Some t \<Rightarrow> turns_left t < turns_left s"
  unfolding worker_turn_def acquire_def notify_one_def release_def
  by (cases "worker s"; cases "caller s"; auto simp: cv_inv_def turns_left_def caller_left_def worker_left_def)

lemma turn_inv: "cv_inv s \<Longrightarrow> turn s t \<Longrightarrow> cv_inv t"
  using caller_turn_inv [of s] worker_turn_inv [of s] by (auto simp: turn_def)

lemma turn_left: "cv_inv s \<Longrightarrow> turn s t \<Longrightarrow> turns_left t < turns_left s"
  using caller_turn_left [of s] worker_turn_left [of s] by (auto simp: turn_def)

lemma wake_inv:
  "cv_inv s \<Longrightarrow> caller s = MSleep \<Longrightarrow> cv_inv (s\<lparr>caller := MWake\<rparr>)"
  "cv_inv s \<Longrightarrow> worker s = WSleep \<Longrightarrow> cv_inv (s\<lparr>worker := WWake\<rparr>)"
  by (auto simp: cv_inv_def caller_holds_def worker_holds_def)

text \<open>Even if no thread ever wakes up by itself, some thread can move.\<close>

lemma turn_possible:
  assumes "cv_inv s" and "caller s \<noteq> MReturned"
  shows "\<exists>t. turn s t"
proof (cases "lock s")
  case None
  with assms(1) have h: "\<not> caller_holds (caller s)" "\<not> worker_holds (worker s)" by (auto simp: cv_inv_def)
  have "caller_turn s \<noteq> None \<or> worker_turn s \<noteq> None"
    using assms None h unfolding caller_turn_def worker_turn_def acquire_def
    by (cases "caller s"; cases "worker s"; simp add: caller_holds_def worker_holds_def cv_inv_def)
  then show ?thesis by (auto simp: turn_def)
next
  case (Some w)
  have "caller_turn s \<noteq> None" if "w = Caller"
    using assms Some that unfolding caller_turn_def acquire_def
    by (cases "caller s"; simp add: caller_holds_def cv_inv_def)
  moreover have "worker_turn s \<noteq> None" if "w = Worker"
    using assms Some that unfolding worker_turn_def acquire_def
    by (cases "worker s"; simp add: worker_holds_def cv_inv_def)
  ultimately show ?thesis by (cases w) (auto simp: turn_def)
qed

interpretation hand_over: ending turn cv_inv "\<lambda>s. caller s = MReturned" turns_left
proof
  show "cv_inv s \<Longrightarrow> turn s t \<Longrightarrow> cv_inv t" for s t by (rule turn_inv)
  show "cv_inv s \<Longrightarrow> turn s t \<Longrightarrow> turns_left t < turns_left s" for s t by (rule turn_left)
  show "cv_inv s \<Longrightarrow> caller s \<noteq> MReturned \<Longrightarrow> \<exists>t. turn s t \<and> turns_left t < turns_left s" for s
    using turn_possible turn_left by blast
qed

text \<open>The last lines of the run.\<close>

definition result_lines :: "line list" where
  "result_lines = [Log (''data: '' @ secret @ '' after processing''), Log ''Condition Example End'']"

definition reported :: "cvs \<Rightarrow> bool" where
  "reported s \<longleftrightarrow> (caller s = MJoin \<longrightarrow> (\<exists>ls. out s = ls @ [hd result_lines]))
     \<and> (caller s = MReturned \<longrightarrow> (\<exists>ls. out s = ls @ result_lines))"

lemma caller_reaches:
  "caller_turn s = Some t \<Longrightarrow> caller t = MJoin \<Longrightarrow> caller s = MShow"
  "caller_turn s = Some t \<Longrightarrow> caller t = MReturned \<Longrightarrow> caller s = MJoin"
  unfolding caller_turn_def acquire_def release_def notify_one_def
  by (cases "caller s"; auto split: if_splits)+

lemma worker_keeps_caller: "worker_turn s = Some t \<Longrightarrow> caller t = caller s \<or> caller t = MWake"
  unfolding worker_turn_def acquire_def release_def notify_one_def
  by (cases "worker s"; auto split: if_splits)

lemma worker_ended: "cv_inv s \<Longrightarrow> caller s \<in> {MJoin, MReturned} \<Longrightarrow> worker_turn s = None"
proof -
  assume "cv_inv s" "caller s \<in> {MJoin, MReturned}"
  then have "worker s = WEnd \<or> worker s = WNone" unfolding cv_inv_def by blast
  then show ?thesis by (auto simp: worker_turn_def)
qed


lemma returned_unlocked: "cv_inv s \<Longrightarrow> caller s = MReturned \<Longrightarrow> lock s = None \<and> worker s = WNone \<and> ready s \<and> finish s"
  by (cases "lock s"; cases "the (lock s)"; simp add: cv_inv_def caller_holds_def worker_holds_def)

lemma reported_turn:
  assumes inv: "cv_inv s" and r: "reported s" and t: "turn s t"
  shows "reported t"
proof -
  have "reported t" if c: "caller_turn s = Some t"
  proof -
    have "out t = out s @ [hd result_lines]" if "caller t = MJoin"
    proof -
      have s: "caller s = MShow" using caller_reaches(1) [OF c that] .
      with inv have "data s = secret @ '' after processing''" by (auto simp: cv_inv_def)
      with c s show ?thesis by (auto simp: caller_turn_def result_lines_def)
    qed
    moreover have "\<exists>ls. out t = ls @ result_lines" if "caller t = MReturned"
    proof -
      have s: "caller s = MJoin" using caller_reaches(2) [OF c that] .
      with r obtain ls where "out s = ls @ [hd result_lines]" by (auto simp: reported_def)
      with c s have "out t = ls @ result_lines" by (auto simp: caller_turn_def result_lines_def split: if_splits)
      then show ?thesis ..
    qed
    ultimately show ?thesis by (auto simp: reported_def)
  qed
  moreover have "reported t" if "worker_turn s = Some t"
    using worker_keeps_caller [OF that] worker_ended [OF inv] that by (auto simp: reported_def)
  ultimately show ?thesis using t by (auto simp: turn_def)
qed

lemma run_inv: "cstep\<^sup>*\<^sup>* s t \<Longrightarrow> cv_inv s \<Longrightarrow> reported s \<Longrightarrow> cv_inv t \<and> reported t"
proof (induction rule: rtranclp_induct)
  case (step t u)
  then have t: "cv_inv t" "reported t" by simp_all
  from step.hyps(2) show ?case
  proof (cases rule: cstep.cases)
    case turns
    with t show ?thesis using turn_inv reported_turn by blast
  qed (use t wake_inv in \<open>auto simp: reported_def\<close>)
qed simp


section \<open>The second run\<close>

text \<open>The example is run again from the menu: the caller starts over, the globals keep their values.\<close>

definition run_again :: "cvs \<Rightarrow> cvs" where
  "run_again s = s\<lparr>caller := MBegin\<rparr>"

text \<open>The caller alone goes all the way to its last read, and the worker then comes to its write.\<close>

definition caller_run :: "nat \<Rightarrow> cvs \<Rightarrow> cvs option" where
  "caller_run n s = ((\<lambda>o'. Option.bind o' caller_turn) ^^ n) (Some s)"

definition worker_run :: "nat \<Rightarrow> cvs \<Rightarrow> cvs option" where
  "worker_run n s = ((\<lambda>o'. Option.bind o' worker_turn) ^^ n) (Some s)"

lemma caller_run_turns: "caller_run n s = Some t \<Longrightarrow> cstep\<^sup>*\<^sup>* s t"
proof (induction n arbitrary: t)
  case (Suc n)
  then obtain u where u: "caller_run n s = Some u" "caller_turn u = Some t"
    by (auto simp: caller_run_def bind_eq_Some_conv)
  then have "cstep u t" by (blast intro: cstep.turns turn_def [THEN iffD2])
  with Suc.IH [OF u(1)] show ?case by (rule rtranclp.rtrancl_into_rtrancl)
qed (simp add: caller_run_def)

lemma worker_run_turns: "worker_run n s = Some t \<Longrightarrow> cstep\<^sup>*\<^sup>* s t"
proof (induction n arbitrary: t)
  case (Suc n)
  then obtain u where u: "worker_run n s = Some u" "worker_turn u = Some t"
    by (auto simp: worker_run_def bind_eq_Some_conv)
  then have "cstep u t" by (blast intro: cstep.turns turn_def [THEN iffD2])
  with Suc.IH [OF u(1)] show ?case by (rule rtranclp.rtrancl_into_rtrancl)
qed (simp add: worker_run_def)

lemma caller_does_not_wait:
  assumes "lock s = None" and "finish s"
  shows "\<exists>u. caller_run 13 (run_again s) = Some u \<and> caller u = MShow \<and> worker u = WStart \<and> lock u = None
    \<and> ready u \<and> data u = secret"
  using assms by (simp add: caller_run_def run_again_def caller_turn_def acquire_def release_def notify_one_def
    eval_nat_numeral)

lemma worker_reaches_write:
  assumes "lock s = None" and "ready s" and "worker s = WStart"
  shows "\<exists>u. worker_run 4 s = Some u \<and> worker u = WAppend \<and> caller u = caller s"
  using assms by (simp add: worker_run_def worker_turn_def acquire_def eval_nat_numeral)

text \<open>
  C38.  The second run of the example: its flags are still set from the first, so the caller does not
  wait.  It can come to read the data while the worker is about to write it, which is a data race, and
  it can log the data unprocessed.
\<close>

theorem condition_variable_second_run:
  assumes "first_run s" and "cstep\<^sup>*\<^sup>* s t" and "caller t = MReturned"
  shows "(\<exists>u. cstep\<^sup>*\<^sup>* (run_again t) u \<and> data_race u)
    \<and> (\<exists>u. cstep\<^sup>*\<^sup>* (run_again t) u \<and> caller u = MJoin \<and> last (out u) = Log (''data: '' @ secret))"
proof -
  have "cv_inv t"
    using run_inv [OF assms(2) first_run_inv [OF assms(1)]] assms(1) by (simp add: reported_def first_run_def)
  then have "lock t = None" "finish t" using returned_unlocked assms(3) by blast+
  then obtain u where u: "caller_run 13 (run_again t) = Some u" "caller u = MShow" "worker u = WStart" "lock u = None"
      "ready u" "data u = secret"
    using caller_does_not_wait by blast
  note run = caller_run_turns [OF u(1)]
  obtain v where v: "worker_run 4 u = Some v" "worker v = WAppend" "caller v = caller u"
    using worker_reaches_write u by blast
  have "cstep\<^sup>*\<^sup>* (run_again t) v" using run worker_run_turns [OF v(1)] by (rule rtranclp_trans)
  moreover have "data_race v" using u v by (simp add: data_race_def)
  moreover have "cstep u (says u [Log (''data: '' @ secret)] \<lparr>caller := MJoin\<rparr>)"
    using u by (intro cstep.turns) (simp add: turn_def caller_turn_def)
  with run have "cstep\<^sup>*\<^sup>* (run_again t) (says u [Log (''data: '' @ secret)] \<lparr>caller := MJoin\<rparr>)"
    by (rule rtranclp.rtrancl_into_rtrancl)
  ultimately show ?thesis by force
qed

section \<open>Witnesses\<close>

definition demo_cvs :: cvs where
  "demo_cvs = \<lparr>cells = (\<lambda>_. None), brk = 0, out = [], lock = None, data = [], ready = False, finish = False,
     caller = MBegin, worker = WNone\<rparr>"

lemma first_demo: "first_run demo_cvs"
  by (simp add: first_run_def demo_cvs_def)


lemma first_demo_ends: "\<exists>t. cstep\<^sup>*\<^sup>* demo_cvs t \<and> caller t = MReturned"
  using hand_over.can_finish [OF first_run_inv [OF first_demo]] by (meson cstep.turns mono_rtranclp)

lemma condition_variable_second_run_witness:
  "\<exists>t. cstep\<^sup>*\<^sup>* demo_cvs t \<and> (\<exists>u. cstep\<^sup>*\<^sup>* (run_again t) u \<and> data_race u)"
  using first_demo_ends condition_variable_second_run [OF first_demo] by blast

end
