(* ===== verification/Calculator.thy ===== *)
theory Calculator
  imports Prelude "HOL-Library.Signed_Division"
begin

text \<open>
  \<open>src/DeleteMe.cpp\<close> and \<open>include/DeleteMe.h\<close>: a calculator on \<open>int\<close> that keeps its last result.

  Lemmas: division truncates and its only undefined case is the smallest number divided by minus one;
  whatever is computed, the last result is a 32-bit integer.
\<close>

text \<open>The object is its field \<open>m_lastResult\<close>; every call but the last returns a \<open>bool\<close>.\<close>

type_synonym 'a calc = "(int, 'a) prog"

definition new_DeleteMe :: int where
  "new_DeleteMe = 0"

definition set_last_result :: "int \<Rightarrow> bool \<Rightarrow> bool calc" where
  "set_last_result r ok _ = Done ok r"

definition add :: "int \<Rightarrow> int \<Rightarrow> bool calc" where
  "add addend1 addend2 = seq (to_int32 (addend1 + addend2)) (\<lambda>r. set_last_result r True)"

definition mul :: "int \<Rightarrow> int \<Rightarrow> bool calc" where
  "mul factor1 factor2 = seq (to_int32 (factor1 * factor2)) (\<lambda>r. set_last_result r True)"

definition div' :: "int \<Rightarrow> int \<Rightarrow> bool calc" where
  "div' dividend divisor = (if divisor = 0 then set_last_result 0 False
     else seq (to_int32 (dividend sdiv divisor)) (\<lambda>r. set_last_result r True))"

definition get_last_result :: "int calc" where
  "get_last_result s = Done s s"

section \<open>Any sequence of calls\<close>

datatype call = Add int int | Mul int int | Div int int

fun run_call :: "call \<Rightarrow> bool calc" where
  "run_call (Add x y) = add x y"
| "run_call (Mul x y) = mul x y"
| "run_call (Div x y) = div' x y"

text \<open>The number a call computes, and whether it is defined.\<close>

fun outcome :: "call \<Rightarrow> int" where
  "outcome (Add x y) = x + y"
| "outcome (Mul x y) = x * y"
| "outcome (Div x y) = (if y = 0 then 0 else x sdiv y)"

primrec run_calls :: "call list \<Rightarrow> bool list calc" where
  "run_calls [] = ret []"
| "run_calls (c # cs) = seq (run_call c) (\<lambda>b. seq (run_calls cs) (\<lambda>bs. ret (b # bs)))"

fun succeeds :: "call \<Rightarrow> bool" where
  "succeeds (Div x y) \<longleftrightarrow> y \<noteq> 0"
| "succeeds _ \<longleftrightarrow> True"

lemma run_call_result:
  "run_call c s = (if int32 (outcome c) then Done (succeeds c) (outcome c) else Undef SignedOverflow)"
  by (cases c) (auto simp: add_def mul_def div'_def set_last_result_def to_int32_def int32_def machine)

text \<open>
  C36.  The type of the calculator: whatever calls are made, either one of them overflows, and the run
  is undefined, or all return, with \<open>false\<close> exactly for the divisions by zero, and the last result is
  the 32-bit number that the last call computes.
\<close>

theorem calculator_well_typed:
  assumes "int32 s"
  shows "case run_calls cs s of
      Done bs r \<Rightarrow> int32 r \<and> bs = map succeeds cs \<and> get_last_result r = Done (last (s # map outcome cs)) r
    | Thrown e r \<Rightarrow> False
    | Undef u \<Rightarrow> u = SignedOverflow \<and> (\<exists>c \<in> set cs. \<not> int32 (outcome c))"
  using assms
proof (induction cs arbitrary: s)
  case Nil
  then show ?case by (simp add: ret_def get_last_result_def)
next
  case (Cons c cs)
  show ?case
  proof (cases "int32 (outcome c)")
    case True
    with Cons.IH [OF True] show ?thesis
      by (auto simp: run_call_result seq_def ret_def get_last_result_def split: result.splits)
  qed (simp add: run_call_result seq_def)
qed

lemma calculator_well_typed_witness:
  "case run_calls [Add 5 6, Div 7 0, Div (- 7) 2] 0 of
      Done bs r \<Rightarrow> int32 r \<and> bs = [True, False, True] \<and> get_last_result r = Done (- 3) r
    | Thrown e r \<Rightarrow> False
    | Undef u \<Rightarrow> u = SignedOverflow \<and> (\<exists>c \<in> set [Add 5 6, Div 7 0, Div (- 7) 2]. \<not> int32 (outcome c))"
  using calculator_well_typed [of 0 "[Add 5 6, Div 7 0, Div (- 7) 2]"] by (simp add: int32_def cong: result.case_cong)

section \<open>Division\<close>

lemma trunc_remainder: "0 \<le> (a smod b) * a" for a b :: int
proof (cases "b = 0")
  case False
  then have "0 \<le> \<bar>a\<bar> mod \<bar>b\<bar>" by simp
  moreover have "(a smod b) * a = (\<bar>a\<bar> mod \<bar>b\<bar>) * (a * sgn a)" by (simp add: smod_int_alt_def)
  ultimately show ?thesis by (simp add: mult_sgn_abs flip: abs_sgn)
qed simp

lemma division_overflow:
  assumes "int32 a" "int32 b" "b \<noteq> 0"
  shows "int32 (a sdiv b) \<longleftrightarrow> \<not> (a = - (2 ^ 31) \<and> b = - 1)"
proof -
  have r: "- \<bar>a\<bar> \<le> a sdiv b" "a sdiv b \<le> \<bar>a\<bar>" using sdiv_int_range [of a b] by simp_all
  show ?thesis
  proof (cases "a = - (2 ^ 31)")
    case True
    then have "a sdiv b \<noteq> 2 ^ 31" if "b \<noteq> - 1" using that int_sdiv_negated_is_minus1 [of a b] by simp
    with True r show ?thesis by (auto simp: int32_def)
  next
    case False
    with r assms(1) show ?thesis by (auto simp: int32_def)
  qed
qed

text \<open>
  Division of 32-bit numbers: by zero it fails and sets the last result to zero; the smallest
  number divided by minus one overflows; in every other case the quotient is truncated towards zero,
  that is the remainder is smaller than the divisor and has the sign of the dividend.
\<close>

theorem calculator_division:
  assumes "int32 a" and "int32 b"
  shows "if b = 0 then div' a b s = Done False 0
    else if a = - (2 ^ 31) \<and> b = - 1 then div' a b s = Undef SignedOverflow
    else \<exists>q r. div' a b s = Done True q \<and> a = b * q + r \<and> \<bar>r\<bar> < \<bar>b\<bar> \<and> 0 \<le> r * a \<and> int32 q"
proof -
  have "div' a b s = Done True (a sdiv b) \<and> a = b * (a sdiv b) + a smod b \<and> \<bar>a smod b\<bar> < \<bar>b\<bar> \<and> 0 \<le> (a smod b) * a"
    if "b \<noteq> 0" "int32 (a sdiv b)"
    using that smod_int_range [OF that(1), of a] trunc_remainder [of a b]
    by (simp add: div'_def set_last_result_def to_int32_def seq_def ret_def mult_sdiv_smod_eq) linarith
  moreover have "div' a b s = Undef SignedOverflow" if "b \<noteq> 0" "\<not> int32 (a sdiv b)"
    using that by (simp add: div'_def to_int32_def seq_def undef_def)
  moreover have "div' a 0 s = Done False 0" by (simp add: div'_def set_last_result_def)
  ultimately show ?thesis using division_overflow [OF assms] by auto
qed

lemma calculator_division_witness:
  "(\<exists>q r. div' (- 7) 2 0 = Done True q \<and> - 7 = 2 * q + r \<and> \<bar>r\<bar> < 2 \<and> 0 \<le> r * (- 7))
    \<and> div' (- 2147483648) (- 1) 0 = Undef SignedOverflow"
  using calculator_division [of "- 7" 2 0] calculator_division [of "- 2147483648" "- 1" 0] by (auto simp: int32_def)

end
