(* ===== verification/DeepCopy.thy ===== *)
theory DeepCopy
  imports Ownership
begin

text \<open>
  \<open>src/core/class/SallowDeepCopying.cpp\<close>: a class with two integers and a pointer to a third, copied by
  the implicit members (namespace \<open>shallow\<close>) and by written ones (namespace \<open>deep_copying\<close>).

  Lemmas: with the deep copy any sequence of constructions, copies, assignments, updates and
  destructions implements a store of values; with the shallow copy both objects share the integer,
  and it is never deleted.
\<close>

section \<open>The classes\<close>

text \<open>The fields \<open>x_\<close> and \<open>y_\<close> of the objects; their pointers are the variables.\<close>

record models = "int stack" +
  xy :: "nat \<Rightarrow> int \<times> int"

type_synonym 'a mprog = "(models, 'a) prog"

lemma xy_says [simp]: "xy (says s ls) = xy s"
  by (simp add: says_def)

lemma says_xy [machine]: "says (s\<lparr>xy := f\<rparr>) ls = (says s ls)\<lparr>xy := f\<rparr>"
  by (simp add: says_def)

definition set_xy :: "nat \<Rightarrow> int \<times> int \<Rightarrow> unit mprog" where
  "set_xy v p s = Done () (s\<lparr>xy := (xy s)(v := p)\<rparr>)"

definition get_xy :: "nat \<Rightarrow> (int \<times> int) mprog" where
  "get_xy v s = Done (xy s v) s"

text \<open>The constructor of both namespaces, and the functions that use the pointer.\<close>

definition new_Model :: "nat \<Rightarrow> int \<Rightarrow> int \<Rightarrow> int \<Rightarrow> unit mprog" where
  "new_Model v x y z = seq (set_xy v (x, y)) (\<lambda>_. seq (alloc z) (set_pointer v))"

definition changePtr :: "nat \<Rightarrow> int \<Rightarrow> unit mprog" where
  "changePtr v i = seq (pointer v) (\<lambda>p. if p \<noteq> None then store p i else ret ())"

definition getPtr :: "nat \<Rightarrow> int mprog" where
  "getPtr v = seq (pointer v) (\<lambda>p. if p \<noteq> None then load p else ret 0)"

subsection \<open>Namespace \<open>shallow\<close>\<close>

text \<open>The implicit copy constructor, and the destructor, which does nothing.\<close>

definition shallow_copy :: "nat \<Rightarrow> nat \<Rightarrow> unit mprog" where
  "shallow_copy v f = seq (get_xy f) (\<lambda>p. seq (set_xy v p) (\<lambda>_. seq (pointer f) (set_pointer v)))"

definition shallow_delete :: "nat \<Rightarrow> unit mprog" where
  "shallow_delete v = end_of_life v"

subsection \<open>Namespace \<open>deep_copying\<close>\<close>

definition deepCopy :: "nat \<Rightarrow> nat \<Rightarrow> unit mprog" where
  "deepCopy this source = seq (get_xy source) (\<lambda>p. seq (set_xy this p) (\<lambda>_.
     seq (pointer this) (\<lambda>old. seq (free old) (\<lambda>_.
     seq (pointer source) (\<lambda>q.
     if q \<noteq> None then
       seq (alloc 0) (\<lambda>new. seq (set_pointer this new) (\<lambda>_.
       seq (pointer source) (\<lambda>q'. seq (load q') (store new))))
     else set_pointer this None)))))"

text \<open>The copy constructor starts from the default values of the fields.\<close>

definition copy_Model :: "nat \<Rightarrow> nat \<Rightarrow> unit mprog" where
  "copy_Model v source = seq (set_xy v (0, 1)) (\<lambda>_. seq (set_pointer v None) (\<lambda>_. deepCopy v source))"

definition assign_Model :: "nat \<Rightarrow> nat \<Rightarrow> unit mprog" where
  "assign_Model v source = (if v \<noteq> source then deepCopy v source else ret ())"

definition delete_Model :: "nat \<Rightarrow> unit mprog" where
  "delete_Model v = seq (pointer v) (\<lambda>p. seq (free p) (\<lambda>_. end_of_life v))"

subsection \<open>The two runs\<close>

text \<open>The objects are destroyed in reverse order.\<close>

definition demo :: "string \<Rightarrow> (nat \<Rightarrow> nat \<Rightarrow> unit mprog) \<Rightarrow> (nat \<Rightarrow> unit mprog) \<Rightarrow> unit mprog" where
  "demo title copy delete = block [
     new_Model 1 1 2 3,
     copy 2 1,
     changePtr 2 30,
     cout (endl @ ''=== '' @ title @ '' Copy Demo ==='' @ endl),
     seq (getPtr 1) (\<lambda>i. cout (''obj1.ptr_ = '' @ show_int i @ endl)),
     seq (getPtr 2) (\<lambda>i. cout (''obj2.ptr_ = '' @ show_int i @ endl)),
     delete 2, delete 1]"

definition shallow_run :: "unit mprog" where
  "shallow_run = demo ''Shallow'' shallow_copy shallow_delete"

definition deep_copying_run :: "unit mprog" where
  "deep_copying_run = demo ''Deep'' copy_Model delete_Model"

lemmas model_defs = ownership_defs set_xy_def get_xy_def new_Model_def changePtr_def getPtr_def shallow_copy_def
  shallow_delete_def deepCopy_def copy_Model_def assign_Model_def delete_Model_def

section \<open>A store of values\<close>

text \<open>The pointed-to value of each live variable, and its two integers.\<close>

type_synonym valuation = "(nat \<Rightarrow> int option option) \<times> (nat \<Rightarrow> int \<times> int)"

datatype command =
    New nat int int int
  | Copy nat nat
  | Assign nat nat
  | Change nat int
  | Delete nat

fun run_command :: "command \<Rightarrow> unit mprog" where
  "run_command (New v x y z) = new_Model v x y z"
| "run_command (Copy v w) = copy_Model v w"
| "run_command (Assign v w) = assign_Model v w"
| "run_command (Change v i) = changePtr v i"
| "run_command (Delete v) = delete_Model v"

fun allowed :: "valuation \<Rightarrow> command \<Rightarrow> bool" where
  "allowed (\<sigma>, f) (New v x y z) \<longleftrightarrow> \<sigma> v = None"
| "allowed (\<sigma>, f) (Copy v w) \<longleftrightarrow> \<sigma> v = None \<and> \<sigma> w \<noteq> None"
| "allowed (\<sigma>, f) (Assign v w) \<longleftrightarrow> \<sigma> v \<noteq> None \<and> \<sigma> w \<noteq> None"
| "allowed (\<sigma>, f) (Change v i) \<longleftrightarrow> \<sigma> v \<noteq> None"
| "allowed (\<sigma>, f) (Delete v) \<longleftrightarrow> \<sigma> v \<noteq> None"

fun spec_step :: "command \<Rightarrow> valuation \<Rightarrow> valuation" where
  "spec_step (New v x y z) (\<sigma>, f) = (\<sigma>(v \<mapsto> Some z), f(v := (x, y)))"
| "spec_step (Copy v w) (\<sigma>, f) = (\<sigma>(v := \<sigma> w), f(v := f w))"
| "spec_step (Assign v w) (\<sigma>, f) = (\<sigma>(v := \<sigma> w), f(v := f w))"
| "spec_step (Change v i) (\<sigma>, f) = (\<sigma>(v := map_option (map_option (\<lambda>_. i)) (\<sigma> v)), f)"
| "spec_step (Delete v) (\<sigma>, f) = (\<sigma>(v := None), f)"

fun all_allowed :: "valuation \<Rightarrow> command list \<Rightarrow> bool" where
  "all_allowed \<sigma> [] \<longleftrightarrow> True"
| "all_allowed \<sigma> (c # cs) \<longleftrightarrow> allowed \<sigma> c \<and> all_allowed (spec_step c \<sigma>) cs"

definition has_values :: "valuation \<Rightarrow> models \<Rightarrow> bool" where
  "has_values v s \<longleftrightarrow> holds_values (fst v) s \<and> xy s = snd v"

lemma holds_values_xy [simp]: "holds_values \<sigma> (s\<lparr>xy := f\<rparr>) = holds_values \<sigma> s"
  by (simp add: holds_values_def fresh_above_def cong: option.case_cong)

lemma has_values_xy: "has_values (\<sigma>, f) s \<Longrightarrow> has_values (\<sigma>, g) (s\<lparr>xy := g\<rparr>)"
  by (simp add: has_values_def)

lemma deepCopy_values:
  assumes h: "has_values (\<sigma>, f) s" and v: "\<sigma> v \<noteq> None" and w: "\<sigma> w \<noteq> None" and "v \<noteq> w"
  shows "\<exists>t. deepCopy v w s = Done () t \<and> has_values (\<sigma>(v := \<sigma> w), f(v := f w)) t"
proof -
  have hs: "holds_values \<sigma> s" and xy: "xy s = f" using h by (simp_all add: has_values_def)
  obtain p q where p: "vars s v = Some p" "vars s w = Some q" using v w by (auto simp: var_cases [OF hs])
  define t where "t = s\<lparr>cells := (case p of None \<Rightarrow> cells s | Some b \<Rightarrow> (cells s)(b := None)), vars := (vars s)(v := None)\<rparr>"
  have t: "holds_values (\<sigma>(v := None)) t" "vars t v = None"
    using values_drop [OF hs p(1)] by (simp_all add: t_def)
  note live = holds_values_facts [OF hs]
  show ?thesis
  proof (cases q)
    case None
    have "deepCopy v w s = Done () (t\<lparr>vars := (vars t)(v \<mapsto> None), xy := f(v := f w)\<rparr>)"
      using p None xy live(3) [of v] \<open>v \<noteq> w\<close>
      by (auto simp: model_defs deepCopy_def seq_def free_def t_def split: option.split)
    moreover have "\<sigma> w = Some None" using hs p None by (simp add: var_cases)
    ultimately show ?thesis using values_null [OF t] by (simp add: has_values_def)
  next
    case (Some b)
    obtain z where z: "cells s b = Some z" using live(3) p Some by blast
    have "p \<noteq> Some b" using live(4) [of v b w] p Some \<open>v \<noteq> w\<close> by auto
    then have "deepCopy v w s = Done () (t\<lparr>cells := (cells t)(brk t \<mapsto> z), brk := Suc (brk t),
        vars := (vars t)(v \<mapsto> Some (brk t)), xy := f(v := f w)\<rparr>)"
      using p Some z xy live(1) live(2,3) [of v] live(2) [of w] \<open>v \<noteq> w\<close>
      by (auto simp: model_defs deepCopy_def seq_def free_def alloc_def load_def store_def t_def fun_upd_twist
        split: option.split)
    moreover have "\<sigma> w = Some (Some z)" using hs p Some z by (simp add: var_cases)
    ultimately show ?thesis using values_new_array [OF t, of z] by (simp add: has_values_def)
  qed
qed

lemma models_command_values:
  assumes h: "has_values \<sigma> s" and a: "allowed \<sigma> c"
  shows "\<exists>t. run_command c s = Done () t \<and> has_values (spec_step c \<sigma>) t"
proof -
  obtain \<tau> f where st: "\<sigma> = (\<tau>, f)" by (cases \<sigma>)
  have hs: "holds_values \<tau> s" and xy: "xy s = f" using h st by (simp_all add: has_values_def)
  show ?thesis
  proof (cases c)
    case (New v x y z)
    let ?s = "s\<lparr>xy := f(v := (x, y))\<rparr>"
    have "holds_values \<tau> ?s" "vars ?s v = None" using a st hs New by (simp_all add: var_cases)
    from values_new_array [OF this, of z] New st xy show ?thesis
      by (simp add: new_Model_def set_xy_def set_pointer_def seq_def alloc_def has_values_def)
  next
    case (Copy v w)
    let ?s = "s\<lparr>xy := f(v := (0, 1))\<rparr>"
    have vw: "v \<noteq> w" "\<tau> w \<noteq> None" using a st Copy by auto
    have "holds_values \<tau> ?s" "vars ?s v = None" using a st hs Copy by (simp_all add: var_cases)
    from values_null [OF this]
    have "has_values (\<tau>(v \<mapsto> None), f(v := (0, 1))) (?s\<lparr>vars := (vars s)(v \<mapsto> None)\<rparr>)"
      by (simp add: has_values_def)
    from deepCopy_values [OF this _ _ vw(1)] vw Copy st xy show ?thesis
      by (auto simp: copy_Model_def set_xy_def set_pointer_def seq_def)
  next
    case (Assign v w)
    show ?thesis
    proof (cases "v = w")
      case True
      with h Assign st show ?thesis by (simp add: assign_Model_def ret_def)
    next
      case False
      with a Assign st h deepCopy_values [of \<tau> f s v w] show ?thesis by (simp add: assign_Model_def)
    qed
  next
    case (Change v i)
    with a st obtain p where p: "vars s v = Some p" by (auto simp: var_cases [OF hs])
    show ?thesis
    proof (cases p)
      case None
      with p hs have "\<tau> v = Some None" by (simp add: var_cases)
      then have "\<tau>(v := map_option (map_option (\<lambda>_. i)) (\<tau> v)) = \<tau>" by auto
      with None p Change st h show ?thesis by (simp add: changePtr_def pointer_def seq_def ret_def)
    next
      case (Some b)
      then obtain y where y: "cells s b = Some y" using holds_values_facts(3) [OF hs] p by blast
      with p Some hs have "\<tau> v = Some (Some y)" by (simp add: var_cases)
      with values_store [OF hs, of v b i] p Some y Change st xy show ?thesis
        by (simp add: changePtr_def pointer_def seq_def store_def has_values_def)
    qed
  next
    case (Delete v)
    with a st obtain p where p: "vars s v = Some p" by (auto simp: var_cases [OF hs])
    then have "delete_Model v s = Done () (s\<lparr>cells := (case p of None \<Rightarrow> cells s | Some b \<Rightarrow> (cells s)(b := None)),
        vars := (vars s)(v := None)\<rparr>)"
      using holds_values_facts(3) [OF hs, of v]
      by (auto simp: delete_Model_def pointer_def end_of_life_def seq_def free_def split: option.split)
    with values_drop [OF hs p] Delete st xy show ?thesis by (simp add: has_values_def)
  qed
qed

text \<open>
  C18.  The deep copy gives the class the semantics of a value: any sequence of constructions, copies,
  assignments (also of an object to itself), updates through the pointer and destructions that the
  language allows runs without undefined behaviour and leaves every variable with the three integers
  the store of values gives it, each in a heap object with exactly one owner.
\<close>

theorem deep_copy_values:
  assumes "has_values \<sigma> s" and "all_allowed \<sigma> cs"
  shows "\<exists>t. block (map run_command cs) s = Done () t \<and> has_values (fold spec_step cs \<sigma>) t"
  using assms
proof (induction cs arbitrary: \<sigma> s)
  case Nil
  then show ?case by (simp add: ret_def)
next
  case (Cons c cs)
  then obtain t where t: "run_command c s = Done () t" "has_values (spec_step c \<sigma>) t"
    using models_command_values by fastforce
  from Cons.IH [OF t(2)] Cons.prems(2) t(1) show ?case by (auto simp: seq_def)
qed

definition no_models :: models where
  "no_models = \<lparr>cells = (\<lambda>_. None), brk = 0, out = [], vars = (\<lambda>_. None), xy = (\<lambda>_. (0, 0))\<rparr>"

definition copies_and_changes :: "command list" where
  "copies_and_changes = [New 0 1 2 3, Copy 1 0, Change 1 30, Assign 1 1, New 2 4 5 6, Assign 2 1, Delete 0, Change 2 7]"

lemma no_models_values: "has_values ((\<lambda>_. None), (\<lambda>_. (0, 0))) no_models"
  by (simp add: has_values_def holds_values_def no_models_def fresh_above_def)

lemma deep_copy_values_witness:
  "\<exists>t. block (map run_command copies_and_changes) no_models = Done () t
     \<and> has_values (fold spec_step copies_and_changes ((\<lambda>_. None), (\<lambda>_. (0, 0)))) t"
  by (rule deep_copy_values [OF no_models_values]) (simp add: copies_and_changes_def)

section \<open>The demonstrations\<close>

lemma deep_copying_run_outcome:
  "\<exists>t. deep_copying_run no_models = Done () t \<and> cells t = (\<lambda>_. None) \<and> vars t = (\<lambda>_. None)
     \<and> Cout (''obj1.ptr_ = '' @ show_int 3 @ endl) \<in> set (out t) \<and> Cout (''obj2.ptr_ = '' @ show_int 30 @ endl) \<in> set (out t)"
  by (simp add: deep_copying_run_def demo_def no_models_def model_defs machine fun_eq_iff)

lemma shallow_run_shares:
  "\<exists>t. shallow_run no_models = Done () t \<and> live_addrs t = [0]
     \<and> Cout (''obj1.ptr_ = '' @ show_int 30 @ endl) \<in> set (out t) \<and> Cout (''obj2.ptr_ = '' @ show_int 30 @ endl) \<in> set (out t)"
  by (simp add: shallow_run_def demo_def no_models_def model_defs machine live_addrs_def)

end
