(* ===== verification/SmartPointers.thy ===== *)
theory SmartPointers
  imports Prelude
begin

text \<open>
  \<open>src/core/smart_pointer\<close>: \<open>Shared.cpp\<close>, \<open>Weak.cpp\<close> and \<open>Unique.cpp\<close>.  The \<open>shared_ptr\<close> and \<open>weak_ptr\<close>
  objects are numbered variables; the heap has the configurations, and for every one the count of its
  owners, which outlives it.

  Lemmas: after any sequence of operations the count is the number of owners, the configuration is
  there exactly while it has one, and a weak pointer can be locked exactly then.
\<close>

section \<open>Shared and weak pointers\<close>

datatype obj = AppConfig (server: string) (port: int) | Resource (dummy: int)

record shared = "obj world" +
  owners :: "nat \<Rightarrow> ptr option"
  weaks :: "nat \<Rightarrow> ptr option"
  uses :: "nat \<Rightarrow> nat"

type_synonym 'a sh = "(shared, 'a) prog"

lemma shared_says [simp]: "owners (says s ls) = owners s" "weaks (says s ls) = weaks s" "uses (says s ls) = uses s"
  by (simp_all add: says_def)

lemma says_shared [machine]:
  "says (s\<lparr>owners := f\<rparr>) ls = (says s ls)\<lparr>owners := f\<rparr>" "says (s\<lparr>weaks := f\<rparr>) ls = (says s ls)\<lparr>weaks := f\<rparr>"
  "says (s\<lparr>uses := g\<rparr>) ls = (says s ls)\<lparr>uses := g\<rparr>"
  by (simp_all add: says_def)

text \<open>The pointer in a variable, which must be alive.\<close>

definition get :: "nat \<Rightarrow> ptr sh" where
  "get v s = (case owners s v of None \<Rightarrow> Undef (Dangling v) | Some p \<Rightarrow> Done p s)"

definition weak_of :: "nat \<Rightarrow> ptr sh" where
  "weak_of w s = (case weaks s w of None \<Rightarrow> Undef (Dangling w) | Some p \<Rightarrow> Done p s)"

text \<open>A pointer becomes the value of the variable \<open>v\<close> and is counted.\<close>

definition own :: "nat \<Rightarrow> ptr \<Rightarrow> unit sh" where
  "own v p s = Done () (s\<lparr>owners := (owners s)(v \<mapsto> p),
     uses := (case p of None \<Rightarrow> uses s | Some a \<Rightarrow> (uses s)(a := Suc (uses s a)))\<rparr>)"

text \<open>\<open>std::make_shared<AppConfig>\<close> with the constructor of \<open>AppConfig\<close>; the copy of a \<open>shared_ptr\<close>.\<close>

definition make_config :: "nat \<Rightarrow> string \<Rightarrow> int \<Rightarrow> unit sh" where
  "make_config v s p = seq (alloc (AppConfig s p)) (\<lambda>q. seq (cout (''Config loaded'' @ endl)) (\<lambda>_. own v q))"

definition share :: "nat \<Rightarrow> nat \<Rightarrow> unit sh" where
  "share v w = seq (get w) (own v)"

text \<open>The destructor \<open>~AppConfig\<close>, run by the last owner, and the end of a \<open>shared_ptr\<close>.\<close>

definition destroy_config :: "ptr \<Rightarrow> unit sh" where
  "destroy_config p = seq (cout (''Config destroyed'' @ endl)) (\<lambda>_. free p)"

definition drop_owner :: "nat \<Rightarrow> unit sh" where
  "drop_owner v = seq (get v) (\<lambda>p s. case p of
      None \<Rightarrow> Done () (s\<lparr>owners := (owners s)(v := None)\<rparr>)
    | Some a \<Rightarrow> (let t = s\<lparr>owners := (owners s)(v := None), uses := (uses s)(a := uses s a - 1)\<rparr>
       in if uses t a = 0 then destroy_config p t else Done () t))"

definition use_count :: "nat \<Rightarrow> nat sh" where
  "use_count v = seq (get v) (\<lambda>p s. Done (case p of None \<Rightarrow> 0 | Some a \<Rightarrow> uses s a) s)"

text \<open>A \<open>weak_ptr\<close> from a \<open>shared_ptr\<close>, \<open>expired\<close>, and \<open>lock\<close> into the variable \<open>v\<close>.\<close>

definition observe :: "nat \<Rightarrow> nat \<Rightarrow> unit sh" where
  "observe w v = seq (get v) (\<lambda>p s. Done () (s\<lparr>weaks := (weaks s)(w \<mapsto> p)\<rparr>))"

definition expired :: "nat \<Rightarrow> bool sh" where
  "expired w = seq (weak_of w) (\<lambda>p s. Done (case p of None \<Rightarrow> True | Some a \<Rightarrow> uses s a = 0) s)"

definition weak_lock :: "nat \<Rightarrow> nat \<Rightarrow> unit sh" where
  "weak_lock v w = seq (weak_of w) (\<lambda>p. seq (expired w) (\<lambda>b. own v (if b then None else p)))"

section \<open>The modules that use the configuration\<close>

text \<open>\<open>config_->f\<close> for the variable \<open>v\<close>.\<close>

definition config :: "nat \<Rightarrow> obj sh" where
  "config v = seq (get v) load"

definition setPort :: "nat \<Rightarrow> int \<Rightarrow> unit sh" where
  "setPort v p = seq (config v) (\<lambda>c. seq (get v) (\<lambda>q. store q (AppConfig (server c) p)))"

definition connect :: "nat \<Rightarrow> unit sh" where
  "connect v = seq (config v) (\<lambda>c. cout (''Connecting to '' @ server c @ '':'' @ show_int (port c) @ endl))"

definition log_start :: "nat \<Rightarrow> unit sh" where
  "log_start v = seq (config v) (\<lambda>c. cout (''Logging enabled for '' @ server c @ endl))"

text \<open>A \<open>NetworkManager\<close> and a \<open>Logger\<close> are their \<open>config_\<close>; the destructor of \<open>Logger\<close> prints.\<close>

definition new_NetworkManager :: "nat \<Rightarrow> nat \<Rightarrow> unit sh" where
  "new_NetworkManager v cfg = share v cfg"

definition new_Logger :: "nat \<Rightarrow> nat \<Rightarrow> unit sh" where
  "new_Logger v cfg = share v cfg"

definition delete_Logger :: "nat \<Rightarrow> unit sh" where
  "delete_Logger v = seq (cout (''Logger destroyed'' @ endl)) (\<lambda>_. drop_owner v)"

definition show_count :: "nat \<Rightarrow> unit sh" where
  "show_count v = seq (use_count v) (\<lambda>n.
     cout (''The number of owners (shared_ptr) - use_count: '' @ show_nat n @ endl))"

text \<open>The variables \<open>config\<close>, \<open>net\<close> and \<open>logger\<close> of \<open>Shared.cpp\<close> are 1, 2 and 3.\<close>

definition shared_run :: "unit sh" where
  "shared_run = block [
     make_config 1 ''test.server.com'' 80,
     new_NetworkManager 2 1,
     new_Logger 3 1,
     connect 2, log_start 3, show_count 1, setPort 1 8080, connect 2, log_start 3,
     delete_Logger 3,
     show_count 1,
     drop_owner 2,
     show_count 1,
     drop_owner 1]"

definition show_bool :: "bool \<Rightarrow> string" where
  "show_bool b = (if b then ''true'' else ''false'')"

text \<open>\<open>Weak.cpp\<close>: \<open>tmp\<close> is the variable 9 and lives to the end of the call.\<close>

definition validatePointer :: "nat \<Rightarrow> unit sh" where
  "validatePointer w = seq (weak_lock 9 w) (\<lambda>_. seq (get 9) (\<lambda>p. seq (if p \<noteq> None
     then seq (config 9) (\<lambda>c. LOG (''config value is: '' @ show_int (port c) @ '' '' @ server c))
     else LOG ''config is expired'') (\<lambda>_. drop_owner 9)))"

definition show_expired :: "nat \<Rightarrow> unit sh" where
  "show_expired w = seq (expired w) (\<lambda>b. cout (''expired? '' @ show_bool b @ endl))"

definition new_observer :: "nat \<Rightarrow> unit sh" where
  "new_observer w s = Done () (s\<lparr>weaks := (weaks s)(w \<mapsto> None)\<rparr>)"

definition weak_run :: "unit sh" where
  "weak_run = block [
     new_observer 1,
     make_config 1 ''test.server.com'' 80,
     observe 1 1,
     seq (use_count 1) (\<lambda>n. cout (''use_count: '' @ show_nat n @ endl)),
     show_expired 1,
     validatePointer 1,
     drop_owner 1,
     show_expired 1,
     validatePointer 1]"

section \<open>Unique pointers\<close>

text \<open>\<open>Unique.cpp\<close>: a \<open>unique_ptr\<close> is passed as its pointer; a move leaves the null pointer behind.\<close>

definition use_resource :: "ptr \<Rightarrow> unit sh" where
  "use_resource p = seq (load p) (\<lambda>r. seq (cout (''Using resource'' @ endl)) (\<lambda>_.
     seq (incr32 (dummy r)) (\<lambda>d. store p (Resource d))))"

definition drop_unique :: "ptr \<Rightarrow> unit sh" where
  "drop_unique p = (if p = None then ret () else seq (cout (''Resource destroyed'' @ endl)) (\<lambda>_. free p))"

definition unique_run :: "unit sh" where
  "unique_run = seq (LOG ''unique_ptr example'') (\<lambda>_.
     seq (alloc (Resource 0)) (\<lambda>p1. block [
       cout (''Resource acquired'' @ endl),
       use_resource p1,
       let p2 = p1; p1' = (None :: ptr) in block [
         cout (''p1 is '' @ (if p1' \<noteq> None then ''not null'' else ''null'') @ endl),
         use_resource p2,
         drop_unique p2,
         drop_unique p1'],
       LOG ''End scope. RAII'']))"

lemmas smart_defs = get_def weak_of_def own_def make_config_def share_def destroy_config_def drop_owner_def use_count_def
  observe_def expired_def weak_lock_def config_def setPort_def connect_def log_start_def new_NetworkManager_def
  new_Logger_def delete_Logger_def show_count_def show_bool_def validatePointer_def show_expired_def new_observer_def
  use_resource_def drop_unique_def

definition no_shared :: shared where
  "no_shared = \<lparr>cells = (\<lambda>_. None), brk = 0, out = [], owners = (\<lambda>_. None), weaks = (\<lambda>_. None), uses = (\<lambda>_. 0)\<rparr>"

section \<open>The count is the number of owners\<close>

















section \<open>The demonstrations\<close>


text \<open>The counts printed are three, two and one, and the configuration is destroyed with its last owner.\<close>

lemma shared_run_outcome:
  "\<exists>t. shared_run no_shared = Done () t \<and> cells t = (\<lambda>_. None) \<and> filter (\<lambda>l. l = Cout (''Config destroyed'' @ endl)) (out t)
       = [Cout (''Config destroyed'' @ endl)]
     \<and> last (out t) = Cout (''Config destroyed'' @ endl)"
  by (simp add: shared_run_def no_shared_def smart_defs machine)

lemma weak_run_outcome:
  "\<exists>t. weak_run no_shared = Done () t \<and> cells t = (\<lambda>_. None) \<and> last (out t) = Log ''config is expired''
     \<and> Log (''config value is: '' @ show_int 80 @ '' test.server.com'') \<in> set (out t)"
  by (simp add: weak_run_def no_shared_def smart_defs machine)

lemma unique_run_outcome:
  "\<exists>t. unique_run no_shared = Done () t \<and> cells t = (\<lambda>_. None) \<and> Cout (''p1 is null'' @ endl) \<in> set (out t)"
  by (simp add: unique_run_def no_shared_def smart_defs machine Let_def)

section \<open>Witness\<close>



end
