(* ===== verification/Operators.thy ===== *)
theory Operators
  imports MainMenu "HOL-Library.Signed_Division"
begin

text \<open>
  \<open>src/core/function/operator_overloading\<close>: the operators the class \<open>Cents\<close> and the collections define.
  Each file has its own \<open>Cents\<close>, all with one \<open>int\<close>; they are one type here.

  Lemmas: a value that is written to a stream is read back from it; the order of values is linear;
  increment and decrement are inverse up to overflow; which subscripts are defined; the loop over an
  \<open>IntCollection\<close> visits its elements in order.
\<close>

datatype cents = Cents (getCents: int)

section \<open>Arithmetic: \<open>ArithmeticOperator.cpp\<close>, \<open>UnaryOperator.cpp\<close>\<close>

definition cents_of :: "int \<Rightarrow> ('s, cents) prog" where
  "cents_of i = seq (to_int32 i) (\<lambda>r. ret (Cents r))"

definition plus :: "cents \<Rightarrow> cents \<Rightarrow> ('s, cents) prog" where
  "plus c1 c2 = cents_of (getCents c1 + getCents c2)"

text \<open>The overloads with an \<open>int\<close> on one side.\<close>

definition int_plus :: "int \<Rightarrow> cents \<Rightarrow> ('s, cents) prog" where
  "int_plus v1 c2 = cents_of (v1 + getCents c2)"

definition plus_int :: "cents \<Rightarrow> int \<Rightarrow> ('s, cents) prog" where
  "plus_int c1 v2 = cents_of (v2 + getCents c1)"

definition minus :: "cents \<Rightarrow> cents \<Rightarrow> ('s, cents) prog" where
  "minus c1 c2 = cents_of (getCents c1 - getCents c2)"

definition times :: "cents \<Rightarrow> cents \<Rightarrow> ('s, cents) prog" where
  "times c1 c2 = cents_of (getCents c1 * getCents c2)"

definition divide_by :: "cents \<Rightarrow> cents \<Rightarrow> ('s, cents) prog" where
  "divide_by c1 c2 = (if getCents c2 = 0 then undef DivByZero else cents_of (getCents c1 sdiv getCents c2))"

definition arithmetic_run :: "('o world, unit) prog" where
  "arithmetic_run = (let c1 = Cents 25; c2 = Cents 75 in
     seq (plus c1 c2) (\<lambda>sum. seq (int_plus 125 c2) (\<lambda>sum2. seq (cout (''Sum: '' @ show_int (getCents sum) @ '' '' @ show_int (getCents sum2) @ endl)) (\<lambda>_.
     seq (minus c1 c2) (\<lambda>sub. seq (cout (''Sub: '' @ show_int (getCents sub) @ endl)) (\<lambda>_.
     seq (divide_by c1 c2) (\<lambda>quot. seq (cout (''Div: '' @ show_int (getCents quot) @ endl)) (\<lambda>_.
     seq (times c1 c2) (\<lambda>mul. cout (''Mul: '' @ show_int (getCents mul) @ endl))))))))))"

definition negate :: "cents \<Rightarrow> ('s, cents) prog" where
  "negate c = cents_of (- getCents c)"

definition positive :: "cents \<Rightarrow> cents" where
  "positive c = Cents (getCents c)"

definition not_cents :: "cents \<Rightarrow> bool" where
  "not_cents c \<longleftrightarrow> getCents c = 0"

definition unary_run :: "('o world, unit) prog" where
  "unary_run = (let c1 = Cents 25 in
     if not_cents c1 = False then seq (negate c1) (\<lambda>c. cout (show_int (getCents c))) else ret ())"

section \<open>Comparison: \<open>ComparisonOperator.cpp\<close>\<close>

text \<open>
  The defaulted \<open>operator<=>\<close> compares the only member and returns a \<open>std::strong_ordering\<close>;
  the compiler rewrites \<open>a < b\<close> to \<open>(a <=> b) < 0\<close> and \<open>a <= b\<close> to \<open>(a <=> b) <= 0\<close>.
\<close>

datatype strong_ordering = LT | EQ | GT

definition three_way :: "cents \<Rightarrow> cents \<Rightarrow> strong_ordering" where
  "three_way c d = (if getCents c < getCents d then LT else if getCents c = getCents d then EQ else GT)"

lemma three_way_cases:
  "three_way c d = LT \<longleftrightarrow> getCents c < getCents d"
  "three_way c d = GT \<longleftrightarrow> getCents d < getCents c"
  "three_way c d = EQ \<longleftrightarrow> c = d"
  by (auto simp: three_way_def cents.expand)

instantiation cents :: linorder
begin

definition less_eq_cents :: "cents \<Rightarrow> cents \<Rightarrow> bool" where
  "less_eq_cents c d \<longleftrightarrow> three_way c d \<noteq> GT"

definition less_cents :: "cents \<Rightarrow> cents \<Rightarrow> bool" where
  "less_cents c d \<longleftrightarrow> three_way c d = LT"

instance by standard (auto simp: less_eq_cents_def less_cents_def three_way_cases cents.expand)

end

definition show_bool :: "bool \<Rightarrow> string" where
  "show_bool b = (if b then ''true'' else ''false'')"

definition comparison_run :: "('o world, unit) prog" where
  "comparison_run = (let pt1 = Cents 25; pt2 = Cents 30 in
     cout (show_bool (pt1 = pt2) @ '' '' @ show_bool (pt1 \<noteq> pt2) @ '' '' @ show_bool (pt1 < pt2) @ '' ''
       @ show_bool (pt1 \<le> pt2) @ '' '' @ show_bool (pt2 < pt1) @ '' '' @ show_bool (pt2 \<le> pt1) @ '' ''))"

section \<open>Increment and decrement: \<open>InDecOperator.cpp\<close>\<close>

text \<open>The object is the state variable \<open>cents_\<close>.\<close>

record counter = "unit world" +
  cents :: int

lemma cents_says [simp]: "cents (says s ls) = cents s" "(says s ls)\<lparr>cents := i\<rparr> = says (s\<lparr>cents := i\<rparr>) ls"
  by (simp_all add: says_def)

definition set_cents :: "int \<Rightarrow> (counter, unit) prog" where
  "set_cents i s = Done () (s\<lparr>cents := i\<rparr>)"

definition get_cents :: "(counter, int) prog" where
  "get_cents s = Done (cents s) s"

definition pre_inc :: "(counter, unit) prog" where
  "pre_inc = seq (LOG '''') (\<lambda>_. seq get_cents (\<lambda>i. seq (to_int32 (i + 1)) set_cents))"

definition pre_dec :: "(counter, unit) prog" where
  "pre_dec = seq (LOG '''') (\<lambda>_. seq get_cents (\<lambda>i. seq (to_int32 (i - 1)) set_cents))"

definition post_inc :: "(counter, cents) prog" where
  "post_inc = seq (LOG '''') (\<lambda>_. seq get_cents (\<lambda>temp. seq pre_inc (\<lambda>_. ret (Cents temp))))"

definition post_dec :: "(counter, cents) prog" where
  "post_dec = seq (LOG '''') (\<lambda>_. seq get_cents (\<lambda>temp. seq pre_dec (\<lambda>_. ret (Cents temp))))"

definition indec_run :: "(counter, unit) prog" where
  "indec_run = block [set_cents 25, seq post_inc (\<lambda>_. ret ()), pre_inc, seq post_dec (\<lambda>_. ret ()), pre_dec,
     seq get_cents (\<lambda>i. LOG (show_int i))]"

section \<open>Streams: \<open>StreamOperator.cpp\<close>\<close>

text \<open>Standard input with its error state.\<close>

record stream = io +
  failed :: bool

type_synonym 'a sprog = "(stream, 'a) prog"

lemma stream_says [simp]: "failed (says s ls) = failed s"
  by (simp add: says_def)

definition write_cents :: "cents \<Rightarrow> unit sprog" where
  "write_cents c = seq (LOG '''') (\<lambda>_. cout (show_int (getCents c)))"

text \<open>\<open>in >> cents\<close>; a stream that has failed reads nothing.\<close>

definition extract_int :: "int option sprog" where
  "extract_int s = (if failed s then Done None s
     else case read_int (stdin s) of
       (Some i, rest) \<Rightarrow> Done (Some i) (s\<lparr>stdin := rest\<rparr>)
     | (None, rest) \<Rightarrow> Done None (s\<lparr>stdin := rest, failed := True\<rparr>))"

definition read_cents :: "cents sprog" where
  "read_cents = seq (LOG '''') (\<lambda>_. seq extract_int (\<lambda>r. ret (case r of Some i \<Rightarrow> Cents i | None \<Rightarrow> Cents 0)))"

definition get_line :: "unit sprog" where
  "get_line s = Done () (if failed s then s else if stdin s = '''' then s\<lparr>failed := True\<rparr>
     else s\<lparr>stdin := tl (dropWhile (\<lambda>c. c \<noteq> nl) (stdin s))\<rparr>)"

definition stream_run :: "unit sprog" where
  "stream_run = block [
     write_cents (Cents 25), cout endl,
     seq read_cents (\<lambda>c1. seq (write_cents c1) (\<lambda>_. cout endl)),
     get_line]"

section \<open>Conversions: \<open>TypeCast.cpp\<close>\<close>

definition cents_to_int :: "cents \<Rightarrow> ('o world, int) prog" where
  "cents_to_int c = seq (cout (''explicit operator int() const'' @ endl)) (\<lambda>_. ret (getCents c))"

definition dollars_to_cents :: "int \<Rightarrow> ('o world, cents) prog" where
  "dollars_to_cents d = seq (cout (''operator Cents() const'' @ endl)) (\<lambda>_. cents_of (d * 1000))"

definition printCents :: "cents \<Rightarrow> ('o world, unit) prog" where
  "printCents c = seq (cents_to_int c) (\<lambda>i. cout (show_int i))"

definition cast_run :: "('o world, unit) prog" where
  "cast_run = seq (dollars_to_cents 100) printCents"

section \<open>Assignment: \<open>AssignmentOperator.cpp\<close>\<close>

definition copy_cents :: "cents \<Rightarrow> ('o world, cents) prog" where
  "copy_cents other = seq (LOG '''') (\<lambda>_. ret (Cents (getCents other)))"

definition assignment_run :: "('o world, unit) prog" where
  "assignment_run = (let c1 = Cents 100 in
     seq (LOG ''c2 = c1;'') (\<lambda>_. seq (copy_cents c1) (\<lambda>c2.
     seq (LOG ''Cents c3 = c1;'') (\<lambda>_. seq (copy_cents c1) (\<lambda>c3. ret ())))))"

section \<open>Subscripts: \<open>SubscriptOperator.cpp\<close>\<close>

definition IntList :: "int list" where
  "IntList = [0, 1, 2, 3, 4, 5, 6, 7, 8, 9]"

text \<open>Outside its ten elements the array is not defined.\<close>

definition subscript :: "int list \<Rightarrow> int \<Rightarrow> ('s, int) prog" where
  "subscript l i = (if 0 \<le> i \<and> i < int (length l) then ret (l ! nat i) else undef BadIndex)"

definition set_subscript :: "int list \<Rightarrow> int \<Rightarrow> int \<Rightarrow> ('s, int list) prog" where
  "set_subscript l i x = (if 0 \<le> i \<and> i < int (length l) then ret (l[nat i := x]) else undef BadIndex)"

definition subscript_run :: "('o world, unit) prog" where
  "subscript_run = seq (set_subscript IntList 2 3) (\<lambda>l. seq (subscript l 2) (\<lambda>x. seq (cout (show_int x @ endl)) (\<lambda>_.
     seq (subscript IntList 2) (\<lambda>y. cout (show_int y @ endl)))))"

section \<open>Iteration and allocation: \<open>ClassMemberAccessOperator.cpp\<close>, \<open>AllocationOperator.cpp\<close>\<close>

text \<open>The heap has arrays of collections; an iterator is an index into the three elements.\<close>

type_synonym collections = "int list list world"

definition IntCollection :: "int list" where
  "IntCollection = [10, 20, 30]"

definition elements :: "ptr \<Rightarrow> nat \<Rightarrow> (collections, int list) prog" where
  "elements p k = seq (load p) (\<lambda>cs. if k < length cs then ret (cs ! k) else undef BadIndex)"

text \<open>\<open>operator*\<close>, which prints in the first of the two files.\<close>

definition deref :: "bool \<Rightarrow> ptr \<Rightarrow> nat \<Rightarrow> nat \<Rightarrow> (collections, int) prog" where
  "deref verbose p k it = seq (if verbose then cout (''int& operator*()'' @ endl) else ret ()) (\<lambda>_.
     seq (elements p k) (\<lambda>xs. if it < length xs then ret (xs ! it) else undef BadIndex))"

text \<open>The loop from \<open>it\<close> to \<open>end()\<close>, the address after the third element.\<close>

function visit :: "bool \<Rightarrow> ptr \<Rightarrow> nat \<Rightarrow> nat \<Rightarrow> (collections, unit) prog" where
  "visit verbose p k it = (if it < 3
     then seq (deref verbose p k it) (\<lambda>x. seq (cout (show_int x @ endl)) (\<lambda>_. visit verbose p k (Suc it)))
     else ret ())"
  by pat_completeness auto

termination
  by (relation "measure (\<lambda>(_, _, _, it). 3 - it)") auto

definition access_run :: "(collections, unit) prog" where
  "access_run = seq (alloc [IntCollection]) (\<lambda>col. block [visit True col 0 0, free col])"

text \<open>The member \<open>operator new\<close> and \<open>operator delete\<close>, and their array forms.\<close>

definition operator_new :: "string \<Rightarrow> nat \<Rightarrow> (collections, ptr) prog" where
  "operator_new form n = seq (cout (''void* operator new'' @ form @ ''(size_t size)'' @ endl)) (\<lambda>_.
     alloc (replicate n IntCollection))"

definition operator_delete :: "string \<Rightarrow> ptr \<Rightarrow> (collections, unit) prog" where
  "operator_delete form p = seq (cout (''void operator delete'' @ form @ ''(void* p)'' @ endl)) (\<lambda>_. free p)"

definition allocation_run :: "(collections, unit) prog" where
  "allocation_run =
     seq (operator_new '''' 1) (\<lambda>col. block [visit False col 0 0, operator_delete '''' col,
     seq (operator_new ''[]'' 10) (\<lambda>cols. block [
       for_each [0..<10] (\<lambda>i. visit False cols i 0),
       operator_delete ''[]'' cols])])"

declare visit.simps [simp del]

lemmas operator_defs = cents_of_def plus_def int_plus_def plus_int_def minus_def times_def divide_by_def negate_def
  not_cents_def set_cents_def get_cents_def pre_inc_def pre_dec_def post_inc_def post_dec_def write_cents_def
  extract_int_def read_cents_def get_line_def cents_to_int_def dollars_to_cents_def printCents_def copy_cents_def
  subscript_def set_subscript_def elements_def deref_def operator_new_def operator_delete_def

section \<open>Lemmas\<close>

lemma read_int_negative:
  assumes "int32 (- int n)"
  shows "read_int (''-'' @ show_nat n) = (Some (- int n), [])"
proof -
  have dig: "\<forall>c \<in> set (show_nat n). is_digit c" using show_nat_digits(1) by (simp add: list_all_iff)
  then have tw: "takeWhile is_digit (show_nat n) = show_nat n" "dropWhile is_digit (show_nat n) = []"
    by (auto simp: takeWhile_eq_all_conv)
  have "\<not> is_space (CHR ''-'')" by (simp add: is_space_def)
  with assms show_nat_digits(2) [of n] show ?thesis by (simp add: read_int_def read_show_nat Let_def tw)
qed

lemma read_show_int: "int32 i \<Longrightarrow> read_int (show_int i) = (Some i, [])"
  using read_int_number [of "nat i"] read_int_negative [of "nat (- i)"] by (auto simp: show_int_def)

lemma show_int_visible: "\<exists>c \<in> set (show_int i). \<not> is_space c"
proof (cases "i < 0")
  case True
  then show ?thesis by (simp add: show_int_def is_space_def)
next
  case False
  obtain d ds where "show_nat (nat i) = d # ds" using show_nat_digits(2) by (cases "show_nat (nat i)") auto
  moreover from this have "is_digit d" using show_nat_digits(1) [of "nat i"] by simp
  ultimately show ?thesis using False is_digit_classes by (auto simp: show_int_def)
qed

lemma read_written: "int32 i \<Longrightarrow> read_int (show_int i @ nl # y) = (Some i, nl # y)"
  by (simp add: read_int_line [OF show_int_visible] read_show_int)

lemma stream_stdin_says [simp]: "(says s ls)\<lparr>failed := b\<rparr> = says (s\<lparr>failed := b\<rparr>) ls"
  by (simp add: says_def)

text \<open>
  Writing and reading are inverse: what \<open>operator<<\<close> prints for a value, read as a line of input by
  \<open>operator>>\<close> and \<open>getline\<close>, gives the value back and consumes exactly that line.
\<close>

theorem cents_stream_roundtrip:
  assumes "int32 (getCents c)"
  shows "\<exists>x. write_cents c s = Done () (says s [Log '''', Cout x]) \<and> (\<forall>(t :: stream) y. stdin t = x @ endl @ y \<longrightarrow> \<not> failed t \<longrightarrow>
      seq read_cents (\<lambda>d. seq get_line (\<lambda>_. ret d)) t = Done c (says (t\<lparr>stdin := y\<rparr>) [Log '''']))"
proof (intro exI conjI allI impI)
  show "write_cents c s = Done () (says s [Log '''', Cout (show_int (getCents c))])"
    by (simp add: write_cents_def machine)
  fix t :: stream and y
  assume "stdin t = show_int (getCents c) @ endl @ y" "\<not> failed t"
  with read_written [OF assms, of y]
  show "seq read_cents (\<lambda>d. seq get_line (\<lambda>_. ret d)) t = Done c (says (t\<lparr>stdin := y\<rparr>) [Log ''''])"
    by (simp add: read_cents_def extract_int_def get_line_def endl_def machine)
qed

text \<open>A failed stream gives zero and is left alone.\<close>

lemma read_cents_failed: "failed s \<Longrightarrow> seq read_cents (\<lambda>d. seq get_line (\<lambda>_. ret d)) s = Done (Cents 0) (says s [Log ''''])"
  by (simp add: read_cents_def extract_int_def get_line_def machine)

lemma indec_inverse:
  assumes "int32 (cents s)" and "cents s < 2 ^ 31 - 1"
  shows "seq post_inc (\<lambda>c. seq post_dec (\<lambda>d. ret (c, d))) s
    = Done (Cents (cents s), Cents (cents s + 1)) (says s [Log '''', Log '''', Log '''', Log ''''])"
  using assms by (simp add: operator_defs machine int32_def)

lemma negate_overflow: "negate (Cents (- (2 ^ 31))) s = Undef SignedOverflow"
  by (simp add: negate_def cents_of_def to_int32_def int32_def machine)

lemma division_by_zero: "divide_by c (Cents 0) s = Undef DivByZero"
  by (simp add: divide_by_def machine)

lemma subscript_defined: "subscript IntList i s = (if 0 \<le> i \<and> i < 10 then Done i s else Undef BadIndex)"
proof -
  have "IntList ! n = int n" if "n < 10" for n
    using that by (simp add: IntList_def less_Suc_eq numeral_eq_Suc) (elim disjE; simp)
  then show ?thesis by (simp add: subscript_def machine) (simp add: IntList_def)
qed

text \<open>The loop over a collection prints its elements in order.\<close>

lemma visit_prints:
  assumes "cells s a = Some cs" and "k < length cs" and "cs ! k = [x, y, z]"
  shows "visit False (Some a) k 0 s = Done () (says s (map (\<lambda>i. Cout (show_int i @ endl)) [x, y, z]))"
  using assms by (simp add: visit.simps operator_defs machine)

definition elements_shown :: "line list" where
  "elements_shown = map (\<lambda>i. Cout (show_int i @ endl)) IntCollection"

lemma visit_collections:
  assumes "cells s a = Some cs" and "\<forall>k \<in> set ks. k < length cs \<and> cs ! k = IntCollection"
  shows "for_each ks (\<lambda>k. visit False (Some a) k 0) s = Done () (says s (concat (replicate (length ks) elements_shown)))"
  using assms
proof (induction ks arbitrary: s)
  case Nil
  then show ?case by (simp add: ret_def)
next
  case (Cons k ks)
  have "visit False (Some a) k 0 s = Done () (says s elements_shown)"
    using Cons.prems visit_prints [of s a cs k 10 20 30] by (simp add: IntCollection_def elements_shown_def)
  with Cons show ?case by (simp add: seq_def)
qed

text \<open>Every collection of the array is visited, and both allocations are freed.\<close>

lemma allocation_run_outcome:
  "\<exists>t. allocation_run boot = Done () t \<and> live_addrs t = []
    \<and> filter (\<lambda>l. l \<in> set elements_shown) (out t) = concat (replicate 11 elements_shown)"
proof -
  have v: "visit False (Some a) 0 0 s = Done () (says s elements_shown)" if "cells s a = Some [IntCollection]" for a s
    using visit_prints [of s a "[IntCollection]" 0 10 20 30] that by (simp add: IntCollection_def elements_shown_def)
  have vs: "for_each [0..<10] (\<lambda>k. visit False (Some a) k 0) s = Done () (says s (concat (replicate 10 elements_shown)))"
    if "cells s a = Some (replicate 10 IntCollection)" for a s
    using visit_collections [OF that, of "[0..<10]"] by simp
  have e: "filter (\<lambda>l. l \<in> set elements_shown) elements_shown = elements_shown" by (simp add: filter_id_conv)
  then have es: "filter (\<lambda>l. l \<in> set elements_shown) (concat (replicate n elements_shown)) = concat (replicate n elements_shown)" for n
    by (induction n) auto
  have c: "Cout (''void'' @ x) \<notin> set elements_shown" for x
    by (simp add: elements_shown_def IntCollection_def show_int_def show_nat.simps digit_char_literals endl_def)
  have "concat (replicate (Suc 10) xs) = xs @ concat (replicate 10 xs)" for xs :: "line list"
    by (simp only: replicate_Suc concat.simps)
  then have n: "elements_shown @ concat (replicate 10 elements_shown) = concat (replicate 11 elements_shown)" by simp
  show ?thesis
    using c n by (simp add: allocation_run_def operator_new_def operator_delete_def machine v vs live_addrs_def es e)
qed

lemma arithmetic_run_prints: "\<exists>t. arithmetic_run (boot :: unit world) = Done () t \<and> out t =
    [Cout (''Sum: '' @ show_int 100 @ '' '' @ show_int 200 @ endl), Cout (''Sub: '' @ show_int (- 50) @ endl),
     Cout (''Div: '' @ show_int 0 @ endl), Cout (''Mul: '' @ show_int 1875 @ endl)]"
  by (simp add: arithmetic_run_def operator_defs machine Let_def int32_def)

lemma comparison_run_prints: "comparison_run s = Done () (says s [Cout ''false true true true false false ''])"
  by (simp add: comparison_run_def show_bool_def less_cents_def less_eq_cents_def three_way_cases machine Let_def)

lemma indec_run_prints: "\<exists>t. indec_run s = Done () t \<and> cents t = 25 \<and> out t = out s @ replicate 6 (Log '''') @ [Log (show_int 25)]"
  by (simp add: indec_run_def operator_defs machine int32_def numeral_eq_Suc)

section \<open>Witness\<close>

definition demo_stream :: stream where
  "demo_stream = \<lparr>cells = (\<lambda>_. None), brk = 0, out = [], stdin = show_int (- 70) @ endl @ ''next'', failed = False\<rparr>"

lemma demo_stream_sel: "stdin demo_stream = show_int (- 70) @ endl @ ''next''" "\<not> failed demo_stream"
  by (simp_all add: demo_stream_def)

lemma cents_stream_roundtrip_witness:
  "seq read_cents (\<lambda>d. seq get_line (\<lambda>_. ret d)) demo_stream
    = Done (Cents (- 70)) (says (demo_stream\<lparr>stdin := ''next''\<rparr>) [Log []])"
proof -
  obtain x where x: "write_cents (Cents (- 70)) demo_stream = Done () (says demo_stream [Log [], Cout x])"
    "\<forall>t y. stdin t = x @ endl @ y \<longrightarrow> \<not> failed t \<longrightarrow>
      seq read_cents (\<lambda>d. seq get_line (\<lambda>_. ret d)) t = Done (Cents (- 70)) (says (t\<lparr>stdin := y\<rparr>) [Log []])"
    using cents_stream_roundtrip [of "Cents (- 70)" demo_stream] by (auto simp: int32_def)
  have "write_cents (Cents (- 70)) demo_stream = Done () (says demo_stream [Log [], Cout (show_int (- 70))])"
    by (simp add: write_cents_def machine)
  with x(1) have "says demo_stream [Log [], Cout x] = says demo_stream [Log [], Cout (show_int (- 70))]"
    by (metis result.inject(1))
  from arg_cong [OF this, of out] have "x = show_int (- 70)" by simp
  with x(2) demo_stream_sel show ?thesis by blast
qed

end
