(* ===== verification/Classes.thy ===== *)
theory Classes
  imports Prelude
begin

text \<open>
  \<open>src/core/class\<close>: \<open>Constructor.cpp\<close>, \<open>Destructor.cpp\<close>, \<open>Encapsulation.cpp\<close>, \<open>Friend.cpp\<close>,
  \<open>Relationship.cpp\<close>, \<open>VirtualBase.cpp\<close> and \<open>Binding.cpp\<close>.  The calls the compiler inserts, of
  constructors of bases and members and of destructors in reverse order, are written out.

  Lemmas: the states that moves and copies leave; that a move chain keeps the value in one object; the
  age of a person; the order in which objects are created and destroyed.
\<close>

section \<open>Constructors: \<open>Constructor.cpp\<close>\<close>

definition line_out :: "string \<Rightarrow> (('o, 'z) world_scheme, unit) prog" where
  "line_out x = cout (x @ endl)"

subsection \<open>Namespace \<open>initializer_list\<close>\<close>

definition list_ctor2 :: "int \<Rightarrow> int \<Rightarrow> ('o world, int \<times> int \<times> int) prog" where
  "list_ctor2 x y = seq (line_out ''Called Constructor(int x, int y) : x_(x), y_(y) '') (\<lambda>_. ret (x, y, 0))"

definition list_ctor3 :: "int \<Rightarrow> int \<Rightarrow> int \<Rightarrow> ('o world, int \<times> int \<times> int) prog" where
  "list_ctor3 x y z = seq (line_out ''Called Constructor(int x, int y, int z) : x_{x}, y_{y}, z_{z} '') (\<lambda>_. ret (x, y, z))"

definition list_ctor1 :: "int \<Rightarrow> ('o world, int \<times> int \<times> int) prog" where
  "list_ctor1 x = seq (line_out ''Called Constructor(int x = 1) '') (\<lambda>_. ret (x, 0, 0))"

definition print3 :: "int \<times> int \<times> int \<Rightarrow> ('o world, unit) prog" where
  "print3 = (\<lambda>(x, y, z). line_out (''x_ = '' @ show_int x @ '', y_ = '' @ show_int y @ '', z_ = '' @ show_int z))"

definition initializer_list_constructers :: "('o world, unit) prog" where
  "initializer_list_constructers = block [
     line_out (endl @ ''--- InitializerList Constructer Examples ---''),
     seq (list_ctor1 1) (\<lambda>_. ret ()),
     seq (list_ctor2 1 2) print3,
     seq (list_ctor3 3 4 5) print3]"

subsection \<open>Namespace \<open>default_constructor\<close>\<close>

definition UConstructors :: "('o world, unit) prog" where
  "UConstructors = line_out ''Called UConstructors() ''"

definition EConstructors :: "('o world, unit) prog" where
  "EConstructors = line_out ''Called explicit EConstructors(int a) ''"

text \<open>The other objects of the function have constructors that do nothing.\<close>

definition default_constructers :: "('o world, unit) prog" where
  "default_constructers = block [
     line_out (endl @ ''--- Default Constructer Examples ---''),
     UConstructors, UConstructors, EConstructors, EConstructors]"

subsection \<open>Namespace \<open>delegate\<close>\<close>

definition delegate_ctor2 :: "int \<Rightarrow> int \<Rightarrow> ('o world, int \<times> int) prog" where
  "delegate_ctor2 x y = seq (line_out ''Called  Constructor(int x, int y) : x_{x}, y_{y} '') (\<lambda>_. ret (x, y))"

definition delegate_ctor1 :: "int \<Rightarrow> ('o world, int \<times> int) prog" where
  "delegate_ctor1 x = seq (delegate_ctor2 x 1) (\<lambda>c. seq (line_out ''Called   Constructor(int x):Constructor(x,0) '') (\<lambda>_. ret c))"

definition delegate_ctor0 :: "('o world, int \<times> int) prog" where
  "delegate_ctor0 = seq (delegate_ctor1 0) (\<lambda>c. seq (line_out ''Called    Constructor() : Constructor(0) '') (\<lambda>_. ret c))"

definition print2 :: "int \<times> int \<Rightarrow> (('o, 'z) world_scheme, unit) prog" where
  "print2 = (\<lambda>(x, y). line_out (''x_ = '' @ show_int x @ '', y_ = '' @ show_int y))"

definition delegate_constructors :: "('o world, unit) prog" where
  "delegate_constructors = block [line_out (endl @ ''--- Delegate Constructer Examples ---''), seq delegate_ctor0 print2]"

subsection \<open>Namespace \<open>copy\<close>\<close>

definition IConstructor :: "int \<Rightarrow> int \<Rightarrow> ('o world, int \<times> int) prog" where
  "IConstructor x y = seq (line_out ''Called  IConstructor(int x, int y) : x_{x}, y_{y} '') (\<lambda>_. ret (x, y))"

definition EConstructor :: "int \<Rightarrow> int \<Rightarrow> ('o world, int \<times> int) prog" where
  "EConstructor x y = seq (line_out ''Called  IConstructor(int x, int y) : x_{x}, y_{y} '') (\<lambda>_. ret (x, y))"

text \<open>
  The written copy constructor initialises both fields with \<open>x_\<close>; the copy assignment does not: \<open>same\<close>
  says that the object is assigned to itself.
\<close>

definition copy_EConstructor :: "int \<times> int \<Rightarrow> ('o world, int \<times> int) prog" where
  "copy_EConstructor r =
     seq (line_out ''Called  EConstructor(const EConstructor& ref) : x_{ref.x_}, y_{ref.x_} '') (\<lambda>_. ret (fst r, fst r))"

definition assign_EConstructor :: "bool \<Rightarrow> int \<times> int \<Rightarrow> int \<times> int \<Rightarrow> int \<times> int" where
  "assign_EConstructor same this other = (if \<not> same then (fst other, snd other) else this)"

definition DeConstructor :: "int \<Rightarrow> int \<Rightarrow> ('o world, int \<times> int) prog" where
  "DeConstructor x y = seq (line_out ''Called  DeConstructor(int x, int y) : x_{x}, y_{y} '') (\<lambda>_. ret (x, y))"

definition copy_constructors :: "('o world, unit) prog" where
  "copy_constructors = block [
     line_out (endl @ ''--- Copy Constructer Examples ---''),
     seq (IConstructor 1 2) (\<lambda>obj1. let obj2 = obj1 in block [print2 obj1, print2 obj2]),
     seq (EConstructor 3 4) (\<lambda>obj3. seq (copy_EConstructor obj3) (\<lambda>obj4. block [print2 obj3, print2 obj4])),
     seq (DeConstructor 5 6) print2]"

subsection \<open>Namespace \<open>move\<close>\<close>

text \<open>The objects are variables, so that an object can be assigned to itself.\<close>

record movers = "unit world" +
  objs :: "nat \<Rightarrow> (int \<times> int) option"

lemma movers_says [simp]: "objs (says s ls) = objs s"
  by (simp add: says_def)

lemma says_movers [machine]: "says (s\<lparr>objs := f\<rparr>) ls = (says s ls)\<lparr>objs := f\<rparr>"
  by (simp add: says_def)

definition xy_of :: "nat \<Rightarrow> (movers, int \<times> int) prog" where
  "xy_of v s = (case objs s v of None \<Rightarrow> Undef (Dangling v) | Some p \<Rightarrow> Done p s)"

definition set_xy :: "nat \<Rightarrow> int \<times> int \<Rightarrow> (movers, unit) prog" where
  "set_xy v p s = Done () (s\<lparr>objs := (objs s)(v \<mapsto> p)\<rparr>)"

definition new_Model :: "nat \<Rightarrow> int \<Rightarrow> int \<Rightarrow> (movers, unit) prog" where
  "new_Model v x y = seq (set_xy v (x, y)) (\<lambda>_. line_out ''Call constructor '')"

definition delete_Model :: "nat \<Rightarrow> (movers, unit) prog" where
  "delete_Model v = seq (line_out ''Call destructor '') (\<lambda>_ s. Done () (s\<lparr>objs := (objs s)(v := None)\<rparr>))"

definition copy_Model :: "nat \<Rightarrow> nat \<Rightarrow> (movers, unit) prog" where
  "copy_Model v other = seq (xy_of other) (\<lambda>p. seq (new_Model v (fst p) (snd p)) (\<lambda>_. line_out ''Call copy constructor ''))"

definition assign_Model :: "nat \<Rightarrow> nat \<Rightarrow> (movers, unit) prog" where
  "assign_Model this other = seq (line_out ''Call copy assigment '') (\<lambda>_.
     if this \<noteq> other then seq (xy_of other) (set_xy this) else ret ())"

definition move_Model :: "nat \<Rightarrow> nat \<Rightarrow> (movers, unit) prog" where
  "move_Model v source = seq (xy_of source) (\<lambda>p. seq (set_xy v p) (\<lambda>_.
     seq (line_out ''Call move constructor'') (\<lambda>_. set_xy source (0, 0))))"

definition move_assign_Model :: "nat \<Rightarrow> nat \<Rightarrow> (movers, unit) prog" where
  "move_assign_Model this source = seq (line_out ''Call move assigment '') (\<lambda>_.
     if this \<noteq> source then seq (xy_of source) (\<lambda>p. seq (set_xy this p) (\<lambda>_. set_xy source (0, 0)))
     else ret ())"

text \<open>The variables \<open>a\<close>, \<open>b\<close> and \<open>c\<close> are 1, 2 and 3.\<close>

definition move_constructers :: "(movers, unit) prog" where
  "move_constructers = block [
     line_out (endl @ ''--- Move Constructor Examples ---''),
     new_Model 1 10 20,
     line_out (endl @ ''Case 1: Model b = std::move(a);''),
     move_Model 2 1,
     line_out (endl @ ''Case 2: Model c(5,6); c = std::move(b);''),
     new_Model 3 5 6,
     move_assign_Model 3 2,
     cout endl,
     delete_Model 3, delete_Model 2, delete_Model 1]"

section \<open>Destructors: \<open>Destructor.cpp\<close>\<close>

datatype base = DestructorBase | DestructorDerived

definition basic_destructers :: "(base world, unit) prog" where
  "basic_destructers = block [
     line_out (endl @ ''--- Basic Destructer Examples ---''),
     line_out ''Called Destructor() '', line_out ''Called ~Destructor() '']"

definition new_DestructorDerived :: "(base world, ptr) prog" where
  "new_DestructorDerived = seq (alloc DestructorDerived) (\<lambda>p.
     seq (block [line_out ''Called DestructorBase() '', line_out ''Called DestructorDerived() '']) (\<lambda>_. ret p))"

text \<open>\<open>delete\<close> through the base calls the virtual destructor.\<close>

definition delete_base :: "ptr \<Rightarrow> (base world, unit) prog" where
  "delete_base p = (if p = None then ret () else seq (load p) (\<lambda>b. block [
     (case b of DestructorDerived \<Rightarrow> line_out ''Called ~DestructorDerived() '' | DestructorBase \<Rightarrow> ret ()),
     line_out ''Called ~DestructorBase() '', free p]))"

definition virtual_destructers :: "(base world, unit) prog" where
  "virtual_destructers = block [
     line_out (endl @ ''--- Virtual Destructer Examples ---''),
     seq new_DestructorDerived delete_base]"

section \<open>Encapsulation: \<open>Encapsulation.cpp\<close>\<close>

record person =
  name :: string
  age :: int

definition new_Person :: "string \<Rightarrow> int \<Rightarrow> person" where
  "new_Person n a = \<lparr>name = n, age = a\<rparr>"

definition setAge :: "int \<Rightarrow> person \<Rightarrow> person" where
  "setAge a p = (if a \<ge> 0 then p\<lparr>age := a\<rparr> else p)"

definition introduce :: "person \<Rightarrow> ('o world, unit) prog" where
  "introduce p = line_out (''Name: '' @ name p @ '', Age: '' @ show_int (age p))"

definition encapsulation_run :: "('o world, unit) prog" where
  "encapsulation_run = (let person = new_Person ''Alice'' 25; person' = setAge 30 person in block [
     line_out ''Initial state:'', introduce person,
     line_out (endl @ ''Updating age through setter:''), introduce person',
     line_out (endl @ ''Accessing data through getters:''),
     line_out (''Name: '' @ name person'), line_out (''Age: '' @ show_int (age person'))])"

section \<open>Friends: \<open>Friend.cpp\<close>\<close>

text \<open>An \<open>Accumulator\<close> is its \<open>value_\<close>; the three namespaces show it in different ways.\<close>

definition accumulate :: "int \<Rightarrow> int \<Rightarrow> ('s, int) prog" where
  "accumulate acc v = to_int32 (acc + v)"

definition show_acc :: "string \<Rightarrow> int \<Rightarrow> ('o world, unit) prog" where
  "show_acc label acc = line_out (label @ show_int acc)"

definition friend_run :: "('o world, unit) prog" where
  "friend_run = block [
     seq (accumulate 0 5) (\<lambda>acc. block [show_acc ''S1: '' acc, show_acc ''S2: '' acc]),
     seq (accumulate 0 (- 99)) (show_acc ''S4: ''),
     seq (accumulate 0 99) (show_acc ''S3: '')]"

section \<open>Relationships: \<open>Relationship.cpp\<close>\<close>

text \<open>Members are created before and destroyed after the body of their class.\<close>

definition composition_run :: "('o world, unit) prog" where
  "composition_run = block [
     line_out (endl @ ''---Composition---''),
     line_out ''Engine created'', line_out ''Car created'',
     line_out ''Car destroyed'', line_out ''Engine destroyed'']"

definition new_Teacher :: "string \<Rightarrow> ('o world, string) prog" where
  "new_Teacher n = seq (line_out (''Teacher created: '' @ n)) (\<lambda>_. ret n)"

definition delete_Teacher :: "string \<Rightarrow> ('o world, unit) prog" where
  "delete_Teacher n = line_out (''Teacher destroyed: '' @ n)"

definition aggregations_run :: "('o world, unit) prog" where
  "aggregations_run = block [
     line_out (endl @ ''---Aggregations---''),
     seq (new_Teacher ''Mr.A'') (\<lambda>t. block [
       line_out ''Department created '', line_out ''Department created '',
       line_out ''Department destroyed '', line_out ''Department destroyed '',
       delete_Teacher t])]"

definition treat :: "string \<Rightarrow> ('o world, unit) prog" where
  "treat patient = line_out (''Treating '' @ patient)"

definition associations_run :: "('o world, unit) prog" where
  "associations_run = block [
     line_out (endl @ ''---Associations---''),
     line_out ''Patient created '', line_out ''Doctor created '', treat '''',
     line_out ''Doctor destroyed '', line_out ''Patient destroyed '']"

definition start_Car :: "('o world, unit) prog" where
  "start_Car = block [
     line_out ''Car started'', line_out ''Logger created '', line_out ''Log Car started'', line_out ''Logger destroyed '']"

definition dependency_run :: "('o world, unit) prog" where
  "dependency_run = block [
     line_out (endl @ ''---Dependency---''),
     line_out ''Car created '', start_Car, line_out ''Car destroyed '']"

section \<open>Virtual bases: \<open>VirtualBase.cpp\<close>\<close>

text \<open>A class with its name, its virtual and its other direct bases.\<close>

datatype cls = Class (label: string) (vbases: "cls list") (bases: "cls list")

text \<open>
  The subobjects in the order of their construction.  A complete object starts with its virtual bases,
  each once, in depth-first order; a subobject has only its other bases and itself.
\<close>

fun nonvirtual :: "cls \<Rightarrow> string list" where
  "nonvirtual (Class n vs bs) = concat (map nonvirtual bs) @ [n]"

fun virtual_bases :: "cls \<Rightarrow> cls list" where
  "virtual_bases (Class n vs bs) = concat (map (\<lambda>v. virtual_bases v @ [v]) vs) @ concat (map virtual_bases bs)"

definition construction :: "cls \<Rightarrow> string list" where
  "construction c = concat (map nonvirtual (rev (remdups (rev (virtual_bases c))))) @ nonvirtual c"

definition create :: "cls \<Rightarrow> ('o world, unit) prog" where
  "create c = for_each (construction c) (\<lambda>n. line_out (n @ '' created''))"

definition destroy :: "cls \<Rightarrow> ('o world, unit) prog" where
  "destroy c = for_each (rev (construction c)) (\<lambda>n. line_out (n @ '' destroyed''))"

definition PoweredDevice :: cls where
  "PoweredDevice = Class ''Powered Device'' [] []"

definition Copier :: cls where
  "Copier = Class ''Copier'' [] [Class ''Scanner'' [] [PoweredDevice], Class ''Printer'' [] [PoweredDevice]]"

definition virtual_Copier :: cls where
  "virtual_Copier = Class ''Copier'' [] [Class ''Scanner'' [PoweredDevice] [], Class ''Printer'' [PoweredDevice] []]"

definition copier_run :: "string \<Rightarrow> cls \<Rightarrow> ('o world, unit) prog" where
  "copier_run title c = block [
     line_out (endl @ ''---'' @ title @ ''---''),
     create c, cout endl,
     line_out ''Scanner started'', line_out ''Printer started'', cout endl,
     destroy c]"

definition virtual_base_run :: "('o world, unit) prog" where
  "virtual_base_run = block [
     copier_run ''Problem'' Copier,
     copier_run ''Solved by Virtual Base Class'' virtual_Copier]"

section \<open>Binding: \<open>Binding.cpp\<close>\<close>

datatype animal = Animal (dump: int) | Dog (dump: int)

text \<open>The early bound \<open>speak\<close> is chosen by the static type, the late bound one by the object.\<close>

definition early_speak :: "ptr \<Rightarrow> (animal world, unit) prog" where
  "early_speak p = seq (line_out ''Animal speaks'') (\<lambda>_. seq (load p) (\<lambda>a. seq (incr32 (dump a)) (\<lambda>d.
     store p (case a of Animal _ \<Rightarrow> Animal d | Dog _ \<Rightarrow> Dog d))))"

definition late_speak :: "ptr \<Rightarrow> (animal world, unit) prog" where
  "late_speak p = seq (load p) (\<lambda>a. case a of Animal _ \<Rightarrow> line_out ''Animal speaks'' | Dog _ \<Rightarrow> line_out ''Dog barks'')"

text \<open>\<open>print(5)\<close> and \<open>print(0.5F)\<close>; \<open>half\<close> is what the library prints for the second.\<close>

definition binding_run :: "string \<Rightarrow> (animal world, unit) prog" where
  "binding_run half = block [
     line_out (endl @ ''---EarlyBinding---''),
     seq (alloc (Dog 0)) (\<lambda>a. block [
       early_speak a, line_out (''int: '' @ show_int 5), line_out (''double: '' @ half), free a]),
     line_out (endl @ ''---LateBinding---''),
     seq (alloc (Dog 0)) (\<lambda>a. block [late_speak a, free a])]"

section \<open>Lemmas\<close>

lemma line_out_says [machine]: "line_out x s = Done () (says s [Cout (x @ endl)])"
  by (simp add: line_out_def cout_def emit_def)

lemma copy_EConstructor_wrong:
  "\<exists>ls. copy_EConstructor (x, y) s = Done (x, x) (says s ls)"
  by (simp add: copy_EConstructor_def machine) (rule exI, rule refl)

text \<open>Copying by construction and by assignment agree on the objects with equal fields only.\<close>

lemma copy_and_assignment_differ:
  "(\<exists>t. copy_EConstructor r s = Done (assign_EConstructor False this r) t) \<longleftrightarrow> fst r = snd r"
  by (cases r) (auto simp: copy_EConstructor_def assign_EConstructor_def machine)

lemma delegate_ctor0_result: "\<exists>t. delegate_ctor0 s = Done (0, 1) t \<and> length (out t) = length (out s) + 3"
  by (simp add: delegate_ctor0_def delegate_ctor1_def delegate_ctor2_def machine)

text \<open>A move assignment gives the value on and leaves zeros behind; an object moved to itself keeps it.\<close>

lemma move_assign_result:
  assumes "objs s v \<noteq> None" and "objs s w = Some p"
  shows "\<exists>t. move_assign_Model v w s = Done () t \<and> objs t = (if v = w then objs s else (objs s)(v \<mapsto> p, w \<mapsto> (0, 0)))"
  using assms by (simp add: move_assign_Model_def xy_of_def set_xy_def machine)

lemma move_result:
  assumes "objs s v = None" and "objs s w = Some p"
  shows "\<exists>t. move_Model v w s = Done () t \<and> objs t = (objs s)(v \<mapsto> p, w \<mapsto> (0, 0))"
  using assms by (simp add: move_Model_def xy_of_def set_xy_def machine)

text \<open>After a chain of moves from object to object the first value is in the last object.\<close>

lemma move_chain:
  assumes "objs s v = Some p" and "\<forall>w \<in> set ws. objs s w \<noteq> None" and "distinct (v # ws)"
  shows "\<exists>t. for_each (zip ws (v # ws)) (\<lambda>(to, from'). move_assign_Model to from') s = Done () t
    \<and> objs t (last (v # ws)) = Some p"
  using assms
proof (induction ws arbitrary: s v)
  case Nil
  then show ?case by (simp add: ret_def)
next
  case (Cons w ws)
  obtain t where t: "move_assign_Model w v s = Done () t"
      "objs t = (if w = v then objs s else (objs s)(w \<mapsto> p, v \<mapsto> (0, 0)))"
    using move_assign_result [of s w v p] Cons.prems by auto
  then have "objs t w = Some p" "\<forall>x \<in> set ws. objs t x \<noteq> None" using Cons.prems by auto
  from Cons.IH [OF this] Cons.prems(3) t(1) show ?case by (simp add: seq_def)
qed

lemma move_constructers_outcome:
  "\<exists>t. move_constructers (\<lparr>cells = (\<lambda>_. None), brk = 0, out = [], objs = (\<lambda>_. None)\<rparr>) = Done () t
    \<and> objs t = (\<lambda>_. None) \<and> length (out t) = 11"
  by (simp add: move_constructers_def new_Model_def delete_Model_def move_Model_def move_assign_Model_def
    xy_of_def set_xy_def machine fun_eq_iff)

lemma virtual_destructers_frees: "\<exists>t. virtual_destructers boot = Done () t \<and> live_addrs t = []
    \<and> drop 3 (out t) = [Cout (''Called ~DestructorDerived() '' @ endl), Cout (''Called ~DestructorBase() '' @ endl)]"
  by (simp add: virtual_destructers_def new_DestructorDerived_def delete_base_def machine live_addrs_def)

text \<open>The setter keeps the age from becoming negative; the constructor does not.\<close>

lemma age_nonnegative: "0 \<le> age p \<Longrightarrow> 0 \<le> age (fold setAge as p)"
  by (induction "as" arbitrary: p) (simp_all add: setAge_def)

lemma constructor_accepts_negative_age: "age (new_Person n (- 1)) = - 1"
  by (simp add: new_Person_def)

lemma accumulate_overflow: "accumulate (2 ^ 31 - 1) 1 s = Undef SignedOverflow"
  by (simp add: accumulate_def to_int32_def int32_def machine)

text \<open>With virtual inheritance the common base is constructed once, first, and destroyed last.\<close>

lemma Copier_construction:
  "construction Copier = [''Powered Device'', ''Scanner'', ''Powered Device'', ''Printer'', ''Copier'']"
  by (simp add: construction_def Copier_def PoweredDevice_def)

lemma virtual_Copier_construction:
  "construction virtual_Copier = [''Powered Device'', ''Scanner'', ''Printer'', ''Copier'']"
  by (simp add: construction_def virtual_Copier_def PoweredDevice_def)

lemma virtual_bases_once: "distinct (rev (remdups (rev (virtual_bases c))))"
  by simp

lemma create_prints: "create c s = Done () (says s (map (\<lambda>n. Cout (n @ '' created'' @ endl)) (construction c)))"
proof -
  have "for_each ns (\<lambda>n. line_out (n @ '' created'')) s = Done () (says s (map (\<lambda>n. Cout (n @ '' created'' @ endl)) ns))" for ns
    by (induction ns arbitrary: s) (simp_all add: machine)
  then show ?thesis by (simp add: create_def)
qed

lemma binding_run_outcome: "\<exists>t. binding_run half boot = Done () t \<and> live_addrs t = []
    \<and> Cout (''Animal speaks'' @ endl) \<in> set (out t) \<and> last (out t) = Cout (''Dog barks'' @ endl)"
  by (simp add: binding_run_def early_speak_def late_speak_def machine live_addrs_def int32_def)

end
