(* ===== verification/BinaryFile.thy ===== *)
theory BinaryFile
  imports Prelude "HOL-Library.Word"
begin

text \<open>
  \<open>src/core/filehandle/BinaryFileHandling.cpp\<close>: accounts written to a file as the bytes of their fields, the
  name after its length, and read back.  Bytes are \<open>8 word\<close>; the byte order of the machine, whether files
  can be opened, how much fits on the disk and the longest string are parameters, as are the
  representation and the printing of a \<open>double\<close>.

  Lemmas: reading what was written gives the account back, in either byte order; reading a file that was
  cut fails; the search through any file ends.
\<close>

section \<open>Bytes\<close>

type_synonym byte = "8 word"

record platform =
  big_endian :: bool
  can_create :: bool
  can_open :: bool
  capacity :: nat
  max_size :: nat

fun le_bytes :: "nat \<Rightarrow> nat \<Rightarrow> byte list" where
  "le_bytes 0 v = []"
| "le_bytes (Suc n) v = of_nat (v mod 256) # le_bytes n (v div 256)"

fun le_value :: "byte list \<Rightarrow> nat" where
  "le_value [] = 0"
| "le_value (b # bs) = unat b + 256 * le_value bs"

text \<open>The object representation of an unsigned number of \<open>n\<close> bytes, and its inverse.\<close>

definition bytes_of :: "platform \<Rightarrow> nat \<Rightarrow> nat \<Rightarrow> byte list" where
  "bytes_of os n v = (if big_endian os then rev (le_bytes n v) else le_bytes n v)"

definition value_of :: "platform \<Rightarrow> byte list \<Rightarrow> nat" where
  "value_of os bs = le_value (if big_endian os then rev bs else bs)"

definition byte_of :: "char \<Rightarrow> byte" where
  "byte_of c = of_nat (of_char c)"

definition char_of_byte :: "byte \<Rightarrow> char" where
  "char_of_byte b = char_of (unat b)"

section \<open>Streams\<close>

record account =
  code :: "32 word"
  name :: string
  balance :: "64 word"

text \<open>The file, the output stream (whose data reach the file) and the input stream.\<close>

record bin = "account world" +
  data_file :: "byte list option"
  bad :: bool
  input :: "byte list"
  good :: bool

type_synonym 'a bprog = "(bin, 'a) prog"

text \<open>\<open>os.write\<close>, and \<open>is.read\<close> over \<open>n\<close> bytes of memory that hold \<open>old\<close>: a short read overwrites what it can and
  leaves the stream failed.\<close>

definition write_bytes :: "platform \<Rightarrow> byte list \<Rightarrow> unit bprog" where
  "write_bytes os bs s = (case data_file s of None \<Rightarrow> Done () (s\<lparr>bad := True\<rparr>)
     | Some f \<Rightarrow> if bad s then Done () s
        else if length f + length bs \<le> capacity os then Done () (s\<lparr>data_file := Some (f @ bs)\<rparr>)
        else Done () (s\<lparr>bad := True\<rparr>))"

definition read_bytes :: "byte list \<Rightarrow> byte list bprog" where
  "read_bytes old s = (if \<not> good s then Done old s
     else if length old \<le> length (input s)
     then Done (take (length old) (input s)) (s\<lparr>input := drop (length old) (input s)\<rparr>)
     else Done (input s @ drop (length (input s)) old) (s\<lparr>input := [], good := False\<rparr>))"

text \<open>\<open>is.peek() == EOF\<close>.\<close>

definition at_end :: "bool bprog" where
  "at_end s = (if good s \<and> input s \<noteq> [] then Done False s else Done True (s\<lparr>good := False\<rparr>))"

section \<open>Accounts\<close>

definition write_Account :: "platform \<Rightarrow> account \<Rightarrow> bool bprog" where
  "write_Account os a = seq (write_bytes os (bytes_of os 4 (unat (code a)))) (\<lambda>_.
     seq (write_bytes os (bytes_of os 8 (unat (balance a)))) (\<lambda>_.
     seq (write_bytes os (bytes_of os 8 (length (name a)))) (\<lambda>_.
     seq (write_bytes os (map byte_of (name a))) (\<lambda>_ s. Done (\<not> bad s) s))))"

text \<open>\<open>name_.resize(length)\<close>.\<close>

definition resize :: "platform \<Rightarrow> nat \<Rightarrow> string \<Rightarrow> string bprog" where
  "resize os n x = (if max_size os < n then throw ''length_error''
     else ret (take n x @ replicate (n - length x) (CHR 0x00)))"

definition read_Account :: "platform \<Rightarrow> account \<Rightarrow> account bprog" where
  "read_Account os a = seq (read_bytes (bytes_of os 4 (unat (code a)))) (\<lambda>c.
     seq (read_bytes (bytes_of os 8 (unat (balance a)))) (\<lambda>b.
     seq (read_bytes (bytes_of os 8 0)) (\<lambda>l.
     seq (resize os (value_of os l) (name a)) (\<lambda>x.
     seq (read_bytes (map byte_of x)) (\<lambda>y.
     ret \<lparr>code = of_nat (value_of os c), name = map char_of_byte y, balance = of_nat (value_of os b)\<rparr>)))))"

text \<open>\<open>operator<<\<close>.\<close>

definition show_account :: "(64 word \<Rightarrow> string) \<Rightarrow> account \<Rightarrow> unit bprog" where
  "show_account show_double a = block [
     cout (''Code   : '' @ show_int (sint (code a)) @ endl),
     cout (''Name   : '' @ name a @ endl),
     cout (''Balance: '' @ show_double (balance a) @ endl)]"

section \<open>The demonstration\<close>

text \<open>The loop over the file: the temporary object is read again and again until its code is 2.\<close>

partial_function (option) search :: "platform \<Rightarrow> (64 word \<Rightarrow> string) \<Rightarrow> ptr \<Rightarrow> bin \<Rightarrow> (bin, unit) result option" where
  "search os show_double temp s = (case at_end s of
      Done ended t \<Rightarrow>
        if ended then Some (Done () t)
        else (case seq (load temp) (\<lambda>a. seq (read_Account os a) (\<lambda>b. seq (store temp b) (\<lambda>_. ret b))) t of
            Done b u \<Rightarrow>
              if code b = 2
              then Some (block [cout (endl @ ''Account #2'' @ endl), show_account show_double b, cout endl] u)
              else search os show_double temp u
          | Thrown e u \<Rightarrow> Some (Thrown e u)
          | Undef f \<Rightarrow> Some (Undef f))
    | Thrown e t \<Rightarrow> Some (Thrown e t)
    | Undef f \<Rightarrow> Some (Undef f))"

definition open_out :: "platform \<Rightarrow> bool bprog" where
  "open_out os s = (if can_create os then Done True (s\<lparr>data_file := Some [], bad := False\<rparr>) else Done False s)"

definition open_in :: "platform \<Rightarrow> bool bprog" where
  "open_in os s = (case data_file s of
      None \<Rightarrow> Done False s
    | Some f \<Rightarrow> if can_open os then Done True (s\<lparr>input := f, good := True\<rparr>) else Done False s)"

definition write_account :: "platform \<Rightarrow> ptr \<Rightarrow> int \<Rightarrow> unit bprog" where
  "write_account os p i = seq (load p) (\<lambda>a. seq (write_Account os a) (\<lambda>ok.
     if ok then ret () else emit (Cerr (''Error writing account '' @ show_int i @ endl))))"

definition run :: "platform \<Rightarrow> (nat \<Rightarrow> 64 word) \<Rightarrow> (64 word \<Rightarrow> string) \<Rightarrow> (bin, unit) oprog" where
  "run os double show_double =
     oseq (terminating (alloc \<lparr>code = 1, name = ''Whitney Elizabeth Houston'', balance = double 2500\<rparr>)) (\<lambda>a0.
     oseq (terminating (alloc \<lparr>code = 2, name = ''Michael Jackson'', balance = double 5000\<rparr>)) (\<lambda>a1.
     oseq (terminating (open_out os)) (\<lambda>outf.
       if \<not> outf then terminating (emit (Cerr (''Cannot open file for writing'' @ endl)))
       else oseq (terminating (block [write_account os a0 0, write_account os a1 1,
              cout (''Finish writing.'' @ endl)])) (\<lambda>_.
         oseq (terminating (open_in os)) (\<lambda>inf.
         oseq (if \<not> inf then terminating (emit (Cerr (''Cannot open file for reading'' @ endl)))
           else oseq (terminating (alloc \<lparr>code = 0, name = '''', balance = double 0\<rparr>)) (\<lambda>temp.
             oseq (search os show_double temp) (\<lambda>_. terminating (free temp)))) (\<lambda>_.
         terminating (block [free a0, free a1, cout (''Finish reading.'' @ endl)])))))))"


section \<open>Encoding and decoding\<close>

lemma length_le_bytes [simp]: "length (le_bytes n v) = n"
  by (induction n arbitrary: v) simp_all

lemma le_value_bytes: "le_value (le_bytes n v) = v mod 256 ^ n"
proof (induction n arbitrary: v)
  case (Suc n)
  have "unat (of_nat (v mod 256) :: byte) = v mod 256" by (simp add: unat_of_nat)
  then show ?case by (simp add: Suc mod_mult2_eq)
qed simp

lemma value_bytes [simp]: "v < 256 ^ n \<Longrightarrow> value_of os (bytes_of os n v) = v"
  by (simp add: value_of_def bytes_of_def le_value_bytes)

lemma length_bytes_of [simp]: "length (bytes_of os n v) = n"
  by (simp add: bytes_of_def)

lemma char_of_byte_of [simp]: "char_of_byte (byte_of c) = c"
  by (simp add: char_of_byte_def byte_of_def unat_of_nat)

lemma char_of_byte_comp [simp]: "char_of_byte \<circ> byte_of = id"
  by (simp add: fun_eq_iff)

definition account_bytes :: "platform \<Rightarrow> account \<Rightarrow> byte list" where
  "account_bytes os a = bytes_of os 4 (unat (code a)) @ bytes_of os 8 (unat (balance a))
     @ bytes_of os 8 (length (name a)) @ map byte_of (name a)"

lemma bin_says [simp]:
  "data_file (says s ls) = data_file s" "bad (says s ls) = bad s" "input (says s ls) = input s" "good (says s ls) = good s"
  by (simp_all add: says_def)

lemma write_Account_appends:
  assumes "data_file s = Some f" and "\<not> bad s" and "length f + length (account_bytes os a) \<le> capacity os"
  shows "write_Account os a s = Done True (s\<lparr>data_file := Some (f @ account_bytes os a)\<rparr>)"
  using assms by (simp add: write_Account_def write_bytes_def account_bytes_def seq_def)

lemma read_bytes_exact:
  "good s \<Longrightarrow> input s = x @ r \<Longrightarrow> length old = length x \<Longrightarrow> read_bytes old s = Done x (s\<lparr>input := r\<rparr>)"
  by (simp add: read_bytes_def)

lemma unat_small: "unat (w :: 32 word) < 256 ^ 4" "unat (v :: 64 word) < 256 ^ 8"
  using unsigned_less [where ?'a = nat, of w] unsigned_less [where ?'a = nat, of v] by simp_all

lemma read_Account_bytes:
  assumes "good s" and "input s = account_bytes os a @ rest" and "length (name a) \<le> max_size os" and "max_size os < 2 ^ 64"
  shows "read_Account os b s = Done a (s\<lparr>input := rest\<rparr>)"
proof -
  have n: "length (name a) < 256 ^ 8" using assms(3,4) by simp
  show ?thesis
    using assms n unat_small
    by (simp add: read_Account_def account_bytes_def resize_def seq_def ret_def
      read_bytes_exact [of _ "bytes_of os 4 (unat (code a))"] read_bytes_exact [of _ "bytes_of os 8 (unat (balance a))"]
      read_bytes_exact [of _ "bytes_of os 8 (length (name a))"] read_bytes_exact [of _ "map byte_of (name a)"])
qed

text \<open>
  C11.  What \<open>Account::write\<close> appends to a file with room for it, \<open>Account::read\<close> turns back into the same
  account, into whatever account it reads, leaving exactly the bytes that follow; in either byte order.
\<close>

theorem account_roundtrip:
  assumes "data_file s = Some f" and "\<not> bad s" and "length f + 20 + length (name a) \<le> capacity os"
    and "length (name a) \<le> max_size os" and "max_size os < 2 ^ 64"
  shows "\<exists>bs. write_Account os a s = Done True (s\<lparr>data_file := Some (f @ bs)\<rparr>)
    \<and> (\<forall>b t rest. good t \<and> input t = bs @ rest \<longrightarrow> read_Account os b t = Done a (t\<lparr>input := rest\<rparr>))"
proof (intro exI conjI allI impI)
  have "length (account_bytes os a) = 20 + length (name a)" by (simp add: account_bytes_def)
  with assms show "write_Account os a s = Done True (s\<lparr>data_file := Some (f @ account_bytes os a)\<rparr>)"
    by (intro write_Account_appends) auto
  show "read_Account os b t = Done a (t\<lparr>input := rest\<rparr>)" if "good t \<and> input t = account_bytes os a @ rest" for b t rest
    using that assms(4,5) by (intro read_Account_bytes) auto
qed

section \<open>Files that were cut\<close>

lemma le_value_mono: "list_all2 (\<lambda>a b. unat a \<le> unat b) xs ys \<Longrightarrow> le_value xs \<le> le_value ys"
  by (induction rule: list_all2_induct) simp_all

lemma le_bytes_zero: "le_bytes n 0 = replicate n 0"
  by (induction n) simp_all

lemma cut_value:
  assumes "value_of os bs = v" and "k \<le> length bs"
  shows "value_of os (take k bs @ drop k (bytes_of os (length bs) 0)) \<le> v"
proof -
  have "list_all2 (\<lambda>a b. unat a \<le> unat b) (take k bs @ replicate (length bs - k) 0) bs"
    using assms(2) by (auto simp: list_all2_conv_all_nth nth_append)
  moreover from this have "list_all2 (\<lambda>a b. unat a \<le> unat b) (rev (take k bs @ replicate (length bs - k) 0)) (rev bs)"
    by (simp only: list_all2_rev)
  ultimately show ?thesis using assms(1) by (auto simp: value_of_def bytes_of_def le_bytes_zero intro!: le_value_mono)
qed

lemma read_bytes_failed: "\<not> good s \<Longrightarrow> read_bytes old s = Done old s"
  by (simp add: read_bytes_def)

lemma read_bytes_short: "good s \<Longrightarrow> length (input s) < length old \<Longrightarrow>
    read_bytes old s = Done (input s @ drop (length (input s)) old) (s\<lparr>input := [], good := False\<rparr>)"
  by (simp add: read_bytes_def)

text \<open>
  An account cut anywhere is not read: whatever is missing, the call returns and leaves the stream
  failed and empty, so the loop over the file ends there.
\<close>

theorem read_Account_cut:
  assumes "good s" and "input s @ missing = account_bytes os a" and "missing \<noteq> []"
    and "length (name a) \<le> max_size os" and "max_size os < 2 ^ 64"
  shows "\<exists>c. read_Account os b s = Done c (s\<lparr>input := [], good := False\<rparr>)"
proof -
  let ?c = "bytes_of os 4 (unat (code a))" and ?b = "bytes_of os 8 (unat (balance a))"
    and ?l = "bytes_of os 8 (length (name a))" and ?n = "map byte_of (name a)"
  have n: "length (name a) < 256 ^ 8" using assms(4,5) by simp
  have inp: "input s = take (length (input s)) (account_bytes os a)" using assms(2) by (metis append_eq_conv_conj)
  have len: "length (input s) < 20 + length (name a)"
    using arg_cong [OF assms(2), of length] assms(3) by (cases missing) (simp_all add: account_bytes_def)
  note exact = read_bytes_exact [of _ ?c] read_bytes_exact [of _ ?b] read_bytes_exact [of _ ?l]
  note run = read_Account_def resize_def seq_def ret_def read_bytes_short read_bytes_failed
  consider "length (input s) < 4" | r where "input s = ?c @ r" "length r < 8"
    | r where "input s = ?c @ ?b @ r" "length r < 8" "r = take (length r) ?l"
    | r where "input s = ?c @ ?b @ ?l @ r" "length r < length ?n"
  proof -
    let ?k = "length (input s)"
    show ?thesis
    proof (cases "?k < 4")
      case False
      show ?thesis
      proof (cases "?k < 12")
        case True
        with False inp have "input s = ?c @ take (?k - 4) ?b" by (simp add: account_bytes_def)
        with True False that(2) show ?thesis by auto
      next
        case k: False
        show ?thesis
        proof (cases "?k < 20")
          case True
          with k inp have i: "input s = ?c @ ?b @ take (?k - 12) ?l" by (simp add: account_bytes_def)
          from True k that(3) [OF i] show ?thesis by simp
        next
          case False
          with inp have i: "input s = ?c @ ?b @ ?l @ take (?k - 20) ?n" by (simp add: account_bytes_def)
          from False len that(4) [OF i] show ?thesis by simp
        qed
      qed
    qed (rule that(1))
  qed
  then show ?thesis
  proof cases
    case 1
    with assms(1) show ?thesis by (simp add: run)
  next
    case 2
    with assms(1) exact(1) [of s r] show ?thesis by (simp add: run)
  next
    case 3
    have "value_of os (r @ drop (length r) (bytes_of os 8 0)) \<le> length (name a)"
      using cut_value [of os ?l "length (name a)" "length r"] 3(2) n unfolding 3(3) [symmetric] by simp
    with 3(1,2) assms(1,4) exact(1) [of s "?b @ r"] exact(2) [of "s\<lparr>input := ?b @ r\<rparr>" r] show ?thesis by (simp add: run)
  next
    case 4
    with assms exact n show ?thesis by (simp add: run)
  qed
qed


section \<open>The search\<close>

definition account_lines :: "(64 word \<Rightarrow> string) \<Rightarrow> account \<Rightarrow> line list" where
  "account_lines show_double a = [Cout (endl @ ''Account #2'' @ endl),
     Cout (''Code   : '' @ show_int (sint (code a)) @ endl), Cout (''Name   : '' @ name a @ endl),
     Cout (''Balance: '' @ show_double (balance a) @ endl), Cout endl]"

lemma account_bytes_not_empty: "account_bytes os a \<noteq> []"
  using length_bytes_of [of os 4 "unat (code a)"] by (auto simp: account_bytes_def simp del: length_bytes_of)

text \<open>
  The loop over a file of accounts: it ends, prints the first account with code 2, and leaves the
  accounts after it unread; without one it prints nothing.
\<close>

theorem search_first_match:
  assumes "good s" and "input s = concat (map (account_bytes os) as)" and "cells s p = Some b"
    and "\<forall>a \<in> set as. length (name a) \<le> max_size os" and "max_size os < 2 ^ 64"
  shows "\<exists>t. search os show_double (Some p) s = Some (Done () t)
    \<and> out t = out s @ (case find (\<lambda>a. code a = 2) as of None \<Rightarrow> [] | Some a \<Rightarrow> account_lines show_double a)
    \<and> (\<forall>q. q \<noteq> p \<longrightarrow> cells t q = cells s q) \<and> cells t p \<noteq> None \<and> brk t = brk s"
  using assms(1-4)
proof (induction as arbitrary: s b)
  case Nil
  then show ?case by (subst search.simps) (simp add: at_end_def)
next
  case (Cons a as)
  let ?r = "concat (map (account_bytes os) as)"
  let ?u = "s\<lparr>input := ?r, cells := (cells s)(p \<mapsto> a)\<rparr>"
  have "read_Account os b s = Done a (s\<lparr>input := ?r\<rparr>)"
    using Cons.prems assms(5) by (intro read_Account_bytes) auto
  moreover have "at_end s = Done False s" using Cons.prems account_bytes_not_empty by (simp add: at_end_def)
  ultimately have step: "search os show_double (Some p) s = (if code a = 2
      then Some (block [cout (endl @ ''Account #2'' @ endl), show_account show_double a, cout endl] ?u)
      else search os show_double (Some p) ?u)"
    using Cons.prems(3) by (subst search.simps) (simp add: seq_def load_def store_def ret_def)
  show ?case
  proof (cases "code a = 2")
    case True
    with step show ?thesis by (simp add: show_account_def account_lines_def machine)
  next
    case False
    with step Cons.IH [of ?u a] Cons.prems show ?thesis by auto
  qed
qed

lemma read_bytes_Done:
  "read_bytes old s = Done x t \<Longrightarrow> length (input t) \<le> length (input s) \<and> (good t \<longrightarrow> good s)
     \<and> (good t \<longrightarrow> old \<noteq> [] \<longrightarrow> length (input t) < length (input s))"
  by (cases old) (auto simp: read_bytes_def split: if_splits)

lemma read_Account_Done:
  assumes "read_Account os a s = Done b t" and "good t"
  shows "good s \<and> length (input t) < length (input s)"
proof -
  obtain c s1 d s2 l s3 x y s4 where r: "read_bytes (bytes_of os 4 (unat (code a))) s = Done c s1"
      "read_bytes (bytes_of os 8 (unat (balance a))) s1 = Done d s2" "read_bytes (bytes_of os 8 0) s2 = Done l s3"
      "resize os (value_of os l) (name a) s3 = Done x s4" "read_bytes (map byte_of x) s4 = Done y t"
    using assms(1) by (auto simp: read_Account_def ret_def elim!: seq_DoneE)
  have "s4 = s3" using r(4) by (simp add: resize_def throw_def ret_def split: if_splits)
  with r assms(2) show ?thesis
    using read_bytes_Done [OF r(1)] read_bytes_Done [OF r(2)] read_bytes_Done [OF r(3)] read_bytes_Done [OF r(5)]
      length_bytes_of [of os 4 "unat (code a)"]
    by (metis dual_order.strict_trans2 le_trans list.size(3) zero_neq_numeral)
qed

text \<open>Whatever the file holds, the loop ends.\<close>

theorem search_ends: "\<exists>r. search os show_double p s = Some r"
proof (induction "length (input s)" arbitrary: s rule: less_induct)
  case less
  show ?case
  proof (cases "good s \<and> input s \<noteq> []")
    case False
    then show ?thesis by (subst search.simps) (auto simp: at_end_def)
  next
    case True
    show ?thesis
    proof (cases "seq (load p) (\<lambda>a. seq (read_Account os a) (\<lambda>b. seq (store p b) (\<lambda>_. ret b))) s")
      case (Done b u)
      then obtain a s1 v where r: "read_Account os a s1 = Done b v" "load p s = Done a s1" "store p b v = Done () u"
        by (auto simp: ret_def elim!: seq_DoneE)
      have "s1 = s" "input u = input v" "good u = good v"
        using r(2,3) by (auto simp: load_def store_def split: option.splits)
      then have "good u \<Longrightarrow> length (input u) < length (input s)" using read_Account_Done [OF r(1)] by simp
      then have "\<exists>r. search os show_double p u = Some r"
        using less [of u] by (cases "good u") (auto simp: search.simps [of os show_double p u] at_end_def)
      with Done True show ?thesis by (subst search.simps) (simp add: at_end_def)
    qed (use True in \<open>subst search.simps, simp add: at_end_def\<close>)+
  qed
qed

section \<open>The run\<close>

definition demo_platform :: platform where
  "demo_platform = \<lparr>big_endian = False, can_create = True, can_open = True, capacity = 1000, max_size = 1000\<rparr>"

definition no_files :: bin where
  "no_files = \<lparr>cells = (\<lambda>_. None), brk = 0, out = [], data_file = None, bad = False, input = [], good = True\<rparr>"

text \<open>When the file cannot be created, the two accounts stay on the heap.\<close>

lemma run_cannot_create:
  "\<not> can_create os \<Longrightarrow> \<exists>t. run os double show_double no_files = Some (Done () t) \<and> live_addrs t = [0, 1]"
  by (simp add: run_def no_files_def open_out_def live_addrs_def machine)

lemma run_prints_second:
  assumes "can_create os" and "can_open os" and "80 \<le> capacity os" and "25 \<le> max_size os" and "max_size os < 2 ^ 64"
  shows "\<exists>t. run os double show_double no_files = Some (Done () t) \<and> cells t = (\<lambda>_. None)
    \<and> out t = [Cout (''Finish writing.'' @ endl)]
        @ account_lines show_double \<lparr>code = 2, name = ''Michael Jackson'', balance = double 5000\<rparr> @ [Cout (''Finish reading.'' @ endl)]"
proof -
  define a b where "a = \<lparr>code = 1, name = ''Whitney Elizabeth Houston'', balance = double 2500\<rparr>"
    and "b = \<lparr>code = 2, name = ''Michael Jackson'', balance = double 5000\<rparr>"
  have len: "length (account_bytes os a) = 45" "length (account_bytes os b) = 35"
    by (simp_all add: account_bytes_def a_def b_def)
  define z where "z = \<lparr>code = 0, name = [], balance = double 0\<rparr>"
  note rec = no_files_def a_def [symmetric] b_def [symmetric] z_def [symmetric]
  let ?fa = "account_bytes os a" and ?fb = "account_bytes os b"
  let ?m = "[0 \<mapsto> a, Suc 0 \<mapsto> b]"
  define m1 m2 where "m1 = ''Finish writing.'' @ endl" and "m2 = ''Finish reading.'' @ endl"
  define s0 where "s0 = no_files\<lparr>cells := ?m, brk := 2, data_file := Some []\<rparr>"
  define s1 where "s1 = says (s0\<lparr>data_file := Some (?fa @ ?fb)\<rparr>) [Cout m1]"
  define s2 where "s2 = s1\<lparr>cells := ?m(2 \<mapsto> z), brk := 3, input := ?fa @ ?fb\<rparr>"
  have "write_Account os a s0 = Done True (s0\<lparr>data_file := Some ?fa\<rparr>)"
    using write_Account_appends [of s0 "[]" os a] assms(3) len by (simp add: s0_def no_files_def)
  moreover have "write_Account os b (s0\<lparr>data_file := Some ?fa\<rparr>) = Done True (s0\<lparr>data_file := Some (?fa @ ?fb)\<rparr>)"
    using write_Account_appends [of "s0\<lparr>data_file := Some ?fa\<rparr>" ?fa os b] assms(3) len by (simp add: s0_def no_files_def)
  ultimately have w: "block [write_account os (Some 0) 0, write_account os (Some (Suc 0)) 1, cout m1] s0 = Done () s1"
    by (simp add: write_account_def seq_def load_def ret_def cout_def emit_def s0_def no_files_def s1_def says_def)
  have "good s2" "input s2 = concat (map (account_bytes os) [a, b])" "cells s2 2 = Some z"
    "\<forall>c \<in> set [a, b]. length (name c) \<le> max_size os" "find (\<lambda>a. code a = 2) [a, b] = Some b"
    using assms(4) by (simp_all add: s2_def s1_def s0_def no_files_def a_def b_def)
  then obtain t where t: "search os show_double (Some 2) s2 = Some (Done () t)" "out t = out s2 @ account_lines show_double b"
      "\<forall>q. q \<noteq> 2 \<longrightarrow> cells t q = cells s2 q" "cells t 2 \<noteq> None"
    using search_first_match [of s2 os "[a, b]" 2 z show_double] assms(5) by fastforce
  then have "cells t 0 = Some a" "cells t (Suc 0) = Some b" "\<And>q. q \<notin> {0, Suc 0, 2} \<Longrightarrow> cells t q = None"
    by (simp_all add: s2_def)
  note live = this
  define u0 where "u0 = no_files\<lparr>cells := [0 \<mapsto> a], brk := Suc 0\<rparr>"
  have calls: "alloc a no_files = Done (Some 0) u0" "alloc b u0 = Done (Some (Suc 0)) (s0\<lparr>data_file := None\<rparr>)"
    "open_out os (s0\<lparr>data_file := None\<rparr>) = Done True s0"
    "open_in os s1 = Done True (s1\<lparr>input := ?fa @ ?fb\<rparr>)" "alloc z (s1\<lparr>input := ?fa @ ?fb\<rparr>) = Done (Some 2) s2"
    using assms(1,2)
    by (simp_all add: alloc_def open_out_def open_in_def u0_def s0_def s1_def s2_def no_files_def says_def eval_nat_numeral)
  have "run os double show_double no_files = oseq (terminating (free (Some 2)))
      (\<lambda>_. terminating (block [free (Some 0), free (Some (Suc 0)), cout m2])) t"
    unfolding run_def a_def [symmetric] b_def [symmetric] z_def [symmetric] m1_def [symmetric] m2_def [symmetric]
    by (simp add: oseq_def terminating_def calls w t(1) del: block.simps)
  also have "\<dots> = Some (Done () (says (t\<lparr>cells := (\<lambda>_. None)\<rparr>) [Cout m2]))"
    using live t(4) by (auto simp: machine fun_eq_iff)
  finally show ?thesis using t(2) by (simp add: s2_def s1_def s0_def no_files_def b_def m1_def m2_def)
qed


section \<open>Witnesses\<close>

definition demo_account :: account where
  "demo_account = \<lparr>code = 2, name = ''Ab'', balance = 5\<rparr>"

definition with_file :: "byte list \<Rightarrow> bin" where
  "with_file bs = no_files\<lparr>cells := [0 \<mapsto> demo_account], brk := 1, data_file := Some bs, input := bs\<rparr>"

lemma with_file_sel [simp]:
  "data_file (with_file bs) = Some bs" "\<not> bad (with_file bs)" "good (with_file bs)" "input (with_file bs) = bs"
  "cells (with_file bs) 0 = Some demo_account" "out (with_file bs) = []"
  by (simp_all add: with_file_def no_files_def)

lemma account_roundtrip_witness:
  "\<exists>bs. write_Account demo_platform demo_account (with_file [])
      = Done True ((with_file [])\<lparr>data_file := Some bs\<rparr>)
    \<and> read_Account demo_platform \<lparr>code = 7, name = ''longer'', balance = 0\<rparr> (with_file (bs @ [1, 2]))
      = Done demo_account ((with_file (bs @ [1, 2]))\<lparr>input := [1, 2]\<rparr>)"
  using account_roundtrip [of "with_file []" "[]" demo_account demo_platform]
  by (fastforce simp: demo_platform_def demo_account_def)

lemma read_Account_cut_witness:
  "\<exists>c. read_Account demo_platform demo_account (with_file (take 21 (account_bytes demo_platform demo_account)))
    = Done c ((with_file (take 21 (account_bytes demo_platform demo_account)))\<lparr>input := [], good := False\<rparr>)"
  by (rule read_Account_cut [of _ "drop 21 (account_bytes demo_platform demo_account)" _ demo_account])
    (simp_all add: demo_platform_def demo_account_def account_bytes_def)

lemma search_first_match_witness:
  "\<exists>t. search demo_platform (\<lambda>_. ''2500'') (Some 0) (with_file (concat (map (account_bytes demo_platform) [demo_account])))
      = Some (Done () t) \<and> out t = account_lines (\<lambda>_. ''2500'') demo_account"
  using search_first_match [of "with_file (concat (map (account_bytes demo_platform) [demo_account]))" demo_platform "[demo_account]"
      0 demo_account "\<lambda>_. ''2500''"]
  by (fastforce simp: demo_platform_def demo_account_def)

end
