(* ===== verification/Variadic.thy ===== *)
theory Variadic
  imports Prelude
begin

text \<open>
  \<open>src/core/utils/Variadic.cpp\<close>: a small \<open>printf\<close> with the arguments of C and one with a parameter pack.
  An argument is a value with the type it is passed as; reading it as another type is undefined.  The
  conversions between numbers and the printing of a \<open>double\<close> are parameters.

  Lemmas: on arguments that fit the format both print the same; what each does when they do not fit.
\<close>

section \<open>Arguments\<close>

datatype 'd arg = IntArg int | CharArg char | DoubleArg 'd

record 'd doubles =
  of_int' :: "int \<Rightarrow> 'd"
  to_int :: "'d \<Rightarrow> int option"
  show_double :: "'d \<Rightarrow> string"

text \<open>\<open>static_cast<char>\<close> of an \<open>int\<close>, and the value of a \<open>char\<close>, which is signed.\<close>

definition char_of_int :: "int \<Rightarrow> char" where
  "char_of_int i = char_of (nat (i mod 256))"

definition int_of_char :: "char \<Rightarrow> int" where
  "int_of_char c = (let v = of_char c in if v < 128 then v else v - 256)"

section \<open>C style\<close>

text \<open>The promotions of an unnamed argument: a \<open>char\<close> is passed as an \<open>int\<close>.\<close>

fun promote :: "'d arg \<Rightarrow> 'd arg" where
  "promote (CharArg c) = IntArg (int_of_char c)"
| "promote a = a"

text \<open>\<open>va_arg\<close>: the next argument at the given type.\<close>

fun va_int :: "'d arg list \<Rightarrow> ('s, int \<times> 'd arg list) prog" where
  "va_int (IntArg i # args) = ret (i, args)"
| "va_int _ = undef WrongType"

fun va_double :: "'d arg list \<Rightarrow> ('s, 'd \<times> 'd arg list) prog" where
  "va_double (DoubleArg d # args) = ret (d, args)"
| "va_double _ = undef WrongType"

fun c_loop :: "'d doubles \<Rightarrow> string \<Rightarrow> 'd arg list \<Rightarrow> ('o world, unit) prog" where
  "c_loop fp [] args = ret ()"
| "c_loop fp (c # fmt) args =
     (if c = CHR ''d'' then seq (va_int args) (\<lambda>(value, rest). seq (LOG (show_int value)) (\<lambda>_. c_loop fp fmt rest))
      else if c = CHR ''c'' then seq (va_int args) (\<lambda>(value, rest). seq (LOG [char_of_int value]) (\<lambda>_. c_loop fp fmt rest))
      else if c = CHR ''f'' then seq (va_double args) (\<lambda>(value, rest). seq (LOG (show_double fp value)) (\<lambda>_. c_loop fp fmt rest))
      else c_loop fp fmt args)"

definition c_printf :: "'d doubles \<Rightarrow> string \<Rightarrow> 'd arg list \<Rightarrow> ('o world, unit) prog" where
  "c_printf fp fmt args = c_loop fp fmt (map promote args)"

definition c_run :: "'d doubles \<Rightarrow> 'd \<Rightarrow> 'd \<Rightarrow> ('o world, unit) prog" where
  "c_run fp x y = block [LOG ''C-Style Variadic Example'',
     c_printf fp ''dcff'' [IntArg 3, CharArg (CHR ''a''), DoubleArg x, DoubleArg y]]"

section \<open>With a parameter pack\<close>

text \<open>The casts of \<open>print_arg\<close>.\<close>

fun as_int :: "'d doubles \<Rightarrow> 'd arg \<Rightarrow> ('s, int) prog" where
  "as_int fp (IntArg i) = ret i"
| "as_int fp (CharArg c) = ret (int_of_char c)"
| "as_int fp (DoubleArg d) = (case to_int fp d of None \<Rightarrow> undef SignedOverflow | Some i \<Rightarrow> ret i)"

fun as_char :: "'d doubles \<Rightarrow> 'd arg \<Rightarrow> ('s, char) prog" where
  "as_char fp (CharArg c) = ret c"
| "as_char fp (IntArg i) = ret (char_of_int i)"
| "as_char fp (DoubleArg d) = (case to_int fp d of None \<Rightarrow> undef SignedOverflow
     | Some i \<Rightarrow> if - 128 \<le> i \<and> i < 128 then ret (char_of_int i) else undef SignedOverflow)"

fun as_double :: "'d doubles \<Rightarrow> 'd arg \<Rightarrow> 'd" where
  "as_double fp (DoubleArg d) = d"
| "as_double fp (IntArg i) = of_int' fp i"
| "as_double fp (CharArg c) = of_int' fp (int_of_char c)"

definition print_arg :: "'d doubles \<Rightarrow> char \<Rightarrow> 'd arg \<Rightarrow> ('o world, unit) prog" where
  "print_arg fp fmt value =
     (if fmt = CHR ''d'' then seq (as_int fp value) (\<lambda>i. LOG (show_int i))
      else if fmt = CHR ''c'' then seq (as_char fp value) (\<lambda>c. LOG [c])
      else if fmt = CHR ''f'' then LOG (show_double fp (as_double fp value))
      else throw ''Unknown format specifier'')"

text \<open>Both overloads of \<open>simple_printf\<close>; the format is the text up to its terminating zero.\<close>

fun simple_printf :: "'d doubles \<Rightarrow> string \<Rightarrow> 'd arg list \<Rightarrow> ('o world, unit) prog" where
  "simple_printf fp fmt [] = ret ()"
| "simple_printf fp [] (value # args) = ret ()"
| "simple_printf fp (c # fmt) (value # args) = seq (print_arg fp c value) (\<lambda>_. simple_printf fp fmt args)"

definition modern_run :: "'d doubles \<Rightarrow> 'd \<Rightarrow> 'd \<Rightarrow> ('o world, unit) prog" where
  "modern_run fp x y = block [LOG ''Modern Variadic Example'',
     simple_printf fp ''dcff'' [IntArg 3, CharArg (CHR ''a''), DoubleArg x, DoubleArg y]]"

section \<open>Arguments that fit the format\<close>

lemma char_of_int_of_char [simp]: "char_of_int (int_of_char c) = c"
proof -
  have "(of_char c :: int) = int (of_char c)" by (simp add: of_nat_of_char)
  then have "0 \<le> (of_char c :: int)" "(of_char c :: int) < 256" using nat_of_char_less_256 [of c] by linarith+
  then have "int_of_char c mod 256 = of_char c"
    by (auto simp: int_of_char_def Let_def mod_pos_pos_trivial minus_mod_self2)
  then show ?thesis by (simp add: char_of_int_def)
qed

text \<open>\<open>d\<close> takes an \<open>int\<close> or a \<open>char\<close>, \<open>c\<close> the same, and \<open>f\<close> a \<open>double\<close>.\<close>

fun fits :: "char \<Rightarrow> 'd arg \<Rightarrow> bool" where
  "fits c (DoubleArg d) \<longleftrightarrow> c = CHR ''f''"
| "fits c a \<longleftrightarrow> c = CHR ''d'' \<or> c = CHR ''c''"

fun line_of :: "'d doubles \<Rightarrow> char \<Rightarrow> 'd arg \<Rightarrow> string" where
  "line_of fp c (IntArg i) = (if c = CHR ''d'' then show_int i else [char_of_int i])"
| "line_of fp c (CharArg x) = (if c = CHR ''d'' then show_int (int_of_char x) else [x])"
| "line_of fp c (DoubleArg d) = show_double fp d"

text \<open>
  The two implementations agree: when every argument fits its letter of the format, both log one line
  for each argument, in order, and return.
\<close>

theorem variadic_styles_agree:
  assumes "list_all2 fits fmt args"
  shows "c_printf fp fmt args s = simple_printf fp fmt args s
    \<and> simple_printf fp fmt args s = Done () (says s (map2 (\<lambda>c a. Log (line_of fp c a)) fmt args))"
  using assms unfolding c_printf_def
proof (induction fmt args arbitrary: s rule: list_all2_induct)
  case (Cons c fmt a args)
  then show ?case
    by (cases a) (auto simp: print_arg_def seq_def ret_def LOG_def emit_def)
qed (simp add: ret_def)

text \<open>
  And where they differ: with arguments missing, the C version reads past them and is undefined, the
  other stops; a letter that is no conversion is skipped by the one and makes the other throw.
\<close>

theorem variadic_styles_differ:
  assumes "list_all2 fits fmt args"
  shows "c_printf fp (fmt @ ''d'' @ letters) args s = Undef WrongType
    \<and> (\<exists>t. simple_printf fp (fmt @ ''d'' @ letters) args s = Done () t \<and> simple_printf fp fmt args s = Done () t)
    \<and> (\<exists>t. simple_printf fp (fmt @ ''x'') (args @ [a]) s = Thrown ''Unknown format specifier'' t
        \<and> c_printf fp (fmt @ ''x'') (args @ [a]) s = Done () t)"
  using assms unfolding c_printf_def
proof (induction fmt args arbitrary: s rule: list_all2_induct)
  case Nil
  then show ?case by (simp add: seq_def undef_def ret_def print_arg_def throw_def)
next
  case (Cons c fmt b args)
  then show ?case by (cases b) (auto simp: print_arg_def seq_def ret_def LOG_def emit_def)
qed

section \<open>Witnesses\<close>

definition tenths :: "int doubles" where
  "tenths = \<lparr>of_int' = (\<lambda>i. 10 * i), to_int = (\<lambda>d. Some (d div 10)), show_double = (\<lambda>d. show_int (d div 10) @ ''.'' @ show_int (d mod 10))\<rparr>"

lemma variadic_styles_agree_witness:
  "c_printf tenths ''dcff'' [IntArg 3, CharArg (CHR ''a''), DoubleArg 19, DoubleArg 425] (boot :: unit world)
     = simple_printf tenths ''dcff'' [IntArg 3, CharArg (CHR ''a''), DoubleArg 19, DoubleArg 425] boot"
  by (rule variadic_styles_agree [THEN conjunct1]) simp

lemma variadic_styles_differ_witness:
  "c_printf tenths (''c'' @ ''d'' @ []) [CharArg (CHR ''a'')] (boot :: unit world) = Undef WrongType"
  by (rule variadic_styles_differ [THEN conjunct1]) simp

end
