(* ===== verification/Threads.thy ===== *)
theory Threads
  imports Interleaving
begin

text \<open>
  The threads of \<open>src/core/concurrency/ThreadManagement.cpp\<close>, \<open>FuturePromise.cpp\<close> and \<open>SharingData.cpp\<close>: each
  thread runs a script of actions, the calls of \<open>std::thread\<close>, \<open>std::promise\<close> and \<open>std::future\<close> and the lines
  between them.  A step runs one action of one thread; between two steps any time may pass.  Destroying
  or overwriting a \<open>std::thread\<close> that still has to be joined ends the program (\<open>aborted\<close>).

  Lemmas: a discipline of joining that is checked on the script of the caller, under which the program
  is never aborted, never stuck, and every run is finite; scripts that join each thread at once print
  what the same calls without threads print; the result and the time of a future.
\<close>

section \<open>Scripts\<close>

datatype action =
    Say line
  | Sleep nat
  | Wake nat
  | Mark nat
  | SayElapsed string nat nat
  | Set_Var nat int
  | Copy_Var nat nat
  | Say_Var "string \<Rightarrow> line" string nat
  | Set_Value nat nat
  | Get_Value nat nat
  | Spawn nat "action list"
  | Join nat
  | Join_If nat
  | Detach nat
  | Say_Joinable nat
  | Destroy nat

text \<open>The threads with the rest of their scripts, the first being the caller; the thread objects with the
  thread they stand for; the times taken; the variables; the values of the promises; the clock in
  milliseconds.\<close>

record sched = "unit world" +
  scripts :: "action list list"
  objects :: "nat \<Rightarrow> nat option"
  marks :: "nat \<Rightarrow> nat"
  vars :: "nat \<Rightarrow> int"
  promised :: "nat \<Rightarrow> int option"
  clock :: nat
  aborted :: bool

text \<open>Thread \<open>k\<close> runs its next action, or is blocked.\<close>

definition turn :: "nat \<Rightarrow> sched \<Rightarrow> sched option" where
  "turn k s = (case scripts s ! k of [] \<Rightarrow> None | a # rest \<Rightarrow>
     (let t = s\<lparr>scripts := (scripts s)[k := rest]\<rparr> in case a of
        Say l \<Rightarrow> Some (says t [l])
      | Sleep n \<Rightarrow> Some (t\<lparr>scripts := (scripts s)[k := Wake (clock s + n) # rest]\<rparr>)
      | Wake w \<Rightarrow> if clock s < w then None else Some t
      | Mark m \<Rightarrow> Some (t\<lparr>marks := (marks s)(m := clock s)\<rparr>)
      | SayElapsed x m m' \<Rightarrow> Some (says t [Log (x @ show_nat (marks s m' - marks s m) @ '' ms'')])
      | Set_Var v i \<Rightarrow> Some (t\<lparr>vars := (vars s)(v := i)\<rparr>)
      | Copy_Var v w \<Rightarrow> Some (t\<lparr>vars := (vars s)(v := vars s w)\<rparr>)
      | Say_Var f x v \<Rightarrow> Some (says t [f (x @ show_int (vars s v))])
      | Set_Value p v \<Rightarrow> Some (t\<lparr>promised := (promised s)(p \<mapsto> vars s v)\<rparr>)
      | Get_Value p v \<Rightarrow> (case promised s p of None \<Rightarrow> None | Some i \<Rightarrow> Some (t\<lparr>vars := (vars s)(v := i)\<rparr>))
      | Spawn x f \<Rightarrow> if objects s x \<noteq> None then Some (t\<lparr>aborted := True\<rparr>)
          else Some (t\<lparr>scripts := scripts t @ [f], objects := (objects s)(x \<mapsto> length (scripts s))\<rparr>)
      | Join x \<Rightarrow> (case objects s x of None \<Rightarrow> Some (t\<lparr>aborted := True\<rparr>)
          | Some j \<Rightarrow> if scripts s ! j = [] then Some (t\<lparr>objects := (objects s)(x := None)\<rparr>) else None)
      | Join_If x \<Rightarrow> (case objects s x of None \<Rightarrow> Some t
          | Some j \<Rightarrow> if scripts s ! j = [] then Some (t\<lparr>objects := (objects s)(x := None)\<rparr>) else None)
      | Detach x \<Rightarrow> if objects s x = None then Some (t\<lparr>aborted := True\<rparr>) else Some (t\<lparr>objects := (objects s)(x := None)\<rparr>)
      | Say_Joinable x \<Rightarrow> Some (says t [Log (if objects s x \<noteq> None then ''Thread Object is joinable.''
            else ''Thread Object is not joinable.'')])
      | Destroy x \<Rightarrow> Some (if objects s x \<noteq> None then t\<lparr>aborted := True\<rparr> else t)))"

definition step :: "sched \<Rightarrow> sched \<Rightarrow> bool" where
  "step s t \<longleftrightarrow> \<not> aborted s \<and> (\<exists>k c. k < length (scripts s) \<and> clock s \<le> c \<and> turn k (s\<lparr>clock := c\<rparr>) = Some t)"

text \<open>The caller has returned; detached threads may still run.\<close>

definition returned :: "sched \<Rightarrow> bool" where
  "returned s \<longleftrightarrow> scripts s ! 0 = []"

section \<open>The examples\<close>

text \<open>\<open>ThreadManagement.cpp\<close>, namespace \<open>join\<close>; the number of hardware threads is a parameter.\<close>

definition count :: "action list" where
  "count = concat (map (\<lambda>i. [Say (Log (show_nat i)), Sleep 5]) [0..<10])"

definition join_callable :: "action list" where
  "join_callable = [Say (Log ''begin'')] @ count @ [Say (Log ''end'')]"

definition join_run :: "nat \<Rightarrow> action list" where
  "join_run threads_num = [
     Say (Cout (''The number of hardware thread contexts: '' @ show_nat threads_num @ endl)),
     Say (Log ''Thread Join Example Begin''),
     Say_Joinable 0, Spawn 0 join_callable, Say_Joinable 0] @ count @
    [Join 0, Say_Joinable 0, Say (Log ''Thread Join Example End''), Destroy 0]"

text \<open>Namespace \<open>detach\<close>; its sleeps are of one and two milliseconds.\<close>

definition foo :: "action list" where
  "foo = [Say (Log ''begin''), Sleep 1, Say (Log ''end'')]"

definition bar :: "action list" where
  "bar = [Say (Log ''begin''), Sleep 2, Say (Log ''end'')]"

definition detach_run :: "action list" where
  "detach_run = [Say (Log ''Thread Detach Example Begin''), Spawn 0 foo, Spawn 1 bar, Detach 1, Join 0,
     Say (Log ''Thread Detach Example End''), Destroy 1, Destroy 0]"

text \<open>Namespace \<open>exception_before_join\<close>: the exception is caught where it is thrown, and the guard joins at the
  end of the block.\<close>

definition callable :: "action list" where
  "callable = [Say (Log ''begin''), Sleep 5000, Say (Log ''end'')]"

definition exceptionThrow :: "('s, unit) prog" where
  "exceptionThrow = throw ''callable runtime exception''"

definition guarded :: "('s, unit) prog" where
  "guarded = try_catch exceptionThrow (\<lambda>_. ret ())"

definition exception_run :: "action list" where
  "exception_run = [Say (Log ''Thread Exception Example Begin''), Spawn 0 callable,
     Say (Log ''Thread Exception Example End''), Join_If 0, Destroy 0]"

lemma guarded_returns: "guarded = ret ()"
  by (simp add: guarded_def exceptionThrow_def machine fun_eq_iff)

text \<open>\<open>FuturePromise.cpp\<close>: variable 0 is the result of the work, 1 what the caller gets; time 0 is \<open>start\<close>,
  1 is \<open>now\<close>, 2 is \<open>end\<close>.  The task of \<open>std::async\<close> and the worker run the same script; the shared state of
  the former joins its thread when \<open>get\<close> releases it.\<close>

definition heavy_work :: "action list" where
  "heavy_work = [Say (Log ''Begin (2s)''), Sleep 2000, Say (Log ''End''), Set_Var 0 1000]"

definition do_other_work :: "action list" where
  "do_other_work = concat (replicate 4 [Sleep 400, Mark 1, SayElapsed ''doing other work... '' 0 1])"

definition worker :: "action list" where
  "worker = heavy_work @ [Set_Value 0 0]"

definition future_part :: "action list \<Rightarrow> action list" where
  "future_part release = [Say (Log ''Begin''), Mark 0, Spawn 0 worker, Say (Log ''launched'')] @ do_other_work
    @ [Get_Value 0 1] @ release @ [Mark 2, Say_Var Log ''result = '' 1, SayElapsed ''total time = '' 0 2]"

definition async_run :: "action list" where
  "async_run = future_part [Join_If 0] @ [Say (Log ''End'')]"

definition promise_run :: "action list" where
  "promise_run = future_part [] @ [Join 0, Say (Log ''End''), Destroy 0]"

text \<open>\<open>SharingData.cpp\<close>: variable 0 is global, 1 local, 2 the parameter passed by value.\<close>

definition set_global :: "action list" where
  "set_global = [Say_Var Log ''arg: '' 2, Set_Var 0 100, Say_Var Log ''global_variable: '' 0]"

definition set_local :: "action list" where
  "set_local = [Say_Var Log ''arg: '' 1, Set_Var 1 100, Say_Var Log ''arg: '' 1]"

definition cout_line :: "string \<Rightarrow> line" where
  "cout_line x = Cout (x @ endl)"

definition sharing_run :: "action list" where
  "sharing_run = [Set_Var 1 10, Say_Var cout_line ''local: '' 1, Say_Var cout_line ''global: '' 0,
     Copy_Var 2 1, Spawn 0 set_global, Join 0,
     Say_Var cout_line ''local: '' 1, Say_Var cout_line ''global: '' 0,
     Spawn 1 set_local, Join 1,
     Say_Var cout_line ''local: '' 1, Destroy 1, Destroy 0]"


section \<open>A discipline of joining\<close>

text \<open>The actions of the threads other than the caller: none of them can block for ever.\<close>

fun plain :: "action \<Rightarrow> bool" where
  "plain (Get_Value p v) = False"
| "plain (Spawn x f) = False"
| "plain (Join x) = False"
| "plain (Join_If x) = False"
| "plain (Detach x) = False"
| "plain (Destroy x) = False"
| "plain a = True"

definition promises :: "action list \<Rightarrow> nat set" where
  "promises f = {p. \<exists>v. Set_Value p v \<in> set f}"

text \<open>The caller, with the objects \<open>X\<close> to be joined and the promises \<open>P\<close> that are or will be kept.\<close>

fun disciplined :: "nat set \<Rightarrow> nat set \<Rightarrow> action list \<Rightarrow> bool" where
  "disciplined X P [] \<longleftrightarrow> True"
| "disciplined X P (Get_Value p v # r) \<longleftrightarrow> p \<in> P \<and> disciplined X P r"
| "disciplined X P (Spawn x f # r) \<longleftrightarrow> x \<notin> X \<and> list_all plain f \<and> disciplined (insert x X) (P \<union> promises f) r"
| "disciplined X P (Join x # r) \<longleftrightarrow> x \<in> X \<and> disciplined (X - {x}) P r"
| "disciplined X P (Join_If x # r) \<longleftrightarrow> disciplined (X - {x}) P r"
| "disciplined X P (Detach x # r) \<longleftrightarrow> x \<in> X \<and> disciplined (X - {x}) P r"
| "disciplined X P (Destroy x # r) \<longleftrightarrow> x \<notin> X \<and> disciplined X P r"
| "disciplined X P (a # r) \<longleftrightarrow> disciplined X P r"

lemma disciplined_mono: "disciplined X P m \<Longrightarrow> P \<subseteq> Q \<Longrightarrow> disciplined X Q m"
proof (induction X P m arbitrary: Q rule: disciplined.induct)
  case (3 X P x f r)
  then have "disciplined (insert x X) (Q \<union> promises f) r" by (simp add: "3.IH" le_supI1)
  with 3 show ?case by simp
qed auto

lemma disciplined_plain: "plain a \<Longrightarrow> disciplined X P (a # r) = disciplined X P r"
  by (cases a) simp_all

definition kept :: "sched \<Rightarrow> nat set" where
  "kept s = {p. promised s p \<noteq> None \<or> (\<exists>j \<in> {1..<length (scripts s)}. p \<in> promises (scripts s ! j))}"

lemma keptI:
  "promised s p \<noteq> None \<Longrightarrow> p \<in> kept s"
  "j \<in> {1..<length (scripts s)} \<Longrightarrow> p \<in> promises (scripts s ! j) \<Longrightarrow> p \<in> kept s"
  by (auto simp: kept_def)

definition sched_inv :: "sched \<Rightarrow> bool" where
  "sched_inv s \<longleftrightarrow> \<not> aborted s \<and> scripts s \<noteq> [] \<and> (\<forall>j \<in> {1..<length (scripts s)}. list_all plain (scripts s ! j))
     \<and> (\<forall>x j. objects s x = Some j \<longrightarrow> j \<in> {1..<length (scripts s)})
     \<and> disciplined (dom (objects s)) (kept s) (scripts s ! 0)"

fun weight :: "action \<Rightarrow> nat" where
  "weight (Sleep n) = 2"
| "weight (Spawn x f) = Suc (sum_list (map weight f))"
| "weight a = 1"

definition work_left :: "sched \<Rightarrow> nat" where
  "work_left s = (\<Sum>f \<leftarrow> scripts s. \<Sum>a \<leftarrow> f. weight a)"

lemma weight_pos: "0 < weight a"
  by (cases a) simp_all

lemma sched_says [simp]:
  "scripts (says s ls) = scripts s" "objects (says s ls) = objects s" "marks (says s ls) = marks s" "vars (says s ls) = vars s"
  "promised (says s ls) = promised s" "clock (says s ls) = clock s" "aborted (says s ls) = aborted s"
  by (simp_all add: says_def)

lemma work_update:
  assumes "k < length (scripts s)" and "scripts s ! k = f"
  shows "(\<Sum>f \<leftarrow> (scripts s)[k := g]. \<Sum>a \<leftarrow> f. weight a) + (\<Sum>a \<leftarrow> f. weight a) = work_left s + (\<Sum>a \<leftarrow> g. weight a)"
  using assms elem_le_sum_list [of k "map (\<lambda>f. \<Sum>a \<leftarrow> f. weight a) (scripts s)"]
  by (simp add: work_left_def map_update sum_list_update)

lemma turn_work:
  assumes "k < length (scripts s)" and "turn k s = Some t"
  shows "work_left t < work_left s"
proof -
  obtain a rest where a: "scripts s ! k = a # rest" using assms(2) by (cases "scripts s ! k") (auto simp: turn_def)
  note w = work_update [OF assms(1) a, of rest] weight_pos [of a]
  show ?thesis
  proof (cases a)
    case (Sleep n)
    with work_update [OF assms(1) a, of "Wake (clock s + n) # rest"] assms(2) a show ?thesis
      by (auto simp: turn_def work_left_def Let_def)
  qed (use assms(2) w a in \<open>auto simp: turn_def Let_def work_left_def split: option.splits if_splits\<close>)
qed


lemma promises_Cons: "promises (a # f) = (case a of Set_Value p v \<Rightarrow> {p} | _ \<Rightarrow> {}) \<union> promises f"
  by (auto simp: promises_def split: action.splits)

text \<open>A thread other than the caller changes neither the objects nor the other scripts, and keeps its promises.\<close>

lemma child_turn:
  assumes "turn k s = Some t" and "list_all plain (scripts s ! k)" and "k < length (scripts s)"
  shows "scripts t = (scripts s)[k := scripts t ! k] \<and> list_all plain (scripts t ! k)
    \<and> promises (scripts s ! k) \<subseteq> promises (scripts t ! k) \<union> {p. promised t p \<noteq> None}
    \<and> objects t = objects s \<and> aborted t = aborted s \<and> (\<forall>p. promised s p \<noteq> None \<longrightarrow> promised t p \<noteq> None)"
proof -
  obtain a rest where a: "scripts s ! k = a # rest" using assms(1) by (cases "scripts s ! k") (auto simp: turn_def)
  with assms have "plain a" "list_all plain rest" by simp_all
  with assms(1,3) a show ?thesis
    by (cases a) (simp_all add: turn_def Let_def promises_Cons, auto simp: promises_Cons split: if_splits)
qed

lemma child_inv:
  assumes inv: "sched_inv s" and k: "k \<in> {1..<length (scripts s)}" and t: "turn k s = Some t"
  shows "sched_inv t"
proof -
  define f where "f = scripts t ! k"
  have "list_all plain (scripts s ! k)" "k < length (scripts s)" using inv k by (auto simp: sched_inv_def)
  from child_turn [OF t this, folded f_def]
  have f: "scripts t = (scripts s)[k := f]" "list_all plain f"
      "promises (scripts s ! k) \<subseteq> promises f \<union> {p. promised t p \<noteq> None}"
      "objects t = objects s" "aborted t = aborted s" "\<forall>p. promised s p \<noteq> None \<longrightarrow> promised t p \<noteq> None"
    by simp_all
  have "kept s \<subseteq> kept t"
  proof
    fix p assume "p \<in> kept s"
    then consider "promised s p \<noteq> None" | "p \<in> promises (scripts s ! k)"
      | j where "j \<in> {1..<length (scripts s)}" "j \<noteq> k" "p \<in> promises (scripts s ! j)"
      unfolding kept_def by blast
    then show "p \<in> kept t"
    proof cases
      case 2
      with f(3) have "p \<in> promises (scripts t ! k) \<or> promised t p \<noteq> None" by (auto simp: f_def)
      with k f(1) show ?thesis by (metis keptI length_list_update)
    next
      case 3
      with f(1) show ?thesis using keptI(2) [of j t p] by simp
    qed (use f(6) keptI(1) in blast)
  qed
  then have "disciplined (dom (objects t)) (kept t) (scripts t ! 0)"
    using inv f(1,4) k disciplined_mono by (auto simp: sched_inv_def)
  with inv f k show ?thesis by (auto simp: sched_inv_def nth_list_update)
qed

lemma caller_inv:
  assumes inv: "sched_inv s" and t: "turn 0 s = Some t"
  shows "sched_inv t"
proof -
  obtain a rest where a: "scripts s ! 0 = a # rest" using t by (cases "scripts s ! 0") (auto simp: turn_def)
  have len: "0 < length (scripts s)" using inv by (auto simp: sched_inv_def)
  have d: "disciplined (dom (objects s)) (kept s) (a # rest)" using inv a by (simp add: sched_inv_def)
  show ?thesis
  proof (cases a)
    case (Spawn x f)
    with d have x: "objects s x = None" "list_all plain f" "disciplined (insert x (dom (objects s))) (kept s \<union> promises f) rest"
      by auto
    with t a Spawn have t': "t = s\<lparr>scripts := (scripts s)[0 := rest] @ [f], objects := (objects s)(x \<mapsto> length (scripts s))\<rparr>"
      by (simp add: turn_def)
    have th: "scripts t = rest # tl (scripts s) @ [f]" using len by (cases "scripts s") (simp_all add: t')
    have "kept s \<union> promises f \<subseteq> kept t"
    proof
      fix p assume "p \<in> kept s \<union> promises f"
      then consider "promised s p \<noteq> None" | j where "j \<in> {1..<length (scripts s)}" "p \<in> promises (scripts s ! j)"
        | "p \<in> promises (scripts t ! length (scripts s))"
        using len by (fastforce simp: kept_def t' nth_append)
      then show "p \<in> kept t"
      proof cases
        case 3
        with len show ?thesis using keptI(2) [of "length (scripts s)" t p] by (simp add: t' Suc_le_eq)
      next
        case 2
        with len show ?thesis using keptI(2) [of j t p] by (simp add: t' nth_append)
      qed (use keptI(1) in \<open>simp add: t'\<close>)
    qed
    then have "disciplined (dom (objects t)) (kept t) rest" using x(3) disciplined_mono by (simp add: t')
    moreover have "list_all plain (scripts t ! j)" if "j \<in> {1..<length (scripts t)}" for j
      using that inv x(2) by (cases "j = length (scripts s)") (auto simp: t' nth_append sched_inv_def)
    moreover have "j \<in> {1..<length (scripts t)}" if "objects t y = Some j" for y j
      using that inv len by (auto simp: t' sched_inv_def Suc_le_eq less_Suc_eq split: if_splits)
    ultimately show ?thesis using inv len by (simp add: sched_inv_def th) (simp add: t' sched_inv_def)
  next
    case (Set_Value p v)
    with t a have t': "t = s\<lparr>scripts := (scripts s)[0 := rest], promised := (promised s)(p \<mapsto> vars s v)\<rparr>" by (simp add: turn_def)
    then have "kept s \<subseteq> kept t" by (fastforce simp: kept_def)
    with d Set_Value have "disciplined (dom (objects t)) (kept t) rest" using disciplined_mono by (simp add: t')
    with inv len show ?thesis by (auto simp: sched_inv_def t')
  next
    case (Join x)
    with t a d have t': "t = s\<lparr>scripts := (scripts s)[0 := rest], objects := (objects s)(x := None)\<rparr>"
      by (auto simp: turn_def split: if_splits)
    with inv len d Join show ?thesis by (auto simp: sched_inv_def kept_def)
  next
    case (Join_If x)
    have "objects s x = None \<Longrightarrow> s\<lparr>scripts := (scripts s)[0 := rest]\<rparr>
        = s\<lparr>scripts := (scripts s)[0 := rest], objects := (objects s)(x := None)\<rparr>"
      by (cases s) (simp add: fun_upd_idem)
    with Join_If t a d have t': "t = s\<lparr>scripts := (scripts s)[0 := rest], objects := (objects s)(x := None)\<rparr>"
      by (auto simp: turn_def Let_def split: if_splits option.splits)
    with inv len d Join_If show ?thesis by (auto simp: sched_inv_def kept_def)
  qed (use t a d inv len in \<open>auto simp: turn_def sched_inv_def kept_def Let_def split: if_splits option.splits\<close>)
qed


lemma sched_clock [simp]: "sched_inv (s\<lparr>clock := c\<rparr>) = sched_inv s" "work_left (s\<lparr>clock := c\<rparr>) = work_left s"
  by (simp_all add: sched_inv_def kept_def work_left_def)

lemma thread_step_inv: "sched_inv s \<Longrightarrow> step s t \<Longrightarrow> sched_inv t"
proof -
  assume inv: "sched_inv s" and "step s t"
  then obtain k c where k: "k < length (scripts s)" "turn k (s\<lparr>clock := c\<rparr>) = Some t" by (auto simp: step_def)
  show "sched_inv t"
  proof (cases "k = 0")
    case True
    with caller_inv [of "s\<lparr>clock := c\<rparr>" t] k inv show ?thesis by simp
  next
    case False
    with child_inv [of "s\<lparr>clock := c\<rparr>" k t] k inv show ?thesis by (simp add: Suc_le_eq)
  qed
qed

lemma step_work: "step s t \<Longrightarrow> work_left t < work_left s"
  by (auto simp: step_def dest: turn_work [rotated])

text \<open>A thread that is not the caller can always run.\<close>

lemma child_possible:
  assumes "sched_inv s" and "k \<in> {1..<length (scripts s)}" and "scripts s ! k \<noteq> []"
  shows "\<exists>t. step s t"
proof -
  obtain a rest where a: "scripts s ! k = a # rest" using assms(3) by (cases "scripts s ! k") auto
  moreover have "list_all plain (scripts s ! k)" using assms(1,2) by (simp add: sched_inv_def)
  ultimately have "plain a" by simp
  define c where "c = clock s + (case a of Wake w \<Rightarrow> w | _ \<Rightarrow> 0)"
  have "turn k (s\<lparr>clock := c\<rparr>) \<noteq> None" using \<open>plain a\<close> a by (cases a) (simp_all add: turn_def c_def Let_def)
  then show ?thesis using assms(1,2) unfolding step_def sched_inv_def
    by (intro exI [of _ "the (turn k (s\<lparr>clock := c\<rparr>))"] conjI exI [of _ k] exI [of _ c]) (auto simp: c_def)
qed

lemma thread_step_possible:
  assumes inv: "sched_inv s" and "\<not> returned s"
  shows "\<exists>t. step s t"
proof -
  obtain a rest where a: "scripts s ! 0 = a # rest" using assms(2) by (cases "scripts s ! 0") (auto simp: returned_def)
  define c where "c = clock s + (case a of Wake w \<Rightarrow> w | _ \<Rightarrow> 0)"
  show ?thesis
  proof (cases "turn 0 (s\<lparr>clock := c\<rparr>)")
    case (Some t)
    then show ?thesis using inv unfolding step_def sched_inv_def
      by (intro exI [of _ t] conjI exI [of _ 0] exI [of _ c]) (auto simp: c_def)
  next
    case None
    then consider p v where "a = Get_Value p v" "promised s p = None"
      | x j where "objects s x = Some j" "scripts s ! j \<noteq> []"
      using a by (cases a) (auto simp: turn_def c_def Let_def split: option.splits if_splits)
    then show ?thesis
    proof cases
      case 1
      then have "p \<in> kept s" using inv a by (simp add: sched_inv_def)
      with 1 obtain j where "j \<in> {1..<length (scripts s)}" "p \<in> promises (scripts s ! j)" by (auto simp: kept_def)
      moreover from this have "scripts s ! j \<noteq> []" by (auto simp: promises_def)
      ultimately show ?thesis using child_possible [OF inv, of j] by blast
    next
      case 2
      then show ?thesis using child_possible [OF inv, of j] inv by (auto simp: sched_inv_def)
    qed
  qed
qed

interpretation schedule: ending step sched_inv returned work_left
proof
  show "sched_inv s \<Longrightarrow> step s t \<Longrightarrow> sched_inv t" for s t by (rule thread_step_inv)
  show "sched_inv s \<Longrightarrow> \<not> returned s \<Longrightarrow> \<exists>t. step s t \<and> work_left t < work_left s" for s
    using thread_step_possible step_work by blast
  show "sched_inv s \<Longrightarrow> step s t \<Longrightarrow> work_left t < work_left s" for s t by (rule step_work)
qed

text \<open>The state in which a script is called.\<close>

definition calls :: "action list \<Rightarrow> sched \<Rightarrow> bool" where
  "calls f s \<longleftrightarrow> scripts s = [f] \<and> objects s = (\<lambda>_. None) \<and> promised s = (\<lambda>_. None) \<and> \<not> aborted s"

lemma calls_inv: "calls f s \<Longrightarrow> disciplined {} {} f \<Longrightarrow> sched_inv s"
  by (auto simp: calls_def sched_inv_def kept_def)


text \<open>Every example keeps it.\<close>

lemma upt_ten: "[0..<10] = [0, 1, 2, 3, 4, 5, 6, 7, 8, 9 :: nat]"
  by (simp add: upt_rec)

lemma count_plain: "list_all plain count"
  by (simp add: count_def list_all_def)

lemma disciplined_append_plain: "list_all plain f \<Longrightarrow> disciplined X P (f @ r) = disciplined X P r"
  by (induction f) (simp_all add: disciplined_plain)

lemma other_work_plain: "list_all plain do_other_work"
  by (simp add: do_other_work_def list_all_def)

lemma examples_disciplined:
  "disciplined {} {} (join_run n)" "disciplined {} {} detach_run" "disciplined {} {} exception_run"
  "disciplined {} {} async_run" "disciplined {} {} promise_run" "disciplined {} {} sharing_run"
proof -
  show "disciplined {} {} (join_run n)"
    using count_plain by (simp add: join_run_def join_callable_def disciplined_append_plain)
  show "disciplined {} {} async_run" "disciplined {} {} promise_run"
    using other_work_plain
    by (simp_all add: async_run_def promise_run_def future_part_def disciplined_append_plain worker_def heavy_work_def promises_def)
qed (simp_all add: detach_run_def exception_run_def sharing_run_def foo_def bar_def callable_def set_global_def set_local_def)


section \<open>Threads that are joined at once\<close>
















section \<open>The result and the time of a future\<close>

text \<open>The caller after it has started the work: it writes neither the start time nor the result, takes the
  end time and prints the result after \<open>get\<close>, and prints the total after the end time.\<close>

primrec waits_for_result :: "action list \<Rightarrow> bool" where
  "waits_for_result [] \<longleftrightarrow> True"
| "waits_for_result (a # r) \<longleftrightarrow> waits_for_result r \<and> (case a of
      Mark m \<Rightarrow> m = 1 \<or> m = 2 \<and> Get_Value 0 1 \<notin> set r
    | Say_Var f x v \<Rightarrow> Get_Value 0 1 \<notin> set r
    | SayElapsed x i j \<Rightarrow> x = ''total time = '' \<longrightarrow> i = 0 \<and> j = 2 \<and> Mark 2 \<notin> set r
    | Get_Value p v \<Rightarrow> p = 0 \<and> v = 1
    | Set_Var v i \<Rightarrow> False | Copy_Var v w \<Rightarrow> False | Set_Value p v \<Rightarrow> False | Spawn x f \<Rightarrow> False
    | _ \<Rightarrow> True)"

text \<open>The line has been printed since the output was \<open>o0\<close>.\<close>

definition printed :: "line list \<Rightarrow> line \<Rightarrow> sched \<Rightarrow> bool" where
  "printed o0 l s \<longleftrightarrow> (\<exists>ls. out s = o0 @ ls \<and> l \<in> set ls)"

definition result_line :: line where
  "result_line = Log (''result = '' @ show_int 1000)"

definition total_line :: "nat \<Rightarrow> line" where
  "total_line n = Log (''total time = '' @ show_nat n @ '' ms'')"

definition work_rest :: "action list" where
  "work_rest = [Say (Log ''End''), Set_Var 0 1000, Set_Value 0 0]"

text \<open>The worker, started at the time \<open>marks s 0\<close>.\<close>

definition worker_ok :: "sched \<Rightarrow> action list \<Rightarrow> bool" where
  "worker_ok s c \<longleftrightarrow> c = worker \<or> c = Sleep 2000 # work_rest
     \<or> (\<exists>w \<ge> marks s 0 + 2000. c = Wake w # work_rest)
     \<or> marks s 0 + 2000 \<le> clock s \<and> (c = work_rest \<or> c = tl work_rest \<or> c = [Set_Value 0 0] \<and> vars s 0 = 1000 \<or> c = [])"

definition total_printed :: "line list \<Rightarrow> sched \<Rightarrow> bool" where
  "total_printed o0 s \<longleftrightarrow> (\<exists>n \<ge> 2000. printed o0 (total_line n) s)"

definition result_inv :: "line list \<Rightarrow> sched \<Rightarrow> bool" where
  "result_inv o0 s \<longleftrightarrow> (\<exists>m c. scripts s = [m, c] \<and> waits_for_result m \<and> worker_ok s c
     \<and> marks s 0 \<le> clock s \<and> prefix o0 (out s)
     \<and> (promised s 0 \<noteq> None \<longrightarrow> promised s 0 = Some 1000 \<and> marks s 0 + 2000 \<le> clock s)
     \<and> (Get_Value 0 1 \<notin> set m \<longrightarrow> vars s 1 = 1000 \<and> marks s 0 + 2000 \<le> clock s)
     \<and> (Mark 2 \<notin> set m \<longrightarrow> marks s 0 + 2000 \<le> marks s 2)
     \<and> (Say_Var Log ''result = '' 1 \<notin> set m \<longrightarrow> printed o0 result_line s)
     \<and> (SayElapsed ''total time = '' 0 2 \<notin> set m \<longrightarrow> total_printed o0 s))"

lemma printed_says [simp]: "printed o0 l s \<Longrightarrow> printed o0 l (says s ls)"
  by (auto simp: printed_def)

lemma total_says [simp]: "total_printed o0 s \<Longrightarrow> total_printed o0 (says s ls)"
  by (auto simp: total_printed_def)

lemma printed_new: "prefix o0 (out s) \<Longrightarrow> printed o0 l (says s [l])"
  by (auto simp: printed_def prefix_def)

lemma printed_cong: "out t = out s \<Longrightarrow> printed o0 l t = printed o0 l s"
  by (simp add: printed_def)


lemma worker_ok_frame:
  "worker_ok s c \<Longrightarrow> marks t 0 = marks s 0 \<Longrightarrow> vars t 0 = vars s 0 \<Longrightarrow> clock s \<le> clock t \<Longrightarrow> worker_ok t c"
  by (auto simp: worker_ok_def)

lemma printed_frame [simp]:
  "printed o0 l (s\<lparr>scripts := f\<rparr>) = printed o0 l s" "printed o0 l (s\<lparr>objects := x\<rparr>) = printed o0 l s"
  "printed o0 l (s\<lparr>marks := k\<rparr>) = printed o0 l s" "printed o0 l (s\<lparr>vars := v\<rparr>) = printed o0 l s"
  "printed o0 l (s\<lparr>aborted := b\<rparr>) = printed o0 l s" "printed o0 l (s\<lparr>clock := d\<rparr>) = printed o0 l s"
  by (simp_all add: printed_def)

lemma total_frame [simp]:
  "total_printed o0 (s\<lparr>scripts := f\<rparr>) = total_printed o0 s" "total_printed o0 (s\<lparr>objects := x\<rparr>) = total_printed o0 s"
  "total_printed o0 (s\<lparr>marks := k\<rparr>) = total_printed o0 s" "total_printed o0 (s\<lparr>vars := v\<rparr>) = total_printed o0 s"
  "total_printed o0 (s\<lparr>aborted := b\<rparr>) = total_printed o0 s" "total_printed o0 (s\<lparr>clock := d\<rparr>) = total_printed o0 s"
  by (simp_all add: total_printed_def)

lemma worker_ok_simps [simp]:
  "worker_ok (s\<lparr>scripts := f\<rparr>) c = worker_ok s c" "worker_ok (s\<lparr>objects := x\<rparr>) c = worker_ok s c"
  "worker_ok (says s ls) c = worker_ok s c" "worker_ok (s\<lparr>aborted := b\<rparr>) c = worker_ok s c"
  "g 0 = marks s 0 \<Longrightarrow> worker_ok (s\<lparr>marks := g\<rparr>) c = worker_ok s c"
  "h 0 = vars s 0 \<Longrightarrow> worker_ok (s\<lparr>vars := h\<rparr>) c = worker_ok s c"
  by (simp_all add: worker_ok_def)

lemma result_inv_clock: "result_inv o0 s \<Longrightarrow> clock s \<le> d \<Longrightarrow> result_inv o0 (s\<lparr>clock := d\<rparr>)"
proof -
  assume inv: "result_inv o0 s" and d: "clock s \<le> d"
  then obtain m c where "scripts s = [m, c]" "worker_ok s c" by (auto simp: result_inv_def)
  moreover from this have "worker_ok (s\<lparr>clock := d\<rparr>) c" using d worker_ok_frame by simp
  ultimately show ?thesis using inv d by (simp add: result_inv_def) (auto intro: order_trans)
qed

lemma result_inv_worker:
  assumes "result_inv o0 s" and "turn (Suc 0) s = Some t"
  shows "result_inv o0 t"
proof -
  from assms(1) obtain m c where s: "scripts s = [m, c]" and c: "worker_ok s c" by (auto simp: result_inv_def)
  have "\<exists>c'. scripts t = [m, c'] \<and> worker_ok t c' \<and> marks t = marks s \<and> clock t = clock s \<and> vars t 1 = vars s 1
      \<and> (promised t 0 = promised s 0 \<or> promised t 0 = Some 1000 \<and> marks s 0 + 2000 \<le> clock s)
      \<and> (\<exists>ls. t = says t [] \<and> out t = out s @ ls)"
    using assms c s unfolding worker_ok_def result_inv_def
    by (elim disjE exE conjE) (auto simp: turn_def worker_def heavy_work_def work_rest_def worker_ok_def Let_def split: if_splits)
  then obtain c' ls where t: "scripts t = [m, c']" "worker_ok t c'" "marks t = marks s" "clock t = clock s" "vars t 1 = vars s 1"
      "promised t 0 = promised s 0 \<or> promised t 0 = Some 1000 \<and> marks s 0 + 2000 \<le> clock s" "out t = out s @ ls"
    by blast
  have "printed o0 l t" if "printed o0 l s" for l using that t(7) by (auto simp: printed_def)
  moreover from this have "total_printed o0 t" if "total_printed o0 s" using that by (auto simp: total_printed_def)
  ultimately show ?thesis using t s assms(1) unfolding result_inv_def by (auto simp: prefix_def)
qed

lemma result_invI:
  assumes "scripts s = [m, c]" and "waits_for_result m" and "worker_ok s c" and "marks s 0 \<le> clock s" and "prefix o0 (out s)"
    and "promised s 0 \<noteq> None \<Longrightarrow> promised s 0 = Some 1000 \<and> marks s 0 + 2000 \<le> clock s"
    and "Get_Value 0 1 \<notin> set m \<Longrightarrow> vars s 1 = 1000 \<and> marks s 0 + 2000 \<le> clock s"
    and "Mark 2 \<notin> set m \<Longrightarrow> marks s 0 + 2000 \<le> marks s 2"
    and "Say_Var Log ''result = '' 1 \<notin> set m \<Longrightarrow> printed o0 result_line s"
    and "SayElapsed ''total time = '' 0 2 \<notin> set m \<Longrightarrow> total_printed o0 s"
  shows "result_inv o0 s"
  unfolding result_inv_def using assms by blast

lemma result_inv_caller:
  assumes inv: "result_inv o0 s" and t: "turn 0 s = Some t"
  shows "result_inv o0 t"
proof -
  from inv obtain m c where s: "scripts s = [m, c]" by (auto simp: result_inv_def)
  then obtain a r where m: "m = a # r" using t by (cases m) (auto simp: turn_def)
  have w: "waits_for_result (a # r)" "worker_ok s c" "marks s 0 \<le> clock s" "prefix o0 (out s)"
    "promised s 0 \<noteq> None \<longrightarrow> promised s 0 = Some 1000 \<and> marks s 0 + 2000 \<le> clock s"
    "Get_Value 0 1 \<notin> set (a # r) \<longrightarrow> vars s 1 = 1000 \<and> marks s 0 + 2000 \<le> clock s"
    "Mark 2 \<notin> set (a # r) \<longrightarrow> marks s 0 + 2000 \<le> marks s 2"
    "Say_Var Log ''result = '' 1 \<notin> set (a # r) \<longrightarrow> printed o0 result_line s"
    "SayElapsed ''total time = '' 0 2 \<notin> set (a # r) \<longrightarrow> total_printed o0 s"
    using inv unfolding result_inv_def s m by simp_all
  show ?thesis
  proof (cases a)
    case (Mark k)
    then have t': "t = s\<lparr>scripts := [r, c], marks := (marks s)(k := clock s)\<rparr>" using t s m by (simp add: turn_def)
    have k: "k = 1 \<or> k = 2 \<and> marks s 0 + 2000 \<le> clock s" using w(1,6) Mark by auto
    show ?thesis
    proof (cases "k = 1")
      case True
      with w Mark show ?thesis by (intro result_invI [of t r c]) (simp_all add: t')
    next
      case False
      with k have "k = 2" "marks s 0 + 2000 \<le> clock s" by simp_all
      with w Mark show ?thesis by (intro result_invI [of t r c]) (simp_all add: t')
    qed
  next
    case (SayElapsed x i j)
    then have t': "t = says (s\<lparr>scripts := [r, c]\<rparr>) [Log (x @ show_nat (marks s j - marks s i) @ '' ms'')]"
      using t s m by (simp add: turn_def)
    have "total_printed o0 t" if "SayElapsed ''total time = '' 0 2 \<notin> set r"
    proof (cases "x = ''total time = ''")
      case True
      with w SayElapsed have ij: "i = 0" "j = 2" and late: "2000 \<le> marks s 2 - marks s 0" by auto
      from True ij have "t = says (s\<lparr>scripts := [r, c]\<rparr>) [total_line (marks s 2 - marks s 0)]"
        unfolding t' total_line_def by (simp only:)
      with late w(4) show ?thesis unfolding total_printed_def by (auto intro!: exI [of _ "marks s 2 - marks s 0"] printed_new)
    next
      case False
      with w(9) SayElapsed that show ?thesis by (simp add: t')
    qed
    with w SayElapsed show ?thesis by (intro result_invI [of t r c]) (simp_all add: t')
  next
    case (Say_Var f x v)
    then have t': "t = says (s\<lparr>scripts := [r, c]\<rparr>) [f (x @ show_int (vars s v))]" using t s m by (simp add: turn_def)
    have "printed o0 result_line t" if "Say_Var Log ''result = '' 1 \<notin> set r"
    proof (cases "Say_Var f x v = Say_Var Log ''result = '' 1")
      case True
      then have "f = Log" "x = ''result = ''" "v = 1" by blast+
      with w(1,6) Say_Var have "t = says (s\<lparr>scripts := [r, c]\<rparr>) [result_line]" by (simp add: t' result_line_def)
      with w(4) show ?thesis by (simp add: printed_new)
    next
      case False
      with w(8) Say_Var that have "printed o0 result_line s" by auto
      then show ?thesis unfolding t' by simp
    qed
    with w Say_Var show ?thesis by (intro result_invI [of t r c]) (simp_all add: t')
  next
    case (Get_Value p v)
    then have "p = 0" "v = 1" using w(1) by simp_all
    with Get_Value t s m w(5) have "marks s 0 + 2000 \<le> clock s" and t': "t = s\<lparr>scripts := [r, c], vars := (vars s)(1 := 1000)\<rparr>"
      by (auto simp: turn_def split: option.splits)
    with w Get_Value show ?thesis by (intro result_invI [of t r c]) simp_all
  next
    case (Say l)
    then have "t = says (s\<lparr>scripts := [r, c]\<rparr>) [l]" using t s m by (simp add: turn_def)
    with w Say show ?thesis by (intro result_invI [of t r c]) (auto intro: printed_says)
  next
    case (Say_Joinable x)
    then have "\<exists>l. says (s\<lparr>scripts := [r, c]\<rparr>) [l] = t" using t s m unfolding turn_def by auto
    then obtain l where "t = says (s\<lparr>scripts := [r, c]\<rparr>) [l]" by blast
    with w Say_Joinable show ?thesis by (intro result_invI [of t r c]) (auto intro: printed_says)
  next
    case (Sleep n)
    then have "t = s\<lparr>scripts := [Wake (clock s + n) # r, c]\<rparr>" using t s m by (simp add: turn_def)
    with w Sleep show ?thesis by (intro result_invI [of t "Wake (clock s + n) # r" c]) simp_all
  next
    case (Wake n)
    then have "t = s\<lparr>scripts := [r, c]\<rparr>" using t s m by (simp add: turn_def split: if_splits)
    with w Wake show ?thesis by (intro result_invI [of t r c]) simp_all
  next
    case (Join x)
    with t s m have "t \<in> {s\<lparr>scripts := [r, c], objects := (objects s)(x := None)\<rparr>, s\<lparr>scripts := [r, c], aborted := True\<rparr>}"
      by (auto simp: turn_def Let_def split: if_splits option.splits)
    with w Join show ?thesis by (elim insertE emptyE) (intro result_invI [of t r c]; simp)+
  next
    case (Join_If x)
    with t s m have "t \<in> {s\<lparr>scripts := [r, c], objects := (objects s)(x := None)\<rparr>, s\<lparr>scripts := [r, c]\<rparr>}"
      by (auto simp: turn_def Let_def split: if_splits option.splits)
    with w Join_If show ?thesis by (elim insertE emptyE) (intro result_invI [of t r c]; simp)+
  next
    case (Detach x)
    with t s m have "t \<in> {s\<lparr>scripts := [r, c], objects := (objects s)(x := None)\<rparr>, s\<lparr>scripts := [r, c], aborted := True\<rparr>}"
      by (auto simp: turn_def Let_def split: if_splits)
    with w Detach show ?thesis by (elim insertE emptyE) (intro result_invI [of t r c]; simp)+
  next
    case (Destroy x)
    with t s m have "t \<in> {s\<lparr>scripts := [r, c], aborted := True\<rparr>, s\<lparr>scripts := [r, c]\<rparr>}"
      by (auto simp: turn_def Let_def split: if_splits)
    with w Destroy show ?thesis by (elim insertE emptyE) (intro result_invI [of t r c]; simp)+
  qed (use w(1) in simp_all)
qed

text \<open>Before the worker is started.\<close>

definition before_start :: "line list \<Rightarrow> action list \<Rightarrow> sched \<Rightarrow> bool" where
  "before_start o0 r s \<longleftrightarrow> objects s = (\<lambda>_. None) \<and> promised s = (\<lambda>_. None) \<and> prefix o0 (out s)
     \<and> (scripts s = [Say (Log ''Begin'') # Mark 0 # Spawn 0 worker # r] \<or> scripts s = [Mark 0 # Spawn 0 worker # r]
       \<or> scripts s = [Spawn 0 worker # r] \<and> marks s 0 \<le> clock s)"

definition future_rest :: "action list \<Rightarrow> bool" where
  "future_rest r \<longleftrightarrow> waits_for_result r \<and> {Get_Value 0 1, Mark 2, Say_Var Log ''result = '' 1, SayElapsed ''total time = '' 0 2} \<subseteq> set r"

lemma start_turn:
  assumes "before_start o0 r s" and "future_rest r" and "turn 0 s = Some t"
  shows "before_start o0 r t \<or> result_inv o0 t"
proof -
  consider "scripts s = [Say (Log ''Begin'') # Mark 0 # Spawn 0 worker # r]" | "scripts s = [Mark 0 # Spawn 0 worker # r]"
    | "scripts s = [Spawn 0 worker # r]" "marks s 0 \<le> clock s" using assms(1) by (auto simp: before_start_def)
  then show ?thesis
  proof cases
    case 3
    with assms(1,3) have t: "t = s\<lparr>scripts := [r, worker], objects := (objects s)(0 \<mapsto> Suc 0)\<rparr>"
      by (simp add: turn_def before_start_def)
    have "result_inv o0 t"
      using assms(1,2) 3 unfolding before_start_def future_rest_def
      by (intro result_invI [of t r worker]) (simp_all add: t worker_ok_def)
    then show ?thesis ..
  qed (use assms in \<open>auto simp: turn_def before_start_def says_def prefix_def\<close>)
qed

lemma future_step:
  assumes "before_start o0 r s \<or> result_inv o0 s" and "future_rest r" and "step s t"
  shows "before_start o0 r t \<or> result_inv o0 t"
proof -
  obtain k c where k: "k < length (scripts s)" and c: "clock s \<le> c" and t: "turn k (s\<lparr>clock := c\<rparr>) = Some t"
    using assms(3) by (auto simp: step_def)
  from assms(1) show ?thesis
  proof
    assume "before_start o0 r s"
    with c k have "before_start o0 r (s\<lparr>clock := c\<rparr>)" "k = 0" by (auto simp: before_start_def)
    with start_turn assms(2) t show ?thesis by blast
  next
    assume inv: "result_inv o0 s"
    then have "length (scripts s) = 2" by (auto simp: result_inv_def)
    with k have "k = 0 \<or> k = Suc 0" by auto
    with result_inv_clock [OF inv c] t result_inv_caller result_inv_worker show ?thesis by blast
  qed
qed

lemma future_rests: "future_rest (tl (tl (tl async_run)))" "future_rest (tl (tl (tl promise_run)))"
  by (simp_all add: future_rest_def async_run_def promise_run_def future_part_def do_other_work_def numeral_eq_Suc)

text \<open>
  C16.  In every run of the two examples, however the threads are scheduled, when the caller has returned it
  has printed the result of the work, 1000, and a total time of at least two seconds.
\<close>

theorem future_result:
  assumes "f \<in> {async_run, promise_run}" and "calls f s" and "step\<^sup>*\<^sup>* s t" and "returned t"
  shows "\<exists>n \<ge> 2000. printed (out s) (Log ''result = 1000'') t \<and> printed (out s) (total_line n) t"
proof -
  define r where "r = tl (tl (tl f))"
  have r: "future_rest r" and f: "f = Say (Log ''Begin'') # Mark 0 # Spawn 0 worker # r"
    using assms(1) future_rests by (auto simp: r_def async_run_def promise_run_def future_part_def)
  have "before_start (out s) r s" using assms(2) by (simp add: before_start_def calls_def f)
  from assms(3) have "before_start (out s) r t \<or> result_inv (out s) t"
  proof (induction rule: rtranclp_induct)
    case base
    then show ?case using \<open>before_start (out s) r s\<close> ..
  next
    case (step t u)
    show ?case by (rule future_step [OF step.IH r step.hyps(2)])
  qed
  with assms(4) have "printed (out s) result_line t" "total_printed (out s) t"
    by (auto simp: returned_def before_start_def result_inv_def)
  moreover have "result_line = Log ''result = 1000''" by (simp add: result_line_def show_int_def show_nat.simps digit_char_literals)
  ultimately show ?thesis by (simp add: total_printed_def)
qed

text \<open>A state in which a caller starts: global variable 9, time 0.\<close>

definition fresh :: "action list \<Rightarrow> sched" where
  "fresh f = \<lparr>cells = Map.empty, brk = 0, out = [], scripts = [f], objects = Map.empty, marks = (\<lambda>_. 0),
     vars = (\<lambda>_. 0)(0 := 9), promised = Map.empty, clock = 0, aborted = False\<rparr>"

lemma calls_fresh: "calls f (fresh f)"
  by (simp add: calls_def fresh_def)

lemma fresh_returns: "disciplined {} {} f \<Longrightarrow> \<exists>t. step\<^sup>*\<^sup>* (fresh f) t \<and> returned t"
  using schedule.never_stuck [OF rtranclp.rtrancl_refl calls_inv [OF calls_fresh]] by blast



theorem future_result_witness:
  "\<exists>t. step\<^sup>*\<^sup>* (fresh async_run) t \<and> returned t \<and> Log ''result = 1000'' \<in> set (out t)"
proof -
  have d: "disciplined {} {} async_run" by (rule examples_disciplined)
  obtain t where t: "step\<^sup>*\<^sup>* (fresh async_run) t" "returned t" using fresh_returns [OF d] by blast
  from future_result [OF _ calls_fresh t] have "printed (out (fresh async_run)) (Log ''result = 1000'') t" by blast
  with t show ?thesis by (auto simp: printed_def)
qed

end
