(* ===== verification/Logger.thy ===== *)
theory Logger
  imports Interleaving
begin

text \<open>
  \<open>include/Logger.h\<close>: the text of a logged line, in the build with and without \<open>NDEBUG\<close>, and the threads
  that log at the same time.  A line is written to the console character by character, and other
  threads may run between any two characters; in the debug build \<open>Logger::log\<close> holds a mutex meanwhile.

  Lemmas: the file name without its directories; in the debug build the console is at all times a
  sequence of whole lines, but for the end of the one being written, each thread's in the order of
  its calls, and all threads can finish; in the release build lines mix.
\<close>

section \<open>Lines\<close>

text \<open>The last position of one of the characters.\<close>

fun find_last_of :: "string \<Rightarrow> string \<Rightarrow> nat option" where
  "find_last_of [] cs = None"
| "find_last_of (c # x) cs = (case find_last_of x cs of Some pos \<Rightarrow> Some (Suc pos)
     | None \<Rightarrow> if c \<in> set cs then Some 0 else None)"

definition separators :: string where
  "separators = [CHR ''/'', CHR 0x5C]"

definition base_name :: "string \<Rightarrow> string" where
  "base_name file_name = (case find_last_of file_name separators of
     Some pos \<Rightarrow> drop (pos + 1) file_name | None \<Rightarrow> file_name)"

text \<open>The local time, hours, minutes and seconds, and \<open>%H:%M:%S\<close>.\<close>

type_synonym time = "nat \<times> nat \<times> nat"

fun valid_time :: "time \<Rightarrow> bool" where
  "valid_time (h, m, s) \<longleftrightarrow> h < 24 \<and> m < 60 \<and> s \<le> 60"

definition two_digits :: "nat \<Rightarrow> string" where
  "two_digits n = [digit_char (n div 10), digit_char (n mod 10)]"

fun strftime :: "time \<Rightarrow> string" where
  "strftime (h, m, s) = two_digits h @ '':'' @ two_digits m @ '':'' @ two_digits s"

text \<open>The text and its terminating zero fit into \<open>time_buf\<close>.\<close>

lemma strftime_length: "length (strftime t) + 1 = 9"
  by (cases t) (simp add: two_digits_def)

definition kGreen :: string where
  "kGreen = CHR 0x1B # ''[32m''"

definition kReset :: string where
  "kReset = CHR 0x1B # ''[0m''"

datatype build = Debug | Release

record call =
  msg :: string
  level :: string
  file_name :: string
  line_no :: nat
  function_name :: string

definition log_text :: "build \<Rightarrow> time \<Rightarrow> call \<Rightarrow> string" where
  "log_text b t c = (case b of
     Debug \<Rightarrow> ''['' @ strftime t @ '']'' @ ''['' @ level c @ '']'' @ ''['' @ base_name (file_name c)
       @ '':'' @ show_nat (line_no c) @ '']'' @ ''['' @ function_name c @ ''] ''
       @ kGreen @ msg c @ kReset @ endl
   | Release \<Rightarrow> msg c @ endl)"

section \<open>Threads that log\<close>

datatype phase = Idle | Writing string

text \<open>Per thread, the calls still to be made and what it is doing.\<close>

record logger =
  mutex :: "nat option"
  threads :: "(call list \<times> phase) list"
  console :: string

definition turn :: "build \<Rightarrow> nat \<Rightarrow> time \<Rightarrow> logger \<Rightarrow> logger option" where
  "turn b k t s = (case threads s ! k of (cs, p) \<Rightarrow> (case p of
       Idle \<Rightarrow> (case cs of [] \<Rightarrow> None
         | c # rest \<Rightarrow> if b = Debug \<and> mutex s \<noteq> None then None
             else Some (s\<lparr>mutex := if b = Debug then Some k else mutex s,
               threads := (threads s)[k := (rest, Writing (log_text b t c))]\<rparr>))
     | Writing text \<Rightarrow> (case text of
         [] \<Rightarrow> Some (s\<lparr>mutex := if b = Debug then None else mutex s, threads := (threads s)[k := (cs, Idle)]\<rparr>)
       | x # xs \<Rightarrow> Some (s\<lparr>console := console s @ [x], threads := (threads s)[k := (cs, Writing xs)]\<rparr>))))"

definition log_step :: "build \<Rightarrow> logger \<Rightarrow> logger \<Rightarrow> bool" where
  "log_step b s u \<longleftrightarrow> (\<exists>k t. k < length (threads s) \<and> valid_time t \<and> turn b k t s = Some u)"

definition logged :: "logger \<Rightarrow> bool" where
  "logged s \<longleftrightarrow> (\<forall>p \<in> set (threads s). p = ([], Idle))"

definition start :: "call list list \<Rightarrow> logger" where
  "start css = \<lparr>mutex = None, threads = map (\<lambda>cs. (cs, Idle)) css, console = []\<rparr>"


section \<open>The file name\<close>

lemma find_last_of_None: "find_last_of x cs = None \<longleftrightarrow> set x \<inter> set cs = {}"
  by (induction x) (auto split: option.splits)

lemma find_last_of_Some:
  "find_last_of x cs = Some n \<longleftrightarrow> n < length x \<and> x ! n \<in> set cs \<and> set (drop (Suc n) x) \<inter> set cs = {}"
proof (induction x arbitrary: n)
  case (Cons c x)
  show ?case
  proof (cases n)
    case 0
    then show ?thesis using find_last_of_None [of x cs] by (auto split: option.splits)
  next
    case (Suc m)
    then show ?thesis using Cons.IH [of m] by (auto split: option.splits)
  qed
qed simp

lemma base_name_path: "set f \<inter> set separators = {} \<Longrightarrow> c \<in> set separators \<Longrightarrow> base_name (d @ c # f) = f"
  using find_last_of_Some [of "d @ c # f" separators "length d"] by (simp add: base_name_def)

lemma base_name_plain: "set f \<inter> set separators = {} \<Longrightarrow> base_name f = f"
  using find_last_of_None [of f separators] by (simp add: base_name_def)

lemma base_name_separators: "set (base_name f) \<inter> set separators = {}"
  using find_last_of_Some [of f separators] find_last_of_None [of f separators]
  by (cases "find_last_of f separators") (auto simp: base_name_def)

section \<open>Debug build: whole lines\<close>

text \<open>The line is the text of the call at some time.\<close>

definition line_of :: "build \<Rightarrow> call \<Rightarrow> string \<Rightarrow> bool" where
  "line_of b c l \<longleftrightarrow> (\<exists>t. valid_time t \<and> l = log_text b t c)"

definition lines_by :: "nat \<Rightarrow> (nat \<times> string) list \<Rightarrow> string list" where
  "lines_by k ls = map snd (filter (\<lambda>p. fst p = k) ls)"

lemma lines_by_simps [simp]:
  "lines_by k [] = []" "lines_by k (ls @ [(j, l)]) = lines_by k ls @ (if j = k then [l] else [])"
  by (simp_all add: lines_by_def)

text \<open>What is left of the line being written.\<close>

definition unwritten :: "logger \<Rightarrow> string" where
  "unwritten s = (case mutex s of None \<Rightarrow> [] | Some k \<Rightarrow> (case snd (threads s ! k) of Idle \<Rightarrow> [] | Writing x \<Rightarrow> x))"

text \<open>The lines begun so far, each with its thread: every thread's are those of its calls in order.\<close>

definition whole_lines :: "call list list \<Rightarrow> logger \<Rightarrow> (nat \<times> string) list \<Rightarrow> bool" where
  "whole_lines css s ls \<longleftrightarrow> console s @ unwritten s = concat (map snd ls) \<and> fst ` set ls \<subseteq> {..<length css}
     \<and> (unwritten s = [] \<or> ls \<noteq> [] \<and> suffix (unwritten s) (snd (last ls)))
     \<and> (\<forall>k < length css. \<exists>done. css ! k = done @ fst (threads s ! k) \<and> list_all2 (line_of Debug) done (lines_by k ls))"

definition log_inv :: "call list list \<Rightarrow> logger \<Rightarrow> bool" where
  "log_inv css s \<longleftrightarrow> length (threads s) = length css \<and> (\<exists>ls. whole_lines css s ls)
     \<and> (\<forall>k < length css. snd (threads s ! k) \<noteq> Idle \<longleftrightarrow> mutex s = Some k) \<and> (\<forall>k. mutex s = Some k \<longrightarrow> k < length css)"

lemma log_invI:
  assumes "length (threads s) = length css" and "whole_lines css s ls"
    and "\<And>k. k < length css \<Longrightarrow> snd (threads s ! k) \<noteq> Idle \<longleftrightarrow> mutex s = Some k"
    and "\<And>k. mutex s = Some k \<Longrightarrow> k < length css"
  shows "log_inv css s"
  using assms unfolding log_inv_def by blast

lemma log_inv_start: "log_inv css (start css)"
  unfolding log_inv_def whole_lines_def
  by (auto simp: start_def unwritten_def intro!: exI [of _ "[]"])

lemma log_inv_turn:
  assumes inv: "log_inv css s" and k: "k < length (threads s)" and t: "valid_time t" and u: "turn Debug k t s = Some u"
  shows "log_inv css u"
proof -
  from inv obtain ls where ls: "whole_lines css s ls" and n: "length (threads s) = length css"
    and owner: "\<And>j. j < length css \<Longrightarrow> snd (threads s ! j) \<noteq> Idle \<longleftrightarrow> mutex s = Some j"
    and mutex: "\<And>j. mutex s = Some j \<Longrightarrow> j < length css" by (auto simp: log_inv_def)
  obtain cs p where p: "threads s ! k = (cs, p)" by fastforce
  show ?thesis
  proof (cases p)
    case Idle
    with u p obtain c rest where c: "cs = c # rest" "mutex s = None"
        and u': "u = s\<lparr>mutex := Some k, threads := (threads s)[k := (rest, Writing (log_text Debug t c))]\<rparr>"
      by (auto simp: turn_def split: list.splits if_splits)
    have "whole_lines css u (ls @ [(k, log_text Debug t c)])"
      unfolding whole_lines_def
    proof (intro conjI allI impI)
      show "console u @ unwritten u = concat (map snd (ls @ [(k, log_text Debug t c)]))"
        using ls c k by (simp add: u' whole_lines_def unwritten_def)
      show "unwritten u = [] \<or> ls @ [(k, log_text Debug t c)] \<noteq> [] \<and> suffix (unwritten u) (snd (last (ls @ [(k, log_text Debug t c)])))"
        using k by (simp add: u' unwritten_def)
      show "fst ` set (ls @ [(k, log_text Debug t c)]) \<subseteq> {..<length css}"
        using ls k n by (simp add: whole_lines_def)
      fix j assume j: "j < length css"
      with ls obtain dn where dn: "css ! j = dn @ fst (threads s ! j)" "list_all2 (line_of Debug) dn (lines_by j ls)"
        by (auto simp: whole_lines_def)
      show "\<exists>dn. css ! j = dn @ fst (threads u ! j) \<and> list_all2 (line_of Debug) dn (lines_by j (ls @ [(k, log_text Debug t c)]))"
      proof (cases "j = k")
        case True
        have "line_of Debug c (log_text Debug t c)" using t unfolding line_of_def by blast
        with dn c p j n True show ?thesis
          by (intro exI [of _ "dn @ [c]"]) (simp add: u' list_all2_appendI)
      next
        case False
        with dn j n show ?thesis by (intro exI [of _ dn]) (simp add: u')
      qed
    qed
    moreover have "snd (threads u ! j) \<noteq> Idle \<longleftrightarrow> mutex u = Some j" if "j < length css" for j
      using owner [OF that] c k n that by (auto simp: u' nth_list_update)
    moreover have "length (threads u) = length css" "\<And>j. mutex u = Some j \<Longrightarrow> j < length css" using k n by (simp_all add: u')
    ultimately show ?thesis by (intro log_invI)
  next
    case (Writing x)
    have own: "mutex s = Some k" using owner [of k] k n p Writing by simp
    define q where "q = (if x = [] then Idle else Writing (tl x))"
    have u': "threads u = (threads s)[k := (cs, q)]" and v: "console u @ unwritten u = console s @ unwritten s"
        "q = Idle \<longleftrightarrow> mutex u \<noteq> Some k" "mutex u = None \<or> mutex u = mutex s" "unwritten u = tl (unwritten s)"
      using u p Writing own k by (cases x; force simp: turn_def unwritten_def q_def)+
    have "fst (threads u ! j) = fst (threads s ! j)" for j using p k by (cases "j = k") (auto simp: u')
    moreover have "suffix (tl y) z" if "suffix y z" for y z :: string
      using that by (cases y) (auto simp: suffix_ConsD)
    ultimately have "whole_lines css u ls" using ls v(1,4) unfolding whole_lines_def by (auto simp: v(1))
    moreover have "snd (threads u ! j) \<noteq> Idle \<longleftrightarrow> mutex u = Some j" if "j < length css" for j
      using owner [OF that] own v k n that by (cases "j = k") (auto simp: u')
    moreover have "length (threads u) = length css" "\<And>j. mutex u = Some j \<Longrightarrow> j < length css" using n v(3) mutex by (auto simp: u')
    ultimately show ?thesis by (intro log_invI)
  qed
qed

lemma log_inv_step: "log_inv css s \<Longrightarrow> log_step Debug s u \<Longrightarrow> log_inv css u"
  using log_inv_turn by (auto simp: log_step_def)

section \<open>Every thread can finish\<close>

lemma log_text_length: "length (log_text b t c) = length (log_text b (0, 0, 0) c)"
  using strftime_length [of t] strftime_length [of "(0, 0, 0)"] by (simp add: log_text_def split: build.splits)

fun phase_left :: "phase \<Rightarrow> nat" where
  "phase_left Idle = 0"
| "phase_left (Writing x) = Suc (length x)"

definition call_left :: "build \<Rightarrow> call \<Rightarrow> nat" where
  "call_left b c = length (log_text b (0, 0, 0) c) + 2"

definition thread_left :: "build \<Rightarrow> call list \<times> phase \<Rightarrow> nat" where
  "thread_left b p = (\<Sum>c \<leftarrow> fst p. call_left b c) + phase_left (snd p)"

definition log_left :: "build \<Rightarrow> logger \<Rightarrow> nat" where
  "log_left b s = (\<Sum>p \<leftarrow> threads s. thread_left b p)"

lemma turn_thread:
  assumes "k < length (threads s)" and "turn b k t s = Some u"
  shows "threads u = (threads s)[k := threads u ! k]" and "thread_left b (threads u ! k) < thread_left b (threads s ! k)"
  using assms log_text_length [of b t]
  by (auto simp: turn_def thread_left_def call_left_def split: prod.splits phase.splits list.splits if_splits)

lemma sum_list_decrease:
  "k < length xs \<Longrightarrow> f y < f (xs ! k) \<Longrightarrow> (\<Sum>x \<leftarrow> xs[k := y]. f x) < ((\<Sum>x \<leftarrow> xs. f x) :: nat)"
proof (induction xs arbitrary: k)
  case (Cons x xs)
  then show ?case by (cases k) simp_all
qed simp

lemma log_step_left: "log_step b s u \<Longrightarrow> log_left b u < log_left b s"
proof -
  assume "log_step b s u"
  then obtain k t where k: "k < length (threads s)" and u: "turn b k t s = Some u" by (auto simp: log_step_def)
  from sum_list_decrease [OF k, of "thread_left b", OF turn_thread(2) [OF k u]] turn_thread(1) [OF k u]
  show ?thesis unfolding log_left_def by simp
qed

lemma log_stepI: "k < length (threads s) \<Longrightarrow> turn b k (0, 0, 0) s = Some u \<Longrightarrow> log_step b s u"
  unfolding log_step_def by (metis valid_time.simps zero_less_numeral le0)

lemma log_possible:
  assumes inv: "log_inv css s" and "\<not> logged s"
  shows "\<exists>u. log_step Debug s u"
proof -
  obtain p where "p \<in> set (threads s)" "p \<noteq> ([], Idle)" using assms(2) unfolding logged_def by blast
  then obtain k where k: "k < length (threads s)" "threads s ! k \<noteq> ([], Idle)" by (metis in_set_conv_nth)
  have owner: "snd (threads s ! j) \<noteq> Idle \<longleftrightarrow> mutex s = Some j" if "j < length (threads s)" for j
    using inv that by (simp add: log_inv_def)
  show ?thesis
  proof (cases "mutex s")
    case None
    with owner [OF k(1)] k(2) obtain c rest where "threads s ! k = (c # rest, Idle)"
      by (cases "threads s ! k"; cases "fst (threads s ! k)") auto
    with None have "turn Debug k (0, 0, 0) s \<noteq> None" by (simp add: turn_def)
    with k(1) show ?thesis using log_stepI by blast
  next
    case (Some j)
    then have j: "j < length (threads s)" using inv by (simp add: log_inv_def)
    with owner [OF j] Some obtain cs x where "threads s ! j = (cs, Writing x)"
      by (cases "threads s ! j"; cases "snd (threads s ! j)") auto
    then have "turn Debug j (0, 0, 0) s \<noteq> None" by (simp add: turn_def split: list.splits)
    with j show ?thesis using log_stepI by blast
  qed
qed

interpretation log_threads: ending "log_step Debug" "log_inv css" logged "log_left Debug" for css
proof
  show "log_inv css s \<Longrightarrow> log_step Debug s u \<Longrightarrow> log_inv css u" for s u by (rule log_inv_step)
  show "log_inv css s \<Longrightarrow> \<not> logged s \<Longrightarrow> \<exists>u. log_step Debug s u \<and> log_left Debug u < log_left Debug s" for s
    using log_possible log_step_left by blast
  show "log_inv css s \<Longrightarrow> log_step Debug s u \<Longrightarrow> log_left Debug u < log_left Debug s" for s u by (rule log_step_left)
qed

lemma log_inv_run: "(log_step Debug)\<^sup>*\<^sup>* (start css) s \<Longrightarrow> log_inv css s"
  using log_threads.inv_run log_inv_start by blast

lemma logged_unwritten: "log_inv css s \<Longrightarrow> logged s \<Longrightarrow> unwritten s = []"
  unfolding unwritten_def log_inv_def logged_def by (auto split: option.splits phase.splits) (metis nth_mem phase.distinct(1) snd_conv)

text \<open>
  C4.  In the debug build, however the threads interleave: the console is a sequence of whole lines but
  for the end of the last one, the lines of each thread are those of its calls so far, in order, each
  with a time, and when all threads have made their calls every line is complete.
\<close>

theorem logger_whole_lines:
  assumes "(log_step Debug)\<^sup>*\<^sup>* (start css) s"
  shows "\<exists>ls rest. console s @ rest = concat (map snd ls) \<and> (rest = [] \<or> ls \<noteq> [] \<and> suffix rest (snd (last ls)))
    \<and> (logged s \<longrightarrow> rest = []) \<and> fst ` set ls \<subseteq> {..<length css}
    \<and> (\<forall>k < length css. \<exists>done. css ! k = done @ fst (threads s ! k) \<and> list_all2 (line_of Debug) done (lines_by k ls))"
proof -
  have inv: "log_inv css s" using assms by (rule log_inv_run)
  then obtain ls where "whole_lines css s ls" by (auto simp: log_inv_def)
  then show ?thesis using logged_unwritten [OF inv] unfolding whole_lines_def by blast
qed

text \<open>
  In the debug build every run of the threads ends, and from every state that can be reached all
  calls can be completed.
\<close>

theorem logger_finishes:
  assumes "(log_step Debug)\<^sup>*\<^sup>* (start css) s"
  shows "(\<exists>u. (log_step Debug)\<^sup>*\<^sup>* s u \<and> logged u) \<and> (\<forall>n u. (log_step Debug ^^ n) s u \<longrightarrow> n \<le> log_left Debug s)"
  using log_threads.never_stuck [OF assms log_inv_start] log_threads.run_length [OF _ log_inv_run [OF assms]] by fastforce

section \<open>Release build: lines mix\<close>

lemma log_step_turn: "k < length (threads s) \<Longrightarrow> turn b k (0, 0, 0) s = Some u \<Longrightarrow> (log_step b)\<^sup>*\<^sup>* u v \<Longrightarrow> (log_step b)\<^sup>*\<^sup>* s v"
  using log_stepI converse_rtranclp_into_rtranclp [of "log_step b" s u v] by blast

lemma write_some:
  assumes "k < length (threads s)" and "threads s ! k = (cs, Writing (x @ y))"
    and "(log_step b)\<^sup>*\<^sup>* (s\<lparr>console := console s @ x, threads := (threads s)[k := (cs, Writing y)]\<rparr>) v"
  shows "(log_step b)\<^sup>*\<^sup>* s v"
  using assms
proof (induction x arbitrary: s)
  case Nil
  then have "s\<lparr>console := console s @ [], threads := (threads s)[k := (cs, Writing y)]\<rparr> = s"
    by (cases s) (simp add: list_update_same_conv)
  with Nil show ?case by simp
next
  case (Cons c x)
  let ?u = "s\<lparr>console := console s @ [c], threads := (threads s)[k := (cs, Writing (x @ y))]\<rparr>"
  have u: "(log_step b)\<^sup>*\<^sup>* ?u v" by (rule Cons.IH) (use Cons.prems in simp_all)
  have "turn b k (0, 0, 0) s = Some ?u" using Cons.prems(2) by (simp add: turn_def)
  from log_step_turn [OF Cons.prems(1) this u] show ?case .
qed

text \<open>
  In the release build two threads that log at the same time can write both texts on one line,
  followed by an empty line: neither order of the two lines is what is printed.
\<close>

theorem release_lines_mix:
  assumes "msg c \<noteq> []" and "msg d \<noteq> []" and "CHR 0x0A \<notin> set (msg c) \<union> set (msg d)"
  shows "\<exists>s. (log_step Release)\<^sup>*\<^sup>* (start [[c], [d]]) s \<and> logged s \<and> console s = msg c @ msg d @ endl @ endl
    \<and> console s \<noteq> log_text Release t c @ log_text Release t d \<and> console s \<noteq> log_text Release t d @ log_text Release t c"
proof -
  let ?u = "\<lparr>mutex = None, threads = [([], Idle), ([], Idle)], console = msg c @ msg d @ endl @ endl\<rparr>"
  have reached: "(log_step Release)\<^sup>*\<^sup>* (start [[c], [d]]) ?u"
    apply (rule log_step_turn [of 0], simp add: start_def, simp add: start_def turn_def log_text_def)
    apply (rule write_some [of 0 _ "[]" "msg c" endl], simp, simp)
    apply (rule log_step_turn [of 1], simp, simp add: turn_def log_text_def)
    apply (rule write_some [of 1 _ "[]" "msg d" endl], simp, simp)
    apply (rule write_some [of 0 _ "[]" endl "[]"], simp, simp)
    apply (rule write_some [of 1 _ "[]" endl "[]"], simp, simp)
    apply (rule log_step_turn [of 0], simp, simp add: turn_def)
    apply (rule log_step_turn [of 1], simp, simp add: turn_def)
    apply simp
    done
  have first: "takeWhile ((\<noteq>) (CHR 0x0A)) (x @ endl @ z) = x" if "CHR 0x0A \<notin> set x" for x z
    using that by (induction x) (auto simp: endl_def)
  let ?w = "takeWhile ((\<noteq>) (CHR 0x0A))"
  have "?w (msg c @ msg d @ endl @ endl) = msg c @ msg d" "?w (log_text Release t c @ log_text Release t d) = msg c"
      "?w (log_text Release t d @ log_text Release t c) = msg d"
    using assms(3) first [of "msg c @ msg d" endl] first [of "msg c"] first [of "msg d"] by (simp_all add: log_text_def)
  then have "msg c @ msg d @ endl @ endl \<noteq> log_text Release t c @ log_text Release t d"
      "msg c @ msg d @ endl @ endl \<noteq> log_text Release t d @ log_text Release t c"
    using assms(1,2) by (metis append_self_conv, metis append_self_conv2)
  with reached show ?thesis by (intro exI [of _ ?u]) (simp add: logged_def)
qed

section \<open>Examples\<close>

definition demo_call :: "string \<Rightarrow> call" where
  "demo_call x = \<lparr>msg = x, level = ''INFO'', file_name = ''/lab/src/main.cpp'', line_no = 7, function_name = ''run''\<rparr>"

theorem release_lines_mix_witness:
  "\<exists>s. (log_step Release)\<^sup>*\<^sup>* (start [[demo_call ''ab''], [demo_call ''cd'']]) s \<and> console s = ''abcd'' @ endl @ endl"
proof -
  have "msg (demo_call ''ab'') = ''ab''" "msg (demo_call ''cd'') = ''cd''" by (simp_all add: demo_call_def)
  with release_lines_mix [of "demo_call ''ab''" "demo_call ''cd''" "(0, 0, 0)"] show ?thesis by auto
qed

text \<open>A run of two threads up to the first character of a line.\<close>

definition demo_run :: logger where
  "demo_run = \<lparr>mutex = Some 1, threads = [([demo_call ''ab''], Idle), ([], Writing (tl (log_text Debug (0, 0, 0) (demo_call ''cd''))))],
     console = ''[''\<rparr>"

lemma demo_run_reached: "(log_step Debug)\<^sup>*\<^sup>* (start [[demo_call ''ab''], [demo_call ''cd'']]) demo_run"
  apply (rule log_step_turn [of 1], simp add: start_def, simp add: start_def turn_def)
  apply (rule log_step_turn [of 1], simp, simp add: turn_def log_text_def)
  apply (simp add: demo_run_def log_text_def)
  done

theorem logger_whole_lines_witness:
  "\<exists>ls rest. ''['' @ rest = concat (map snd ls) \<and> (\<exists>dn. [demo_call ''cd''] = dn \<and> list_all2 (line_of Debug) dn (lines_by 1 ls))"
proof -
  from logger_whole_lines [OF demo_run_reached] obtain ls rest where
    ls: "console demo_run @ rest = concat (map snd ls)"
    and each: "\<forall>k < length [[demo_call ''ab''], [demo_call ''cd'']]. \<exists>done. [[demo_call ''ab''], [demo_call ''cd'']] ! k
      = done @ fst (threads demo_run ! k) \<and> list_all2 (line_of Debug) done (lines_by k ls)" by blast
  from each [rule_format, of 1] have "\<exists>dn. [demo_call ''cd''] = dn \<and> list_all2 (line_of Debug) dn (lines_by 1 ls)"
    by (simp add: demo_run_def)
  moreover from ls have "''['' @ rest = concat (map snd ls)" by (simp add: demo_run_def)
  ultimately show ?thesis by blast
qed

theorem logger_finishes_witness: "\<exists>u. (log_step Debug)\<^sup>*\<^sup>* demo_run u \<and> logged u"
  using logger_finishes [OF demo_run_reached] by blast

end
