(* ===== verification/StdStrings.thy ===== *)
theory StdStrings
  imports MainMenu
begin

text \<open>
  \<open>src/core/string/StdString.cpp\<close> and \<open>StringFormatting.cpp\<close>: the operations of \<open>std::string\<close> they use, as
  functions on texts whose positions are numbers of type \<open>size_t\<close>, with the exceptions for positions
  out of range; the loop over \<open>std::getline\<close>; four ways to format a text.  Numbers of type \<open>double\<close>
  and their printing are parameters.

  Lemmas: \<open>npos\<close> makes the trimming of a blank text work; searching and cutting; the items of a
  line; numbers are read back; the ways to format agree.
\<close>

section \<open>Operations\<close>

text \<open>No string is as long as the greatest number of type \<open>size_t\<close>; adding to it wraps.\<close>

definition npos :: nat where
  "npos = 2 ^ 64 - 1"

definition size_t_add :: "nat \<Rightarrow> nat \<Rightarrow> nat" where
  "size_t_add m n = (m + n) mod 2 ^ 64"

definition insert_at :: "nat \<Rightarrow> string \<Rightarrow> string \<Rightarrow> ('s, string) prog" where
  "insert_at pos y x = (if length x < pos then throw ''out_of_range'' else ret (take pos x @ y @ drop pos x))"

definition erase :: "nat \<Rightarrow> nat \<Rightarrow> string \<Rightarrow> ('s, string) prog" where
  "erase pos n x = (if length x < pos then throw ''out_of_range'' else ret (take pos x @ drop (pos + n) x))"

definition replace_at :: "nat \<Rightarrow> nat \<Rightarrow> string \<Rightarrow> string \<Rightarrow> ('s, string) prog" where
  "replace_at pos n y x = (if length x < pos then throw ''out_of_range'' else ret (take pos x @ y @ drop (pos + n) x))"

definition substr :: "nat \<Rightarrow> nat \<Rightarrow> string \<Rightarrow> ('s, string) prog" where
  "substr pos n x = (if length x < pos then throw ''out_of_range'' else ret (take n (drop pos x)))"

text \<open>\<open>std::remove\<close> followed by \<open>erase\<close> up to the end.\<close>

definition erase_char :: "char \<Rightarrow> string \<Rightarrow> string" where
  "erase_char c x = filter (\<lambda>d. d \<noteq> c) x"

definition tolower :: "char \<Rightarrow> char" where
  "tolower c = (if of_char c \<in> {65 .. 90 :: nat} then char_of (of_char c + 32 :: nat) else c)"

definition toupper :: "char \<Rightarrow> char" where
  "toupper c = (if of_char c \<in> {97 .. 122 :: nat} then char_of (of_char c - 32 :: nat) else c)"

fun find_if_from :: "nat \<Rightarrow> (string \<Rightarrow> bool) \<Rightarrow> string \<Rightarrow> nat option" where
  "find_if_from i p [] = (if p [] then Some i else None)"
| "find_if_from i p (c # x) = (if p (c # x) then Some i else find_if_from (Suc i) p x)"

definition or_npos :: "nat option \<Rightarrow> nat" where
  "or_npos r = (case r of None \<Rightarrow> npos | Some i \<Rightarrow> i)"

text \<open>\<open>find\<close> of a text, and of a character; \<open>rfind\<close> of a character.\<close>

definition find_text :: "string \<Rightarrow> string \<Rightarrow> nat" where
  "find_text y x = or_npos (find_if_from 0 (prefix y) x)"

fun last_index :: "(char \<Rightarrow> bool) \<Rightarrow> string \<Rightarrow> nat option" where
  "last_index p [] = None"
| "last_index p (c # x) = (case last_index p x of Some i \<Rightarrow> Some (Suc i) | None \<Rightarrow> if p c then Some 0 else None)"

definition rfind :: "char \<Rightarrow> string \<Rightarrow> nat" where
  "rfind c x = or_npos (last_index (\<lambda>d. d = c) x)"

definition find_first_not_of :: "string \<Rightarrow> string \<Rightarrow> nat" where
  "find_first_not_of cs x = or_npos (find_if_from 0 (\<lambda>y. y \<noteq> [] \<and> hd y \<notin> set cs) x)"

definition find_last_not_of :: "string \<Rightarrow> string \<Rightarrow> nat" where
  "find_last_not_of cs x = or_npos (last_index (\<lambda>d. d \<notin> set cs) x)"

text \<open>\<open>compare\<close>: only the sign of a nonzero result is specified; \<open>diff\<close> gives it for two different texts.\<close>

definition compare :: "(string \<Rightarrow> string \<Rightarrow> int) \<Rightarrow> string \<Rightarrow> string \<Rightarrow> int" where
  "compare diff x y = (if x = y then 0 else diff x y)"

text \<open>\<open>std::stoi\<close>.\<close>

definition stoi :: "string \<Rightarrow> ('s, int) prog" where
  "stoi x = (let (neg, rest) = sign (dropWhile is_space x); ds = takeWhile is_digit rest;
        v = (if neg then - int (read_nat ds) else int (read_nat ds))
     in if ds = [] then throw ''invalid_argument'' else if int32 v then ret v else throw ''out_of_range'')"

text \<open>\<open>std::getline\<close> with a delimiter: the item and what is left, or nothing at the end.\<close>

definition get_item :: "char \<Rightarrow> string \<Rightarrow> (string \<times> string) option" where
  "get_item d x = (if x = [] then None
     else Some (takeWhile (\<lambda>c. c \<noteq> d) x, tl (dropWhile (\<lambda>c. c \<noteq> d) x)))"

lemma get_item_shorter: "get_item d x = Some (y, z) \<Longrightarrow> length z < length x"
proof -
  assume "get_item d x = Some (y, z)"
  then have "x \<noteq> []" "z = tl (dropWhile (\<lambda>c. c \<noteq> d) x)" by (auto simp: get_item_def split: if_splits)
  with length_dropWhile_le [of "\<lambda>c. c \<noteq> d" x] show ?thesis
    by (cases "dropWhile (\<lambda>c. c \<noteq> d) x") auto
qed

function log_items :: "char \<Rightarrow> string \<Rightarrow> ('o world, unit) prog" where
  "log_items d x = (case get_item d x of None \<Rightarrow> ret ()
     | Some (item, rest) \<Rightarrow> seq (LOG_S (''token = '' @ item)) (\<lambda>_. log_items d rest))"
  by pat_completeness auto
termination
  by (relation "measure (\<lambda>(d, x). length x)") (auto simp: get_item_shorter)

declare log_items.simps [simp del]

section \<open>\<open>StdString.cpp\<close>\<close>

definition boolalpha :: "bool \<Rightarrow> string" where
  "boolalpha b = (if b then ''true'' else ''false'')"

definition log_string_info :: "string \<Rightarrow> string \<Rightarrow> ('o world, unit) prog" where
  "log_string_info label str = LOG_S (label @ '': '' @ dq @ str @ dq @ '' | size='' @ show_nat (length str)
     @ '' | empty='' @ boolalpha (str = []))"

definition create_run :: "('o world, unit) prog" where
  "create_run = block [LOG ''=== create ==='',
     log_string_info ''s1'' ''string 1'',
     log_string_info ''s2'' ''string 2'',
     log_string_info ''s3'' (replicate 5 (CHR ''s'')),
     log_string_info ''s4'' (''First '' @ ''Second''),
     log_string_info ''s5'' (''C:'' @ [CHR 0x5C] @ ''folder'' @ [CHR 0x5C] @ ''file.txt'')]"

definition blanks :: string where
  "blanks = [CHR '' '', CHR 0x09, CHR 0x0A, CHR 0x0D]"

definition trim_first :: "string \<Rightarrow> ('s, string) prog" where
  "trim_first str = erase 0 (find_first_not_of blanks str) str"

definition trim_last :: "string \<Rightarrow> ('s, string) prog" where
  "trim_last str = erase (size_t_add (find_last_not_of blanks str) 1) npos str"

definition modify_run :: "('o world, unit) prog" where
  "modify_run = seq (LOG ''=== modify ==='') (\<lambda>_. let str = ''xPhong'' in
     seq (log_string_info ''init'' str) (\<lambda>_. let str = str @ ''Nguyen'' in
     seq (log_string_info ''append'' str) (\<lambda>_. seq (insert_at 6 ''Vanxx'' str) (\<lambda>str.
     seq (log_string_info ''insert'' str) (\<lambda>_. seq (erase 9 2 str) (\<lambda>str.
     seq (log_string_info ''erase'' str) (\<lambda>_. let str = erase_char (CHR ''O'') str in
     seq (log_string_info (''erase '' @ [CHR 0x27] @ ''O'' @ [CHR 0x27]) str) (\<lambda>_. seq (replace_at 0 1 ''My name is '' str) (\<lambda>str.
     seq (log_string_info ''replace'' str) (\<lambda>_. let str = map tolower str in
     seq (log_string_info ''tolower'' str) (\<lambda>_. let str = map toupper str in
     seq (log_string_info ''toupper'' str) (\<lambda>_. let str = ''   Hello World   '' in
     seq (log_string_info ''before trim'' str) (\<lambda>_. seq (trim_first str) (\<lambda>str.
     seq (log_string_info ''trim first'' str) (\<lambda>_. seq (trim_last str) (\<lambda>str.
     log_string_info ''trim last'' str))))))))))))))))"

definition sub_run :: "('o world, unit) prog" where
  "sub_run = seq (LOG ''=== sub ==='') (\<lambda>_. let str = ''PhongNguyen'' in
     seq (log_string_info ''init'' str) (\<lambda>_. seq (substr 0 5 str) (\<lambda>first_name.
     log_string_info ''substr'' first_name)))"

definition quote :: string where
  "quote = [CHR 0x27]"

definition search_run :: "string \<Rightarrow> ('o world, unit) prog" where
  "search_run str = seq (LOG ''=== search ==='') (\<lambda>_. seq (log_string_info ''init'' str) (\<lambda>_.
     let pos = find_text ''N'' str in
     seq (if pos \<noteq> npos
       then seq (substr pos npos str) (\<lambda>last_name. LOG_S (''find('' @ quote @ ''N'' @ quote @ '') | pos='' @ show_nat pos
         @ '' | result='' @ dq @ last_name @ dq))
       else ret ()) (\<lambda>_.
     let pos = find_text ''ong'' str in
     seq (if pos \<noteq> npos then LOG_S (''find('' @ dq @ ''ong'' @ dq @ '') | pos='' @ show_nat pos) else ret ()) (\<lambda>_.
     let pos = rfind (CHR ''n'') str in
     if pos \<noteq> npos then LOG_S (''rfind('' @ quote @ ''n'' @ quote @ '') | pos='' @ show_nat pos) else ret ()))))"

definition compare_run :: "(string \<Rightarrow> string \<Rightarrow> int) \<Rightarrow> string \<Rightarrow> string \<Rightarrow> ('o world, unit) prog" where
  "compare_run diff str1 str2 = seq (LOG ''=== compare ==='') (\<lambda>_. let result = compare diff str1 str2 in
     seq (LOG_S (''compare result = '' @ show_int result)) (\<lambda>_. LOG_S (''equal = '' @ boolalpha (result = 0))))"

text \<open>\<open>std::stod\<close> and the printing with four digits are given.\<close>

definition convert_run :: "(string \<Rightarrow> 'd) \<Rightarrow> ('d \<Rightarrow> string) \<Rightarrow> ('o world, unit) prog" where
  "convert_run stod show4 = seq (LOG ''=== convert ==='') (\<lambda>_.
     seq (stoi ''3'') (\<lambda>ivalue. seq (LOG_S (''stoi('' @ dq @ ''3'' @ dq @ '') = '' @ show_int ivalue)) (\<lambda>_.
     seq (LOG_S (''stod('' @ dq @ ''3.3'' @ dq @ '') = '' @ show4 (stod ''3.3''))) (\<lambda>_.
     log_string_info ''to_string'' (show_int 999)))))"

definition parsing_run :: "string \<Rightarrow> ('o world, unit) prog" where
  "parsing_run line = block [LOG ''=== parsing ==='', log_string_info ''init'' line,
     LOG_S (''Parsing with delimiter '' @ quote @ '','' @ quote), log_items (CHR '','') line]"

definition std_string_run :: "(string \<Rightarrow> string \<Rightarrow> int) \<Rightarrow> (string \<Rightarrow> 'd) \<Rightarrow> ('d \<Rightarrow> string) \<Rightarrow> ('o world, unit) prog" where
  "std_string_run diff stod show4 = block [create_run, modify_run, sub_run, search_run ''PhongNguyen'',
     compare_run diff ''PhongNguyen'' ''PhongNguyen'', convert_run stod show4, parsing_run ''a,b,c'']"


section \<open>\<open>StringFormatting.cpp\<close>\<close>

text \<open>Arguments; \<open>fixed fp n x\<close> prints \<open>x\<close> with \<open>n\<close> digits after the point.\<close>

datatype 'd farg = Str string | IntArg int | Dbl 'd

text \<open>\<open>std::format\<close>: the text of an argument and the length of its field, after the brace.\<close>

definition format_field :: "(nat \<Rightarrow> 'd \<Rightarrow> string) \<Rightarrow> string \<Rightarrow> 'd farg \<Rightarrow> (string \<times> nat) option" where
  "format_field fixed r a = (if prefix ''}'' r then (case a of Str x \<Rightarrow> Some (x, 1) | IntArg i \<Rightarrow> Some (show_int i, 1) | Dbl d \<Rightarrow> None)
     else if prefix '':.2f}'' r then (case a of Dbl d \<Rightarrow> Some (fixed 2 d, 5) | _ \<Rightarrow> None)
     else None)"

text \<open>\<open>snprintf\<close>: likewise, after the percent sign.\<close>

definition printf_field :: "(nat \<Rightarrow> 'd \<Rightarrow> string) \<Rightarrow> string \<Rightarrow> 'd farg \<Rightarrow> (string \<times> nat) option" where
  "printf_field fixed r a = (case a of Str x \<Rightarrow> if prefix ''s'' r then Some (x, 1) else None
     | IntArg i \<Rightarrow> if prefix ''d'' r then Some (show_int i, 1) else None
     | Dbl d \<Rightarrow> if prefix ''.2f'' r then Some (fixed 2 d, 3) else None)"

fun expand :: "char \<Rightarrow> (string \<Rightarrow> 'd farg \<Rightarrow> (string \<times> nat) option) \<Rightarrow> string \<Rightarrow> 'd farg list \<Rightarrow> string option" where
  "expand mark field [] args = Some []"
| "expand mark field (c # r) args =
     (if c \<noteq> mark then map_option ((#) c) (expand mark field r args)
      else case args of [] \<Rightarrow> None
        | a # rest \<Rightarrow> (case field r a of None \<Rightarrow> None
            | Some (text, n) \<Rightarrow> map_option ((@) text) (expand mark field (drop n r) rest)))"

definition std_format :: "(nat \<Rightarrow> 'd \<Rightarrow> string) \<Rightarrow> string \<Rightarrow> 'd farg list \<Rightarrow> string option" where
  "std_format fixed = expand (CHR ''{'') (format_field fixed)"

text \<open>\<open>snprintf\<close> into a buffer: what fits before the terminating zero.\<close>

definition snprintf :: "nat \<Rightarrow> (nat \<Rightarrow> 'd \<Rightarrow> string) \<Rightarrow> string \<Rightarrow> 'd farg list \<Rightarrow> string option" where
  "snprintf n fixed fmt args = map_option (take (n - 1)) (expand (CHR ''%'') (printf_field fixed) fmt args)"

definition log_formatted :: "string \<Rightarrow> string \<Rightarrow> ('o world, unit) prog" where
  "log_formatted method text = LOG_S (method @ '': '' @ dq @ text @ dq @ '' | size='' @ show_nat (length text))"

text \<open>The locals \<open>name\<close> (here \<open>user\<close>) and \<open>score\<close> and the number are arguments here; \<open>run\<close> calls them with its values.  A
  format that does not fit its arguments does not compile, or is undefined.\<close>

definition formatted :: "string option \<Rightarrow> ('s, string) prog" where
  "formatted r = (case r of None \<Rightarrow> undef WrongType | Some x \<Rightarrow> ret x)"

definition std_format_run :: "(nat \<Rightarrow> 'd \<Rightarrow> string) \<Rightarrow> string \<Rightarrow> int \<Rightarrow> 'd \<Rightarrow> ('o world, unit) prog" where
  "std_format_run fixed user score pi = seq (LOG ''=== std_format ==='') (\<lambda>_.
     seq (formatted (std_format fixed ''User {} has {} points, Pi: {:.2f}'' [Str user, IntArg score, Dbl pi]))
       (log_formatted ''std::format''))"

definition concatenation_run :: "(nat \<Rightarrow> 'd \<Rightarrow> string) \<Rightarrow> string \<Rightarrow> int \<Rightarrow> 'd \<Rightarrow> ('o world, unit) prog" where
  "concatenation_run fixed user score pi = block [LOG ''=== concatenation ==='',
     log_formatted ''concatenation'' (''User '' @ user @ '' has '' @ show_int score @ '' points, Pi: '' @ fixed 6 pi)]"

definition stream_run :: "(nat \<Rightarrow> 'd \<Rightarrow> string) \<Rightarrow> string \<Rightarrow> int \<Rightarrow> 'd \<Rightarrow> ('o world, unit) prog" where
  "stream_run fixed user score pi = block [LOG ''=== stream ==='',
     log_formatted ''stringstream'' (''User '' @ user @ '' has '' @ show_int score @ '' points, Pi: '' @ fixed 2 pi)]"

definition c_style_run :: "(nat \<Rightarrow> 'd \<Rightarrow> string) \<Rightarrow> string \<Rightarrow> int \<Rightarrow> 'd \<Rightarrow> ('o world, unit) prog" where
  "c_style_run fixed user score pi = seq (LOG ''=== c_style ==='') (\<lambda>_.
     seq (formatted (snprintf 128 fixed ''User %s has %d points, Pi: %.2f'' [Str user, IntArg score, Dbl pi]))
       (log_formatted ''snprintf''))"

definition string_formatting_run :: "(nat \<Rightarrow> 'd \<Rightarrow> string) \<Rightarrow> 'd \<Rightarrow> ('o world, unit) prog" where
  "string_formatting_run fixed pi = block [std_format_run fixed ''Phong'' 100 pi, concatenation_run fixed ''Phong'' 100 pi,
     stream_run fixed ''Phong'' 100 pi, c_style_run fixed ''Phong'' 100 pi]"


section \<open>Searching and cutting\<close>

lemma find_if_from_Some:
  "find_if_from i p x = Some n \<longleftrightarrow> i \<le> n \<and> n - i \<le> length x \<and> p (drop (n - i) x) \<and> (\<forall>m < n - i. \<not> p (drop m x))"
proof (induction i p x rule: find_if_from.induct)
  case (2 i p c x)
  show ?case
  proof (cases "p (c # x)")
    case False
    show ?thesis
    proof (cases "i < n")
      case True
      then have n: "n - i = Suc (n - Suc i)" by simp
      have "(\<forall>m < Suc (n - Suc i). \<not> p (drop m (c # x))) \<longleftrightarrow> (\<forall>m < n - Suc i. \<not> p (drop m x))"
        using False by (simp add: All_less_Suc2)
      with 2 False True show ?thesis unfolding n by simp
    qed (use 2 False in auto)
  next
    case True
    then show ?thesis by (auto simp: le_less) (metis drop0 zero_less_diff)
  qed
qed auto

lemma find_if_from_None: "find_if_from i p x = None \<longleftrightarrow> (\<forall>m < Suc (length x). \<not> p (drop m x))"
  by (induction i p x rule: find_if_from.induct) (simp_all add: All_less_Suc2)

lemma find_if_from_first: "find_if_from i (\<lambda>y. y \<noteq> [] \<and> \<not> q (hd y)) x =
    (if list_all q x then None else Some (i + length (takeWhile q x)))"
  by (induction x arbitrary: i) auto

lemma last_index_snoc: "last_index p (x @ [c]) = (if p c then Some (length x) else last_index p x)"
  by (induction x) (auto split: option.splits)

lemma last_index_length:
  "(case last_index p x of None \<Rightarrow> 0 | Some i \<Rightarrow> Suc i) = length (dropWhile (\<lambda>c. \<not> p c) (rev x))"
  by (induction x rule: rev_induct) (simp_all add: last_index_snoc)

lemma last_index_less: "last_index p x = Some i \<Longrightarrow> i < length x"
  by (induction x arbitrary: i) (auto split: option.splits if_splits)

lemma rev_dropWhile_take: "rev (dropWhile q (rev x)) = take (length (dropWhile q (rev x))) x"
  by (metis dropWhile_eq_drop length_drop length_rev rev_drop rev_swap)

definition stripped :: "string \<Rightarrow> string" where
  "stripped x = rev (dropWhile (\<lambda>c. c \<in> set blanks) (rev (dropWhile (\<lambda>c. c \<in> set blanks) x)))"

lemma trim_first_drop:
  assumes "length x \<le> npos"
  shows "trim_first x = ret (dropWhile (\<lambda>c. c \<in> set blanks) x)"
proof (cases "list_all (\<lambda>c. c \<in> set blanks) x")
  case True
  then have none: "dropWhile (\<lambda>c. c \<in> set blanks) x = []" by (simp add: list_all_iff)
  show ?thesis
    unfolding none using True assms find_if_from_first [of 0 "\<lambda>c. c \<in> set blanks" x]
    by (simp add: trim_first_def erase_def find_first_not_of_def or_npos_def)
next
  case False
  with find_if_from_first [of 0 "\<lambda>c. c \<in> set blanks" x] dropWhile_eq_drop [of "\<lambda>c. c \<in> set blanks" x] show ?thesis
    by (simp add: trim_first_def erase_def find_first_not_of_def or_npos_def)
qed

lemma trim_last_drop:
  assumes "length x < npos"
  shows "trim_last x = ret (rev (dropWhile (\<lambda>c. c \<in> set blanks) (rev x)))"
proof -
  let ?k = "case last_index (\<lambda>c. c \<notin> set blanks) x of None \<Rightarrow> 0 | Some i \<Rightarrow> Suc i"
  have "size_t_add (find_last_not_of blanks x) 1 = ?k"
    using last_index_less [of "\<lambda>c. c \<notin> set blanks" x] assms
    by (auto simp: size_t_add_def find_last_not_of_def or_npos_def npos_def split: option.split)
  moreover have "?k = length (dropWhile (\<lambda>c. c \<in> set blanks) (rev x))" using last_index_length by simp
  moreover have "length (dropWhile (\<lambda>c. c \<in> set blanks) (rev x)) \<le> length x" by (metis length_dropWhile_le length_rev)
  ultimately show ?thesis
    using assms rev_dropWhile_take [of "\<lambda>c. c \<in> set blanks" x] by (simp add: trim_last_def erase_def not_less)
qed

text \<open>
  C33.  Trimming any text, also a blank or an empty one, removes exactly the blanks at both ends, and no
  exception is thrown: where nothing is found, \<open>npos\<close> erases everything from the front, and one more than
  \<open>npos\<close> wraps to position 0 at the end.
\<close>

theorem trim_any:
  assumes "length x < npos"
  shows "seq (trim_first x) trim_last = ret (stripped x)
    \<and> (\<exists>a b. x = a @ stripped x @ b \<and> set a \<union> set b \<subseteq> set blanks)
    \<and> (stripped x \<noteq> [] \<longrightarrow> hd (stripped x) \<notin> set blanks \<and> last (stripped x) \<notin> set blanks)"
proof -
  let ?p = "\<lambda>c. c \<in> set blanks"
  let ?y = "dropWhile ?p x"
  have y: "length ?y < npos" using assms length_dropWhile_le [of ?p x] by simp
  then have "seq (trim_first x) trim_last = ret (stripped x)"
    using assms trim_last_drop [OF y] by (simp add: trim_first_drop stripped_def)
  moreover have "x = takeWhile ?p x @ stripped x @ rev (takeWhile ?p (rev ?y))"
    unfolding stripped_def by (metis rev_append rev_rev_ident takeWhile_dropWhile_id)
  moreover have "hd (stripped x) \<notin> set blanks \<and> last (stripped x) \<notin> set blanks" if "stripped x \<noteq> []"
  proof
    show "last (stripped x) \<notin> set blanks"
      using that hd_dropWhile [of ?p "rev ?y"] by (simp add: stripped_def last_rev)
    have "?y \<noteq> []" "hd (stripped x) = hd ?y"
      using that rev_dropWhile_take [of ?p ?y] by (auto simp: stripped_def hd_take)
    then show "hd (stripped x) \<notin> set blanks" using hd_dropWhile [of ?p x] by simp
  qed
  moreover have "set (takeWhile ?p x) \<union> set (rev (takeWhile ?p (rev ?y))) \<subseteq> set blanks"
    using set_takeWhileD by fastforce
  ultimately show ?thesis by blast
qed

text \<open>Searching: \<open>npos\<close> when the text does not occur, and otherwise the first position where it does.\<close>

lemma find_text_first:
  assumes "length x < npos"
  shows "if sublist y x then find_text y x + length y \<le> length x \<and> take (length y) (drop (find_text y x) x) = y
      \<and> (\<forall>m < find_text y x. \<not> prefix y (drop m x))
    else find_text y x = npos"
proof (cases "find_if_from 0 (prefix y) x")
  case None
  then have no: "\<not> prefix y (drop m x)" if "m \<le> length x" for m
    using that find_if_from_None [of 0 "prefix y" x] by (simp add: less_Suc_eq_le)
  have "\<not> sublist y x"
  proof
    assume "sublist y x"
    then obtain a b where "x = a @ y @ b" by (auto simp: sublist_def)
    with no [of "length a"] show False by simp
  qed
  with None show ?thesis by (simp add: find_text_def or_npos_def)
next
  case (Some n)
  then have n: "n \<le> length x" "prefix y (drop n x)" "\<forall>m < n. \<not> prefix y (drop m x)"
    using find_if_from_Some [of 0 "prefix y" x n] by simp_all
  then obtain z where z: "drop n x = y @ z" by (auto simp: prefix_def)
  then have "x = take n x @ y @ z" by (metis append_take_drop_id)
  then have "sublist y x" by (metis sublist_appendI)
  moreover have "length x - n = length y + length z" using arg_cong [OF z, of length] by simp
  then have "n + length y \<le> length x" using n(1) by simp
  moreover have "take (length y) (drop n x) = y" using z by simp
  ultimately have "sublist y x" "take (length y) (drop n x) = y" "n + length y \<le> length x" by simp_all
  with n Some show ?thesis by (simp add: find_text_def or_npos_def)
qed


section \<open>Items and numbers\<close>

text \<open>The items of a line, without an empty one after a delimiter at the end.\<close>

fun items :: "char \<Rightarrow> string list \<Rightarrow> string" where
  "items d [] = []"
| "items d [x] = x"
| "items d (x # xs) = x @ d # items d xs"

lemma get_item_last:
  assumes "d \<notin> set x" and "x \<noteq> []"
  shows "get_item d x = Some (x, [])"
proof -
  from assms(1) have all: "\<forall>c \<in> set x. c \<noteq> d" by blast
  then have t: "takeWhile (\<lambda>c. c \<noteq> d) x = x" and d: "dropWhile (\<lambda>c. c \<noteq> d) x = []"
    by (simp only: takeWhile_eq_all_conv, simp only: dropWhile_eq_Nil_conv)
  show ?thesis unfolding get_item_def t d using assms(2) by simp
qed

lemma get_item_more: "d \<notin> set x \<Longrightarrow> get_item d (x @ d # y) = Some (x, y)"
  by (induction x) (auto simp: get_item_def)

lemma chomp_no_newline: "CHR 0x0A \<notin> set x \<Longrightarrow> chomp x = x"
  unfolding chomp_def using last_in_set by fastforce

lemma chomp_number [simp]: "chomp (show_int i) = show_int i"
proof -
  have "\<not> is_digit (CHR 0x0A)" by (simp add: is_digit_def)
  then have "CHR 0x0A \<notin> set (show_nat n)" for n using show_nat_digits(1) [of n] unfolding list_all_iff by blast
  then have "CHR 0x0A \<notin> set (show_int i)" by (simp add: show_int_def)
  then show ?thesis by (rule chomp_no_newline)
qed

lemma show_int_nonempty [simp]: "show_int i \<noteq> []"
  using show_nat_digits(2) by (simp add: show_int_def)

text \<open>For the texts of \<open>LOG_S\<close>, which end with a number or a letter.\<close>

lemma chomp_text: "x \<noteq> [] \<Longrightarrow> chomp (c # x) = c # chomp x" "chomp [c] = (if c = CHR 0x0A then [] else [c])"
  by (simp_all add: chomp_def)

text \<open>
  The loop over \<open>getline\<close> ends for every line, and for a line made of items with delimiters between
  them, the last not empty, it logs exactly the items.
\<close>

theorem log_items_exact:
  assumes "\<forall>x \<in> set xs. d \<notin> set x \<and> CHR 0x0A \<notin> set x" and "xs \<noteq> [] \<longrightarrow> last xs \<noteq> []"
  shows "log_items d (items d xs) s = Done () (says s (map (\<lambda>x. Log (''token = '' @ x)) xs))"
  using assms
proof (induction d xs arbitrary: s rule: items.induct)
  case (1 d)
  then show ?case by (simp add: log_items.simps get_item_def ret_def)
next
  case (2 d x)
  then have "chomp (''token = '' @ x) = ''token = '' @ x" by (intro chomp_no_newline) simp
  with 2 get_item_last [of d x] show ?case
    by (subst log_items.simps) (simp add: machine log_items.simps [of d "[]"] get_item_def [of d "[]"])
next
  case (3 d x y xs)
  then have "chomp (''token = '' @ x) = ''token = '' @ x" by (intro chomp_no_newline) simp
  with 3 get_item_more [of d x "items d (y # xs)"] show ?case
    by (subst log_items.simps) (simp add: machine)
qed

text \<open>\<open>stoi\<close> reads what \<open>to_string\<close> prints, also before other text.\<close>

lemma digits_before:
  assumes "x = [] \<or> \<not> is_digit (hd x)"
  shows "dropWhile is_space (show_nat n @ x) = show_nat n @ x" "sign (show_nat n @ x) = (False, show_nat n @ x)"
    "takeWhile is_digit (show_nat n @ x) = show_nat n"
proof -
  have dig: "\<forall>c \<in> set (show_nat n). is_digit c" using show_nat_digits(1) by (simp add: list_all_iff)
  obtain d ds where ds: "show_nat n = d # ds" using show_nat_digits(2) by (cases "show_nat n") auto
  with dig have "is_digit d" by simp
  with is_digit_classes [of d] ds show "dropWhile is_space (show_nat n @ x) = show_nat n @ x"
      "sign (show_nat n @ x) = (False, show_nat n @ x)" by auto
  show "takeWhile is_digit (show_nat n @ x) = show_nat n" using dig assms by (cases x) auto
qed

lemma stoi_to_string:
  assumes "int32 i" and "x = [] \<or> \<not> is_digit (hd x)"
  shows "stoi (show_int i @ x) = ret i"
proof (cases "i < 0")
  case True
  then show ?thesis using assms(1) digits_before(3) [OF assms(2), of "nat (- i)"] show_nat_digits(2) [of "nat (- i)"]
    by (simp add: stoi_def show_int_def is_space_def read_show_nat)
next
  case False
  then show ?thesis using assms(1) digits_before [OF assms(2), of "nat i"] show_nat_digits(2) [of "nat i"]
    by (simp add: stoi_def show_int_def read_show_nat)
qed

section \<open>Formats\<close>

text \<open>
  C98.  For any name, score and number, \<open>std::format\<close>, the stream and, if the text fits into the buffer,
  \<open>snprintf\<close> give the same text; the text of the concatenation differs from it in the digits only.
\<close>

definition user_text :: "string \<Rightarrow> int \<Rightarrow> string \<Rightarrow> string" where
  "user_text user score digits = ''User '' @ user @ '' has '' @ show_int score @ '' points, Pi: '' @ digits"

theorem formats_agree:
  "let text = user_text user score (fixed 2 pi) in
    std_format_run fixed user score pi = block [LOG ''=== std_format ==='', log_formatted ''std::format'' text]
    \<and> stream_run fixed user score pi = block [LOG ''=== stream ==='', log_formatted ''stringstream'' text]
    \<and> c_style_run fixed user score pi = block [LOG ''=== c_style ==='', log_formatted ''snprintf'' (take 127 text)]
    \<and> concatenation_run fixed user score pi
        = block [LOG ''=== concatenation ==='', log_formatted ''concatenation'' (user_text user score (fixed 6 pi))]"
  by (simp add: Let_def std_format_run_def stream_run_def c_style_run_def concatenation_run_def user_text_def std_format_def snprintf_def
    format_field_def printf_field_def formatted_def)

section \<open>Examples\<close>

theorem trim_any_witness:
  "seq (trim_first ''   '') trim_last = (ret [] :: ('s, string) prog)
    \<and> seq (trim_first ''  Hello World  '') trim_last = (ret ''Hello World'' :: ('s, string) prog)"
proof -
  have "stripped ''   '' = []" "stripped ''  Hello World  '' = ''Hello World''"
    by (simp_all add: stripped_def blanks_def)
  moreover have "seq (trim_first ''   '') trim_last = (ret (stripped ''   '') :: ('s, string) prog)"
      "seq (trim_first ''  Hello World  '') trim_last = (ret (stripped ''  Hello World  '') :: ('s, string) prog)"
    by (rule trim_any [THEN conjunct1], simp add: npos_def)+
  ultimately show ?thesis by simp
qed

theorem log_items_exact_witness:
  "log_items (CHR '','') ''a,b,c'' (boot :: unit world)
    = Done () (says boot [Log (''token = '' @ ''a''), Log (''token = '' @ ''b''), Log (''token = '' @ ''c'')])"
  using log_items_exact [of "[''a'', ''b'', ''c'']" "CHR '',''" boot] by simp

text \<open>The items are not restored from a line that ends with a delimiter.\<close>

lemma log_items_last_empty: "log_items (CHR '','') ''a,'' s = log_items (CHR '','') ''a'' s"
  by (simp add: log_items.simps get_item_def)

end
