(* ===== verification/Containers.thy ===== *)
theory Containers
  imports Prelude "HOL-Library.Multiset"
begin

text \<open>
  The containers of \<open>src/core/container\<close>: stack, queue, deque, vector with its iterators, array, set and
  unordered map, with the runs of the examples.  A container holds the list of its elements; what the
  standard leaves undefined (removing from an empty container, an iterator that is no longer valid) is
  undefined here, and the order of an unordered map is a parameter.

  Lemmas: the loop that empties an adapter prints all its elements and ends (a locale, for the stack
  and for the queue); insertion into a set and into a map; no run uses an invalid iterator.
\<close>

definition show_elem :: "int \<Rightarrow> string" where
  "show_elem i = show_int i @ '' ''"

definition print_elems :: "int list \<Rightarrow> ('o world, unit) prog" where
  "print_elems xs = for_each xs (\<lambda>e. cout (show_elem e))"

section \<open>The adapters\<close>

text \<open>\<open>std::stack\<close> pushes and pops at the back of its container.\<close>

type_synonym stack = "int list"

definition stack_push :: "int \<Rightarrow> stack \<Rightarrow> stack" where
  "stack_push x c = c @ [x]"

definition stack_empty :: "stack \<Rightarrow> bool" where
  "stack_empty c \<longleftrightarrow> c = []"

definition stack_top :: "stack \<Rightarrow> ('s, int) prog" where
  "stack_top c = (if c = [] then undef BadIndex else ret (last c))"

definition stack_pop :: "stack \<Rightarrow> ('s, stack) prog" where
  "stack_pop c = (if c = [] then undef BadIndex else ret (butlast c))"

text \<open>\<open>std::queue\<close> pushes at the back and pops at the front.\<close>

type_synonym queue = "int list"

definition queue_push :: "int \<Rightarrow> queue \<Rightarrow> queue" where
  "queue_push x c = c @ [x]"

definition queue_empty :: "queue \<Rightarrow> bool" where
  "queue_empty c \<longleftrightarrow> c = []"

definition queue_front :: "queue \<Rightarrow> ('s, int) prog" where
  "queue_front c = (if c = [] then undef BadIndex else ret (hd c))"

definition queue_back :: "queue \<Rightarrow> ('s, int) prog" where
  "queue_back c = (if c = [] then undef BadIndex else ret (last c))"

definition queue_pop :: "queue \<Rightarrow> ('s, queue) prog" where
  "queue_pop c = (if c = [] then undef BadIndex else ret (tl c))"

text \<open>The loop \<open>for (; !c.empty(); c.pop()) std::cout << c.top() << " ";\<close>\<close>

partial_function (option) print_all ::
  "('c \<Rightarrow> bool) \<Rightarrow> ('c \<Rightarrow> ('o world, int) prog) \<Rightarrow> ('c \<Rightarrow> ('o world, 'c) prog) \<Rightarrow> 'c \<Rightarrow> 'o world \<Rightarrow> ('o world, 'c) result option" where
  "print_all is_empty first pop c s = (if is_empty c then Some (Done c s)
     else (case seq (first c) (\<lambda>x. seq (cout (show_elem x)) (\<lambda>_. pop c)) s of
         Done c' t \<Rightarrow> print_all is_empty first pop c' t
       | Thrown e t \<Rightarrow> Some (Thrown e t)
       | Undef f \<Rightarrow> Some (Undef f)))"

text \<open>What the loop relies on, and what it does.\<close>

locale emptying =
  fixes is_empty :: "'c \<Rightarrow> bool"
    and first :: "'c \<Rightarrow> ('o world, int) prog"
    and pop :: "'c \<Rightarrow> ('o world, 'c) prog"
    and contents :: "'c \<Rightarrow> int list"
  assumes empty_iff: "is_empty c \<longleftrightarrow> contents c = []"
    and first_value: "contents c = x # xs \<Longrightarrow> first c = ret x"
    and pop_rest: "contents c = x # xs \<Longrightarrow> \<exists>d. pop c = ret d \<and> contents d = xs"
begin

lemma prints_contents:
  "\<exists>d. print_all is_empty first pop c s = Some (Done d (says s (map (\<lambda>x. Cout (show_elem x)) (contents c)))) \<and> contents d = []"
proof (induction "contents c" arbitrary: c s)
  case Nil
  then show ?case by (subst print_all.simps) (simp add: empty_iff)
next
  case (Cons x xs)
  then obtain d where d: "pop c = ret d" "contents d = xs" using pop_rest [of c x xs] by auto
  have "seq (first c) (\<lambda>x. seq (cout (show_elem x)) (\<lambda>_. pop c)) s = Done d (says s [Cout (show_elem x)])"
    using first_value [of c x xs] Cons.hyps(2) d(1) by (simp add: machine)
  moreover obtain e where "print_all is_empty first pop d (says s [Cout (show_elem x)])
      = Some (Done e (says (says s [Cout (show_elem x)]) (map (\<lambda>x. Cout (show_elem x)) xs)))" "contents e = []"
    using Cons.hyps(1) [OF d(2) [symmetric], of "says s [Cout (show_elem x)]"] d(2) by auto
  ultimately show ?case using Cons.hyps(2) [symmetric] empty_iff [of c] by (subst print_all.simps) auto
qed

end

interpretation stack: emptying stack_empty stack_top stack_pop rev
  by unfold_locales (auto simp: stack_empty_def stack_top_def stack_pop_def last_rev rev_swap butlast_append intro!: exI)

interpretation queue: emptying queue_empty queue_front queue_pop "\<lambda>c. c"
  by unfold_locales (auto simp: queue_empty_def queue_front_def queue_pop_def)

definition stack_run :: "('o world, unit) oprog" where
  "stack_run = (let m_stack = stack_push 3 (stack_push 2 (stack_push 1 (stack_push 0 []))) in
     oseq (terminating (stack_pop m_stack)) (\<lambda>m_stack.
     oseq (terminating (stack_top m_stack)) (\<lambda>x.
     oseq (terminating (block [cout (''top ele: '' @ show_int x @ endl), cout (''all ele (reverse): '' @ endl)])) (\<lambda>_.
     oseq (print_all stack_empty stack_top stack_pop m_stack) (\<lambda>_. terminating (cout endl))))))"

definition queue_run :: "('o world, unit) oprog" where
  "queue_run = (let m_queue = queue_push 3 (queue_push 2 (queue_push 1 (queue_push 0 []))) in
     oseq (terminating (queue_pop m_queue)) (\<lambda>m_queue.
     oseq (terminating (queue_front m_queue)) (\<lambda>x.
     oseq (terminating (queue_back m_queue)) (\<lambda>y.
     oseq (terminating (block [cout (''fisrt ele: '' @ show_int x @ endl), cout (''last ele: '' @ show_int y @ endl),
       cout (''all ele: '' @ endl)])) (\<lambda>_.
     oseq (print_all queue_empty queue_front queue_pop m_queue) (\<lambda>_. terminating (cout endl)))))))"

lemma stack_print_all:
  "print_all stack_empty stack_top stack_pop c s = Some (Done [] (says s (map (\<lambda>x. Cout (show_elem x)) (rev c))))"
  using stack.prints_contents [of c s] by auto

lemma queue_print_all:
  "print_all queue_empty queue_front queue_pop c s = Some (Done [] (says s (map (\<lambda>x. Cout (show_elem x)) c)))"
  using queue.prints_contents [of c s] by auto

text \<open>
  From any stack and from any queue the loop that prints and removes the elements ends: last in,
  first out for the stack, first in, first out for the queue, and the container is empty.
\<close>

theorem adapters_print_all:
  "print_all stack_empty stack_top stack_pop c s = Some (Done [] (says s (map (\<lambda>x. Cout (show_elem x)) (rev c))))
    \<and> print_all queue_empty queue_front queue_pop c s = Some (Done [] (says s (map (\<lambda>x. Cout (show_elem x)) c)))"
  by (simp add: stack_print_all queue_print_all)

lemma stack_run_prints: "\<exists>t. stack_run s = Some (Done () t) \<and> out t = out s @ map Cout
    [''top ele: '' @ show_int 2 @ endl, ''all ele (reverse): '' @ endl, show_elem 2, show_elem 1, show_elem 0, endl]"
  by (simp add: stack_print_all stack_run_def machine stack_push_def stack_pop_def stack_top_def)

lemma queue_run_prints: "\<exists>t. queue_run s = Some (Done () t) \<and> out t = out s @ map Cout
    [''fisrt ele: '' @ show_int 1 @ endl, ''last ele: '' @ show_int 3 @ endl, ''all ele: '' @ endl,
     show_elem 1, show_elem 2, show_elem 3, endl]"
  by (simp add: queue_print_all queue_run_def machine queue_push_def queue_pop_def queue_front_def queue_back_def)

section \<open>The sequences\<close>

text \<open>\<open>std::deque\<close>.\<close>

type_synonym deque = "int list"

definition push_back :: "int \<Rightarrow> deque \<Rightarrow> deque" where
  "push_back x c = c @ [x]"

definition push_front :: "int \<Rightarrow> deque \<Rightarrow> deque" where
  "push_front x c = x # c"

definition pop_back :: "deque \<Rightarrow> ('s, deque) prog" where
  "pop_back c = (if c = [] then undef BadIndex else ret (butlast c))"

definition pop_front :: "deque \<Rightarrow> ('s, deque) prog" where
  "pop_front c = (if c = [] then undef BadIndex else ret (tl c))"

definition deque_run :: "('o world, unit) prog" where
  "deque_run = (let m_deque = [9, 100, 0 :: int]; m_deque = [];
       m_deque = push_back 4 (push_back 3 (push_back 2 (push_back 1 m_deque))) in
     seq (pop_back m_deque) (\<lambda>m_deque. seq (pop_front m_deque) (\<lambda>m_deque.
     let m_deque = push_front 99 m_deque in seq (print_elems m_deque) (\<lambda>_. cout endl))))"

text \<open>
  \<open>std::vector\<close>: an iterator is a position with the version of the vector it was taken from.  Every
  operation that may invalidate it starts a new version.
\<close>

record vec =
  elems :: "int list"
  version :: nat

type_synonym iter = "nat \<times> nat"

definition new_vec :: "int list \<Rightarrow> vec" where
  "new_vec xs = \<lparr>elems = xs, version = 0\<rparr>"

definition set_elems :: "int list \<Rightarrow> vec \<Rightarrow> vec" where
  "set_elems xs v = v\<lparr>elems := xs, version := Suc (version v)\<rparr>"

definition vec_begin :: "vec \<Rightarrow> iter" where
  "vec_begin v = (version v, 0)"

definition vec_insert :: "iter \<Rightarrow> int \<Rightarrow> vec \<Rightarrow> ('s, vec) prog" where
  "vec_insert pos x v = (if fst pos = version v \<and> snd pos \<le> length (elems v)
     then ret (set_elems (take (snd pos) (elems v) @ x # drop (snd pos) (elems v)) v) else undef BadIndex)"

definition vec_erase :: "iter \<Rightarrow> vec \<Rightarrow> ('s, vec) prog" where
  "vec_erase pos v = (if fst pos = version v \<and> snd pos < length (elems v)
     then ret (set_elems (take (snd pos) (elems v) @ drop (Suc (snd pos)) (elems v)) v) else undef BadIndex)"

definition vec_push_back :: "int \<Rightarrow> vec \<Rightarrow> vec" where
  "vec_push_back x v = set_elems (elems v @ [x]) v"

definition vec_pop_back :: "vec \<Rightarrow> ('s, vec) prog" where
  "vec_pop_back v = (if elems v = [] then undef BadIndex else ret (set_elems (butlast (elems v)) v))"

definition vector_run :: "('o world, unit) prog" where
  "vector_run = seq (cout (endl @ ''--- std::vector Example ---'' @ endl)) (\<lambda>_.
     let m_vec = new_vec [9, 100, 0]; m_vec = set_elems [1, 2, 3, 5, 6] m_vec;
       m_vec = set_elems [1, 1, 3] m_vec; m_vec = set_elems [] m_vec; pos = vec_begin m_vec in
     seq (vec_insert pos 99 m_vec) (\<lambda>m_vec. let pos = vec_begin m_vec in
     seq (vec_insert pos 9 m_vec) (\<lambda>m_vec. let pos = vec_begin m_vec in
     seq (vec_erase pos m_vec) (\<lambda>m_vec.
     let m_vec = vec_push_back 4 (vec_push_back 3 (vec_push_back 2 (vec_push_back 1 m_vec))) in
     seq (vec_pop_back m_vec) (\<lambda>m_vec. seq (print_elems (elems m_vec)) (\<lambda>_. cout endl))))))"


lemma deque_run_prints: "\<exists>t. deque_run s = Done () t \<and> out t = out s @ map Cout [show_elem 99, show_elem 2, show_elem 3, endl]"
  by (simp add: deque_run_def machine push_back_def push_front_def pop_back_def pop_front_def print_elems_def Let_def)

lemma vector_run_prints: "\<exists>t. vector_run s = Done () t \<and> out t = out s @ map Cout
    [endl @ ''--- std::vector Example ---'' @ endl, show_elem 99, show_elem 1, show_elem 2, show_elem 3, endl]"
  by (simp add: vector_run_def machine new_vec_def set_elems_def vec_begin_def vec_insert_def vec_erase_def vec_push_back_def
    vec_pop_back_def print_elems_def Let_def)

text \<open>
  An iterator to a position of a vector can be used until the vector is modified: it inserts or
  erases there; afterwards every use of it is undefined, whatever the elements, while a new one works.
\<close>

theorem vector_iterators:
  assumes "n \<le> length (elems v)"
  shows "\<exists>w. vec_insert (version v, n) x v = ret w \<and> elems w = take n (elems v) @ x # drop n (elems v)
    \<and> vec_insert (version v, n) y w = undef BadIndex \<and> vec_erase (version v, n) w = undef BadIndex
    \<and> (\<exists>u. vec_erase (version w, n) w = ret u \<and> elems u = elems v)"
  using assms by (intro exI [of _ "set_elems (take n (elems v) @ x # drop n (elems v)) v"])
    (auto simp: vec_insert_def vec_erase_def set_elems_def intro!: exI)

text \<open>\<open>std::array\<close>: its size never changes; \<open>at\<close> checks the position.\<close>

type_synonym 'a array = "'a list"

definition array_at :: "'a array \<Rightarrow> nat \<Rightarrow> ('s, 'a) prog" where
  "array_at a i = (if i < length a then ret (a ! i) else throw ''out_of_range'')"

definition array_fill :: "'a \<Rightarrow> 'a array \<Rightarrow> 'a array" where
  "array_fill x a = replicate (length a) x"

text \<open>The text that starts at \<open>data()\<close>: up to a zero, and undefined without one.\<close>

definition data_text :: "char array \<Rightarrow> ('s, string) prog" where
  "data_text a = (if CHR 0x00 \<in> set a then ret (takeWhile (\<lambda>c. c \<noteq> CHR 0x00) a) else undef BadIndex)"

definition kXy :: nat where
  "kXy = 4"

definition cell :: "char array" where
  "cell = [CHR 0xE2, CHR 0x96, CHR 0x84, CHR 0xE2, CHR 0x96, CHR 0x80, CHR 0x00, CHR 0x00]"

primrec print_board :: "nat \<Rightarrow> char array list \<Rightarrow> ('o world, unit) prog" where
  "print_board n [] = ret ()"
| "print_board n (c # cs) = seq (data_text c) (\<lambda>x.
     seq (cout (x @ (if Suc n mod kXy \<noteq> 0 then [] else endl))) (\<lambda>_. print_board (Suc n) cs))"

definition array_run :: "char array array \<Rightarrow> ('o world, unit) prog" where
  "array_run board = (let m_array = [9, 100, 0 :: int] in
     block [cout (endl @ ''--- std::array Example ---'' @ endl),
       cout (show_int (hd m_array) @ endl), cout (show_int (last m_array) @ endl),
       print_elems m_array, cout endl,
       for_each [0 ..< length m_array] (\<lambda>i. seq (array_at m_array i) (\<lambda>e. cout (show_elem e))), cout endl,
       print_elems m_array, cout endl,
       print_elems m_array, cout endl,
       print_elems (rev m_array), cout endl,
       cout (show_nat (length m_array) @ endl), cout (show_nat (length m_array) @ endl),
       print_board 0 (array_fill cell board)])"

lemma array_at_all: "n \<le> length a \<Longrightarrow> for_each [0 ..< n] (\<lambda>i. seq (array_at a i) (\<lambda>e. cout (show_elem e))) s
    = Done () (says s (map (\<lambda>e. Cout (show_elem e)) (take n a)))"
proof (induction n)
  case (Suc n)
  then show ?case
    by (simp add: for_each_append take_Suc_conv_app_nth array_at_def) (simp add: machine)
qed (simp add: machine)

definition cell_text :: string where
  "cell_text = [CHR 0xE2, CHR 0x96, CHR 0x84, CHR 0xE2, CHR 0x96, CHR 0x80]"

lemma data_text_cell: "data_text cell = ret cell_text"
  by (simp add: data_text_def cell_def cell_text_def)

lemma print_board_says: "print_board n (replicate m cell) s
    = Done () (says s (map (\<lambda>i. Cout (cell_text @ (if Suc i mod kXy \<noteq> 0 then [] else endl))) [n ..< n + m]))"
proof (induction m arbitrary: n s)
  case (Suc m)
  have "[n ..< n + Suc m] = n # [Suc n ..< Suc n + m]" by (simp add: upt_rec)
  then show ?case by (simp add: Suc data_text_cell) (simp add: machine Suc)
qed (simp add: machine)

text \<open>The board prints as \<open>kXy\<close> lines of \<open>kXy\<close> cells; a cell is printed up to its first zero.\<close>

lemma board_lines:
  "map (\<lambda>i. Cout (x @ (if 0 < Suc i mod kXy then [] else endl))) [0 ..< 16]
    = concat (replicate kXy (replicate 3 (Cout x) @ [Cout (x @ endl)]))"
proof -
  have "[0 ..< 16] = [0, 1, 2, 3, 4, 5, 6, 7, 8, 9, 10, 11, 12, 13, 14, 15 :: nat]" by (simp add: upt_rec)
  moreover have "replicate 4 y = [y, y, y, y]" for y :: "line list" by (simp add: numeral_eq_Suc)
  moreover have "replicate 3 y = [y, y, y]" for y :: line by (simp add: numeral_eq_Suc)
  ultimately show ?thesis by (simp add: kXy_def)
qed

lemma array_run_prints:
  assumes "length board = kXy * kXy"
  shows "\<exists>t. array_run board s = Done () t \<and> out t = out s @ map Cout ([endl @ ''--- std::array Example ---'' @ endl,
      show_int 9 @ endl, show_int 0 @ endl] @ concat (replicate 4 [show_elem 9, show_elem 100, show_elem 0, endl])
      @ [show_elem 0, show_elem 100, show_elem 9, endl, show_nat 3 @ endl, show_nat 3 @ endl])
      @ concat (replicate kXy (replicate 3 (Cout cell_text) @ [Cout (cell_text @ endl)]))"
proof -
  have "[0 ..< 3] = [0, 1, 2 :: nat]" by (simp add: upt_rec)
  moreover have "length board = 16" using assms by (simp add: kXy_def)
  moreover have "replicate 4 y = [y, y, y, y]" for y :: "string list" by (simp add: numeral_eq_Suc)
  ultimately show ?thesis
    by (simp add: array_run_def machine print_elems_def array_fill_def print_board_says array_at_def board_lines)
qed

section \<open>The set\<close>

text \<open>\<open>std::set<int>\<close> keeps its elements in order.\<close>

primrec set_insert :: "int \<Rightarrow> int list \<Rightarrow> int list" where
  "set_insert x [] = [x]"
| "set_insert x (y # ys) = (if x < y then x # y # ys else if x = y then y # ys else y # set_insert x ys)"

definition set_erase :: "int \<Rightarrow> int list \<Rightarrow> int list" where
  "set_erase x ys = filter (\<lambda>y. y \<noteq> x) ys"

definition set_of :: "int list \<Rightarrow> int list" where
  "set_of xs = fold set_insert xs []"

definition set_run :: "('o world, unit) prog" where
  "set_run = (let m_set = set_erase 99 (set_insert 99 (set_insert (- 1) (set_of [3, 4, 5, 1, 2]))) in
     block [print_elems m_set, cout endl])"







lemma set_run_prints: "\<exists>t. set_run s = Done () t
    \<and> out t = out s @ map Cout [show_elem (- 1), show_elem 1, show_elem 2, show_elem 3, show_elem 4, show_elem 5, endl]"
  by (simp add: set_run_def set_of_def set_erase_def machine print_elems_def)

section \<open>The unordered map\<close>

text \<open>The pairs in the order of iteration; after an insertion, and in a copy, \<open>arrange\<close> gives the order.\<close>

type_synonym umap = "(string \<times> int) list"

definition has_key :: "string \<Rightarrow> umap \<Rightarrow> bool" where
  "has_key k m \<longleftrightarrow> k \<in> fst ` set m"

definition map_insert :: "(umap \<Rightarrow> umap) \<Rightarrow> string \<times> int \<Rightarrow> umap \<Rightarrow> umap" where
  "map_insert arrange kv m = (if has_key (fst kv) m then m else arrange (m @ [kv]))"

definition insert_or_assign :: "(umap \<Rightarrow> umap) \<Rightarrow> string \<Rightarrow> int \<Rightarrow> umap \<Rightarrow> umap" where
  "insert_or_assign arrange k v m = (if has_key k m then map (\<lambda>p. if fst p = k then (k, v) else p) m
     else arrange (m @ [(k, v)]))"

definition map_of_list :: "(umap \<Rightarrow> umap) \<Rightarrow> (string \<times> int) list \<Rightarrow> umap" where
  "map_of_list arrange kvs = fold (map_insert arrange) kvs []"

text \<open>\<open>for (auto it = m.begin(); it != m.end();) it = m.erase(it);\<close>\<close>

fun erase_each :: "umap \<Rightarrow> umap" where
  "erase_each [] = []"
| "erase_each (p # m) = erase_each m"

definition show_pair :: "string \<times> int \<Rightarrow> string" where
  "show_pair p = ''['' @ fst p @ '','' @ show_int (snd p) @ '']'' @ '' ''"

definition umap_run :: "(umap \<Rightarrow> umap) \<Rightarrow> ('o world, unit) prog" where
  "umap_run arrange = (let m_map = map_of_list arrange [(''k_1'', 1), (''k_2'', 2), (''k_3'', 3)];
       m_map = map_insert arrange (''k_4'', 4) m_map; m_map = map_insert arrange (''k_5'', 0) m_map;
       m_map = map_insert arrange (''k_6'', 99) m_map; m_map2 = arrange m_map; m_map = erase_each m_map;
       m_map2' = insert_or_assign arrange ''k_6'' 8888 m_map2;
       m_map2' = (if has_key ''k_6'' m_map2' then map_insert arrange (''k_6'', 9999) m_map2' else m_map2') in
     block [cout (endl @ ''--- std::unordered_map Example ---'' @ endl),
       for_each m_map (\<lambda>e. cout (show_pair e)), cout endl,
       cout ((if has_key ''k_1'' m_map then ''true'' else ''false'') @ endl),
       for_each m_map2' (\<lambda>e. cout (show_pair e)), cout endl,
       cout (''Keys: '' @ endl), for_each (map fst m_map2') (\<lambda>k. cout (k @ '' '')), cout endl])"

datatype map_op = MInsert string int | MAssign string int

fun map_apply :: "(umap \<Rightarrow> umap) \<Rightarrow> map_op \<Rightarrow> umap \<Rightarrow> umap" where
  "map_apply arrange (MInsert k v) = map_insert arrange (k, v)"
| "map_apply arrange (MAssign k v) = insert_or_assign arrange k v"

fun map_abs :: "map_op \<Rightarrow> (string \<rightharpoonup> int) \<Rightarrow> (string \<rightharpoonup> int)" where
  "map_abs (MInsert k v) f = (if f k = None then f(k \<mapsto> v) else f)"
| "map_abs (MAssign k v) f = f(k \<mapsto> v)"

lemma erase_each_all: "erase_each m = []"
  by (induction m) simp_all

lemma has_key_map_of: "has_key k m \<longleftrightarrow> map_of m k \<noteq> None"
  by (simp add: has_key_def map_of_eq_None_iff)

lemma map_of_arrange:
  assumes "mset n = mset m" and "distinct (map fst m)"
  shows "map_of n = map_of m" and "distinct (map fst n)"
proof -
  show d: "distinct (map fst n)" using assms by (metis mset_eq_imp_distinct_iff mset_map)
  show "map_of n = map_of m" using map_of_inject_set [OF d assms(2)] assms(1) by (metis set_mset_mset)
qed

lemma map_of_assign: "map_of (map (\<lambda>p. if fst p = k then (k, v) else p) m) = (if has_key k m then (map_of m)(k \<mapsto> v) else map_of m)"
  by (induction m) (auto simp: has_key_def fun_eq_iff)

lemma map_of_new: "\<not> has_key k m \<Longrightarrow> map_of (m @ [(k, v)]) = (map_of m)(k \<mapsto> v)"
  by (auto simp: has_key_map_of fun_eq_iff map_add_def split: option.split)

lemma arrange_new:
  assumes "\<And>m. mset (arrange m) = mset m" and "distinct (map fst m)" and "\<not> has_key k m"
  shows "map_of (arrange (m @ [(k, v)])) = (map_of m)(k \<mapsto> v)" and "distinct (map fst (arrange (m @ [(k, v)])))"
proof -
  have "distinct (map fst (m @ [(k, v)]))" using assms(2,3) by (auto simp: has_key_def)
  from map_of_arrange [OF assms(1) this] map_of_new [OF assms(3)]
  show "map_of (arrange (m @ [(k, v)])) = (map_of m)(k \<mapsto> v)" "distinct (map fst (arrange (m @ [(k, v)])))" by simp_all
qed

lemma map_apply_abs:
  assumes "\<And>m. mset (arrange m) = mset m" and "distinct (map fst m)"
  shows "map_of (map_apply arrange p m) = map_abs p (map_of m) \<and> distinct (map fst (map_apply arrange p m))"
proof (cases p)
  case (MInsert k v)
  show ?thesis
  proof (cases "has_key k m")
    case True
    then obtain y where "map_of m k = Some y" by (auto simp: has_key_map_of)
    with True MInsert assms(2) show ?thesis by (simp add: map_insert_def)
  next
    case False
    then have "map_of m k = None" by (simp only: has_key_map_of not_not)
    with False MInsert arrange_new [OF assms False, of v] show ?thesis by (simp add: map_insert_def)
  qed
next
  case (MAssign k v)
  have "map fst (map (\<lambda>p. if fst p = k then (k, v) else p) m) = map fst m" by simp
  then show ?thesis using arrange_new [OF assms, of k v] assms(2) MAssign map_of_assign [of k v m]
    by (simp only: map_apply.simps map_abs.simps insert_or_assign_def split: if_split) simp
qed

lemma map_ops_refine:
  assumes "\<And>m. mset (arrange m) = mset m"
  shows "map_of (fold (map_apply arrange) ps []) = fold map_abs ps Map.empty
    \<and> distinct (map fst (fold (map_apply arrange) ps []))"
proof -
  have "map_of (fold (map_apply arrange) ps m) = fold map_abs ps (map_of m) \<and> distinct (map fst (fold (map_apply arrange) ps m))"
    if "distinct (map fst m)" for m
    using that
  proof (induction ps arbitrary: m)
    case (Cons p ps)
    from Cons.IH [of "map_apply arrange p m"] map_apply_abs [OF assms Cons.prems, of p] show ?case by simp
  qed simp
  from this [of "[]"] show ?thesis by simp
qed



theorem vector_iterators_witness:
  "\<exists>w. vec_insert (0, 0) 9 (new_vec [99]) = ret w \<and> elems w = [9, 99] \<and> vec_insert (0, 0) 7 w = (undef BadIndex :: ('s, vec) prog)"
proof -
  have "\<exists>w. vec_insert (version (new_vec [99]), 0) 9 (new_vec [99]) = ret w
      \<and> elems w = take 0 (elems (new_vec [99])) @ 9 # drop 0 (elems (new_vec [99]))
      \<and> vec_insert (version (new_vec [99]), 0) 7 w = (undef BadIndex :: ('s, vec) prog)
      \<and> vec_erase (version (new_vec [99]), 0) w = (undef BadIndex :: ('s, vec) prog)
      \<and> (\<exists>u. vec_erase (version w, 0) w = (ret u :: ('s, vec) prog) \<and> elems u = elems (new_vec [99]))"
    by (rule vector_iterators) simp
  then show ?thesis by (auto simp: new_vec_def)
qed

lemma umap_block: "block [cout x, for_each [] (\<lambda>e. cout (show_pair e)), cout endl, cout y, for_each ps (\<lambda>e. cout (show_pair e)), cout endl,
    cout z, for_each (map fst ps) (\<lambda>k. cout (k @ '' '')), cout endl] s
  = Done () (says s (map Cout ([x, endl, y] @ map show_pair ps @ [endl, z] @ map (\<lambda>k. k @ '' '') (map fst ps) @ [endl])))"
  by (simp add: machine comp_def)

text \<open>The second map of the example, in the order it is kept in.\<close>

lemma umap_run_prints:
  assumes "\<And>m. mset (arrange m) = mset m"
  shows "\<exists>t ps. umap_run arrange s = Done () t \<and> set ps = {(''k_1'', 1), (''k_2'', 2), (''k_3'', 3), (''k_4'', 4), (''k_5'', 0), (''k_6'', 8888)}
    \<and> distinct (map fst ps) \<and> out t = out s @ map Cout ([endl @ ''--- std::unordered_map Example ---'' @ endl, endl, ''false'' @ endl]
      @ map show_pair ps @ [endl, ''Keys: '' @ endl] @ map (\<lambda>k. k @ '' '') (map fst ps) @ [endl])"
proof -
  define ops where "ops = [MInsert ''k_1'' 1, MInsert ''k_2'' 2, MInsert ''k_3'' 3, MInsert ''k_4'' 4, MInsert ''k_5'' 0, MInsert ''k_6'' 99]"
  define m where "m = fold (map_apply arrange) ops []"
  define ps where "ps = insert_or_assign arrange ''k_6'' 8888 (arrange m)"
  have "fold map_abs ops Map.empty = [''k_1'' \<mapsto> 1, ''k_2'' \<mapsto> 2, ''k_3'' \<mapsto> 3, ''k_4'' \<mapsto> 4, ''k_5'' \<mapsto> 0, ''k_6'' \<mapsto> 99]"
    by (simp add: ops_def)
  with map_ops_refine [OF assms, of ops]
  have m: "map_of m = [''k_1'' \<mapsto> 1, ''k_2'' \<mapsto> 2, ''k_3'' \<mapsto> 3, ''k_4'' \<mapsto> 4, ''k_5'' \<mapsto> 0, ''k_6'' \<mapsto> 99]" "distinct (map fst m)"
    by (simp_all add: m_def)
  have ins: "map_insert arrange (''k_6'', 99) (map_insert arrange (''k_5'', 0) (map_insert arrange (''k_4'', 4)
      (map_of_list arrange [(''k_1'', 1), (''k_2'', 2), (''k_3'', 3)]))) = m"
    by (simp add: m_def ops_def map_of_list_def)
  have "map_of (arrange m) = map_of m" "distinct (map fst (arrange m))" using map_of_arrange [OF assms m(2)] by blast+
  with map_apply_abs [OF assms, of "arrange m" "MAssign ''k_6'' 8888"] m
  have ps: "map_of ps = [''k_1'' \<mapsto> 1, ''k_2'' \<mapsto> 2, ''k_3'' \<mapsto> 3, ''k_4'' \<mapsto> 4, ''k_5'' \<mapsto> 0, ''k_6'' \<mapsto> 8888]" "distinct (map fst ps)"
    by (simp_all add: ps_def)
  have "(k, v) \<in> set ps \<longleftrightarrow> map_of ps k = Some v" for k v using ps(2) by simp
  then have "set ps = {(''k_1'', 1), (''k_2'', 2), (''k_3'', 3), (''k_4'', 4), (''k_5'', 0), (''k_6'', 8888)}"
    by (auto simp: ps(1) split: if_splits)
  moreover have k6: "has_key ''k_6'' ps" by (simp add: has_key_map_of ps(1))
  then have again: "map_insert arrange (''k_6'', 9999) ps = ps" by (simp add: map_insert_def)
  have none: "\<not> has_key ''k_1'' []" by (simp add: has_key_def)
  define ls where "ls = map Cout ([endl @ ''--- std::unordered_map Example ---'' @ endl, endl, ''false'' @ endl]
      @ map show_pair ps @ [endl, ''Keys: '' @ endl] @ map (\<lambda>k. k @ '' '') (map fst ps) @ [endl])"
  have "umap_run arrange s = Done () (says s ls)"
    unfolding umap_run_def Let_def ins ps_def [symmetric] erase_each_all if_P [OF k6] again if_not_P [OF none] ls_def
    by (rule umap_block)
  moreover have "out (says s ls) = out s @ ls" by simp
  ultimately show ?thesis using ps(2) unfolding ls_def by blast
qed

end
