(* ===== verification/Files.thy ===== *)
theory Files
  imports StdStrings
begin

text \<open>
  \<open>src/core/filehandle/FileIO.cpp\<close> and \<open>Directory.cpp\<close>: one file that is written, read by words and by
  lines and removed; directories that are created and removed.  What the operating system permits is
  a parameter.

  Lemmas: the loops over words and over lines end, and print the content without its white space and
  the content itself; what each run leaves, when the directories of the example already exist too.
\<close>

section \<open>A file\<close>

record filer = "unit world" +
  test_file :: "string option"

text \<open>Whether the file can be created, and removed.\<close>

record permissions =
  creatable :: bool
  removable :: bool

type_synonym 'a fprog = "(filer, 'a) prog"

text \<open>A stream to read from: what is left, or nothing when it could not be opened.\<close>

definition open_in :: "string option fprog" where
  "open_in s = Done (test_file s) s"

text \<open>\<open>operator>>\<close> on a string: the next word.\<close>

definition get_word :: "string \<Rightarrow> (string \<times> string) option" where
  "get_word x = (let y = dropWhile is_space x in if y = [] then None
     else Some (takeWhile (\<lambda>c. \<not> is_space c) y, dropWhile (\<lambda>c. \<not> is_space c) y))"

lemma get_word_shorter: "get_word x = Some (w, y) \<Longrightarrow> length y < length x"
proof -
  assume w: "get_word x = Some (w, y)"
  then obtain c z where z: "dropWhile is_space x = c # z" by (cases "dropWhile is_space x") (auto simp: get_word_def)
  then have "\<not> is_space c" by (simp add: dropWhile_eq_Cons_conv)
  with w z have "y = dropWhile (\<lambda>c. \<not> is_space c) z" by (simp add: get_word_def)
  with z length_dropWhile_le [of is_space x] length_dropWhile_le [of "\<lambda>c. \<not> is_space c" z] show ?thesis by simp
qed

function print_words :: "string \<Rightarrow> unit fprog" where
  "print_words x = (case get_word x of None \<Rightarrow> ret ()
     | Some (input_str, rest) \<Rightarrow> seq (cout input_str) (\<lambda>_. print_words rest))"
  by pat_completeness auto
termination
  by (relation "measure length") (auto simp: get_word_shorter)

function print_lines :: "string \<Rightarrow> unit fprog" where
  "print_lines x = (case get_item (CHR 0x0A) x of None \<Rightarrow> ret ()
     | Some (input_str, rest) \<Rightarrow> seq (cout (input_str @ endl)) (\<lambda>_. print_lines rest))"
  by pat_completeness auto
termination
  by (relation "measure length") (auto simp: get_item_shorter)

declare print_words.simps [simp del] print_lines.simps [simp del]

definition kTestFileName :: string where
  "kTestFileName = ''fileio_test.csv''"

definition cerr :: "string \<Rightarrow> (('o, 'z) world_scheme, unit) prog" where
  "cerr x = emit (Cerr x)"

definition words_title :: string where
  "words_title = ''====skip while space content===='' @ endl"

definition lines_title :: string where
  "lines_title = ''====full content===='' @ endl"

definition ruler :: string where
  "ruler = ''========'' @ endl"

text \<open>The loops over a stream that could not be opened end at once.\<close>

definition fileInput :: "unit fprog" where
  "fileInput = seq open_in (\<lambda>in_file.
     block [if in_file = None then cerr (''Cannot open file: '' @ kTestFileName @ '' '' @ endl) else ret (),
       cout words_title,
       (case in_file of None \<Rightarrow> ret () | Some x \<Rightarrow> print_words x),
       cout ruler, cout lines_title,
       seq open_in (\<lambda>in_file. case in_file of None \<Rightarrow> ret () | Some x \<Rightarrow> print_lines x),
       cout ruler])"

text \<open>The three texts that are written; in a raw string a backslash is a character.\<close>

definition data_lines :: "string list" where
  "data_lines = [
    ''time_s,'',
    ''gsr_value 0.0, 45.27761157741693 0.005, 41.69912812397066 0.01,'',
    ''38.13110177547114 0.015, 35.32162785580394 0.02,'',
    ''31.75617843363382 0.025, 28.352875321528607 0.03,'',
    ''25.23210282654006 0.035, 21.769688905641132 0.04,'',
    ''17.99031153059391 0.045, 15.073732055666543 0.05,'',
    ''15.13550182371759 0.055, 14.69547985289048 0.06,'',
    ''14.867397107985468 0.065, 14.982082556093832 0.07,'',
    ''14.893751010484861 0.075, 14.877034044202343 0.08,'',
    ''14.820590581790071 0.085, 15.1065350504897 0.09,'',
    ''15.152287796727098 0.095, 14.764395300078201 0.1,'',
    ''15.118189654760348 0.105, 15.473255351586635 0.11,'',
    ''14.913896402347113'']"

definition elf_bytes :: "string list" where
  "elf_bytes = [endl @ concat (map (\<lambda>l. replicate 8 (CHR '' '') @ l @ endl) data_lines)
       @ replicate 4 (CHR '' '') @ [CHR 0x5C] @ ''n '',
     ''0x0 0x0'' @ ''0x0 0x0'' @ ''0x0 0x0'',
     ''0xF 0xA '' @ replicate 14 (CHR '' '') @ ''0xE 0xB '' @ replicate 14 (CHR '' '') @ ''0x0 0x0'']"

definition fileOutput :: "permissions \<Rightarrow> unit fprog" where
  "fileOutput os = (if creatable os
     then (\<lambda>s. Done () (s\<lparr>test_file := Some (concat elf_bytes @ ''E'')\<rparr>))
     else cerr (''Cannot open file: '' @ kTestFileName @ '' '' @ endl))"

definition remove_file :: "permissions \<Rightarrow> unit fprog" where
  "remove_file os s = Done () (if removable os then s\<lparr>test_file := None\<rparr> else s)"

definition fileRemove :: "permissions \<Rightarrow> unit fprog" where
  "fileRemove os = seq (remove_file os) (\<lambda>_. seq open_in (\<lambda>ifile.
     if ifile \<noteq> None then cerr (''Cannot delete file: '' @ kTestFileName @ '' '' @ endl)
     else cout (''Delete file: '' @ kTestFileName @ '' '' @ endl)))"

definition file_run :: "permissions \<Rightarrow> unit fprog" where
  "file_run os = block [fileOutput os, fileInput, fileRemove os]"

section \<open>What is read is what was written\<close>

lemma print_words_says:
  "\<exists>ws. print_words x s = Done () (says s (map Cout ws)) \<and> concat ws = filter (\<lambda>c. \<not> is_space c) x
    \<and> (\<forall>w \<in> set ws. w \<noteq> [] \<and> (\<forall>c \<in> set w. \<not> is_space c))"
proof (induction x arbitrary: s rule: print_words.induct)
  case (1 x)
  show ?case
  proof (cases "get_word x")
    case None
    then have "dropWhile is_space x = []" by (auto simp: get_word_def Let_def split: if_splits)
    with None show ?thesis by (subst print_words.simps) (auto simp: ret_def filter_empty_conv intro!: exI [of _ "[]"])
  next
    case (Some p)
    define y where "y = dropWhile is_space x"
    obtain w z where p: "p = (w, z)" by fastforce
    with Some have w: "w = takeWhile (\<lambda>c. \<not> is_space c) y" "z = dropWhile (\<lambda>c. \<not> is_space c) y" "y \<noteq> []"
      by (auto simp: get_word_def y_def Let_def split: if_splits)
    obtain ws where ws: "print_words z (says s [Cout w]) = Done () (says (says s [Cout w]) (map Cout ws))"
        "concat ws = filter (\<lambda>c. \<not> is_space c) z" "\<forall>w \<in> set ws. w \<noteq> [] \<and> (\<forall>c \<in> set w. \<not> is_space c)"
      using "1.IH" Some p by blast
    have "filter (\<lambda>c. \<not> is_space c) x = filter (\<lambda>c. \<not> is_space c) y"
      unfolding y_def by (induction x) auto
    also have "\<dots> = w @ filter (\<lambda>c. \<not> is_space c) z"
      unfolding w(1,2) by (induction y) auto
    finally have "concat (w # ws) = filter (\<lambda>c. \<not> is_space c) x" using ws(2) by simp
    moreover have "w \<noteq> []" using w(1,3) hd_dropWhile [of is_space x] by (cases y) (auto simp: y_def)
    moreover have "\<forall>c \<in> set w. \<not> is_space c" using w(1) by (auto dest: set_takeWhileD)
    moreover have "print_words x s = Done () (says s (map Cout (w # ws)))"
      using Some p ws(1) by (subst print_words.simps) (simp add: machine)
    ultimately show ?thesis using ws(3) by (intro exI [of _ "w # ws"]) auto
  qed
qed

lemma print_lines_says:
  "\<exists>ls. print_lines x s = Done () (says s (map (\<lambda>l. Cout (l @ endl)) ls))
    \<and> concat (map (\<lambda>l. l @ endl) ls) = (if x = [] \<or> last x = nl then x else x @ endl) \<and> (\<forall>l \<in> set ls. nl \<notin> set l)"
proof (induction x arbitrary: s rule: print_lines.induct)
  case (1 x)
  show ?case
  proof (cases "get_item nl x")
    case None
    then have "x = []" by (auto simp: get_item_def split: if_splits)
    with None show ?thesis by (subst print_lines.simps) (auto simp: ret_def intro!: exI [of _ "[]"])
  next
    case (Some p)
    obtain w z where p: "p = (w, z)" by fastforce
    with Some have w: "w = takeWhile (\<lambda>c. c \<noteq> nl) x" "z = tl (dropWhile (\<lambda>c. c \<noteq> nl) x)" "x \<noteq> []"
      by (auto simp: get_item_def split: if_splits)
    obtain ls where ls: "print_lines z (says s [Cout (w @ endl)]) = Done () (says (says s [Cout (w @ endl)]) (map (\<lambda>l. Cout (l @ endl)) ls))"
        "concat (map (\<lambda>l. l @ endl) ls) = (if z = [] \<or> last z = nl then z else z @ endl)" "\<forall>l \<in> set ls. nl \<notin> set l"
      using "1.IH" Some p by blast
    have "concat (map (\<lambda>l. l @ endl) (w # ls)) = (if x = [] \<or> last x = nl then x else x @ endl)"
    proof (cases "dropWhile (\<lambda>c. c \<noteq> nl) x")
      case Nil
      then have all: "\<forall>c \<in> set x. c \<noteq> nl" by (simp only: dropWhile_eq_Nil_conv)
      then have "w = x" unfolding w(1) by (simp only: takeWhile_eq_all_conv)
      moreover have "z = []" unfolding w(2) Nil by simp
      moreover have "last x \<noteq> nl" using all w(3) last_in_set by blast
      ultimately show ?thesis using ls(2) w(3) by simp
    next
      case (Cons c y)
      then have "c = nl" by (auto simp: dropWhile_eq_Cons_conv)
      with Cons have x: "x = w @ nl # z" unfolding w(1,2) by (metis list.sel(3) takeWhile_dropWhile_id)
      then show ?thesis using ls(2) by (auto simp: endl_def)
    qed
    moreover have "nl \<notin> set w" using w(1) by (auto dest: set_takeWhileD)
    moreover have "print_lines x s = Done () (says s (map (\<lambda>l. Cout (l @ endl)) (w # ls)))"
      using Some p ls(1) by (subst print_lines.simps) (simp add: machine)
    ultimately show ?thesis using ls(3) by (intro exI [of _ "w # ls"]) auto
  qed
qed

lemma filer_says [simp]: "test_file (says s ls) = test_file s"
  by (simp add: says_def)

lemma fileInput_shows:
  assumes "test_file s = Some x"
  shows "\<exists>ws ls. fileInput s = Done () (says s ([Cout words_title] @ map Cout ws
      @ [Cout ruler, Cout lines_title] @ map (\<lambda>l. Cout (l @ endl)) ls @ [Cout ruler]))
    \<and> concat ws = filter (\<lambda>c. \<not> is_space c) x
    \<and> concat (map (\<lambda>l. l @ endl) ls) = (if x = [] \<or> last x = nl then x else x @ endl)"
proof -
  obtain ws where ws: "print_words x (says s [Cout words_title]) = Done () (says (says s [Cout words_title]) (map Cout ws))"
      "concat ws = filter (\<lambda>c. \<not> is_space c) x"
    using print_words_says by blast
  let ?t = "says s ([Cout words_title] @ map Cout ws @ [Cout ruler, Cout lines_title])"
  obtain ls where ls: "print_lines x ?t = Done () (says ?t (map (\<lambda>l. Cout (l @ endl)) ls))"
      "concat (map (\<lambda>l. l @ endl) ls) = (if x = [] \<or> last x = nl then x else x @ endl)"
    using print_lines_says by blast
  have "fileInput s = Done () (says s ([Cout words_title] @ map Cout ws @ [Cout ruler, Cout lines_title]
      @ map (\<lambda>l. Cout (l @ endl)) ls @ [Cout ruler]))"
    using assms ws(1) ls(1) by (simp add: fileInput_def open_in_def machine)
  with ws(2) ls(2) show ?thesis by blast
qed

text \<open>
  C20.  When the file can be created, the run shows the content twice, first without its white space,
  then line by line with a newline at the end; the file is left only when it cannot be removed, and
  then the run says so.
\<close>

theorem file_run_shows:
  assumes "creatable os"
  shows "\<exists>t ws ls. file_run os s = Done () t \<and> test_file t = (if removable os then None else Some (concat elf_bytes @ ''E''))
    \<and> out t = out s @ [Cout words_title] @ map Cout ws
      @ [Cout ruler, Cout lines_title] @ map (\<lambda>l. Cout (l @ endl)) ls @ [Cout ruler,
        if removable os then Cout (''Delete file: '' @ kTestFileName @ '' '' @ endl)
        else Cerr (''Cannot delete file: '' @ kTestFileName @ '' '' @ endl)]
    \<and> concat ws = filter (\<lambda>c. \<not> is_space c) (concat elf_bytes @ ''E'')
    \<and> concat (map (\<lambda>l. l @ endl) ls) = concat elf_bytes @ ''E'' @ endl"
proof -
  define x where "x = concat elf_bytes @ ''E''"
  let ?s = "s\<lparr>test_file := Some x\<rparr>"
  obtain ws ls where i: "fileInput ?s = Done () (says ?s ([Cout words_title] @ map Cout ws
      @ [Cout ruler, Cout lines_title] @ map (\<lambda>l. Cout (l @ endl)) ls @ [Cout ruler]))"
      and ws: "concat ws = filter (\<lambda>c. \<not> is_space c) x"
      and ls: "concat (map (\<lambda>l. l @ endl) ls) = (if x = [] \<or> last x = nl then x else x @ endl)"
    using fileInput_shows [of ?s x] by auto
  have "concat (map (\<lambda>l. l @ endl) ls) = x @ endl" using ls by (simp add: x_def)
  moreover define ks where "ks = [Cout words_title] @ map Cout ws
      @ [Cout ruler, Cout lines_title] @ map (\<lambda>l. Cout (l @ endl)) ls @ [Cout ruler]"
  define k where "k = (if removable os then Cout (''Delete file: '' @ kTestFileName @ '' '' @ endl)
        else Cerr (''Cannot delete file: '' @ kTestFileName @ '' '' @ endl))"
  have "\<exists>t. file_run os s = Done () t \<and> test_file t = (if removable os then None else Some x) \<and> out t = out s @ ks @ [k]"
    using assms i unfolding ks_def [symmetric]
    by (cases "removable os") (simp_all add: file_run_def fileOutput_def x_def [symmetric] fileRemove_def remove_file_def open_in_def cerr_def k_def machine)
  then obtain t where t: "file_run os s = Done () t" "test_file t = (if removable os then None else Some x)" "out t = out s @ ks @ [k]"
    by blast
  moreover have "out t = out s @ [Cout words_title] @ map Cout ws @ [Cout ruler, Cout lines_title]
      @ map (\<lambda>l. Cout (l @ endl)) ls @ [Cout ruler, k]" by (simp add: t(3) ks_def)
  ultimately show ?thesis using ws t(1,2) unfolding k_def x_def append_assoc by blast
qed

definition permits :: permissions where
  "permits = \<lparr>creatable = True, removable = True\<rparr>"

definition empty_disk :: filer where
  "empty_disk = \<lparr>cells = Map.empty, brk = 0, out = [], test_file = None\<rparr>"

theorem file_run_shows_witness:
  "\<exists>t. file_run permits empty_disk = Done () t \<and> test_file t = None"
  using file_run_shows [of permits empty_disk] by (auto simp: permits_def)

text \<open>When the file cannot be created and is not there, the run says so twice, and then that it has deleted it.\<close>

lemma file_run_cannot_create:
  assumes "\<not> creatable os" and "test_file s = None"
  shows "\<exists>t. file_run os s = Done () t \<and> filter (\<lambda>l. case l of Cerr x \<Rightarrow> True | _ \<Rightarrow> False) (drop (length (out s)) (out t))
      = replicate 2 (Cerr (''Cannot open file: '' @ kTestFileName @ '' '' @ endl))
    \<and> last (out t) = Cout (''Delete file: '' @ kTestFileName @ '' '' @ endl)"
  using assms by (cases "removable os") (simp_all add: file_run_def fileOutput_def fileInput_def fileRemove_def remove_file_def
    open_in_def cerr_def machine numeral_eq_Suc)

end
