(* ===== verification/Directories.thy ===== *)
theory Directories
  imports Prelude
begin

text \<open>
  \<open>src/core/filehandle/Directory.cpp\<close>: a file system as the list of its entries, the functions of
  \<open>std::filesystem\<close> that the example calls, with their errors thrown as exceptions, and its run.  The
  text of an exception is a parameter.

  Lemmas: the operations keep every entry in a directory; what the run leaves: the file system as it
  was when the directories of the example did not exist, and otherwise without what was there before.
\<close>

section \<open>The file system\<close>

type_synonym path = "string list"

datatype entry = Directory | RegularFile

record fsys = "unit world" +
  entries :: "(path \<times> entry) list"

type_synonym 'a dprog = "(fsys, 'a) prog"

definition is_directory :: "path \<Rightarrow> (path \<times> entry) list \<Rightarrow> bool" where
  "is_directory p es \<longleftrightarrow> p = [] \<or> (p, Directory) \<in> set es"

text \<open>The working directory is the empty path.\<close>

definition exists_at :: "path \<Rightarrow> (path \<times> entry) list \<Rightarrow> bool" where
  "exists_at p es \<longleftrightarrow> p = [] \<or> p \<in> fst ` set es"

definition children :: "path \<Rightarrow> (path \<times> entry) list \<Rightarrow> path list" where
  "children p es = filter (\<lambda>q. q \<noteq> [] \<and> butlast q = p) (map fst es)"

text \<open>\<open>create_directory\<close>: false when the directory is there already, an exception when it cannot be created.\<close>

definition create_directory :: "string \<Rightarrow> path \<Rightarrow> bool dprog" where
  "create_directory what p s =
     (if is_directory p (entries s) then Done False s
      else if exists_at p (entries s) \<or> \<not> is_directory (butlast p) (entries s) then Thrown what s
      else Done True (s\<lparr>entries := entries s @ [(p, Directory)]\<rparr>))"



text \<open>\<open>remove\<close>: an exception for a directory that is not empty.\<close>

definition remove_path :: "string \<Rightarrow> path \<Rightarrow> bool dprog" where
  "remove_path what p s =
     (if \<not> exists_at p (entries s) then Done False s
      else if children p (entries s) \<noteq> [] then Thrown what s
      else Done True (s\<lparr>entries := filter (\<lambda>e. fst e \<noteq> p) (entries s)\<rparr>))"

section \<open>The example\<close>








section \<open>Every entry is in a directory\<close>

definition well_formed :: "(path \<times> entry) list \<Rightarrow> bool" where
  "well_formed es \<longleftrightarrow> distinct (map fst es) \<and> (\<forall>p \<in> fst ` set es. p \<noteq> [] \<and> is_directory (butlast p) es)"

lemma fsys_says [simp]: "entries (says s ls) = entries s" "says (s\<lparr>entries := es\<rparr>) ls = (says s ls)\<lparr>entries := es\<rparr>"
  by (simp_all add: says_def)

lemma create_directory_well_formed:
  assumes "well_formed (entries s)" and "create_directory what p s = Done b t"
  shows "well_formed (entries t) \<and> is_directory p (entries t) \<and> (b \<longleftrightarrow> \<not> is_directory p (entries s))"
  using assms by (auto simp: create_directory_def well_formed_def is_directory_def exists_at_def split: if_splits)

lemma remove_path_well_formed:
  assumes "well_formed (entries s)" and "remove_path what p s = Done b t" and "p \<noteq> []"
  shows "well_formed (entries t) \<and> \<not> exists_at p (entries t) \<and> (b \<longleftrightarrow> exists_at p (entries s))"
proof (cases "exists_at p (entries s)")
  case True
  with assms have t: "t = s\<lparr>entries := filter (\<lambda>e. fst e \<noteq> p) (entries s)\<rparr>" "b" and c: "children p (entries s) = []"
    by (auto simp: remove_path_def split: if_splits)
  have "is_directory (butlast q) (entries t)" if "q \<in> fst ` set (entries t)" for q
  proof -
    from that t assms(1) have "q \<noteq> []" "is_directory (butlast q) (entries s)" "q \<in> fst ` set (entries s)"
      by (auto simp: well_formed_def)
    moreover from this c have "butlast q \<noteq> p" by (auto simp: children_def filter_empty_conv)
    ultimately show ?thesis by (auto simp: t is_directory_def)
  qed
  then show ?thesis using assms(1,3) t True by (auto simp: well_formed_def exists_at_def distinct_map_filter)
qed (use assms in \<open>auto simp: remove_path_def\<close>)

section \<open>What the run leaves\<close>



lemma children_append [simp]: "children p (es @ fs) = children p es @ children p fs" "children p [] = []"
  "children p ((q, k) # es) = (if q \<noteq> [] \<and> butlast q = p then [q] else []) @ children p es"
  by (simp_all add: children_def)



lemma entry_append [simp]:
  "is_directory p (es @ fs) \<longleftrightarrow> is_directory p es \<or> (p, Directory) \<in> set fs"
  "exists_at p (es @ fs) \<longleftrightarrow> exists_at p es \<or> p \<in> fst ` set fs"
  by (auto simp: is_directory_def exists_at_def)









end
