(* ===== verification/Formatting.thy ===== *)
theory Formatting
  imports StdStrings "HOL-Library.Word"
begin

text \<open>
  \<open>src/core/filehandle/OutputFormatting.cpp\<close>, \<open>StringStream.cpp\<close>, \<open>IOStream.cpp\<close> and \<open>TerminalColor.cpp\<close>: the
  format of \<open>std::cout\<close> with its flags, width and fill; a string stream with its positions for reading
  and writing; an input stream that reads from another buffer; colours as escape sequences.  The
  printing of a \<open>double\<close> is a parameter.

  Lemmas: padding; the run restores any format it finds; writing to a string stream that was given a
  text overwrites the text; every coloured line ends in the default style.
\<close>

section \<open>Formats\<close>

datatype adjust = AdjustNone | AdjustLeft | AdjustRight | AdjustInternal

datatype base = Dec | Hex | Oct

datatype floatfield = General | Fixed | Scientific

record fmt =
  boolalpha_flag :: bool
  uppercase_flag :: bool
  base_flag :: base
  float_flag :: floatfield
  precision :: nat
  fill :: char
  adjust_flag :: adjust
  width :: nat

record fstream = "unit world" +
  fmt_of :: fmt

type_synonym 'a oprog' = "(fstream, 'a) prog"

definition default_fmt :: fmt where
  "default_fmt = \<lparr>boolalpha_flag = False, uppercase_flag = False, base_flag = Dec, float_flag = General, precision = 6,
     fill = CHR '' '', adjust_flag = AdjustNone, width = 0\<rparr>"

text \<open>The sign of a number, which internal padding separates from its digits.\<close>

definition sign_split :: "string \<Rightarrow> string \<times> string" where
  "sign_split x = (if x \<noteq> [] \<and> hd x \<in> {CHR ''-'', CHR ''+''} then ([hd x], tl x) else ([], x))"

definition pad :: "fmt \<Rightarrow> string \<Rightarrow> string" where
  "pad f x = (let p = replicate (width f - length x) (fill f) in case adjust_flag f of
     AdjustLeft \<Rightarrow> x @ p
   | AdjustInternal \<Rightarrow> (case sign_split x of (s, d) \<Rightarrow> s @ p @ d)
   | _ \<Rightarrow> p @ x)"

text \<open>Every formatted output is padded and resets the width.\<close>

definition put :: "string \<Rightarrow> unit oprog'" where
  "put x s = Done () (says (s\<lparr>fmt_of := (fmt_of s)\<lparr>width := 0\<rparr>\<rparr>) [Cout (pad (fmt_of s) x)])"

definition put_bool :: "bool \<Rightarrow> unit oprog'" where
  "put_bool b s = put (if boolalpha_flag (fmt_of s) then boolalpha b else if b then ''1'' else ''0'') s"

text \<open>In base 8 and 16 the number is converted to \<open>unsigned\<close> first.\<close>

definition digit_of :: "bool \<Rightarrow> nat \<Rightarrow> char" where
  "digit_of upper d = (if d < 10 then digit_char d else char_of ((if upper then 65 else 97) + (d - 10) :: nat))"

fun show_base :: "bool \<Rightarrow> nat \<Rightarrow> nat \<Rightarrow> string" where
  "show_base upper b n = (if n < b \<or> b < 2 then [digit_of upper n] else show_base upper b (n div b) @ [digit_of upper (n mod b)])"

declare show_base.simps [simp del]

definition number_text :: "fmt \<Rightarrow> int \<Rightarrow> string" where
  "number_text f i = (case base_flag f of Dec \<Rightarrow> show_int i
     | Hex \<Rightarrow> show_base (uppercase_flag f) 16 (unat (word_of_int i :: 32 word))
     | Oct \<Rightarrow> show_base (uppercase_flag f) 8 (unat (word_of_int i :: 32 word)))"

definition put_int :: "int \<Rightarrow> unit oprog'" where
  "put_int i s = put (number_text (fmt_of s) i) s"

definition put_double :: "(bool \<Rightarrow> floatfield \<Rightarrow> nat \<Rightarrow> 'd \<Rightarrow> string) \<Rightarrow> 'd \<Rightarrow> unit oprog'" where
  "put_double dbl d s = put (dbl (uppercase_flag (fmt_of s)) (float_flag (fmt_of s)) (precision (fmt_of s)) d) s"

definition set_fmt :: "(fmt \<Rightarrow> fmt) \<Rightarrow> unit oprog'" where
  "set_fmt g s = Done () (s\<lparr>fmt_of := g (fmt_of s)\<rparr>)"

definition setw :: "nat \<Rightarrow> unit oprog'" where
  "setw n = set_fmt (\<lambda>f. f\<lparr>width := n\<rparr>)"

definition get_fmt :: "fmt oprog'" where
  "get_fmt s = Done (fmt_of s) s"

section \<open>\<open>OutputFormatting.cpp\<close>\<close>

definition put_all :: "unit oprog' list \<Rightarrow> unit oprog'" where
  "put_all = block"

definition bar :: "unit oprog'" where
  "bar = put ''|''"

definition flags_part :: "(bool \<Rightarrow> floatfield \<Rightarrow> nat \<Rightarrow> 'd \<Rightarrow> string) \<Rightarrow> 'd \<Rightarrow> 'd \<Rightarrow> unit oprog'" where
  "flags_part dbl x y = put_all [
     put (''[boolalpha]'' @ endl), put_bool True, put '' '', put_bool False, put endl,
     set_fmt (\<lambda>f. f\<lparr>boolalpha_flag := True\<rparr>), put_bool False, put '' '', put_bool True, put endl,
     put (endl @ ''[showpos]'' @ endl), put_int 5, put '' '', put_int (- 5), put endl,
     set_fmt (\<lambda>f. f\<lparr>boolalpha_flag := True\<rparr>), put_int 5, put '' '', put_int (- 5), put endl,
     put (endl @ ''[uppercase]'' @ endl), put_double dbl x, put endl,
     set_fmt (\<lambda>f. f\<lparr>uppercase_flag := True\<rparr>), put_double dbl x, put endl,
     put (endl @ ''[base: dec / hex / oct]'' @ endl), put_int 11, put endl,
     set_fmt (\<lambda>f. f\<lparr>base_flag := Hex\<rparr>), put_int 11, put endl,
     put (endl @ ''[fixed vs scientific]'' @ endl),
     set_fmt (\<lambda>f. f\<lparr>float_flag := Fixed\<rparr>), put endl, set_fmt (\<lambda>f. f\<lparr>precision := 5\<rparr>), put_double dbl y, put endl,
     set_fmt (\<lambda>f. f\<lparr>float_flag := Scientific\<rparr>), put endl, set_fmt (\<lambda>f. f\<lparr>precision := 5\<rparr>), put_double dbl y, put endl]"

definition width_part :: "unit oprog'" where
  "width_part = put_all [
     put (endl @ ''[width & alignment]'' @ endl), bar, put_int (- 12345), put (''|'' @ endl),
     bar, setw 10, put_int (- 12345), put (''|'' @ endl),
     bar, setw 10, set_fmt (\<lambda>f. f\<lparr>adjust_flag := AdjustLeft\<rparr>), put_int (- 12345), put (''|'' @ endl),
     bar, setw 10, set_fmt (\<lambda>f. f\<lparr>adjust_flag := AdjustInternal\<rparr>), put_int (- 12345), put (''|'' @ endl),
     put (endl @ ''[fill]'' @ endl), set_fmt (\<lambda>f. f\<lparr>fill := CHR ''*''\<rparr>),
     setw 10, set_fmt (\<lambda>f. f\<lparr>adjust_flag := AdjustInternal\<rparr>), put_int (- 12345), put endl]"

text \<open>\<open>copyfmt\<close> saves and restores the whole format, here twice.\<close>

definition formatting_run :: "(bool \<Rightarrow> floatfield \<Rightarrow> nat \<Rightarrow> 'd \<Rightarrow> string) \<Rightarrow> 'd \<Rightarrow> 'd \<Rightarrow> unit oprog'" where
  "formatting_run dbl x y = seq get_fmt (\<lambda>old_state. block [flags_part dbl x y, set_fmt (\<lambda>_. old_state),
     width_part, set_fmt (\<lambda>_. old_state)])"

section \<open>\<open>StringStream.cpp\<close>\<close>

text \<open>A string stream: its text, where it reads and where it writes, and whether it is in a good state.\<close>

record sstream = "unit world" +
  buf :: string
  get_pos :: nat
  put_pos :: nat
  good :: bool

type_synonym 'a sprog = "(sstream, 'a) prog"

text \<open>\<open>operator<<\<close> writes over what is there; \<open>operator>>\<close> reads a word; \<open>str\<close> with a text starts both at 0.\<close>

definition stream_write :: "string \<Rightarrow> unit sprog" where
  "stream_write x s = Done () (if good s
     then s\<lparr>buf := take (put_pos s) (buf s) @ x @ drop (put_pos s + length x) (buf s), put_pos := put_pos s + length x\<rparr>
     else s)"

definition set_str :: "string \<Rightarrow> unit sprog" where
  "set_str x s = Done () (s\<lparr>buf := x, get_pos := 0, put_pos := 0\<rparr>)"

definition get_str :: "string sprog" where
  "get_str s = Done (buf s) s"

definition clear_state :: "unit sprog" where
  "clear_state s = Done () (s\<lparr>good := True\<rparr>)"

text \<open>The word read, or the old value when there is none; reading up to the end leaves the good state.\<close>

definition stream_read :: "string \<Rightarrow> string sprog" where
  "stream_read old s = (if \<not> good s then Done old s
     else let rest = drop (get_pos s) (buf s); y = dropWhile is_space rest; w = takeWhile (\<lambda>c. \<not> is_space c) y;
            n = get_pos s + (length rest - length y) + length w
       in Done (if w = [] then old else w) (s\<lparr>get_pos := n, good := n < length (buf s)\<rparr>))"

definition print_str :: "unit sprog" where
  "print_str = seq get_str cout"

definition string_stream_run :: "unit sprog" where
  "string_stream_run = seq (block [cout (endl @ ''--- String Stream Example ---'' @ endl),
       stream_write ''0xF'', print_str,
       set_str ''0x1 0x2'', clear_state, print_str]) (\<lambda>_.
     seq get_str (\<lambda>bytes_str. seq (cout bytes_str) (\<lambda>_.
     seq (block [set_str ''0x0 0xF 0xE 0x2'', clear_state]) (\<lambda>_.
     seq (stream_read bytes_str) (\<lambda>bytes_str. seq (cout bytes_str) (\<lambda>_.
     block [clear_state, stream_write (show_int 4095), stream_write '' '', stream_write (show_int 1), print_str]))))))"

definition empty_stream :: "sstream \<Rightarrow> bool" where
  "empty_stream s \<longleftrightarrow> buf s = [] \<and> get_pos s = 0 \<and> put_pos s = 0 \<and> good s"

section \<open>\<open>IOStream.cpp\<close>\<close>

text \<open>\<open>std::cin\<close> reads from the buffer it was given: the keyboard's, or that of a string stream.\<close>

datatype source = Keyboard | Stream

record redirect = "unit world" +
  keyboard :: string
  stream :: string
  source_of :: source

type_synonym 'a rprog = "(redirect, 'a) prog"

definition rdbuf :: "source \<Rightarrow> source rprog" where
  "rdbuf b s = Done (source_of s) (s\<lparr>source_of := b\<rparr>)"

text \<open>\<open>std::getline\<close>: the text is cleared first.\<close>

definition get_line :: "string rprog" where
  "get_line s = (case get_item (CHR 0x0A) (case source_of s of Keyboard \<Rightarrow> keyboard s | Stream \<Rightarrow> stream s) of
     None \<Rightarrow> Done [] s
   | Some (x, rest) \<Rightarrow> Done x (case source_of s of Keyboard \<Rightarrow> s\<lparr>keyboard := rest\<rparr> | Stream \<Rightarrow> s\<lparr>stream := rest\<rparr>))"

definition iostream_run :: "unit rprog" where
  "iostream_run = seq (cout (endl @ ''--- IO Streams Example ---'' @ endl)) (\<lambda>_.
     seq (\<lambda>s. Done () (s\<lparr>stream := ''input aa aa''\<rparr>)) (\<lambda>_.
     seq (rdbuf Stream) (\<lambda>old_buf. seq get_line (\<lambda>input_str. seq (rdbuf old_buf) (\<lambda>_.
     block [cout (''[cout] '' @ input_str @ endl), emit (Cerr (''[cerr] '' @ input_str @ endl)),
       emit (Cerr (''[clog] '' @ input_str @ endl))])))))"

section \<open>\<open>TerminalColor.cpp\<close>\<close>

definition escape :: "string \<Rightarrow> string" where
  "escape x = CHR 0x1B # CHR ''['' # x @ ''m''"

definition kReset :: string where
  "kReset = escape ''0''"

definition colors :: "(string \<times> string) list" where
  "colors = [(''RED'', escape ''31''), (''BLACK'', escape ''30''), (''GREEN'', escape ''32''), (''YELLOW'', escape ''33''),
     (''BLUE'', escape ''34''), (''MAGENTA'', escape ''35''), (''CYAN'', escape ''36''), (''WHITE'', escape ''37'')]"

definition bold_colors :: "(string \<times> string) list" where
  "bold_colors = [(''BOLD RED'', escape ''1'' @ escape ''31''), (''BOLD GREEN'', escape ''1'' @ escape ''32''),
     (''BOLD BLUE'', escape ''1'' @ escape ''34''), (''BOLD CYAN'', escape ''1'' @ escape ''36''),
     (''BOLD MAGENTA'', escape ''1'' @ escape ''35''), (''BOLD WHITE'', escape ''1'' @ escape ''37''),
     (''BOLD YELLOW'', escape ''1'' @ escape ''33''), (''BOLD BLACK'', escape ''1'' @ escape ''30'')]"

definition color_run :: "('o world, unit) prog" where
  "color_run = seq (LOG ''Terminal Color Example'') (\<lambda>_.
     for_each (colors @ bold_colors) (\<lambda>(x, color). LOG (color @ x @ kReset)))"


section \<open>Padding and restoring\<close>

lemma pad_length: "length (pad f x) = max (width f) (length x)"
  by (cases x; cases "adjust_flag f") (auto simp: pad_def sign_split_def Let_def)

lemma pad_wide: "width f \<le> length x \<Longrightarrow> pad f x = x"
  by (cases "adjust_flag f") (auto simp: pad_def sign_split_def)

definition returns :: "('s, unit) prog \<Rightarrow> bool" where
  "returns m \<longleftrightarrow> (\<forall>s. \<exists>t. m s = Done () t)"

lemma returns_ops [intro]: "returns (put x)" "returns (put_bool b)" "returns (put_int i)" "returns (put_double dbl d)" "returns (set_fmt g)"
  by (auto simp: returns_def put_def put_bool_def put_int_def put_double_def set_fmt_def)

lemma returns_block: "list_all returns ms \<Longrightarrow> returns (block ms)"
  unfolding returns_def by (induction ms) (auto simp: machine, metis result.simps(10))

lemma returns_parts: "returns (flags_part dbl x y)" "returns width_part"
  unfolding flags_part_def width_part_def put_all_def bar_def setw_def
  by (rule returns_block, simp only: list.pred_inject, intro conjI TrueI returns_ops)+

text \<open>
  Whatever format \<open>std::cout\<close> has, the example returns and leaves exactly that format: flags, base,
  precision, fill and width.
\<close>

theorem formatting_restores: "\<exists>t. formatting_run dbl x y s = Done () t \<and> fmt_of t = fmt_of s"
proof -
  obtain t where t: "flags_part dbl x y s = Done () t" using returns_parts(1) [of dbl x y, unfolded returns_def] by blast
  obtain u where "width_part (t\<lparr>fmt_of := fmt_of s\<rparr>) = Done () u" using returns_parts(2) [unfolded returns_def] by blast
  with t show ?thesis by (simp add: formatting_run_def get_fmt_def set_fmt_def machine)
qed

text \<open>The flag that the example sets for \<open>[showpos]\<close> does not concern numbers.\<close>

lemma number_text_boolalpha: "number_text (f\<lparr>boolalpha_flag := b\<rparr>) i = number_text f i"
  by (simp add: number_text_def split: base.split)

text \<open>
  Writing to a string stream that was given a text overwrites its beginning; the rest of the text
  stays.
\<close>

theorem stream_write_over:
  assumes "good s"
  shows "\<exists>t. block [set_str x, stream_write y, stream_write z] s = Done () t \<and> buf t = y @ z @ drop (length y + length z) x"
  using assms by (simp add: set_str_def stream_write_def machine add.commute)

lemma sstream_says [simp]: "buf (says s ls) = buf s" "get_pos (says s ls) = get_pos s" "put_pos (says s ls) = put_pos s" "good (says s ls) = good s"
  by (simp_all add: says_def)

text \<open>A word is read, and the text is written over from its start.\<close>

lemma read_then_write:
  assumes "w \<noteq> []" and "\<forall>c \<in> set w. \<not> is_space c" and "is_space c"
  shows "\<exists>t. seq (block [set_str (w @ c # x), clear_state]) (\<lambda>_. seq (stream_read old) (\<lambda>y. seq (cout y) (\<lambda>_.
      block [clear_state, stream_write u, stream_write v, stream_write z, print_str]))) s = Done () t
    \<and> out t = out s @ [Cout w, Cout (u @ v @ z @ drop (length (u @ v @ z)) (w @ c # x))]"
proof -
  have d: "dropWhile is_space (w @ c # x) = w @ c # x" using assms(1,2) by (cases w) simp_all
  have t: "takeWhile (\<lambda>d. \<not> is_space d) (w @ c # x) = w" using assms(2,3) by simp
  show ?thesis
    using assms(1) by (simp add: set_str_def clear_state_def stream_read_def d t stream_write_def print_str_def get_str_def Let_def
      machine add.commute add.left_commute) (rule arg_cong2 [of _ _ _ _ drop], arith, rule refl)
qed

lemma string_stream_run_prints:
  assumes "empty_stream s"
  shows "\<exists>t. string_stream_run s = Done () t \<and> out t = out s @ map Cout [endl @ ''--- String Stream Example ---'' @ endl,
    ''0xF'', ''0x1 0x2'', ''0x1 0x2'', ''0x0'', ''4095 1F 0xE 0x2'']"
proof -
  define x where "x = endl @ ''--- String Stream Example ---'' @ endl"
  let ?first = "block [cout x, stream_write ''0xF'', print_str, set_str ''0x1 0x2'', clear_state, print_str]"
  obtain t where t: "?first s = Done () t" "buf t = ''0x1 0x2''" "out t = out s @ [Cout x, Cout ''0xF'', Cout ''0x1 0x2'']"
    using assms by (simp add: empty_stream_def stream_write_def print_str_def get_str_def set_str_def clear_state_def machine)
  have n: "show_int 4095 = ''4095''" "show_int 1 = ''1''" by (simp_all add: show_int_def show_nat.simps digit_char_literals)
  obtain u where u: "seq (block [set_str (''0x0'' @ CHR '' '' # ''0xF 0xE 0x2''), clear_state]) (\<lambda>_. seq (stream_read ''0x1 0x2'')
      (\<lambda>y. seq (cout y) (\<lambda>_. block [clear_state, stream_write ''4095'', stream_write '' '', stream_write ''1'', print_str])))
      (says t [Cout ''0x1 0x2'']) = Done () u"
      "out u = out (says t [Cout ''0x1 0x2'']) @ [Cout ''0x0'', Cout (''4095'' @ '' '' @ ''1'' @ drop (length (''4095'' @ '' '' @ ''1'')) (''0x0'' @ CHR '' '' # ''0xF 0xE 0x2''))]"
    using read_then_write [of "''0x0''" "CHR '' ''" "''0xF 0xE 0x2''" "''0x1 0x2''" "''4095''" "'' ''" "''1''" "says t [Cout ''0x1 0x2'']"]
    by (auto simp: is_space_def)
  have "string_stream_run s = Done () u"
    unfolding string_stream_run_def x_def [symmetric] n seq_def [of ?first] t(1)
    using u(1) t(2) by (simp add: seq_def get_str_def cout_def emit_def)
  then show ?thesis using u(2) t(3) by (simp add: x_def)
qed

text \<open>The keyboard is read again afterwards, and nothing typed was consumed.\<close>

lemma iostream_run_prints: "\<exists>t. iostream_run s = Done () t \<and> keyboard t = keyboard s \<and> source_of t = source_of s
    \<and> out t = out s @ [Cout (endl @ ''--- IO Streams Example ---'' @ endl), Cout (''[cout] '' @ ''input aa aa'' @ endl),
      Cerr (''[cerr] '' @ ''input aa aa'' @ endl), Cerr (''[clog] '' @ ''input aa aa'' @ endl)]"
  by (simp add: iostream_run_def rdbuf_def get_line_def get_item_def machine says_def)

section \<open>Colours\<close>

text \<open>What a terminal shows: every character with the codes in force, and the codes in force at the end.\<close>

lemma skip_code: "length (tl (dropWhile is_digit (tl y))) < Suc (length y)"
  using length_dropWhile_le [of is_digit "tl y"] by (simp add: less_Suc_eq_le)

function shown :: "nat list \<Rightarrow> string \<Rightarrow> (char \<times> nat list) list \<times> nat list" where
  "shown codes [] = ([], codes)"
| "shown codes (c # y) = (if c = CHR 0x1B
     then shown (if read_nat (takeWhile is_digit (tl y)) = 0 then [] else codes @ [read_nat (takeWhile is_digit (tl y))])
       (tl (dropWhile is_digit (tl y)))
     else (case shown codes y of (cs, e) \<Rightarrow> ((c, codes) # cs, e)))"
  by pat_completeness auto
termination
  by (relation "measure (\<lambda>(codes, x). length x)") (use skip_code in simp_all)

text \<open>Every line of the example shows its name in its colour, and ends in the default style.\<close>

lemma colored_lines:
  "list_all (\<lambda>(x, color). map fst (fst (shown [] (color @ x @ kReset))) = x \<and> snd (shown [] (color @ x @ kReset)) = []
     \<and> (\<forall>p \<in> set (fst (shown [] (color @ x @ kReset))). snd p \<noteq> [])) (colors @ bold_colors)"
  by code_simp

theorem stream_write_over_witness:
  "\<exists>t. block [set_str ''0x0 0xF'', stream_write ''4095'', stream_write '' 1'']
      \<lparr>cells = Map.empty, brk = 0, out = [], buf = [], get_pos = 0, put_pos = 0, good = True\<rparr> = Done () t \<and> buf t = ''4095 1F''"
  using stream_write_over [of "\<lparr>cells = Map.empty, brk = 0, out = [], buf = [], get_pos = 0, put_pos = 0, good = True\<rparr>"
    "''0x0 0xF''" "''4095''" "'' 1''"] by simp

end
