(* ===== verification/Functions.thy ===== *)
theory Functions
  imports StdStrings "HOL-Library.Signed_Division" "HOL-Library.Multiset"
begin

text \<open>
  Functions as values: \<open>src/core/function/FunctionPointer.cpp\<close>, \<open>Lambda.cpp\<close>, \<open>Functional.cpp\<close>,
  \<open>operator_overloading/FunctionCallOperator.cpp\<close> and \<open>src/core/utils/Algorithm.cpp\<close>.

  A function of the source that is passed on is a program with its effects.  \<open>std::sort\<close> is given by
  the comparisons it makes: a decision tree over the positions of its input, whose leaves are
  arrangements.  Which tree is a parameter; the standard says that it sorts by any strict weak order.

  Lemmas: a tree that sorts exists for every length (insertion); the runs of both sorting examples for
  every such tree, with the comparisons seen on the console; the calls through \<open>std::function\<close>, also of
  an empty one; the searches.
\<close>

section \<open>Sorting with a comparison that is passed\<close>

datatype plan = Sorted "nat list" | Ask nat nat plan plan

text \<open>\<open>std::sort\<close> on the values \<open>xs\<close>: a position outside them is an undefined access.\<close>

primrec std_sort :: "plan \<Rightarrow> ('a \<Rightarrow> 'a \<Rightarrow> ('s, bool) prog) \<Rightarrow> 'a list \<Rightarrow> ('s, 'a list) prog" where
  "std_sort (Sorted js) cmp xs = (if \<forall>j \<in> set js. j < length xs then ret (map ((!) xs) js) else undef BadIndex)"
| "std_sort (Ask i j p q) cmp xs = (if i < length xs \<and> j < length xs
     then seq (cmp (xs ! i) (xs ! j)) (\<lambda>b. if b then std_sort p cmp xs else std_sort q cmp xs) else undef BadIndex)"

definition increase :: "int \<Rightarrow> int \<Rightarrow> (('o, 'z) world_scheme, int) prog" where
  "increase a b = seq (LOG []) (\<lambda>_. ret (if a > b then 1 else 0))"

definition decrease :: "int \<Rightarrow> int \<Rightarrow> (('o, 'z) world_scheme, int) prog" where
  "decrease a b = seq (LOG []) (\<lambda>_. ret (if a < b then 1 else 0))"

text \<open>A call through a pointer to a function, whose result is tested for being nonzero.\<close>

type_synonym 's sort_function_ptr = "int \<Rightarrow> int \<Rightarrow> ('s, int) prog"

definition call_ptr :: "'s sort_function_ptr \<Rightarrow> int \<Rightarrow> int \<Rightarrow> ('s, bool) prog" where
  "call_ptr f a b = seq (f a b) (\<lambda>r. ret (r \<noteq> 0))"

definition list_text :: "int list \<Rightarrow> string" where
  "list_text xs = concat (map (\<lambda>e. show_int e @ '' '') xs)"

definition f_print :: "int list \<Rightarrow> (('o, 'z) world_scheme, unit) prog" where
  "f_print vec = LOG (list_text vec)"

definition vect :: "int list" where
  "vect = [-1, -6, 4, 2, 0, 6, 3, 9, -5]"

definition pointer_run :: "plan \<Rightarrow> plan \<Rightarrow> ('o world, unit) prog" where
  "pointer_run p q = seq (block [LOG ''Before sorting : '', f_print vect, LOG ''Sorting in descending order'']) (\<lambda>_.
     seq (std_sort p (call_ptr increase) vect) (\<lambda>v.
     seq (block [f_print v, LOG ''Sorting with absolute value as parameter'']) (\<lambda>_.
     seq (std_sort q (call_ptr decrease) v) (\<lambda>v. LOG (list_text v)))))"

definition lambda_run :: "plan \<Rightarrow> plan \<Rightarrow> ('o world, unit) prog" where
  "lambda_run p q = seq (block [LOG ''Before sorting : '', f_print vect, LOG ''Sorting in descending order'']) (\<lambda>_.
     seq (std_sort p (\<lambda>a b. ret (a > b)) vect) (\<lambda>v.
     seq (block [f_print v, LOG ''Sorting with absolute value as parameter'']) (\<lambda>_.
     seq (std_sort q (\<lambda>a b. ret (a < b)) v) (\<lambda>v. LOG (list_text v)))))"

section \<open>\<open>Functional.cpp\<close>\<close>

type_synonym 's function2 = "(int \<Rightarrow> int \<Rightarrow> ('s, int) prog) option"

definition add :: "int \<Rightarrow> int \<Rightarrow> (('o, 'z) world_scheme, int) prog" where
  "add a b = seq (LOG []) (\<lambda>_. to_int32 (a + b))"

definition sub :: "int \<Rightarrow> int \<Rightarrow> (('o, 'z) world_scheme, int) prog" where
  "sub a b = seq (LOG []) (\<lambda>_. to_int32 (a - b))"

definition mul :: "int \<Rightarrow> int \<Rightarrow> (('o, 'z) world_scheme, int) prog" where
  "mul a b = seq (LOG []) (\<lambda>_. to_int32 (a * b))"

definition quotient :: "int \<Rightarrow> int \<Rightarrow> ('s, int) prog" where
  "quotient a b = (if b = 0 then undef DivByZero else to_int32 (a sdiv b))"

definition divs :: "int \<Rightarrow> int \<Rightarrow> (('o, 'z) world_scheme, int) prog" where
  "divs a b = seq (LOG []) (\<lambda>_. quotient a b)"

text \<open>The remainder is undefined where the quotient is.\<close>

definition remainder :: "int \<Rightarrow> int \<Rightarrow> ('s, int) prog" where
  "remainder a b = seq (quotient a b) (\<lambda>_. ret (a smod b))"

definition func :: "int \<Rightarrow> int \<Rightarrow> ('o, 'z) world_scheme function2 \<Rightarrow> (('o, 'z) world_scheme, unit) prog" where
  "func a b calc = (case calc of None \<Rightarrow> LOG ''No function provided''
     | Some f \<Rightarrow> seq (f a b) (\<lambda>result. LOG_S (show_int result)))"

definition functional_run :: "('o world, unit) prog" where
  "functional_run = block [func 8 2 (Some add), func 8 2 (Some sub), func 8 2 (Some mul), func 8 2 (Some divs),
     func 8 2 (Some remainder)]"

section \<open>\<open>FunctionCallOperator.cpp\<close>\<close>

text \<open>The arithmetic and the printing of \<open>double\<close> are given.\<close>

record 'd double_ops =
  plus_d :: "'d \<Rightarrow> 'd \<Rightarrow> 'd"
  times_d :: "'d \<Rightarrow> 'd \<Rightarrow> 'd"
  of_int_d :: "int \<Rightarrow> 'd"
  show_d :: "'d \<Rightarrow> string"

datatype 'd Linear = Linear 'd 'd

fun call_Linear :: "'d double_ops \<Rightarrow> 'd Linear \<Rightarrow> 'd \<Rightarrow> (('o, 'z) world_scheme, 'd) prog" where
  "call_Linear fp (Linear a b) x = seq (LOG []) (\<lambda>_. ret (plus_d fp (times_d fp a x) b))"

definition linear_run :: "'d double_ops \<Rightarrow> ('o world, unit) prog" where
  "linear_run fp = (let f = Linear (of_int_d fp 2) (of_int_d fp 1) in
     seq (call_Linear fp f (of_int_d fp 0)) (\<lambda>f_0. LOG_S (show_d fp f_0)))"

section \<open>\<open>Algorithm.cpp\<close>\<close>

text \<open>The element found, or nothing for \<open>v.end()\<close>.\<close>

primrec find_if :: "(int \<Rightarrow> bool) \<Rightarrow> int list \<Rightarrow> int option" where
  "find_if p [] = None"
| "find_if p (i # v) = (if p i then Some i else find_if p v)"

definition find_if_not :: "(int \<Rightarrow> bool) \<Rightarrow> int list \<Rightarrow> int option" where
  "find_if_not p = find_if (\<lambda>i. \<not> p i)"

definition is_even :: "int \<Rightarrow> bool" where
  "is_even i \<longleftrightarrow> i smod 2 = 0"

definition find_run :: "('o world, unit) prog" where
  "find_run = (let v = [1, 2, 3, 4, 5] in block [LOG ''std::find_if example'',
     (case find_if is_even v of Some i \<Rightarrow> LOG (''First even number: '' @ show_int i) | None \<Rightarrow> LOG ''No even number found''),
     LOG ''std::find_if_not example'',
     (case find_if_not is_even v of Some i \<Rightarrow> LOG (''First odd number: '' @ show_int i) | None \<Rightarrow> LOG ''No odd number found'')])"

section \<open>What sorting promises, and a tree that keeps it\<close>

definition strict_weak :: "('a \<Rightarrow> 'a \<Rightarrow> bool) \<Rightarrow> bool" where
  "strict_weak lt \<longleftrightarrow> (\<forall>a. \<not> lt a a) \<and> (\<forall>a b c. lt a b \<longrightarrow> lt b c \<longrightarrow> lt a c)
     \<and> (\<forall>a b c. \<not> lt a b \<longrightarrow> \<not> lt b c \<longrightarrow> \<not> lt a c)"

text \<open>The result for a comparison without effects.\<close>

definition order :: "('a \<Rightarrow> 'a \<Rightarrow> bool) \<Rightarrow> 'a list \<Rightarrow> plan \<Rightarrow> (unit, 'a list) result" where
  "order lt xs p = std_sort p (\<lambda>a b. ret (lt a b)) xs ()"

lemma order_simps [simp]:
  "order lt xs (Sorted js) = (if \<forall>j \<in> set js. j < length xs then Done (map ((!) xs) js) () else Undef BadIndex)"
  "order lt xs (Ask i j p q) = (if i < length xs \<and> j < length xs
     then if lt (xs ! i) (xs ! j) then order lt xs p else order lt xs q else Undef BadIndex)"
  by (simp_all add: order_def machine)

definition sorts :: "nat \<Rightarrow> plan \<Rightarrow> bool" where
  "sorts n p \<longleftrightarrow> (\<forall>lt xs. strict_weak lt \<longrightarrow> length xs = n \<longrightarrow>
     (\<exists>ys. order lt (xs :: int list) p = Done ys () \<and> mset ys = mset xs
        \<and> sorted_wrt (\<lambda>a b. \<not> lt b a) ys))"

text \<open>Insertion: the first position that comes after the new one.\<close>

primrec insert_plan :: "nat \<Rightarrow> nat list \<Rightarrow> nat list \<Rightarrow> (nat list \<Rightarrow> plan) \<Rightarrow> plan" where
  "insert_plan i [] pre k = k (pre @ [i])"
| "insert_plan i (j # js) pre k = Ask i j (k (pre @ i # j # js)) (insert_plan i js (pre @ [j]) k)"

primrec sort_plan :: "nat list \<Rightarrow> nat list \<Rightarrow> plan" where
  "sort_plan [] js = Sorted js"
| "sort_plan (i # is) js = insert_plan i js [] (sort_plan is)"

primrec ins :: "('a \<Rightarrow> 'a \<Rightarrow> bool) \<Rightarrow> 'a \<Rightarrow> 'a list \<Rightarrow> 'a list" where
  "ins lt x [] = [x]"
| "ins lt x (y # ys) = (if lt x y then x # y # ys else y # ins lt x ys)"

lemma mset_ins: "mset (ins lt x ys) = add_mset x (mset ys)"
  by (induction ys) simp_all

lemma set_ins [simp]: "set (ins lt x ys) = insert x (set ys)"
  by (induction ys) auto

lemma ins_sorted:
  assumes "strict_weak lt"
  shows "sorted_wrt (\<lambda>a b. \<not> lt b a) ys \<Longrightarrow> sorted_wrt (\<lambda>a b. \<not> lt b a) (ins lt x ys)"
proof (induction ys)
  case (Cons y ys)
  have irrefl: "\<not> lt a a" and trans: "lt a b \<Longrightarrow> lt b c \<Longrightarrow> lt a c" for a b c
    using assms unfolding strict_weak_def by blast+
  show ?case
  proof (cases "lt x y")
    case True
    with Cons.prems irrefl trans show ?thesis by auto
  next
    case False
    with Cons show ?thesis by auto
  qed
qed simp

lemma std_sort_insert:
  assumes "i < length xs" and "\<forall>j \<in> set js. j < length xs"
  shows "\<exists>ks. map ((!) xs) ks = ins lt (xs ! i) (map ((!) xs) js) \<and> set ks = insert i (set js)
    \<and> order lt xs (insert_plan i js pre k) = order lt xs (k (pre @ ks))"
  using assms(2)
proof (induction js arbitrary: pre)
  case Nil
  have "map ((!) xs) [i] = ins lt (xs ! i) (map ((!) xs) [])" by simp
  then show ?case by (intro exI [of _ "[i]"]) simp
next
  case (Cons j js)
  show ?case
  proof (cases "lt (xs ! i) (xs ! j)")
    case True
    with Cons.prems assms(1) show ?thesis by (intro exI [of _ "i # j # js"]) simp
  next
    case False
    obtain ks where "map ((!) xs) ks = ins lt (xs ! i) (map ((!) xs) js)" "set ks = insert i (set js)"
        "order lt xs (insert_plan i js (pre @ [j]) k) = order lt xs (k ((pre @ [j]) @ ks))"
      using Cons.IH [of "pre @ [j]"] Cons.prems by auto
    with False Cons.prems assms(1) show ?thesis by (intro exI [of _ "j # ks"]) auto
  qed
qed

lemma sort_plan_sorts:
  assumes "strict_weak lt" and "\<forall>j \<in> set is \<union> set js. j < length xs" and "sorted_wrt (\<lambda>a b. \<not> lt b a) (map ((!) xs) js)"
  shows "\<exists>ys. order lt xs (sort_plan is js) = Done ys ()
    \<and> mset ys = mset (map ((!) xs) (is @ js)) \<and> sorted_wrt (\<lambda>a b. \<not> lt b a) ys"
  using assms(2,3)
proof (induction "is" arbitrary: js)
  case Nil
  then show ?case by auto
next
  case (Cons i "is")
  from Cons.prems have "i < length xs" "\<forall>j \<in> set js. j < length xs" by auto
  from std_sort_insert [OF this, of lt "[]" "sort_plan is"]
  obtain ks where ks: "map ((!) xs) ks = ins lt (xs ! i) (map ((!) xs) js)" "set ks = insert i (set js)"
      "order lt xs (sort_plan (i # is) js) = order lt xs (sort_plan is ks)"
    by auto
  have "sorted_wrt (\<lambda>a b. \<not> lt b a) (map ((!) xs) ks)"
    using ins_sorted [OF assms(1) Cons.prems(2), of "xs ! i"] unfolding ks(1) .
  moreover have "\<forall>j \<in> set is \<union> set ks. j < length xs" using Cons.prems(1) ks(2) by auto
  moreover have "mset (map ((!) xs) (is @ ks)) = mset (map ((!) xs) ((i # is) @ js))"
    using arg_cong [OF ks(1), of mset] unfolding map_append mset_append by (simp add: mset_ins)
  ultimately show ?case using Cons.IH [of ks] ks(3) by metis
qed

lemma insertion_sorts: "sorts n (sort_plan [0 ..< n] [])"
proof -
  have "\<exists>ys. order lt xs (sort_plan [0 ..< n] []) = Done ys () \<and> mset ys = mset xs
      \<and> sorted_wrt (\<lambda>a b. \<not> lt b a) ys" if "strict_weak lt" "length xs = n" for lt and xs :: "int list"
  proof -
    have "map ((!) xs) ([0 ..< n] @ []) = xs" using that(2) map_nth [of xs] by simp
    then show ?thesis using sort_plan_sorts [OF that(1), of "[0 ..< n]" "[]" xs] that(2) by (simp del: map_append)
  qed
  then show ?thesis unfolding sorts_def by blast
qed

section \<open>The runs\<close>

text \<open>A comparison that also prints orders as without printing.\<close>

lemma std_sort_effect:
  assumes "order lt xs p = Done ys ()" and "\<And>a b s. cmp a b s = Done (lt a b) (says s ls)"
  shows "\<exists>n. std_sort p cmp xs s = Done ys (says s (concat (replicate n ls)))"
  using assms(1)
proof (induction p arbitrary: s)
  case (Sorted js)
  then show ?case by (intro exI [of _ 0]) (auto simp: machine split: if_splits)
next
  case (Ask i j p q)
  let ?p = "if lt (xs ! i) (xs ! j) then p else q"
  from Ask.prems have ij: "i < length xs" "j < length xs" and d: "order lt xs ?p = Done ys ()"
    by (auto simp: machine split: if_splits)
  obtain n where "std_sort ?p cmp xs (says s ls) = Done ys (says (says s ls) (concat (replicate n ls)))"
    using Ask.IH [of "says s ls"] d by (auto split: if_splits)
  with ij show ?case by (intro exI [of _ "Suc n"]) (auto simp: machine assms(2) [of "xs ! i" "xs ! j" s] split: if_splits)
qed

lemma call_increase: "call_ptr increase a b s = Done (a > b) (says s [Log []])"
  by (simp add: call_ptr_def increase_def machine)

lemma call_decrease: "call_ptr decrease a b s = Done (a < b) (says s [Log []])"
  by (simp add: call_ptr_def decrease_def machine)

lemma concat_replicate_single: "concat (replicate n [x]) = replicate n x"
  by (induction n) simp_all

lemma strict_weak_int: "strict_weak ((<) :: int \<Rightarrow> int \<Rightarrow> bool)" "strict_weak ((>) :: int \<Rightarrow> int \<Rightarrow> bool)"
  by (auto simp: strict_weak_def)

lemma sorts_ascending:
  fixes xs :: "int list"
  assumes "sorts (length xs) p"
  shows "order (<) xs p = Done (sort xs) ()"
proof -
  obtain ys where "order (<) xs p = Done ys ()" "mset ys = mset xs" "sorted_wrt (\<lambda>a b. \<not> b < a) ys"
    using assms strict_weak_int(1) unfolding sorts_def by blast
  moreover from this have "sort xs = ys" by (intro properties_for_sort) (simp_all add: not_less)
  ultimately show ?thesis by simp
qed

lemma sorts_descending:
  fixes xs :: "int list"
  assumes "sorts (length xs) p"
  shows "order (>) xs p = Done (rev (sort xs)) ()"
proof -
  obtain ys where "order (>) xs p = Done ys ()" "mset ys = mset xs" "sorted_wrt (\<lambda>a b. \<not> b > a) ys"
    using assms strict_weak_int(2) unfolding sorts_def by blast
  moreover from this have "sort xs = rev ys" by (intro properties_for_sort) (simp_all add: not_less sorted_wrt_rev)
  ultimately show ?thesis by simp
qed

definition sorting_lines :: "nat \<Rightarrow> nat \<Rightarrow> line list" where
  "sorting_lines m n = [Log ''Before sorting : '', Log (list_text vect), Log ''Sorting in descending order''] @ replicate m (Log [])
     @ [Log (list_text [9, 6, 4, 3, 2, 0, -1, -5, -6]), Log ''Sorting with absolute value as parameter''] @ replicate n (Log [])
     @ [Log (list_text [-6, -5, -1, 0, 2, 3, 4, 6, 9])]"

lemma sorted_vect: "sort vect = [-6, -5, -1, 0, 2, 3, 4, 6, 9]" "sort [9, 6, 4, 3, 2, 0, -1, -5, -6 :: int] = [-6, -5, -1, 0, 2, 3, 4, 6, 9]"
  by (simp_all add: vect_def)

lemma sorts_vect:
  assumes "sorts 9 p" and "sorts 9 q"
  shows "order (>) vect p = Done [9, 6, 4, 3, 2, 0, -1, -5, -6] ()"
    "order (<) [9, 6, 4, 3, 2, 0, -1, -5, -6] q = Done [-6, -5, -1, 0, 2, 3, 4, 6, 9 :: int] ()"
proof -
  have "length vect = 9" "length [9, 6, 4, 3, 2, 0, -1, -5, -6 :: int] = 9" by (simp_all add: vect_def)
  then show "order (>) vect p = Done [9, 6, 4, 3, 2, 0, -1, -5, -6] ()"
      "order (<) [9, 6, 4, 3, 2, 0, -1, -5, -6] q = Done [-6, -5, -1, 0, 2, 3, 4, 6, 9 :: int] ()"
    using sorts_descending [of vect p] sorts_ascending [of "[9, 6, 4, 3, 2, 0, -1, -5, -6]" q] assms
    by (simp_all only: sorted_vect) simp_all
qed

text \<open>
  Whatever comparisons \<open>std::sort\<close> makes, as long as they sort nine elements: with pointers to
  functions and with lambdas the run prints the numbers in descending and then in ascending order; the
  two differ only in the empty lines that the functions log, one for each comparison.
\<close>

theorem sorting_runs_agree:
  assumes "sorts 9 p" and "sorts 9 q"
  shows "(\<exists>m n. pointer_run p q s = Done () (says s (sorting_lines m n))) \<and> lambda_run p q s = Done () (says s (sorting_lines 0 0))"
proof
  note v = sorts_vect [OF assms]
  let ?t = "says s [Log ''Before sorting : '', Log (list_text vect), Log ''Sorting in descending order'']"
  obtain m where m: "std_sort p (call_ptr increase) vect ?t = Done [9, 6, 4, 3, 2, 0, -1, -5, -6] (says ?t (replicate m (Log [])))"
    using std_sort_effect [OF v(1) call_increase, of ?t] by (auto simp: concat_replicate_single)
  let ?u = "says (says ?t (replicate m (Log []))) [Log (list_text [9, 6, 4, 3, 2, 0, -1, -5, -6]), Log ''Sorting with absolute value as parameter'']"
  obtain n where n: "std_sort q (call_ptr decrease) [9, 6, 4, 3, 2, 0, -1, -5, -6] ?u
      = Done [-6, -5, -1, 0, 2, 3, 4, 6, 9] (says ?u (replicate n (Log [])))"
    using std_sort_effect [OF v(2) call_decrease, of ?u] by (auto simp: concat_replicate_single)
  show "\<exists>m n. pointer_run p q s = Done () (says s (sorting_lines m n))"
    using m n by (intro exI [of _ m] exI [of _ n]) (simp add: pointer_run_def f_print_def machine sorting_lines_def)
  have "std_sort p (\<lambda>a b. ret (a > b)) vect w = Done [9, 6, 4, 3, 2, 0, -1, -5, -6] w"
    "std_sort q (\<lambda>a b. ret (a < b)) [9, 6, 4, 3, 2, 0, -1, -5, -6] w = Done [-6, -5, -1, 0, 2, 3, 4, 6, 9 :: int] w" for w :: "'a world"
    using std_sort_effect [OF v(1), of "\<lambda>a b. ret (a > b)" "[]" w] std_sort_effect [OF v(2), of "\<lambda>a b. ret (a < b)" "[]" w]
    by (auto simp: ret_def)
  then show "lambda_run p q s = Done () (says s (sorting_lines 0 0))"
    by (simp add: lambda_run_def f_print_def machine sorting_lines_def)
qed

theorem sorting_runs_agree_witness:
  "(\<exists>m n. pointer_run (sort_plan [0 ..< 9] []) (sort_plan [0 ..< 9] []) (boot :: unit world) = Done () (says boot (sorting_lines m n)))
    \<and> lambda_run (sort_plan [0 ..< 9] []) (sort_plan [0 ..< 9] []) (boot :: unit world) = Done () (says boot (sorting_lines 0 0))"
  using sorting_runs_agree [OF insertion_sorts insertion_sorts] .

text \<open>A call through \<open>std::function\<close>: what it logs, and where it is undefined.\<close>

lemma func_empty: "func a b None s = Done () (says s [Log ''No function provided''])"
  by (simp add: func_def machine)

text \<open>
  The five calculations through \<open>std::function\<close> for any arguments: each logs its exact 32-bit
  result, after an empty line but for the lambda; a result out of range and a division by zero are
  undefined, and so is the remainder of the smallest number by minus one.
\<close>

theorem func_calculates:
  "func a b (Some add) s = (if int32 (a + b) then Done () (says s [Log [], Log (show_int (a + b))]) else Undef SignedOverflow)
    \<and> func a b (Some sub) s = (if int32 (a - b) then Done () (says s [Log [], Log (show_int (a - b))]) else Undef SignedOverflow)
    \<and> func a b (Some mul) s = (if int32 (a * b) then Done () (says s [Log [], Log (show_int (a * b))]) else Undef SignedOverflow)
    \<and> func a b (Some divs) s = (if b = 0 then Undef DivByZero else if int32 (a sdiv b)
        then Done () (says s [Log [], Log (show_int (a sdiv b))]) else Undef SignedOverflow)
    \<and> func a b (Some remainder) s = (if b = 0 then Undef DivByZero else if int32 (a sdiv b)
        then Done () (says s [Log (show_int (a - (a sdiv b) * b))]) else Undef SignedOverflow)
    \<and> func a b None s = Done () (says s [Log ''No function provided''])"
  by (simp add: func_def add_def sub_def mul_def divs_def quotient_def remainder_def to_int32_def minus_sdiv_mult_eq_smod machine)

lemma functional_run_prints: "functional_run s = Done () (says s
    [Log [], Log (show_int 10), Log [], Log (show_int 6), Log [], Log (show_int 16), Log [], Log (show_int 4), Log (show_int 0)])"
proof -
  have r: "(8 :: int) sdiv 2 = 4" "(8 :: int) smod 2 = 0" by (simp_all add: signed_divide_int_def smod_int_alt_def)
  show ?thesis
    by (simp add: functional_run_def func_def add_def sub_def mul_def divs_def quotient_def remainder_def to_int32_def int32_def machine r)
qed

lemma find_if_first: "find_if p v = (case dropWhile (\<lambda>i. \<not> p i) v of [] \<Rightarrow> None | i # _ \<Rightarrow> Some i)"
  by (induction v) simp_all

lemma find_run_prints: "find_run s = Done () (says s [Log ''std::find_if example'', Log (''First even number: '' @ show_int 2),
    Log ''std::find_if_not example'', Log (''First odd number: '' @ show_int 1)])"
  by (simp add: find_run_def find_if_not_def is_even_def smod_int_alt_def machine)

lemma linear_run_prints: "linear_run fp s = Done () (says s [Log [],
    Log (chomp (show_d fp (plus_d fp (times_d fp (of_int_d fp 2) (of_int_d fp 0)) (of_int_d fp 1))))])"
  by (simp add: linear_run_def machine)

end
