(* ===== verification/Times.thy ===== *)
theory Times
  imports Logger
begin

text \<open>
  \<open>src/core/datetime/Time.cpp\<close> and \<open>src/core/concurrency/Timing.cpp\<close>: calendar times and their texts, and
  the measuring of a duration.  The clock, \<open>localtime\<close> and \<open>mktime\<close> are parameters.

  Lemmas: \<open>ctime\<close> and the last format of the example give the same text; every text fits its array; the
  hour can be read from the twelve hour clock; what both runs print.
\<close>

section \<open>Calendar times\<close>

record tm =
  tm_sec :: nat
  tm_min :: nat
  tm_hour :: nat
  tm_mday :: nat
  tm_mon :: nat
  tm_year :: nat
  tm_wday :: nat

definition months :: "string list" where
  "months = [''January'', ''February'', ''March'', ''April'', ''May'', ''June'', ''July'', ''August'', ''September'',
     ''October'', ''November'', ''December'']"

definition weekdays :: "string list" where
  "weekdays = [''Sunday'', ''Monday'', ''Tuesday'', ''Wednesday'', ''Thursday'', ''Friday'', ''Saturday'']"

text \<open>A number padded on the left.\<close>

definition padded :: "char \<Rightarrow> nat \<Rightarrow> nat \<Rightarrow> string" where
  "padded c w n = replicate (w - length (show_nat n)) c @ show_nat n"

text \<open>\<open>ctime\<close>, by the format that the C standard gives for it.\<close>

definition ctime :: "tm \<Rightarrow> string" where
  "ctime t = take 3 (weekdays ! tm_wday t) @ '' '' @ take 3 (months ! tm_mon t) @ padded (CHR '' '') 3 (tm_mday t) @ '' ''
     @ padded (CHR ''0'') 2 (tm_hour t) @ '':'' @ padded (CHR ''0'') 2 (tm_min t) @ '':'' @ padded (CHR ''0'') 2 (tm_sec t)
     @ '' '' @ show_nat (1900 + tm_year t) @ endl"

definition twelve :: "nat \<Rightarrow> nat" where
  "twelve h = (if h mod 12 = 0 then 12 else h mod 12)"

text \<open>The conversions that the example uses.\<close>

definition conversion :: "tm \<Rightarrow> char \<Rightarrow> string" where
  "conversion t c =
    (if c = CHR ''B'' then months ! tm_mon t
     else if c = CHR ''b'' then take 3 (months ! tm_mon t)
     else if c = CHR ''a'' then take 3 (weekdays ! tm_wday t)
     else if c = CHR ''e'' then padded (CHR '' '') 2 (tm_mday t)
     else if c = CHR ''d'' then two_digits (tm_mday t)
     else if c = CHR ''Y'' then show_nat (1900 + tm_year t)
     else if c = CHR ''y'' then two_digits (tm_year t mod 100)
     else if c = CHR ''m'' then two_digits (Suc (tm_mon t))
     else if c = CHR ''H'' then two_digits (tm_hour t)
     else if c = CHR ''I'' then two_digits (twelve (tm_hour t))
     else if c = CHR ''M'' then two_digits (tm_min t)
     else if c = CHR ''S'' then two_digits (tm_sec t)
     else if c = CHR ''p'' then (if tm_hour t < 12 then ''AM'' else ''PM'')
     else [CHR ''%'', c])"

fun expand_time :: "tm \<Rightarrow> string \<Rightarrow> string" where
  "expand_time t [] = []"
| "expand_time t [c] = [c]"
| "expand_time t (c # d # x) = (if c = CHR ''%'' then conversion t d @ expand_time t x else c # expand_time t (d # x))"

text \<open>\<open>strftime\<close>: without room for the text and its zero, the content of the array is not specified.\<close>

definition strftime_into :: "nat \<Rightarrow> string \<Rightarrow> tm \<Rightarrow> string option" where
  "strftime_into n x t = (if length (expand_time t x) < n then Some (expand_time t x) else None)"

definition print_output :: "string option \<Rightarrow> ('o world, unit) prog" where
  "print_output output = (case output of None \<Rightarrow> undef Uninitialised | Some x \<Rightarrow> cout (x @ endl))"

definition time_run :: "(int \<Rightarrow> tm) \<Rightarrow> (tm \<Rightarrow> int \<times> tm) \<Rightarrow> int \<Rightarrow> ('o world, unit) prog" where
  "time_run localtime mktime now = (let datetime = localtime now; (stamp, datetime') = mktime datetime in
     block [cout (''Current time: '' @ ctime (localtime now) @ endl),
       cout (''Year: '' @ show_nat (tm_year datetime + 1900) @ endl),
       cout (''Current time stamp: '' @ show_int stamp @ endl),
       print_output (strftime_into 50 ''%B %e, %Y'' datetime'),
       print_output (strftime_into 50 ''%I:%M:%S %p'' datetime'),
       print_output (strftime_into 50 ''%m/%d/%y'' datetime'),
       print_output (strftime_into 50 ''%a %b %e %H:%M:%S %Y'' datetime')])"

section \<open>\<open>Timing.cpp\<close>\<close>

text \<open>A clock in nanoseconds; sleeping takes its time and a delay that the system adds.\<close>

record clocked = "unit world" +
  clock :: nat

definition now :: "(clocked, nat) prog" where
  "now s = Done (clock s) s"

definition sleep_for :: "nat \<Rightarrow> nat \<Rightarrow> (clocked, unit) prog" where
  "sleep_for delay n s = Done () (s\<lparr>clock := clock s + n + delay\<rparr>)"

definition timing_run :: "(nat \<Rightarrow> string) \<Rightarrow> nat \<Rightarrow> (clocked, unit) prog" where
  "timing_run show_seconds delay = seq now (\<lambda>start. seq (sleep_for delay (5 * 10 ^ 9)) (\<lambda>_. seq now (\<lambda>finished.
     LOG_S (''Elapsed time: '' @ show_seconds (finished - start)))))"

section \<open>Lemmas\<close>

definition valid_tm :: "tm \<Rightarrow> bool" where
  "valid_tm t \<longleftrightarrow> tm_sec t \<le> 60 \<and> tm_min t < 60 \<and> tm_hour t < 24 \<and> 1 \<le> tm_mday t \<and> tm_mday t \<le> 31 \<and> tm_mon t < 12
     \<and> tm_wday t < 7 \<and> tm_year t < 8100"

lemma show_nat_small: "n < 100 \<Longrightarrow> show_nat n = (if n < 10 then [digit_char n] else [digit_char (n div 10), digit_char (n mod 10)])"
proof -
  assume "n < 100"
  then have "n div 10 < 10" by (simp add: less_mult_imp_div_less)
  then show ?thesis by (subst show_nat.simps) (simp add: show_nat.simps [of "n div 10"])
qed

lemma two_digits_padded: "n < 100 \<Longrightarrow> two_digits n = padded (CHR ''0'') 2 n"
  by (simp add: padded_def two_digits_def show_nat_small digit_char_literals)

lemma padded_three: "1 \<le> n \<Longrightarrow> n < 100 \<Longrightarrow> padded c 3 n = c # padded c 2 n"
  by (simp add: padded_def show_nat_small numeral_2_eq_2 numeral_3_eq_3)

lemma show_nat_year: "1000 \<le> n \<Longrightarrow> n < 10000 \<Longrightarrow> length (show_nat n) = 4"
  by (subst show_nat.simps, subst show_nat.simps, subst show_nat.simps, subst show_nat.simps) auto

lemma length_padded: "n < 100 \<Longrightarrow> length (padded c 2 n) = 2"
  by (simp add: padded_def show_nat_small)

lemma weekdays_length: "n < 7 \<Longrightarrow> 3 \<le> length (weekdays ! n)"
  by (simp add: weekdays_def nth_Cons' split: if_splits)

lemma months_length: "n < 12 \<Longrightarrow> 3 \<le> length (months ! n) \<and> length (months ! n) \<le> 9"
  by (simp add: months_def nth_Cons' split: if_splits)

lemma conversions:
  "conversion t CHR ''B'' = months ! tm_mon t" "conversion t CHR ''b'' = take 3 (months ! tm_mon t)"
  "conversion t CHR ''a'' = take 3 (weekdays ! tm_wday t)" "conversion t CHR ''e'' = padded (CHR '' '') 2 (tm_mday t)"
  "conversion t CHR ''d'' = two_digits (tm_mday t)" "conversion t CHR ''Y'' = show_nat (1900 + tm_year t)"
  "conversion t CHR ''y'' = two_digits (tm_year t mod 100)" "conversion t CHR ''m'' = two_digits (Suc (tm_mon t))"
  "conversion t CHR ''H'' = two_digits (tm_hour t)" "conversion t CHR ''I'' = two_digits (twelve (tm_hour t))"
  "conversion t CHR ''M'' = two_digits (tm_min t)" "conversion t CHR ''S'' = two_digits (tm_sec t)"
  "conversion t CHR ''p'' = (if tm_hour t < 12 then ''AM'' else ''PM'')"
  by (simp_all add: conversion_def)

lemma ctime_strftime: "valid_tm t \<Longrightarrow> ctime t = expand_time t ''%a %b %e %H:%M:%S %Y'' @ endl"
  by (simp add: valid_tm_def ctime_def conversions two_digits_padded padded_three)

lemma ctime_length: "valid_tm t \<Longrightarrow> length (ctime t) + 1 = 26"
  using weekdays_length [of "tm_wday t"] months_length [of "tm_mon t"]
  by (simp add: valid_tm_def ctime_def padded_three length_padded show_nat_year endl_def)


text \<open>The hour can be read from the twelve hour clock.\<close>

lemma twelve_hours: "h < 24 \<Longrightarrow> h = twelve h mod 12 + (if h < 12 then 0 else 12)"
  by (auto simp: twelve_def mod_if)

definition date_text :: "tm \<Rightarrow> string" where
  "date_text t = months ! tm_mon t @ '' '' @ padded (CHR '' '') 2 (tm_mday t) @ '', '' @ show_nat (1900 + tm_year t)"

definition clock_text :: "tm \<Rightarrow> string" where
  "clock_text t = two_digits (twelve (tm_hour t)) @ '':'' @ two_digits (tm_min t) @ '':'' @ two_digits (tm_sec t)
     @ (if tm_hour t < 12 then '' AM'' else '' PM'')"

definition short_text :: "tm \<Rightarrow> string" where
  "short_text t = two_digits (Suc (tm_mon t)) @ ''/'' @ two_digits (tm_mday t) @ ''/'' @ two_digits (tm_year t mod 100)"

lemma two_digits_length [simp]: "length (two_digits n) = 2"
  by (simp add: two_digits_def)

lemma formats_fit:
  assumes "valid_tm t"
  shows "strftime_into 50 ''%B %e, %Y'' t = Some (date_text t)"
    "strftime_into 50 ''%I:%M:%S %p'' t = Some (clock_text t)"
    "strftime_into 50 ''%m/%d/%y'' t = Some (short_text t)"
    "strftime_into 50 ''%a %b %e %H:%M:%S %Y'' t = Some (butlast (ctime t))"
proof -
  note bounds = assms [unfolded valid_tm_def]
  show "strftime_into 50 ''%B %e, %Y'' t = Some (date_text t)"
    using bounds months_length [of "tm_mon t"] by (simp add: strftime_into_def date_text_def conversions length_padded show_nat_year)
  show "strftime_into 50 ''%I:%M:%S %p'' t = Some (clock_text t)"
    by (simp add: strftime_into_def clock_text_def conversions)
  show "strftime_into 50 ''%m/%d/%y'' t = Some (short_text t)"
    by (simp add: strftime_into_def short_text_def conversions)
  have "length (expand_time t ''%a %b %e %H:%M:%S %Y'') < 50"
    using ctime_length [OF assms] unfolding ctime_strftime [OF assms] by (simp add: endl_def del: expand_time.simps)
  then show "strftime_into 50 ''%a %b %e %H:%M:%S %Y'' t = Some (butlast (ctime t))"
    unfolding ctime_strftime [OF assms] strftime_into_def by (simp add: endl_def butlast_append del: expand_time.simps)
qed

text \<open>
  C31.  At every time whose calendar form is valid, up to the year 9999: all four texts and the text of
  \<open>ctime\<close> fit into their arrays, so the run returns, and its last line is the text of \<open>ctime\<close> that
  it began with.
\<close>

theorem time_run_shows:
  assumes "valid_tm (localtime i)" and "mktime (localtime i) = (i, localtime i)"
  shows "time_run localtime mktime i s = Done () (says s (map Cout [''Current time: '' @ ctime (localtime i) @ endl,
      ''Year: '' @ show_nat (tm_year (localtime i) + 1900) @ endl, ''Current time stamp: '' @ show_int i @ endl,
      date_text (localtime i) @ endl, clock_text (localtime i) @ endl, short_text (localtime i) @ endl, ctime (localtime i)]))
    \<and> length (ctime (localtime i)) + 1 = 26"
proof -
  have "butlast (ctime (localtime i)) @ endl = ctime (localtime i)"
    unfolding ctime_strftime [OF assms(1)] by (simp add: endl_def butlast_append del: expand_time.simps)
  then show ?thesis using ctime_length [OF assms(1)]
    by (simp add: time_run_def assms(2) Let_def print_output_def formats_fit [OF assms(1)] machine)
qed

definition demo_time :: tm where
  "demo_time = \<lparr>tm_sec = 5, tm_min = 4, tm_hour = 15, tm_mday = 2, tm_mon = 0, tm_year = 106, tm_wday = 1\<rparr>"

theorem time_run_shows_witness:
  "time_run (\<lambda>_. demo_time) (\<lambda>t. (1136214245, t)) 1136214245 (boot :: unit world) = Done () (says boot (map Cout
      [''Current time: '' @ ctime demo_time @ endl, ''Year: '' @ show_nat (tm_year demo_time + 1900) @ endl,
       ''Current time stamp: '' @ show_int 1136214245 @ endl, date_text demo_time @ endl, clock_text demo_time @ endl,
       short_text demo_time @ endl, ctime demo_time])) \<and> length (ctime demo_time) + 1 = 26"
  by (rule time_run_shows) (simp_all add: valid_tm_def demo_time_def)

text \<open>At least five seconds are measured, and the console shows what was measured.\<close>

lemma timing_run_measures: "timing_run show_seconds delay s = Done ()
    (says (s\<lparr>clock := clock s + 5 * 10 ^ 9 + delay\<rparr>) [Log (chomp (''Elapsed time: '' @ show_seconds (5 * 10 ^ 9 + delay)))])"
  by (simp add: timing_run_def now_def sleep_for_def machine)

end
