(* ===== verification/Errors.thy ===== *)
theory Errors
  imports Prelude
begin

text \<open>
  Ways to report an error: \<open>src/core/utils/Optional.cpp\<close>, \<open>src/core/exception/BasicHandle.cpp\<close> and
  \<open>ThrowNoexcept.cpp\<close>.  The name of a type given by \<open>typeid\<close> is a parameter, and the condition that the
  first example fixes to \<open>false\<close> is an argument of its run.

  Lemmas: which reports can be told from a value; what is printed for either condition; every exception
  is caught where the example catches it; the handler of \<open>std::terminate\<close> stays replaced.
\<close>

section \<open>\<open>Optional.cpp\<close>\<close>

record globals = "unit world" +
  global :: int

type_synonym 'a gprog = "(globals, 'a) prog"

definition get_global :: "int gprog" where
  "get_global s = Done (global s) s"

definition bad_api_status :: "bool \<Rightarrow> int gprog" where
  "bad_api_status condition = (if condition then get_global else ret (- 1))"

definition bad_api_throw :: "bool \<Rightarrow> int gprog" where
  "bad_api_throw condition = (if \<not> condition then throw ''required value does not exist.'' else ret 0)"

text \<open>A pointer that can only be null or that of \<open>global\<close>.\<close>

definition bad_api_ptr :: "bool \<Rightarrow> bool gprog" where
  "bad_api_ptr condition = ret condition"

definition read_ptr :: "bool \<Rightarrow> int gprog" where
  "read_ptr p = (if p then get_global else undef NullDeref)"

definition optional_api :: "bool \<Rightarrow> int option gprog" where
  "optional_api condition = (if \<not> condition then ret None else seq get_global (\<lambda>x. ret (Some x)))"

definition value_or :: "int option \<Rightarrow> int \<Rightarrow> int" where
  "value_or opt d = (case opt of None \<Rightarrow> d | Some x \<Rightarrow> x)"

text \<open>\<open>value()\<close>; what its exception says is given.\<close>

definition value_of :: "string \<Rightarrow> int option \<Rightarrow> int gprog" where
  "value_of what opt = (case opt of None \<Rightarrow> throw what | Some x \<Rightarrow> ret x)"

definition process :: "int option \<Rightarrow> unit gprog" where
  "process v = (case v of None \<Rightarrow> LOG ''no value, exit early''
     | Some x \<Rightarrow> LOG (''processing value = '' @ show_int x))"

definition log_value :: "int \<Rightarrow> unit gprog" where
  "log_value x = LOG (''value = '' @ show_int x)"

definition log_exception :: "string \<Rightarrow> unit gprog" where
  "log_exception e = LOG (''exception: '' @ e)"

definition bad_patterns :: "bool \<Rightarrow> unit gprog" where
  "bad_patterns condition = block [
     LOG ''API (ambiguous):'', seq (bad_api_status condition) log_value,
     LOG ''API (pointer):'',
     seq (bad_api_ptr condition) (\<lambda>p. if p then seq (read_ptr p) log_value else LOG ''null pointer''),
     LOG ''API (thow):'', try_catch (seq (bad_api_throw condition) log_value) log_exception]"

definition good_pattern :: "string \<Rightarrow> bool \<Rightarrow> unit gprog" where
  "good_pattern what condition = seq (LOG ''API (optional):'') (\<lambda>_. seq (optional_api condition) (\<lambda>opt. block [
     (case opt of Some x \<Rightarrow> log_value x | None \<Rightarrow> LOG ''empty''),
     LOG (''value_or(-1) = '' @ show_int (value_or opt (- 1))),
     process opt,
     try_catch (seq (LOG ''Trying value()...'') (\<lambda>_. seq (value_of what opt) log_value)) log_exception]))"

definition optional_run :: "string \<Rightarrow> bool \<Rightarrow> unit gprog" where
  "optional_run what condition = block [LOG ''=== std::optional Example ==='', bad_patterns condition, good_pattern what condition]"

section \<open>\<open>BasicHandle.cpp\<close> and \<open>ThrowNoexcept.cpp\<close>\<close>

definition middle_error :: "('s, 'a) prog" where
  "middle_error = throw (''[L] error fnc'' @ endl)"

definition handle_run :: "string \<Rightarrow> ('o world, unit) prog" where
  "handle_run type_name = try_catch
     (try_catch middle_error (\<lambda>e. seq (cout e) (\<lambda>_. throw (''[M] Middle error '' @ endl))))
     (\<lambda>e. block [cout (''[H] '' @ e), cout (''Caught an exception of type: '' @ type_name @ endl)])"

text \<open>How a process ends when \<open>std::terminate\<close> is called: by default it aborts.\<close>

datatype handler = Abort | Exit int

record proc = "unit world" +
  on_terminate :: handler
  ended :: "handler option"

text \<open>A process that has ended does nothing more.\<close>

definition then_run :: "(proc, unit) prog \<Rightarrow> (proc, unit) prog \<Rightarrow> (proc, unit) prog" where
  "then_run m n = seq m (\<lambda>_ s. if ended s = None then n s else Done () s)"

definition noexcept :: "(proc, unit) prog \<Rightarrow> (proc, unit) prog" where
  "noexcept m s = (case m s of Thrown e t \<Rightarrow> Done () (t\<lparr>ended := Some (on_terminate t)\<rparr>) | r \<Rightarrow> r)"

definition errorFnc :: "(proc, unit) prog" where
  "errorFnc = throw (''errorFnc'' @ endl)"

definition noExpectExcpt :: "string \<Rightarrow> (proc, unit) prog" where
  "noExpectExcpt type_name = noexcept (try_catch errorFnc (\<lambda>e. cout (type_name @ '' '' @ e)))"

definition set_terminate :: "handler \<Rightarrow> (proc, unit) prog" where
  "set_terminate h s = Done () (s\<lparr>on_terminate := h\<rparr>)"

definition throw_run :: "string \<Rightarrow> (proc, unit) prog" where
  "throw_run type_name = then_run (noExpectExcpt type_name) (set_terminate (Exit (- 1)))"

section \<open>Lemmas\<close>

lemma globals_says [simp]: "global (says s ls) = global s" "(says (s :: globals) ls)\<lparr>global := g\<rparr> = says (s\<lparr>global := g\<rparr>) ls"
  by (simp_all add: says_def)

lemma proc_says [simp]: "on_terminate (says s ls) = on_terminate s" "ended (says s ls) = ended s"
  "says (s :: proc) ls\<lparr>on_terminate := h\<rparr> = says (s\<lparr>on_terminate := h\<rparr>) ls"
  by (simp_all add: says_def)

text \<open>What the run prints when there is a value, and when there is none.\<close>

definition with_value :: "int \<Rightarrow> string list" where
  "with_value g = [''=== std::optional Example ==='', ''API (ambiguous):'', ''value = '' @ show_int g,
     ''API (pointer):'', ''value = '' @ show_int g, ''API (thow):'', ''value = '' @ show_int 0,
     ''API (optional):'', ''value = '' @ show_int g, ''value_or(-1) = '' @ show_int g, ''processing value = '' @ show_int g,
     ''Trying value()...'', ''value = '' @ show_int g]"

definition without_value :: "string \<Rightarrow> string list" where
  "without_value what = [''=== std::optional Example ==='', ''API (ambiguous):'', ''value = '' @ show_int (- 1),
     ''API (pointer):'', ''null pointer'', ''API (thow):'', ''exception: '' @ ''required value does not exist.'',
     ''API (optional):'', ''empty'', ''value_or(-1) = '' @ show_int (- 1), ''no value, exit early'',
     ''Trying value()...'', ''exception: '' @ what]"

lemmas optional_defs = get_global_def bad_api_status_def bad_api_throw_def bad_api_ptr_def read_ptr_def optional_api_def value_or_def
  value_of_def process_def log_value_def log_exception_def bad_patterns_def good_pattern_def optional_run_def

text \<open>
  For either condition and any value of the global variable the run returns, no exception leaves it
  and no null pointer is read; whether there is a value shows in every report but the status, which is the
  same for both conditions exactly when the value is \<open>-1\<close>.
\<close>

theorem optional_run_reports:
  "optional_run what condition s = Done () (says s (map Log (if condition then with_value (global s) else without_value what)))
    \<and> (bad_api_status True s = bad_api_status False s \<longleftrightarrow> global s = - 1) \<and> optional_api True s \<noteq> optional_api False s"
  by (cases condition) (simp_all add: optional_defs with_value_def without_value_def machine)

lemma handle_run_prints: "handle_run type_name s = Done () (says s (map Cout [''[L] error fnc'' @ endl,
    ''[H] [M] Middle error '' @ endl, ''Caught an exception of type: '' @ type_name @ endl]))"
  by (simp add: handle_run_def middle_error_def machine)

lemma noexcept_never_throws: "noexcept m s \<noteq> Thrown e t"
  by (simp add: noexcept_def split: result.split)

text \<open>
  The exception is caught inside the function that must not throw, so the process goes on; from
  then on \<open>std::terminate\<close>, for instance for an exception that leaves such a function, ends the process
  with \<open>exit(-1)\<close> in place of aborting it.
\<close>

theorem throw_run_replaces_handler:
  assumes "ended s = None"
  shows "\<exists>t. throw_run type_name s = Done () t \<and> out t = out s @ [Cout (type_name @ '' errorFnc'' @ endl)] \<and> ended t = None
    \<and> (\<forall>m e u. m t = Thrown e u \<and> on_terminate u = on_terminate t \<longrightarrow> noexcept m t = Done () (u\<lparr>ended := Some (Exit (- 1))\<rparr>))"
  using assms
  by (simp add: throw_run_def then_run_def noExpectExcpt_def noexcept_def errorFnc_def set_terminate_def machine)

theorem throw_run_replaces_handler_witness:
  "let s = \<lparr>cells = \<lambda>_. None, brk = 0, out = [], on_terminate = Abort, ended = None\<rparr> in
   \<exists>t. throw_run ''St13runtime_error'' s = Done () t \<and> out t = out s @ [Cout (''St13runtime_error'' @ '' errorFnc'' @ endl)] \<and> ended t = None
    \<and> (\<forall>m e u. m t = Thrown e u \<and> on_terminate u = on_terminate t \<longrightarrow> noexcept m t = Done () (u\<lparr>ended := Some (Exit (- 1))\<rparr>))"
  unfolding Let_def by (rule throw_run_replaces_handler) simp

end
