(* ===== verification/Basics.thy ===== *)
theory Basics
  imports StdStrings "HOL-Library.Word" "HOL-Library.Signed_Division"
begin

unbundle bit_operations_syntax

text \<open>
  \<open>src/core/basics\<close>: \<open>ControlFlow.cpp\<close>, \<open>Operations.cpp\<close>, \<open>Initialization.cpp\<close> and \<open>TypeQualifier.cpp\<close>.
  The numbers that \<open>rand\<close> returns are a sequence in the state; a variable without initialiser has no value
  until it is assigned.  The operands that \<open>Operations.cpp\<close> fixes are arguments.

  Lemmas: what each function prints; which operands make the arithmetic undefined; the branches that the
  numbers of \<open>rand\<close> can reach; the read of a variable without a value.
\<close>

section \<open>\<open>ControlFlow.cpp\<close>\<close>

record chance = "unit world" +
  answers :: "nat \<Rightarrow> int"
  asked :: nat

type_synonym 'a cprog = "(chance, 'a) prog"

definition rand :: "int cprog" where
  "rand s = Done (answers s (asked s)) (s\<lparr>asked := Suc (asked s)\<rparr>)"

definition conditionals :: "unit cprog" where
  "conditionals = seq (LOG ''Conditional Examples'') (\<lambda>_. seq rand (\<lambda>x. seq (block [
     LOG_S (''x = '' @ show_int x),
     LOG (if x > 0 then ''x is positive'' else if x < 0 then ''x is negative'' else ''x is zero'')]) (\<lambda>_.
     seq rand (\<lambda>r. let choice = r smod 2 + 1 in block [
       LOG_S (''Choice = '' @ show_int x),
       LOG (if choice = 1 then ''Choice is 1'' else if choice = 2 then ''Choice is 2'' else ''Choice is something else'')]))))"

text \<open>The loop of \<open>jumps\<close>, with its \<open>continue\<close> and its \<open>break\<close>.\<close>

function jump_loop :: "int \<Rightarrow> (('o, 'z) world_scheme, unit) prog" where
  "jump_loop i = (if i < 5 then
     if i = 2 then jump_loop (i + 1)
     else if i = 4 then ret ()
     else seq (LOG_S (''i = '' @ show_int i)) (\<lambda>_. jump_loop (i + 1)) else ret ())"
  by pat_completeness auto
termination
  by (relation "measure (\<lambda>i. nat (5 - i))") auto

definition jumps :: "unit cprog" where
  "jumps = seq (LOG ''Jump Statement Examples'') (\<lambda>_. seq rand (\<lambda>num. block [
     if num = 3 then ret () else LOG ''This line will be skipped.'',
     LOG ''Jumped here using goto!'', jump_loop 0]))"

definition square :: "int \<Rightarrow> ('s, int) prog" where
  "square n = to_int32 (n * n)"

definition functionCalls :: "unit cprog" where
  "functionCalls = seq (LOG ''Function Call Examples'') (\<lambda>_. seq (square 5) (\<lambda>r. LOG_S (''square(5) = '' @ show_int r)))"

function while_loop :: "int \<Rightarrow> (('o, 'z) world_scheme, unit) prog" where
  "while_loop i = (if i < 3 then seq (LOG_S (''while loop i = '' @ show_int i)) (\<lambda>_. while_loop (i + 1)) else ret ())"
  by pat_completeness auto
termination
  by (relation "measure (\<lambda>i. nat (3 - i))") auto

function do_while_loop :: "int \<Rightarrow> (('o, 'z) world_scheme, unit) prog" where
  "do_while_loop j = seq (LOG_S (''do-while loop j = '' @ show_int j)) (\<lambda>_. if j + 1 < 2 then do_while_loop (j + 1) else ret ())"
  by pat_completeness auto
termination
  by (relation "measure (\<lambda>i. nat (2 - i))") auto

function for_loop :: "int \<Rightarrow> (('o, 'z) world_scheme, unit) prog" where
  "for_loop k = (if k < 3 then seq (LOG_S (''for loop k = '' @ show_int k)) (\<lambda>_. for_loop (k + 1)) else ret ())"
  by pat_completeness auto
termination
  by (relation "measure (\<lambda>i. nat (3 - i))") auto

declare jump_loop.simps [simp del] while_loop.simps [simp del] do_while_loop.simps [simp del] for_loop.simps [simp del]

definition loops :: "unit cprog" where
  "loops = block [LOG ''Loop Examples'', while_loop 0, do_while_loop 0, for_loop 0,
     for_each [10, 20, 30] (\<lambda>v. LOG_S (''ranged-for value = '' @ show_int v))]"

definition halts :: "unit cprog" where
  "halts = LOG ''Halt Examples''"

definition exceptions :: "unit cprog" where
  "exceptions = seq (LOG ''Exception Handling Examples'') (\<lambda>_.
     try_catch (throw ''Something went wrong!'') (\<lambda>e. LOG_S (''Caught exception: '' @ e)))"

definition control_flow_run :: "unit cprog" where
  "control_flow_run = block [conditionals, jumps, functionCalls, loops, halts, exceptions]"

section \<open>\<open>Operations.cpp\<close>\<close>

definition log_ab :: "int \<Rightarrow> int \<Rightarrow> (('o, 'z) world_scheme, unit) prog" where
  "log_ab a b = LOG_S (''a = '' @ show_int a @ '', b = '' @ show_int b)"

definition log_a :: "string \<Rightarrow> int \<Rightarrow> (('o, 'z) world_scheme, unit) prog" where
  "log_a x a = LOG_S (x @ '' = '' @ show_int a)"

definition log_n :: "string \<Rightarrow> nat \<Rightarrow> (('o, 'z) world_scheme, unit) prog" where
  "log_n x n = LOG_S (x @ '' = '' @ show_nat n)"

definition log_title :: "string \<Rightarrow> (('o, 'z) world_scheme, unit) prog" where
  "log_title x = LOG_S (endl @ ''--- '' @ x @ '' ---'' @ endl)"

definition quotient :: "int \<Rightarrow> int \<Rightarrow> ('s, int) prog" where
  "quotient a b = (if b = 0 then undef DivByZero else to_int32 (a sdiv b))"

definition remainder :: "int \<Rightarrow> int \<Rightarrow> ('s, int) prog" where
  "remainder a b = seq (quotient a b) (\<lambda>_. ret (a smod b))"

text \<open>The difference is computed in \<open>int\<close> and then kept in a \<open>uint32_t\<close>.\<close>

definition five_results :: "int \<Rightarrow> int \<Rightarrow> (('o, 'z) world_scheme, unit) prog" where
  "five_results a b = seq (log_ab a b) (\<lambda>_. seq (to_int32 (a + b)) (\<lambda>sum. seq (log_a ''sum'' sum) (\<lambda>_.
     seq (log_ab a b) (\<lambda>_. seq (to_int32 (a - b)) (\<lambda>d. seq (log_n ''different'' (unat (word_of_int d :: 32 word))) (\<lambda>_.
     seq (log_ab a b) (\<lambda>_. seq (to_int32 (a * b)) (\<lambda>product. seq (log_a ''product'' product) (\<lambda>_.
     seq (log_ab a b) (\<lambda>_. seq (quotient a b) (\<lambda>q. seq (log_a ''quotient'' q) (\<lambda>_.
     seq (log_ab a b) (\<lambda>_. seq (remainder a b) (\<lambda>r. log_a ''remainder'' r))))))))))))))"

definition increments :: "int \<Rightarrow> int \<Rightarrow> (('o, 'z) world_scheme, unit) prog" where
  "increments a b = seq (log_a ''a'' a) (\<lambda>_. seq (to_int32 (a + 1)) (\<lambda>a. seq (log_a ''preIn'' a) (\<lambda>_.
     seq (log_a ''a'' a) (\<lambda>_. seq (to_int32 (a + 1)) (\<lambda>a'. seq (log_a ''postIn'' a) (\<lambda>_.
     seq (log_a ''b'' b) (\<lambda>_. seq (to_int32 (b - 1)) (\<lambda>b. seq (log_a ''preDe'' b) (\<lambda>_.
     seq (log_a ''b'' b) (\<lambda>_. seq (to_int32 (b - 1)) (\<lambda>b'. seq (log_a ''postDe'' b) (\<lambda>_.
     seq (to_int32 (a' + 1)) (\<lambda>a. seq (log_ab a b') (\<lambda>_. log_a ''comma(a++, b)'' b'))))))))))))))"

definition arithmeticOperator :: "int \<Rightarrow> int \<Rightarrow> (('o, 'z) world_scheme, unit) prog" where
  "arithmeticOperator a b = block [log_title ''ArithmeticOperator Examples'', five_results a b, increments a b]"

definition bit_text :: "bool \<Rightarrow> string" where
  "bit_text b = (if b then ''1'' else ''0'')"

definition logicalOperator :: "bool \<Rightarrow> bool \<Rightarrow> bool \<Rightarrow> (('o, 'z) world_scheme, unit) prog" where
  "logicalOperator a b c = block [LOG (endl @ ''--- LOG_SicalOperator Examples ---''),
     LOG_S (''a = '' @ boolalpha a @ '', b = '' @ boolalpha b @ '', c = '' @ boolalpha c),
     LOG_S (''[AND] a && b = '' @ bit_text (a \<and> b)), LOG_S (''[OR ] a || b = '' @ bit_text (a \<or> b)),
     LOG_S (''[NOT] !c = '' @ bit_text (\<not> c))]"

text \<open>\<open>std::bitset<8>\<close>, printed from the highest bit.\<close>

type_synonym bitset = "8 word"

definition bitset_text :: "bitset \<Rightarrow> string" where
  "bitset_text w = concat (map (\<lambda>i. bit_text (bit w i)) (rev [0 ..< 8]))"

definition bitWiseOperator :: "bitset \<Rightarrow> bitset \<Rightarrow> (('o, 'z) world_scheme, unit) prog" where
  "bitWiseOperator bits_a bits_b = block [LOG (endl @ ''--- BitWiseOperator Examples ---''),
     LOG_S (''bitA = '' @ bitset_text bits_a @ '', bitB = '' @ bitset_text bits_b),
     LOG_S (''bitA && bitB= '' @ bitset_text (bits_a AND bits_b)),
     LOG_S (''bitA | bitB= '' @ bitset_text (bits_a OR bits_b)),
     LOG_S (''bitA ^ bitB= '' @ bitset_text (bits_a XOR bits_b)),
     LOG_S (''~bitA = '' @ bitset_text (NOT bits_a)),
     LOG_S (''bitA << 1 = '' @ bitset_text (push_bit 1 bits_a)),
     LOG_S (''bitA >> 1 = '' @ bitset_text (drop_bit 1 bits_a))]"

definition operations_run :: "('o world, unit) prog" where
  "operations_run = block [arithmeticOperator 100 200, logicalOperator True False True, bitWiseOperator 0xFF 0xF0]"

section \<open>\<open>Initialization.cpp\<close>\<close>

text \<open>The objects on the heap: an \<open>int\<close>, without a value when it was not initialised, and a \<open>Dummy\<close>.\<close>

datatype obj = IntObj "int option" | Dummy

type_synonym 'a iprog = "(obj world, 'a) prog"

definition read_int_var :: "int option \<Rightarrow> ('s, int) prog" where
  "read_int_var v = (case v of None \<Rightarrow> undef Uninitialised | Some x \<Rightarrow> ret x)"

definition log_int_at :: "ptr \<Rightarrow> unit iprog" where
  "log_int_at p = seq (load p) (\<lambda>x. case x of IntObj v \<Rightarrow> seq (read_int_var v) (\<lambda>i. LOG_S (''*p1 = '' @ show_int i)) | Dummy \<Rightarrow> undef WrongType)"

definition Dummy_default :: "unit iprog" where
  "Dummy_default = LOG ''Default ctor''"

definition Dummy_int :: "int \<Rightarrow> unit iprog" where
  "Dummy_int v = LOG_S (''Int ctor: '' @ show_int v)"

definition Dummy_copy :: "unit iprog" where
  "Dummy_copy = LOG ''Copy ctor''"

definition new_Dummy :: "ptr iprog" where
  "new_Dummy = seq (alloc Dummy) (\<lambda>p. seq Dummy_default (\<lambda>_. ret p))"

definition default_ini :: "unit iprog" where
  "default_ini = (let a = None in seq (read_int_var a) (\<lambda>x. seq (LOG_S (''a = '' @ show_int x)) (\<lambda>_. seq Dummy_default (\<lambda>_.
     seq (alloc (IntObj None)) (\<lambda>p1. seq (log_int_at p1) (\<lambda>_. seq new_Dummy (\<lambda>p2. block [free p1, free p2])))))))"

definition value_ini :: "unit iprog" where
  "value_ini = (let a = Some 0; b = Some 0 in seq (read_int_var a) (\<lambda>x. seq (LOG_S (''a = '' @ show_int x)) (\<lambda>_.
     seq (read_int_var b) (\<lambda>y. seq (LOG_S (''b = '' @ show_int y)) (\<lambda>_. seq (block [Dummy_default, Dummy_default]) (\<lambda>_.
     seq (alloc (IntObj (Some 0))) (\<lambda>p1. seq (log_int_at p1) (\<lambda>_. seq new_Dummy (\<lambda>p2. block [free p1, free p2])))))))))"

definition direct_ini :: "unit iprog" where
  "direct_ini = (let a = 42 in block [Dummy_int 1, Dummy_int 2, LOG_S (''a = '' @ show_int a)])"

text \<open>Initialising from a temporary makes no copy.\<close>

definition copy_ini :: "unit iprog" where
  "copy_ini = block [Dummy_int 1, Dummy_copy, Dummy_int 2, LOG_S (''value = '' @ show_int 42)]"

definition list_ini :: "unit iprog" where
  "list_ini = block [Dummy_int 1, Dummy_int 2]"

definition show_aggregate :: "string \<Rightarrow> int \<times> int \<Rightarrow> string" where
  "show_aggregate n a = n @ '' = {'' @ show_int (fst a) @ '', '' @ show_int (snd a) @ ''}''"

definition aggregate_ini :: "unit iprog" where
  "aggregate_ini = block [LOG_S (show_aggregate ''a1'' (1, 2)), LOG_S (show_aggregate ''a2'' (3, 4)), LOG_S (show_aggregate ''a3'' (3, 4))]"

definition initialization_run :: "unit iprog" where
  "initialization_run = block [default_ini, value_ini, direct_ini, copy_ini, list_ini, aggregate_ini]"

section \<open>\<open>TypeQualifier.cpp\<close>\<close>

definition cube :: "int \<Rightarrow> ('s, int) prog" where
  "cube x = seq (to_int32 (x * x)) (\<lambda>y. to_int32 (y * x))"

text \<open>The comparison of the constant with the literal it was made from is \<open>same\<close>.\<close>

definition qualifier_run :: "bool \<Rightarrow> ('o world, unit) prog" where
  "qualifier_run same = seq (LOG ''Hello, world!'') (\<lambda>_.
     seq (LOG (if \<not> same then ''kConstexprVarG != 9.8'' else ''kConstexprVarG == 9.8'')) (\<lambda>_.
     seq (square 5) (\<lambda>a. seq (square 5) (\<lambda>b. seq (cube 5) (\<lambda>c. ret ())))))"

section \<open>What the functions print\<close>

lemma chance_says [simp]: "answers (says s ls) = answers s" "asked (says s ls) = asked s"
  "says (s\<lparr>asked := n\<rparr>) ls = (says s ls)\<lparr>asked := n\<rparr>"
  by (simp_all add: says_def)

lemma jump_loop_says: "jump_loop 0 s = Done () (says s (map (\<lambda>i. Log (''i = '' @ show_int i)) [0, 1, 3]))"
  by (simp add: jump_loop.simps chomp_text machine)

lemma while_loop_says: "while_loop 0 s = Done () (says s (map (\<lambda>i. Log (''while loop i = '' @ show_int i)) [0, 1, 2]))"
  by (simp add: while_loop.simps chomp_text machine)

lemma do_while_loop_says: "do_while_loop 0 s = Done () (says s (map (\<lambda>i. Log (''do-while loop j = '' @ show_int i)) [0, 1]))"
  by (simp add: do_while_loop.simps chomp_text machine)

lemma for_loop_says: "for_loop 0 s = Done () (says s (map (\<lambda>i. Log (''for loop k = '' @ show_int i)) [0, 1, 2]))"
  by (simp add: for_loop.simps chomp_text machine)

definition loop_lines :: "string list" where
  "loop_lines = [''Loop Examples'', ''while loop i = '' @ show_int 0, ''while loop i = '' @ show_int 1, ''while loop i = '' @ show_int 2,
     ''do-while loop j = '' @ show_int 0, ''do-while loop j = '' @ show_int 1,
     ''for loop k = '' @ show_int 0, ''for loop k = '' @ show_int 1, ''for loop k = '' @ show_int 2,
     ''ranged-for value = '' @ show_int 10, ''ranged-for value = '' @ show_int 20, ''ranged-for value = '' @ show_int 30]"

lemma loops_says: "loops s = Done () (says s (map Log loop_lines))"
  by (simp add: loops_def while_loop_says do_while_loop_says for_loop_says loop_lines_def chomp_text machine)

definition rand_lines :: "int \<Rightarrow> int \<Rightarrow> int \<Rightarrow> string list" where
  "rand_lines x r num = [''Conditional Examples'', ''x = '' @ show_int x, if x = 0 then ''x is zero'' else ''x is positive'',
     ''Choice = '' @ show_int x, if even r then ''Choice is 1'' else ''Choice is 2'', ''Jump Statement Examples'']
     @ (if num = 3 then [] else [''This line will be skipped.''])
     @ [''Jumped here using goto!'', ''i = '' @ show_int 0, ''i = '' @ show_int 1, ''i = '' @ show_int 3]"

lemma choice_even: "0 \<le> (r :: int) \<Longrightarrow> r smod 2 = (if even r then 0 else 1)"
proof -
  assume "0 \<le> r"
  then have "r smod 2 = r mod 2" by (cases "r = 0") (simp_all add: smod_int_alt_def)
  then show ?thesis by (simp add: mod_2_eq_odd)
qed

lemma conditionals_says:
  assumes "0 \<le> answers s (asked s)" and "0 \<le> answers s (Suc (asked s))"
  shows "conditionals s = Done () (says (s\<lparr>asked := Suc (Suc (asked s))\<rparr>) (map Log (take 5 (rand_lines (answers s (asked s)) (answers s (Suc (asked s))) 0))))"
  using assms by (simp add: conditionals_def rand_def choice_even rand_lines_def Let_def chomp_text machine)

lemma jumps_says: "jumps s = Done () (says (s\<lparr>asked := Suc (asked s)\<rparr>) (map Log (drop 5 (rand_lines 0 0 (answers s (asked s))))))"
  by (simp add: jumps_def rand_def jump_loop_says rand_lines_def machine)

text \<open>
  Since \<open>rand\<close> gives no negative number, the run returns for all its numbers and takes only these
  branches: the negative case and the default case are never taken, the line that says it will be skipped
  is skipped only for the number 3, and the line about the choice shows the number tested before.
\<close>

theorem control_flow_branches:
  assumes "\<forall>n. 0 \<le> answers s n"
  shows "control_flow_run s = Done () (says (s\<lparr>asked := asked s + 3\<rparr>) (map Log (
      rand_lines (answers s (asked s)) (answers s (asked s + 1)) (answers s (asked s + 2))
      @ [''Function Call Examples'', ''square(5) = '' @ show_int 25] @ loop_lines
      @ [''Halt Examples'', ''Exception Handling Examples'', ''Caught exception: '' @ ''Something went wrong!''])))"
proof -
  have square: "square 5 = ret 25" by (simp add: square_def to_int32_def int32_def)
  show ?thesis using assms
    by (simp add: control_flow_run_def conditionals_says jumps_says loops_says functionCalls_def square halts_def exceptions_def
      chomp_text machine rand_lines_def)
qed

definition demo_chance :: chance where
  "demo_chance = \<lparr>cells = \<lambda>_. None, brk = 0, out = [], answers = \<lambda>n. int n + 1, asked = 0\<rparr>"

theorem control_flow_branches_witness:
  "control_flow_run demo_chance = Done () (says (demo_chance\<lparr>asked := asked demo_chance + 3\<rparr>) (map Log (
      rand_lines (answers demo_chance (asked demo_chance)) (answers demo_chance (asked demo_chance + 1)) (answers demo_chance (asked demo_chance + 2))
      @ [''Function Call Examples'', ''square(5) = '' @ show_int 25] @ loop_lines
      @ [''Halt Examples'', ''Exception Handling Examples'', ''Caught exception: '' @ ''Something went wrong!''])))"
  by (rule control_flow_branches) (simp add: demo_chance_def)

section \<open>Arithmetic\<close>

definition arithmetic_lines :: "int \<Rightarrow> int \<Rightarrow> string list" where
  "arithmetic_lines a b = (let ab = ''a = '' @ show_int a @ '', b = '' @ show_int b in
     [endl @ ''--- ArithmeticOperator Examples ---'', ab, ''sum = '' @ show_int (a + b),
      ab, ''different = '' @ show_nat (nat ((a - b) mod 2 ^ 32)), ab, ''product = '' @ show_int (a * b),
      ab, ''quotient = '' @ show_int (a sdiv b), ab, ''remainder = '' @ show_int (a - (a sdiv b) * b),
      ''a = '' @ show_int a, ''preIn = '' @ show_int (a + 1), ''a = '' @ show_int (a + 1), ''postIn = '' @ show_int (a + 1),
      ''b = '' @ show_int b, ''preDe = '' @ show_int (b - 1), ''b = '' @ show_int (b - 1), ''postDe = '' @ show_int (b - 1),
      ''a = '' @ show_int (a + 3) @ '', b = '' @ show_int (b - 2), ''comma(a++, b) = '' @ show_int (b - 2)])"

lemma log_lines:
  "log_ab a b s = Done () (says s [Log (''a = '' @ show_int a @ '', b = '' @ show_int b)])"
  "log_a x a s = Done () (says s [Log (x @ '' = '' @ show_int a)])"
  "log_n x n s = Done () (says s [Log (x @ '' = '' @ show_nat n)])"
  "log_title x s = Done () (says s [Log (endl @ ''--- '' @ x @ '' ---'')])"
proof -
  have n: "chomp (y @ show_int i) = y @ show_int i" for y i using chomp_append [of "show_int i" y] by simp
  show "log_ab a b s = Done () (says s [Log (''a = '' @ show_int a @ '', b = '' @ show_int b)])"
    using n [of "''a = '' @ show_int a @ '', b = ''" b] by (simp add: log_ab_def machine)
  show "log_a x a s = Done () (says s [Log (x @ '' = '' @ show_int a)])"
    using n [of "x @ '' = ''" a] by (simp add: log_a_def machine)
  show "log_n x n s = Done () (says s [Log (x @ '' = '' @ show_nat n)])"
    using n [of "x @ '' = ''" "int n"] by (simp add: log_n_def show_int_def machine)
  show "log_title x s = Done () (says s [Log (endl @ ''--- '' @ x @ '' ---'')])"
    using chomp_simps(3) [of "endl @ ''--- '' @ x @ '' ---''"] by (simp add: log_title_def machine)
qed

definition arithmetic_fits :: "int \<Rightarrow> int \<Rightarrow> bool" where
  "arithmetic_fits a b \<longleftrightarrow> b \<noteq> 0 \<and> list_all int32 [a + b, a - b, a * b, a sdiv b, a + 1, a + 2, a + 3, b - 1, b - 2]"

lemma difference_word: "unat (word_of_int i :: 32 word) = nat (i mod 2 ^ 32)"
  by (simp add: unat_eq_nat_uint uint_word_of_int)

text \<open>
  C32.  The arithmetic of the example for any operands: it is defined exactly when the divisor is not zero
  and every \<open>int\<close> result is in range, and it then prints the exact results, but for the difference, which
  is kept as an unsigned number and so is printed modulo \<open>2 ^ 32\<close>.
\<close>

theorem arithmetic_defined:
  "if arithmetic_fits a b then arithmeticOperator a b s = Done () (says s (map Log (arithmetic_lines a b)))
   else arithmeticOperator a b s = Undef (if int32 (a + b) \<and> int32 (a - b) \<and> int32 (a * b) \<and> b = 0 then DivByZero else SignedOverflow)"
proof (cases "arithmetic_fits a b")
  case True
  then have ok: "b \<noteq> 0" "int32 (a + b)" "int32 (a - b)" "int32 (a * b)" "int32 (a sdiv b)" "int32 (a + 1)" "int32 (1 + a)" "int32 (a + 2)" "int32 (2 + a)"
      "int32 (a + 3)" "int32 (3 + a)" "int32 (b - 1)" "int32 (b - 2)" by (simp_all add: arithmetic_fits_def add.commute)
  show ?thesis using True
    by (simp add: arithmeticOperator_def five_results_def increments_def quotient_def remainder_def to_int32_def ok log_lines
      arithmetic_lines_def difference_word Let_def minus_sdiv_mult_eq_smod control_defs add.commute [of 3 a])
next
  case False
  then show ?thesis
    by (auto simp: arithmeticOperator_def five_results_def increments_def quotient_def remainder_def to_int32_def log_lines
      arithmetic_fits_def control_defs add.commute)
qed

section \<open>Bits\<close>

lemma bitset_text_nth: "i < 8 \<Longrightarrow> bitset_text w ! i = (if bit w (7 - i) then CHR ''1'' else CHR ''0'')"
proof -
  have one: "concat (map (\<lambda>i. bit_text (P i)) is) = map (\<lambda>i. if P i then CHR ''1'' else CHR ''0'') is" for P and "is" :: "nat list"
    by (induction "is") (simp_all add: bit_text_def)
  assume "i < 8"
  then have "rev [0 ..< 8] ! i = 7 - i" by (simp add: rev_nth)
  with \<open>i < 8\<close> show ?thesis unfolding bitset_text_def one by (subst nth_map) simp_all
qed

lemma bitset_text_inject: "bitset_text v = bitset_text w \<longleftrightarrow> v = w"
proof
  assume eq: "bitset_text v = bitset_text w"
  have "bit v k = bit w k" if "k < 8" for k
  proof -
    have "7 - k < 8" "7 - (7 - k) = k" using that by auto
    then show ?thesis using bitset_text_nth [of "7 - k" v] bitset_text_nth [of "7 - k" w] unfolding eq by (simp split: if_splits)
  qed
  then show "v = w" by (intro bit_word_eqI) simp
qed simp

section \<open>Variables without a value\<close>

definition other_lines :: "string list" where
  "other_lines = [''a = '' @ show_int 0, ''b = '' @ show_int 0, ''Default ctor'', ''Default ctor'', ''*p1 = '' @ show_int 0, ''Default ctor'',
     ''Int ctor: '' @ show_int 1, ''Int ctor: '' @ show_int 2, ''a = '' @ show_int 42,
     ''Int ctor: '' @ show_int 1, ''Copy ctor'', ''Int ctor: '' @ show_int 2, ''value = '' @ show_int 42,
     ''Int ctor: '' @ show_int 1, ''Int ctor: '' @ show_int 2,
     show_aggregate ''a1'' (1, 2), show_aggregate ''a2'' (3, 4), show_aggregate ''a3'' (3, 4)]"

lemma value_ini_says:
  assumes "fresh_above s"
  shows "\<exists>t. value_ini s = Done () t \<and> cells t = cells s \<and> out t = out s @ map Log (take 6 other_lines)"
proof -
  have "cells s (brk s) = None" "cells s (Suc (brk s)) = None" using assms by (simp_all add: fresh_above_def)
  then have "(cells s)(brk s := None, Suc (brk s) := None) = cells s" by (simp add: fun_eq_iff)
  then show ?thesis
    by (simp add: value_ini_def read_int_var_def log_int_at_def new_Dummy_def Dummy_default_def other_lines_def chomp_text machine
      fun_upd_twist)
qed

lemma aggregate_text: "chomp (show_aggregate n a) = show_aggregate n a"
  using chomp_append [of "''}''" "n @ '' = {'' @ show_int (fst a) @ '', '' @ show_int (snd a)"] by (simp add: show_aggregate_def chomp_def)

lemma others_say: "block [direct_ini, copy_ini, list_ini, aggregate_ini] s = Done () (says s (map Log (drop 6 other_lines)))"
  by (simp add: direct_ini_def copy_ini_def list_ini_def aggregate_ini_def Dummy_int_def Dummy_copy_def other_lines_def chomp_text
    aggregate_text machine)

text \<open>
  The first function of the example reads an \<open>int\<close> that was never given a value, so the run is
  undefined, whatever its state; the five others return, print the constructors that run, with a copy
  only where an object is copied, and leave the heap as it was.
\<close>

theorem initialization_uninitialised:
  "initialization_run s = Undef Uninitialised
    \<and> (fresh_above s \<longrightarrow> (\<exists>t. block [value_ini, direct_ini, copy_ini, list_ini, aggregate_ini] s = Done () t \<and> cells t = cells s
      \<and> out t = out s @ map Log other_lines))"
proof
  show "initialization_run s = Undef Uninitialised"
    by (simp add: initialization_run_def default_ini_def read_int_var_def machine)
  show "fresh_above s \<longrightarrow> (\<exists>t. block [value_ini, direct_ini, copy_ini, list_ini, aggregate_ini] s = Done () t \<and> cells t = cells s
      \<and> out t = out s @ map Log other_lines)"
  proof
    assume "fresh_above s"
    then obtain t where t: "value_ini s = Done () t" "cells t = cells s" "out t = out s @ map Log (take 6 other_lines)"
      using value_ini_says by blast
    have "block [value_ini, direct_ini, copy_ini, list_ini, aggregate_ini] s = block [direct_ini, copy_ini, list_ini, aggregate_ini] t"
      using t(1) by (simp add: seq_def)
    then show "\<exists>t. block [value_ini, direct_ini, copy_ini, list_ini, aggregate_ini] s = Done () t \<and> cells t = cells s
        \<and> out t = out s @ map Log other_lines"
      using t(2,3) others_say [of t] append_take_drop_id [of 6 other_lines] by (auto simp flip: map_append)
  qed
qed

theorem initialization_uninitialised_witness:
  "\<exists>t. block [value_ini, direct_ini, copy_ini, list_ini, aggregate_ini] boot = Done () t \<and> cells t = cells (boot :: obj world)
    \<and> out t = out (boot :: obj world) @ map Log other_lines"
  using initialization_uninitialised [of "boot :: obj world"] fresh_above_boot by blast

lemma qualifier_run_says: "qualifier_run True s = Done () (says s [Log ''Hello, world!'', Log ''kConstexprVarG == 9.8''])"
  by (simp add: qualifier_run_def square_def cube_def to_int32_def int32_def machine)

end
