(* ===== verification/Pointers.thy ===== *)
theory Pointers
  imports Prelude
begin

text \<open>
  \<open>src/core/datatype/Pointer.cpp\<close> and \<open>Reference.cpp\<close>: variables as objects of the store, so that a pointer
  or a reference to one can be passed; a local variable is freed at the end of its function.  The text of an
  address and the address of the global variable are parameters.

  Lemmas: passing by pointer changes the variable of the caller; both runs return, leave no object behind
  and the global variable as it was; a function called with a null pointer.
\<close>

section \<open>Variables\<close>

text \<open>An \<open>int\<close>, or an array of pointers whose elements may not be initialised.\<close>

datatype obj = IntV int | PtrArray "ptr option list"

type_synonym 'a vprog = "(obj world, 'a) prog"

definition load_int :: "ptr \<Rightarrow> int vprog" where
  "load_int p = seq (load p) (\<lambda>x. case x of IntV i \<Rightarrow> ret i | PtrArray _ \<Rightarrow> undef WrongType)"

definition store_int :: "ptr \<Rightarrow> int \<Rightarrow> unit vprog" where
  "store_int p i = seq (load_int p) (\<lambda>_. store p (IntV i))"

definition load_ptr_at :: "ptr \<Rightarrow> nat \<Rightarrow> ptr vprog" where
  "load_ptr_at p n = seq (load p) (\<lambda>x. case x of IntV _ \<Rightarrow> undef WrongType
     | PtrArray ps \<Rightarrow> if n < length ps then (case ps ! n of None \<Rightarrow> undef Uninitialised | Some q \<Rightarrow> ret q) else undef BadIndex)"

definition store_ptr_at :: "ptr \<Rightarrow> nat \<Rightarrow> ptr \<Rightarrow> unit vprog" where
  "store_ptr_at p n q = seq (load p) (\<lambda>x. case x of IntV _ \<Rightarrow> undef WrongType
     | PtrArray ps \<Rightarrow> if n < length ps then store p (PtrArray (ps[n := Some q])) else undef BadIndex)"

definition print_int :: "string \<Rightarrow> ptr \<Rightarrow> unit vprog" where
  "print_int x p = seq (load_int p) (\<lambda>i. cout (x @ show_int i @ endl))"

section \<open>\<open>Pointer.cpp\<close>\<close>

definition foo :: "int \<Rightarrow> int vprog" where
  "foo x = seq (cout (''x = '' @ show_int x @ endl)) (\<lambda>_. ret x)"

definition byPtr :: "ptr \<Rightarrow> unit vprog" where
  "byPtr x = seq (load_int x) (\<lambda>i. seq (incr32 i) (\<lambda>j. seq (store_int x j) (\<lambda>_. print_int ''x = '' x)))"

definition byConstPtr :: "ptr \<Rightarrow> unit vprog" where
  "byConstPtr x = print_int ''x = '' x"

definition byPtrConst :: "ptr \<Rightarrow> unit vprog" where
  "byPtrConst x = print_int ''x = '' x"

definition byConstPtrConst :: "ptr \<Rightarrow> unit vprog" where
  "byConstPtrConst x = print_int ''x = '' x"

definition returnPtr :: "ptr \<Rightarrow> ptr vprog" where
  "returnPtr global = ret global"

definition pointer_basics :: "(ptr \<Rightarrow> string) \<Rightarrow> ptr \<Rightarrow> unit vprog" where
  "pointer_basics show_ptr a = (let null_ptr = None; ptr_a = a in block [
     cout (''Address of nullptr (null_ptr): '' @ show_ptr null_ptr @ endl),
     cout (''Address of a (&a): '' @ show_ptr a @ endl),
     cout (''Value stored in pointer (ptr_a): '' @ show_ptr ptr_a @ endl),
     print_int ''Value of a via *ptr_a: '' ptr_a, store_int ptr_a 2, print_int ''Value of a after *ptr_a = 2: '' a])"

definition const_pointers :: "ptr \<Rightarrow> ptr \<Rightarrow> unit vprog" where
  "const_pointers const_var a = (let ptr_const_var = const_var; ptr_const_var' = a; const_ptr_a = a in block [
     print_int ''Value of ptr_const_var '' ptr_const_var, print_int ''Value of ptr_const_var '' ptr_const_var',
     store_int const_ptr_a 10])"

definition pointer_to_pointer :: "ptr \<Rightarrow> unit vprog" where
  "pointer_to_pointer a = seq (alloc (PtrArray (replicate 10 None))) (\<lambda>ptr_ptr_a. seq (store_ptr_at ptr_ptr_a 0 a) (\<lambda>_.
     seq (load_ptr_at ptr_ptr_a 0) (\<lambda>p. seq (print_int ''Value via pointer-to-pointer (*ptr_ptr_a[0]): '' p) (\<lambda>_. free ptr_ptr_a))))"

definition passing_pointers :: "ptr \<Rightarrow> unit vprog" where
  "passing_pointers i = block [byPtr i, byConstPtr i, byPtrConst i, byConstPtrConst i]"

definition pointers :: "(ptr \<Rightarrow> string) \<Rightarrow> ptr \<Rightarrow> unit vprog" where
  "pointers show_ptr global = seq (cout (endl @ ''--- Pointers Type Examples ---'' @ endl)) (\<lambda>_.
     seq (alloc (IntV 10)) (\<lambda>a. seq (print_int ''a = '' a) (\<lambda>_. seq (pointer_basics show_ptr a) (\<lambda>_.
     seq (alloc (IntV 100)) (\<lambda>const_var. seq (const_pointers const_var a) (\<lambda>_. seq (pointer_to_pointer a) (\<lambda>_.
     let void_ptr = a in seq (print_int ''Value via void pointer (after casting): '' void_ptr) (\<lambda>_.
     seq (foo 5) (\<lambda>_. seq (foo 10) (\<lambda>_.
     seq (alloc (IntV 10)) (\<lambda>i. seq (passing_pointers i) (\<lambda>_.
     seq (returnPtr global) (\<lambda>b_ptr. seq (print_int ''By ptr: '' b_ptr) (\<lambda>_. block [free i, free const_var, free a]))))))))))))))"

section \<open>\<open>Reference.cpp\<close>\<close>

definition increment :: "ptr \<Rightarrow> unit vprog" where
  "increment x = seq (load_int x) (\<lambda>i. seq (to_int32 (i + 1)) (\<lambda>j. store_int x j))"

definition incrementConst :: "ptr \<Rightarrow> unit vprog" where
  "incrementConst x = ret ()"

definition returnRef :: "ptr \<Rightarrow> ptr vprog" where
  "returnRef global = ret global"

definition references :: "ptr \<Rightarrow> unit vprog" where
  "references global = seq (cout (endl @ ''--- References Type Examples ---'' @ endl)) (\<lambda>_.
     seq (alloc (IntV 10)) (\<lambda>a. seq (print_int ''a = '' a) (\<lambda>_. let ref_a = a in
     seq (block [store_int ref_a 20, print_int ''ref_a =20, a = '' a, increment a, print_int ''a after increment = '' a,
       incrementConst a]) (\<lambda>_.
     seq (returnRef global) (\<lambda>b. seq (print_int ''By reference: '' b) (\<lambda>_. free a))))))"

definition copyConstructor :: "ptr \<Rightarrow> int vprog" where
  "copyConstructor x = seq (load_int x) (\<lambda>i. seq (to_int32 (i * 10)) (\<lambda>r. seq (store_int x 0) (\<lambda>_. ret r)))"

definition rvalue_run :: "unit vprog" where
  "rvalue_run = seq (alloc (IntV 10)) (\<lambda>a. seq (copyConstructor a) (\<lambda>b.
     seq (cout (show_int b @ endl)) (\<lambda>_. seq (print_int [] a) (\<lambda>_. free a))))"

definition reference_run :: "ptr \<Rightarrow> unit vprog" where
  "reference_run global = block [references global, rvalue_run]"

section \<open>Lemmas\<close>

lemma int_access [simp]:
  "cells s a = Some (IntV i) \<Longrightarrow> load_int (Some a) s = Done i s"
  "cells s a = Some (IntV i) \<Longrightarrow> store_int (Some a) j s = Done () (s\<lparr>cells := (cells s)(a \<mapsto> IntV j)\<rparr>)"
  "cells s a = Some (IntV i) \<Longrightarrow> print_int x (Some a) s = Done () (says s [Cout (x @ show_int i @ endl)])"
  "load_int None s = Undef NullDeref"
  by (simp_all add: load_int_def store_int_def print_int_def machine)

text \<open>
  Passing by pointer: the variable of the caller is incremented, and printed by each of the functions;
  at the greatest \<open>int\<close> the increment is undefined, and so is each function for a null pointer.
\<close>

theorem passing_by_pointer:
  assumes "cells s a = Some (IntV i)" and "int32 i"
  shows "passing_pointers (Some a) s = (if i < 2 ^ 31 - 1
      then Done () (says (s\<lparr>cells := (cells s)(a \<mapsto> IntV (i + 1))\<rparr>) (replicate 4 (Cout (''x = '' @ show_int (i + 1) @ endl))))
      else Undef SignedOverflow) \<and> passing_pointers None s = Undef NullDeref"
  using assms
  by (simp add: passing_pointers_def byPtr_def byConstPtr_def byPtrConst_def byConstPtrConst_def incr32_def to_int32_def int32_def
    machine numeral_eq_Suc)

lemma fresh_cells: "fresh_above s \<Longrightarrow> brk s \<le> a \<Longrightarrow> cells s a = None"
  by (simp add: fresh_above_def)

lemma global_old: "fresh_above s \<Longrightarrow> cells s g = Some x \<Longrightarrow> brk s \<le> a \<Longrightarrow> a \<noteq> g"
  by (auto simp: fresh_above_def)

definition pointer_lines :: "(ptr \<Rightarrow> string) \<Rightarrow> ptr \<Rightarrow> int \<Rightarrow> string list" where
  "pointer_lines show_ptr a g = [endl @ ''--- Pointers Type Examples ---'' @ endl, ''a = '' @ show_int 10 @ endl,
     ''Address of nullptr (null_ptr): '' @ show_ptr None @ endl, ''Address of a (&a): '' @ show_ptr a @ endl,
     ''Value stored in pointer (ptr_a): '' @ show_ptr a @ endl, ''Value of a via *ptr_a: '' @ show_int 10 @ endl,
     ''Value of a after *ptr_a = 2: '' @ show_int 2 @ endl, ''Value of ptr_const_var '' @ show_int 100 @ endl,
     ''Value of ptr_const_var '' @ show_int 2 @ endl, ''Value via pointer-to-pointer (*ptr_ptr_a[0]): '' @ show_int 10 @ endl,
     ''Value via void pointer (after casting): '' @ show_int 10 @ endl, ''x = '' @ show_int 5 @ endl, ''x = '' @ show_int 10 @ endl,
     ''x = '' @ show_int 11 @ endl, ''x = '' @ show_int 11 @ endl, ''x = '' @ show_int 11 @ endl, ''x = '' @ show_int 11 @ endl,
     ''By ptr: '' @ show_int g @ endl]"

lemma pointers_run:
  assumes "fresh_above s" and "cells s g = Some (IntV v)"
  shows "\<exists>t. pointers show_ptr (Some g) s = Done () t \<and> cells t = cells s \<and> brk t = brk s + 4
    \<and> out t = out s @ map Cout (pointer_lines show_ptr (Some (brk s)) v)"
proof -
  note g = global_old [OF assms, of "brk s"] global_old [OF assms, of "Suc (brk s)"] global_old [OF assms, of "Suc (Suc (brk s))"]
    global_old [OF assms, of "Suc (Suc (Suc (brk s)))"]
  have "(cells s)(brk s := None, Suc (brk s) := None, Suc (Suc (brk s)) := None, Suc (Suc (Suc (brk s))) := None) = cells s"
    using fresh_cells [OF assms(1)] by (simp add: fun_eq_iff)
  then show ?thesis using g assms(2)
    by (simp add: pointers_def pointer_basics_def const_pointers_def pointer_to_pointer_def passing_pointers_def byPtr_def byConstPtr_def
      byPtrConst_def byConstPtrConst_def foo_def returnPtr_def Let_def alloc_def control_defs print_defs free_def
      load_ptr_at_def store_ptr_at_def load_def store_def incr32_ok pointer_lines_def fun_upd_twist)
qed


text \<open>What is moved from is reset; the result is the old value times ten.\<close>

lemma copyConstructor_moves:
  assumes "cells s a = Some (IntV i)"
  shows "copyConstructor (Some a) s = (if int32 (i * 10) then Done (i * 10) (s\<lparr>cells := (cells s)(a \<mapsto> IntV 0)\<rparr>) else Undef SignedOverflow)"
  using assms by (simp add: copyConstructor_def to_int32_def machine)

definition reference_lines :: "int \<Rightarrow> string list" where
  "reference_lines g = [endl @ ''--- References Type Examples ---'' @ endl, ''a = '' @ show_int 10 @ endl,
     ''ref_a =20, a = '' @ show_int 20 @ endl, ''a after increment = '' @ show_int 21 @ endl, ''By reference: '' @ show_int g @ endl,
     show_int 100 @ endl, show_int 0 @ endl]"

lemma references_run:
  assumes "fresh_above s" and "cells s g = Some (IntV v)"
  shows "\<exists>t. reference_run (Some g) s = Done () t \<and> cells t = cells s \<and> brk t = brk s + 2
    \<and> out t = out s @ map Cout (reference_lines v)"
proof -
  note g = global_old [OF assms, of "brk s"] global_old [OF assms, of "Suc (brk s)"]
  have i: "int32 21" "int32 100" by (simp_all add: int32_def)
  have "(cells s)(brk s := None, Suc (brk s) := None) = cells s"
    using fresh_cells [OF assms(1)] by (simp add: fun_eq_iff)
  then show ?thesis using g assms(2)
    by (simp add: reference_run_def references_def rvalue_run_def increment_def incrementConst_def returnRef_def copyConstructor_moves Let_def
      alloc_def control_defs print_defs free_def to_int32_def i reference_lines_def fun_upd_twist)
qed

text \<open>
  Both runs, from any store with the global variables they return an address of: they return, print the
  values seen through the pointers and references, free every object they made once, and leave the
  store as it was.
\<close>

theorem pointer_runs_restore:
  assumes "fresh_above s" and "cells s g = Some (IntV v)"
  shows "(\<exists>t. pointers show_ptr (Some g) s = Done () t \<and> cells t = cells s
      \<and> out t = out s @ map Cout (pointer_lines show_ptr (Some (brk s)) v))
    \<and> (\<exists>t. reference_run (Some g) s = Done () t \<and> cells t = cells s \<and> out t = out s @ map Cout (reference_lines v))"
  using pointers_run [OF assms, of show_ptr] references_run [OF assms] by blast

definition demo_store :: "obj world" where
  "demo_store = \<lparr>cells = [0 \<mapsto> IntV 42], brk = 1, out = []\<rparr>"

lemma demo_fresh: "fresh_above demo_store"
  by (auto simp: fresh_above_def demo_store_def)

theorem passing_by_pointer_witness:
  "passing_pointers (Some 0) demo_store = Done () (says (demo_store\<lparr>cells := (cells demo_store)(0 \<mapsto> IntV 43)\<rparr>)
      (replicate 4 (Cout (''x = '' @ show_int 43 @ endl)))) \<and> passing_pointers None demo_store = Undef NullDeref"
  using passing_by_pointer [of demo_store 0 42] by (simp add: demo_store_def int32_def)

theorem pointer_runs_restore_witness:
  "(\<exists>t. pointers (\<lambda>_. ''0x0'') (Some 0) demo_store = Done () t \<and> cells t = cells demo_store
      \<and> out t = out demo_store @ map Cout (pointer_lines (\<lambda>_. ''0x0'') (Some (brk demo_store)) 42))
    \<and> (\<exists>t. reference_run (Some 0) demo_store = Done () t \<and> cells t = cells demo_store \<and> out t = out demo_store @ map Cout (reference_lines 42))"
  by (rule pointer_runs_restore [OF demo_fresh]) (simp add: demo_store_def)

end
