(* ===== verification/DataTypes.thy ===== *)
theory DataTypes
  imports BinaryFile
begin

text \<open>
  The other files of \<open>src/core/datatype\<close>: \<open>Array.cpp\<close>, \<open>Enum.cpp\<close>, \<open>Fundamental.cpp\<close>, \<open>Struct.cpp\<close>,
  \<open>Union.cpp\<close> and \<open>TypeConVersions.cpp\<close>.  A floating point number is a value of a type that is given
  together with its literals, its arithmetic and its printing; sizes and the texts of addresses are parameters.

  Lemmas: reading a member of a union that was not written last, by the standard and for a compiler that
  reads the bytes; \<open>dynamic_cast\<close> by the class of the object; the array is read within its bounds; what the
  runs print.
\<close>

record 'd floats =
  literal :: "string \<Rightarrow> 'd"
  show_float :: "'d \<Rightarrow> string"
  add_float :: "'d \<Rightarrow> 'd \<Rightarrow> 'd"
  of_int_float :: "int \<Rightarrow> 'd"
  to_int_float :: "'d \<Rightarrow> int"

section \<open>\<open>Array.cpp\<close>\<close>

definition element :: "'a list \<Rightarrow> nat \<Rightarrow> ('s, 'a) prog" where
  "element xs i = (if i < length xs then ret (xs ! i) else undef BadIndex)"

definition print_elements :: "nat \<Rightarrow> int list \<Rightarrow> ('o world, unit) prog" where
  "print_elements n arr = for_each [0 ..< n] (\<lambda>i. seq (element arr i) (\<lambda>x.
     cout (''arr['' @ show_nat i @ ''] = '' @ show_int x @ endl)))"

definition print_matrix :: "'d floats \<Rightarrow> nat \<Rightarrow> nat \<Rightarrow> 'd list list \<Rightarrow> ('o world, unit) prog" where
  "print_matrix fp m n matrix = for_each [0 ..< m] (\<lambda>i. for_each [0 ..< n] (\<lambda>j. seq (element matrix i) (\<lambda>r. seq (element r j) (\<lambda>x.
     cout (''matrix['' @ show_nat i @ '']['' @ show_nat j @ ''] = '' @ show_float fp x @ endl)))))"

definition arrayExamples :: "'d floats \<Rightarrow> ('o world, unit) prog" where
  "arrayExamples fp = block [cout (endl @ ''--- Array Examples ---'' @ endl), print_elements 5 [1, 2, 3, 4, 5],
     print_matrix fp 2 3 (map (map (literal fp)) [[''1.1'', ''2.2'', ''3.3''], [''4.4'', ''5.5'', ''6.6'']])]"

section \<open>\<open>Enum.cpp\<close>\<close>

datatype BasicEnum = kEnumratorA | kEnumratorB | kEnumratorC

definition enums :: "('o world, unit) prog" where
  "enums = (let unscope_e = kEnumratorA in cout (endl @ ''--- Enum Type Examples ---'' @ endl))"

section \<open>\<open>Fundamental.cpp\<close>\<close>

text \<open>The text that \<open>std::wcout\<close> makes of its line is given.\<close>

definition primative :: "'d floats \<Rightarrow> string \<Rightarrow> string \<Rightarrow> ('o world, unit) prog" where
  "primative fp wide_line null_text = block [
     cout (endl @ ''--- Primative Type Examples ---'' @ endl),
     cout (''bool: '' @ ''1'' @ endl), cout (''char: '' @ ''A'' @ endl), cout (''unsigned char: '' @ show_int 200 @ endl),
     cout wide_line,
     cout (''char16_t: (UTF-16 code) '' @ show_int 0xDF @ endl), cout (''char32_t: (UTF-32 code) '' @ show_int 0x4E2D @ endl),
     cout (''short: '' @ show_int (- 10) @ endl), cout (''int: '' @ show_int 42 @ endl), cout (''unsigned int: '' @ show_int 100 @ endl),
     cout (''long: '' @ show_int 123456 @ endl), cout (''long long: '' @ show_int 9876543210 @ endl),
     cout (''float: '' @ show_float fp (literal fp ''3.14F'') @ endl), cout (''double: '' @ show_float fp (literal fp ''2.718281828'') @ endl),
     cout (''long double: '' @ show_float fp (literal fp ''1.6180339887L'') @ endl),
     cout (''void: (no data type, used for functions)'' @ endl), cout (''nullptr_t: '' @ null_text @ endl)]"

section \<open>\<open>Struct.cpp\<close>\<close>

record 'd StructDataType =
  voltage :: 'd
  id_of :: int
  status :: char
  label :: string

type_synonym ('d, 'a) sprog = "('d StructDataType world, 'a) prog"

definition print_struct :: "'d floats \<Rightarrow> nat \<Rightarrow> ptr \<Rightarrow> ('d, unit) sprog" where
  "print_struct fp struct_size this = seq (load this) (\<lambda>d. block [
     cout (''Size of struct = '' @ show_nat struct_size @ '' bytes'' @ endl),
     cout (''Sensor '' @ show_int (id_of d) @ '' ['' @ label d @ ''] Voltage: '' @ show_float fp (voltage d) @ '' Status: '' @ [status d] @ endl)])"

definition updateVoltageRef :: "ptr \<Rightarrow> 'd \<Rightarrow> ('d, unit) sprog" where
  "updateVoltageRef data newV = seq (load data) (\<lambda>d. store data (d\<lparr>voltage := newV\<rparr>))"

definition updateVoltagePtr :: "ptr \<Rightarrow> 'd \<Rightarrow> ('d, unit) sprog" where
  "updateVoltagePtr data newV = (if data \<noteq> None then seq (load data) (\<lambda>d. store data (d\<lparr>voltage := newV\<rparr>)) else ret ())"

definition makeSensor :: "int \<Rightarrow> 'd \<Rightarrow> string \<Rightarrow> 'd StructDataType" where
  "makeSensor i v l = \<lparr>voltage = v, id_of = i, status = CHR ''N'', label = l\<rparr>"

definition structs :: "'d floats \<Rightarrow> nat \<Rightarrow> ('d, unit) sprog" where
  "structs fp n = seq (cout (endl @ ''--- Struct Type Examples ---'' @ endl)) (\<lambda>_.
     seq (alloc \<lparr>voltage = literal fp ''0.0'', id_of = 0, status = CHR ''N'', label = ''Unknown''\<rparr>) (\<lambda>data0.
     seq (alloc \<lparr>voltage = literal fp ''3.3'', id_of = 1, status = CHR ''N'', label = ''Temp1''\<rparr>) (\<lambda>data1.
     seq (alloc \<lparr>voltage = literal fp ''6.3'', id_of = 2, status = CHR ''N'', label = ''Temp2''\<rparr>) (\<lambda>data2.
     let ptr_data1 = data1 in seq (block [print_struct fp n data1, print_struct fp n ptr_data1,
       updateVoltageRef data2 (of_int_float fp 100), print_struct fp n data2,
       updateVoltagePtr data2 (of_int_float fp 200), print_struct fp n data2]) (\<lambda>_.
     seq (alloc (makeSensor 2 (literal fp ''5.0'') ''Pressure'')) (\<lambda>s2.
     block [print_struct fp n s2, free s2, free data2, free data1, free data0]))))))"

section \<open>\<open>Union.cpp\<close>\<close>

datatype member = intValue | floatValue | charValue

text \<open>
  The bytes of the object and the member written last.  By the standard only that one can be read; with
  \<open>punning\<close>, which some compilers document, the bytes are read as the member asked for.
\<close>

record UnionDataType =
  active :: "member option"
  mem :: "byte list"

definition no_value :: UnionDataType where
  "no_value = \<lparr>active = None, mem = replicate 4 0\<rparr>"

definition set_intValue :: "platform \<Rightarrow> int \<Rightarrow> UnionDataType \<Rightarrow> UnionDataType" where
  "set_intValue os i u = \<lparr>active = Some intValue, mem = bytes_of os 4 (unat (word_of_int i :: 32 word))\<rparr>"

definition set_floatValue :: "platform \<Rightarrow> 32 word \<Rightarrow> UnionDataType \<Rightarrow> UnionDataType" where
  "set_floatValue os bits u = \<lparr>active = Some floatValue, mem = bytes_of os 4 (unat bits)\<rparr>"

definition set_charValue :: "char \<Rightarrow> UnionDataType \<Rightarrow> UnionDataType" where
  "set_charValue c u = \<lparr>active = Some charValue, mem = (mem u)[0 := byte_of c]\<rparr>"

definition readable :: "bool \<Rightarrow> member \<Rightarrow> UnionDataType \<Rightarrow> ('s, unit) prog" where
  "readable punning m u = (case active u of None \<Rightarrow> undef Uninitialised
     | Some n \<Rightarrow> if punning \<or> n = m then ret () else undef WrongType)"

definition word_of_mem :: "platform \<Rightarrow> UnionDataType \<Rightarrow> 32 word" where
  "word_of_mem os u = of_nat (value_of os (mem u))"

definition printAll :: "bool \<Rightarrow> platform \<Rightarrow> (32 word \<Rightarrow> string) \<Rightarrow> UnionDataType \<Rightarrow> ('o world, unit) prog" where
  "printAll punning os show_bits u = block [
     readable punning intValue u, cout (''intValue = '' @ show_int (sint (word_of_mem os u)) @ '', floatValue = ''),
     readable punning floatValue u, cout (show_bits (word_of_mem os u) @ '', charValue = ''),
     readable punning charValue u, cout ([char_of_byte (mem u ! 0)] @ endl)]"

definition unionDemo :: "bool \<Rightarrow> platform \<Rightarrow> (32 word \<Rightarrow> string) \<Rightarrow> 32 word \<Rightarrow> ('o world, unit) prog" where
  "unionDemo punning os show_bits pi_bits = (let u = no_value; u1 = set_intValue os 65 u; u2 = set_floatValue os pi_bits u1;
       u3 = set_charValue (CHR ''A'') u2 in block [
     cout (endl @ ''--- Union Unique Behavior ---'' @ endl),
     cout (''After assigning intValue = 65:'' @ endl), printAll punning os show_bits u1,
     cout (''After assigning floatValue = 3.14:'' @ endl), printAll punning os show_bits u2,
     cout (''After assigning charValue = '' @ [CHR 0x27] @ ''A'' @ [CHR 0x27] @ '':'' @ endl), printAll punning os show_bits u3,
     cout (''Size of union = '' @ show_nat (length (mem u3)) @ '' bytes'' @ endl),
     cout (''Notice: Only one value is valid at a time.'' @ endl)])"


section \<open>\<open>TypeConVersions.cpp\<close>\<close>

datatype cls = Base | Derived | DerivedX

type_synonym 'a kprog = "(cls world, 'a) prog"

text \<open>The conversion to \<open>int\<close> drops the fraction; it is undefined when the result does not fit.\<close>

definition int_of_float :: "'d floats \<Rightarrow> 'd \<Rightarrow> ('s, int) prog" where
  "int_of_float fp d = to_int32 (to_int_float fp d)"

text \<open>The null pointer when the object is of another class; the classes derived from \<open>Base\<close> are final here.\<close>

definition dynamic_cast :: "cls \<Rightarrow> ptr \<Rightarrow> ptr kprog" where
  "dynamic_cast c p = (if p = None then ret None else seq (load p) (\<lambda>x. ret (if x = c \<or> c = Base then p else None)))"

definition implicitConversion :: "'d floats \<Rightarrow> unit kprog" where
  "implicitConversion fp = (let d = literal fp ''3.5F''; pi = literal fp ''3.14159'' in
     seq (cout (endl @ ''--- Implicit Type Conversion ---'' @ endl)) (\<lambda>_. seq (int_of_float fp pi) (\<lambda>pi_int. block [
       cout (''char to int: '' @ show_int 65 @ endl), cout (''float to double: '' @ show_float fp d @ endl),
       cout (''bool to int: '' @ show_int 1 @ endl),
       cout (''float to double (didening): '' @ show_float fp pi @ endl),
       cout (''float to int (narrowing): '' @ show_int pi_int @ endl)])))"

definition dynamic_casts :: "unit kprog" where
  "dynamic_casts = seq (alloc Derived) (\<lambda>base_ptr_2. seq (dynamic_cast Derived base_ptr_2) (\<lambda>derived_ptr.
     seq (cout (if derived_ptr \<noteq> None then ''dynamic_cast: Success (Base* -> Derived*)'' @ endl else ''dynamic_cast: Failed'' @ endl)) (\<lambda>_.
     seq (alloc Base) (\<lambda>another_base. seq (dynamic_cast Derived another_base) (\<lambda>wrong_cast.
     seq (if wrong_cast = None then cout (''dynamic_cast: nullptr (invalid downcast)'' @ endl) else ret ()) (\<lambda>_.
     block [free base_ptr_2, free another_base]))))))"

definition explicitConversion :: "'d floats \<Rightarrow> string \<Rightarrow> unit kprog" where
  "explicitConversion fp address_of_pi = (let pi = literal fp ''3.14159''; c_pi = literal fp ''2.71828'' in
     seq (cout (endl @ ''--- Explicit Type Conversion ---'' @ endl)) (\<lambda>_.
     seq (int_of_float fp pi) (\<lambda>pi_c. seq (cout (''C-style cast: '' @ show_int pi_c @ endl)) (\<lambda>_.
     seq (int_of_float fp pi) (\<lambda>pi_static. seq (cout (''static_cast: '' @ show_int pi_static @ endl)) (\<lambda>_.
     block [cout (''const_cast: '' @ show_float fp c_pi @ '' (removed const)'' @ endl),
       cout (''reinterpret_cast: address of pi = '' @ address_of_pi @ endl), dynamic_casts]))))))"

text \<open>The lambda behind the pointer \<open>fptr\<close>.\<close>

definition lambda_sum :: "'d floats \<Rightarrow> 'd \<Rightarrow> char \<Rightarrow> ('s, int) prog" where
  "lambda_sum fp x c = seq (int_of_float fp x) (\<lambda>i. to_int32 (i + of_char c))"

definition typeAliases :: "'d floats \<Rightarrow> unit kprog" where
  "typeAliases fp = seq (cout (endl @ ''--- Type Aliases ---'' @ endl)) (\<lambda>_.
     seq (lambda_sum fp (literal fp ''2.5'') (CHR ''A'')) (\<lambda>r. cout (''Function pointer alias result: '' @ show_int r @ endl)))"

definition add :: "int \<Rightarrow> int \<Rightarrow> ('s, int) prog" where
  "add x y = to_int32 (x + y)"

definition add_auto :: "int \<Rightarrow> int \<Rightarrow> ('s, int) prog" where
  "add_auto a b = to_int32 (a + b)"

definition typeDeduction :: "'d floats \<Rightarrow> unit kprog" where
  "typeDeduction fp = (let x = 42; y = literal fp ''3.14''; z = add_float fp (of_int_float fp x) y; val = add_float fp (of_int_float fp x) y in
     seq (block [cout (endl @ ''--- Type Deduction ---'' @ endl),
       cout (''auto x: '' @ show_int x @ '', y: '' @ show_float fp y @ '', z: '' @ show_float fp z @ endl)]) (\<lambda>_.
     seq (add 3 4) (\<lambda>r. seq (cout (''add(3,4) = '' @ show_int r @ endl)) (\<lambda>_.
     seq (add_auto 3 4) (\<lambda>r. seq (cout (''add_auto(3,4) = '' @ show_int r @ endl)) (\<lambda>_.
     cout (''common_type<int,double>: '' @ show_float fp val @ endl)))))))"

definition conversions_run :: "'d floats \<Rightarrow> string \<Rightarrow> unit kprog" where
  "conversions_run fp address_of_pi = block [implicitConversion fp, explicitConversion fp address_of_pi, typeAliases fp, typeDeduction fp]"

section \<open>Lemmas\<close>

lemma print_elements_says:
  "n \<le> length arr \<Longrightarrow> print_elements n arr s = Done () (says s (map (\<lambda>i. Cout (''arr['' @ show_nat i @ ''] = '' @ show_int (arr ! i) @ endl)) [0 ..< n]))"
proof -
  assume n: "n \<le> length arr"
  have "for_each is (\<lambda>i. seq (element arr i) (\<lambda>x. cout (''arr['' @ show_nat i @ ''] = '' @ show_int x @ endl))) s
      = Done () (says s (map (\<lambda>i. Cout (''arr['' @ show_nat i @ ''] = '' @ show_int (arr ! i) @ endl)) is))"
    if "\<forall>i \<in> set is. i < length arr" for "is" s
    using that by (induction "is" arbitrary: s) (simp_all add: element_def machine)
  from this [of "[0 ..< n]" s] n show ?thesis by (simp add: print_elements_def)
qed

text \<open>One element more than there are is an undefined access.\<close>

lemma print_elements_beyond: "print_elements (Suc (length arr)) arr s = Undef BadIndex"
  using print_elements_says [of "length arr" arr s]
  by (simp add: print_elements_def for_each_append element_def seq_def undef_def)

lemma update_struct:
  assumes "cells s a = Some d"
  shows "updateVoltageRef (Some a) v s = Done () (s\<lparr>cells := (cells s)(a \<mapsto> d\<lparr>voltage := v\<rparr>)\<rparr>)"
    "updateVoltagePtr (Some a) v s = Done () (s\<lparr>cells := (cells s)(a \<mapsto> d\<lparr>voltage := v\<rparr>)\<rparr>)" "updateVoltagePtr None v s = Done () s"
    "updateVoltageRef None v s = Undef NullDeref"
  using assms by (simp_all add: updateVoltageRef_def updateVoltagePtr_def machine)



text \<open>The bytes of the union, and what its members read.\<close>

lemma word_of_bytes: "word_of_mem os \<lparr>active = m, mem = bytes_of os 4 (unat w)\<rparr> = w"
proof -
  have "unat w < 256 ^ 4" using unsigned_less [of w] by simp
  then have "value_of os (bytes_of os 4 (unat w)) = unat w" by (simp add: value_of_def bytes_of_def le_value_bytes)
  then show ?thesis by (simp add: word_of_mem_def)
qed

definition low_byte :: "char \<Rightarrow> 32 word \<Rightarrow> 32 word" where
  "low_byte c w = of_nat (of_char c + 256 * (unat w div 256))"

lemma union_members:
  assumes "\<not> big_endian os"
  shows "word_of_mem os (set_intValue os i u) = word_of_int i" "word_of_mem os (set_floatValue os w u) = w"
    "word_of_mem os (set_charValue c (set_floatValue os w u)) = low_byte c w"
    "char_of_byte (mem (set_intValue os i u) ! 0) = char_of (unat (word_of_int i :: 32 word))"
    "char_of_byte (mem (set_floatValue os w u) ! 0) = char_of (unat w)"
    "char_of_byte (mem (set_charValue c (set_floatValue os w u)) ! 0) = c"
proof -
  show "word_of_mem os (set_intValue os i u) = word_of_int i" "word_of_mem os (set_floatValue os w u) = w"
    by (simp_all add: set_intValue_def set_floatValue_def word_of_bytes)
  have four: "le_bytes 4 n = of_nat (n mod 256) # le_bytes 3 (n div 256)" for n using le_bytes.simps(2) [of 3 n] by simp
  have c: "unat (of_nat (of_char c) :: byte) = of_char c" for c
    by (simp add: unsigned_of_nat take_bit_eq_mod)
  have "unat w < 256 ^ 4" using unsigned_less [of w] by simp
  then have "unat w div 256 < 256 ^ 3" by (simp add: less_mult_imp_div_less)
  then show "word_of_mem os (set_charValue c (set_floatValue os w u)) = low_byte c w"
    using assms by (simp add: word_of_mem_def set_charValue_def set_floatValue_def bytes_of_def value_of_def four le_value_bytes byte_of_def c low_byte_def)
  show "char_of_byte (mem (set_intValue os i u) ! 0) = char_of (unat (word_of_int i :: 32 word))"
    "char_of_byte (mem (set_floatValue os w u) ! 0) = char_of (unat w)"
    "char_of_byte (mem (set_charValue c (set_floatValue os w u)) ! 0) = c"
    using assms by (simp_all add: char_of_byte_def set_intValue_def set_floatValue_def set_charValue_def bytes_of_def four byte_of_def c
      unsigned_of_nat take_bit_eq_mod)
qed


definition print_lines :: "(32 word \<Rightarrow> string) \<Rightarrow> 32 word \<Rightarrow> char \<Rightarrow> string list" where
  "print_lines show_bits w c = [''intValue = '' @ show_int (sint w) @ '', floatValue = '', show_bits w @ '', charValue = '', [c] @ endl]"

lemma printAll_punned:
  assumes "active u = Some m"
  shows "printAll True os show_bits u s = Done () (says s (map Cout (print_lines show_bits (word_of_mem os u) (char_of_byte (mem u ! 0)))))"
  using assms by (simp add: printAll_def readable_def print_lines_def machine)

text \<open>
  By the standard the first call that prints all members of the union is undefined, since only one of
  them was written.  With a compiler that reads the bytes (the platform is little endian), each line shows
  the same four bytes as a number, as a float and as a character: the last assignment replaces only the
  lowest byte of the float.
\<close>

theorem union_demo_reads:
  assumes "\<not> big_endian os"
  shows "unionDemo False os show_bits pi_bits s = Undef WrongType
    \<and> unionDemo True os show_bits pi_bits s = Done () (says s (map Cout (
        [endl @ ''--- Union Unique Behavior ---'' @ endl, ''After assigning intValue = 65:'' @ endl] @ print_lines show_bits 65 (CHR ''A'')
        @ [''After assigning floatValue = 3.14:'' @ endl] @ print_lines show_bits pi_bits (char_of (unat pi_bits))
        @ [''After assigning charValue = '' @ [CHR 0x27] @ ''A'' @ [CHR 0x27] @ '':'' @ endl]
        @ print_lines show_bits (low_byte (CHR ''A'') pi_bits) (CHR ''A'')
        @ [''Size of union = '' @ show_nat 4 @ '' bytes'' @ endl, ''Notice: Only one value is valid at a time.'' @ endl])))"
proof
  let ?u1 = "set_intValue os 65 no_value"
  let ?u2 = "set_floatValue os pi_bits ?u1"
  let ?u3 = "set_charValue (CHR ''A'') ?u2"
  have active: "active ?u1 = Some intValue" "active ?u2 = Some floatValue" "active ?u3 = Some charValue"
    by (simp_all add: set_intValue_def set_floatValue_def set_charValue_def)
  have size: "length (mem ?u3) = 4" by (simp add: set_charValue_def set_floatValue_def bytes_of_def length_le_bytes)
  show "unionDemo False os show_bits pi_bits s = Undef WrongType"
    by (simp add: unionDemo_def Let_def printAll_def readable_def active machine)
  have "unionDemo True os show_bits pi_bits s = Done () (says s (map Cout (
        [endl @ ''--- Union Unique Behavior ---'' @ endl, ''After assigning intValue = 65:'' @ endl]
        @ print_lines show_bits (word_of_mem os ?u1) (char_of_byte (mem ?u1 ! 0))
        @ [''After assigning floatValue = 3.14:'' @ endl] @ print_lines show_bits (word_of_mem os ?u2) (char_of_byte (mem ?u2 ! 0))
        @ [''After assigning charValue = '' @ [CHR 0x27] @ ''A'' @ [CHR 0x27] @ '':'' @ endl]
        @ print_lines show_bits (word_of_mem os ?u3) (char_of_byte (mem ?u3 ! 0))
        @ [''Size of union = '' @ show_nat 4 @ '' bytes'' @ endl, ''Notice: Only one value is valid at a time.'' @ endl])))"
    by (simp add: unionDemo_def Let_def printAll_punned [OF active(1)] printAll_punned [OF active(2)] printAll_punned [OF active(3)] size machine)
  moreover have "char_of (unat (word_of_int 65 :: 32 word)) = CHR ''A''" by code_simp
  ultimately show "unionDemo True os show_bits pi_bits s = Done () (says s (map Cout (
        [endl @ ''--- Union Unique Behavior ---'' @ endl, ''After assigning intValue = 65:'' @ endl] @ print_lines show_bits 65 (CHR ''A'')
        @ [''After assigning floatValue = 3.14:'' @ endl] @ print_lines show_bits pi_bits (char_of (unat pi_bits))
        @ [''After assigning charValue = '' @ [CHR 0x27] @ ''A'' @ [CHR 0x27] @ '':'' @ endl]
        @ print_lines show_bits (low_byte (CHR ''A'') pi_bits) (CHR ''A'')
        @ [''Size of union = '' @ show_nat 4 @ '' bytes'' @ endl, ''Notice: Only one value is valid at a time.'' @ endl])))"
    unfolding union_members [OF assms] by simp
qed

definition demo_platform :: platform where
  "demo_platform = \<lparr>big_endian = False, can_create = True, can_open = True, capacity = 0, max_size = 0\<rparr>"

theorem union_demo_reads_witness:
  "unionDemo False demo_platform (\<lambda>_. ''float'') 0x4048F5C3 (boot :: unit world) = Undef WrongType
    \<and> (\<exists>t. unionDemo True demo_platform (\<lambda>_. ''float'') 0x4048F5C3 (boot :: unit world) = Done () t)"
proof -
  have "\<not> big_endian demo_platform" by (simp add: demo_platform_def)
  from union_demo_reads [OF this, of "\<lambda>_. ''float''" "0x4048F5C3" boot] show ?thesis by blast
qed

text \<open>The float \<open>3.14\<close> with its lowest byte replaced by that of the letter A.\<close>

lemma low_byte_pi: "low_byte (CHR ''A'') 0x4048F5C3 = 0x4048F541"
  by (simp add: low_byte_def)

lemma structs_run:
  assumes "fresh_above s"
  shows "\<exists>t. structs fp n s = Done () t \<and> cells t = cells s"
proof -
  have "(cells s)(brk s := None, Suc (brk s) := None, Suc (Suc (brk s)) := None, Suc (Suc (Suc (brk s))) := None) = cells s"
    using assms by (simp add: fun_eq_iff fresh_above_def)
  then show ?thesis
    by (simp add: structs_def print_struct_def update_struct Let_def alloc_def control_defs print_defs load_def free_def fun_upd_twist)
qed

end
