(* ===== verification/Regexes.thy ===== *)
theory Regexes
  imports StdStrings
begin

text \<open>
  \<open>src/core/utils/Regex.cpp\<close>: the part of \<open>std::regex\<close> that the example uses, a backtracking matcher for
  characters, sequences and greedy repetitions, the searches over a text that are built on it, and the run.

  Lemmas: a greedy repetition takes the longest run of its characters; the iterator over a text finds
  exactly the maximal runs that are long enough, and the replacement puts brackets around exactly these,
  also shown against a definition that splits the text without a regular expression.
\<close>

section \<open>Regular expressions\<close>

datatype rx = Class "char \<Rightarrow> bool" | Cat rx rx | Repeat nat "nat option" rx

text \<open>The texts left after a greedy repetition, the longest match first; \<open>most\<close> bounds the repetitions.\<close>

primrec repeated :: "(string \<Rightarrow> string list) \<Rightarrow> nat \<Rightarrow> nat \<Rightarrow> string \<Rightarrow> string list" where
  "repeated f 0 least x = (if least = 0 then [x] else [])"
| "repeated f (Suc most) least x = concat (map (repeated f most (least - 1)) (f x)) @ (if least = 0 then [x] else [])"

text \<open>The texts left after a match at the start, in the order in which they are tried.\<close>

primrec ends :: "rx \<Rightarrow> string \<Rightarrow> string list" where
  "ends (Class p) x = (case x of [] \<Rightarrow> [] | c # y \<Rightarrow> if p c then [y] else [])"
| "ends (Cat r q) x = concat (map (ends q) (ends r x))"
| "ends (Repeat least most r) x = repeated (ends r) (case most of None \<Rightarrow> length x | Some n \<Rightarrow> n) least x"

definition regex_match :: "string \<Rightarrow> rx \<Rightarrow> bool" where
  "regex_match x r \<longleftrightarrow> [] \<in> set (ends r x)"

text \<open>The first position with a match: what is skipped, the match and what is left.\<close>

fun find_match :: "rx \<Rightarrow> string \<Rightarrow> (string \<times> string \<times> string) option" where
  "find_match r x = (case ends r x of y # _ \<Rightarrow> Some ([], take (length x - length y) x, y)
     | [] \<Rightarrow> (case x of [] \<Rightarrow> None
         | c # z \<Rightarrow> (case find_match r z of None \<Rightarrow> None | Some (skipped, m, rest) \<Rightarrow> Some (c # skipped, m, rest))))"

declare find_match.simps [simp del]

definition regex_search :: "string \<Rightarrow> rx \<Rightarrow> bool" where
  "regex_search x r \<longleftrightarrow> find_match r x \<noteq> None"

text \<open>\<open>std::sregex_iterator\<close>: every match with the text before it, and the text after the last; an empty match ends it here.\<close>

function sregex_iterator :: "rx \<Rightarrow> string \<Rightarrow> (string \<times> string) list \<times> string" where
  "sregex_iterator r x = (case find_match r x of None \<Rightarrow> ([], x)
     | Some (skipped, m, y) \<Rightarrow> if length x \<le> length y then ([], x)
         else (case sregex_iterator r y of (ms, rest) \<Rightarrow> ((skipped, m) # ms, rest)))"
  by pat_completeness auto
termination
  by (relation "measure (\<lambda>(r, x). length x)") auto

declare sregex_iterator.simps [simp del]

text \<open>\<open>std::regex_replace\<close> with the format \<open>[$&]\<close>.\<close>

definition regex_replace :: "string \<Rightarrow> rx \<Rightarrow> string" where
  "regex_replace x r = (case sregex_iterator r x of (ms, rest) \<Rightarrow> concat (map (\<lambda>(s, m). s @ ''['' @ m @ '']'') ms) @ rest)"

section \<open>The example\<close>

definition literally :: "(char \<Rightarrow> char) \<Rightarrow> string \<Rightarrow> rx" where
  "literally fold_case x = foldr (\<lambda>c. Cat (Class (\<lambda>d. fold_case d = fold_case c))) x (Repeat 0 (Some 0) (Class (\<lambda>_. False)))"

definition word_char :: "char \<Rightarrow> bool" where
  "word_char c \<longleftrightarrow> CHR ''a'' \<le> c \<and> c \<le> CHR ''z'' \<or> CHR ''A'' \<le> c \<and> c \<le> CHR ''Z'' \<or> is_digit c \<or> c = CHR ''_''"

definition regex_search_exp :: rx where
  "regex_search_exp = literally tolower ''regular expression''"

definition phone_regex :: rx where
  "phone_regex = Cat (Class (\<lambda>c. c = CHR ''+'')) (Cat
     (Repeat 6 (Some 15) (Cat (Class (\<lambda>c. is_digit c \<or> c \<in> set ''-()/.'')) (Repeat 0 (Some 1) (Class is_space))))
     (Class is_digit))"

definition word_regex :: rx where
  "word_regex = Repeat 1 None (Class word_char)"

definition long_word_regex :: rx where
  "long_word_regex = Repeat 5 None (Class word_char)"

definition sample_text :: string where
  "sample_text = ''This is my string. '' @ ''I'' @ [CHR 0x27] @ ''ll use regular expression. '' @ ''Now I have two problems.''"

definition phone :: string where
  "phone = ''+84336821417''"

definition words :: "string \<Rightarrow> string list" where
  "words x = map snd (fst (sregex_iterator word_regex x))"

text \<open>The text and the number are arguments.\<close>

definition regex_run :: "string \<Rightarrow> string \<Rightarrow> ('o world, unit) prog" where
  "regex_run x number = block [LOG (''String: '' @ x),
     if regex_search x regex_search_exp then LOG (tab @ ''String contains '' @ [CHR 0x27] @ ''regular expression'' @ [CHR 0x27]) else ret (),
     if \<not> regex_match number phone_regex
       then throw (''Invalid phone number format. '' @ ''Try including the country code.'') else ret (),
     LOG ''Find words: '', LOG_S (tab @ ''Found '' @ show_nat (length (words x)) @ '' words''),
     LOG ''Find words longer than 5 chars: '',
     for_each (words x) (\<lambda>word. if length word > 5 then LOG (tab @ word) else ret ()),
     LOG (''Replace '' @ dq @ ''long_words'' @ dq @ '' to : '' @ dq @ ''[long_words]'' @ dq),
     LOG (tab @ regex_replace x long_word_regex)]"

section \<open>Runs of characters\<close>

text \<open>A text split into runs of the characters of \<open>p\<close>, each with the text before it.\<close>

function runs :: "(char \<Rightarrow> bool) \<Rightarrow> string \<Rightarrow> (string \<times> string) list \<times> string" where
  "runs p x = (let gap = takeWhile (\<lambda>c. \<not> p c) x; y = dropWhile (\<lambda>c. \<not> p c) x in
     if y = [] then ([], x)
     else (case runs p (dropWhile p y) of (ms, rest) \<Rightarrow> ((gap, takeWhile p y) # ms, rest)))"
  by pat_completeness auto
termination
proof (relation "measure (\<lambda>(p, x). length x)")
  fix p x gap y
  assume y: "y = dropWhile (\<lambda>c. \<not> p c) x" "y \<noteq> []"
  then have "p (hd y)" using hd_dropWhile [of "\<lambda>c. \<not> p c" x] by simp
  with y(2) have "length (dropWhile p y) < length y" by (cases y) (simp_all add: le_imp_less_Suc length_dropWhile_le)
  with y(1) length_dropWhile_le [of "\<lambda>c. \<not> p c" x]
  show "((p, dropWhile p y), p, x) \<in> measure (\<lambda>(p, x). length x)" by simp
qed simp

declare runs.simps [simp del]

lemma runs_none: "dropWhile (\<lambda>c. \<not> p c) x = [] \<Longrightarrow> runs p x = ([], x)"
  unfolding runs.simps [of p x] Let_def by (rule if_P)

lemma runs_more: "dropWhile (\<lambda>c. \<not> p c) x \<noteq> [] \<Longrightarrow> runs p x = (case runs p (dropWhile p (dropWhile (\<lambda>c. \<not> p c) x)) of (ms, rest) \<Rightarrow>
    ((takeWhile (\<lambda>c. \<not> p c) x, takeWhile p (dropWhile (\<lambda>c. \<not> p c) x)) # ms, rest))"
  unfolding runs.simps [of p x] Let_def by (rule if_not_P)

text \<open>A greedy repetition of a class first tries the longest run.\<close>

lemma repeated_class:
  "length x \<le> n \<Longrightarrow> repeated (ends (Class p)) n k x
     = (if k \<le> length (takeWhile p x) then map (\<lambda>i. drop i x) (rev [k ..< Suc (length (takeWhile p x))]) else [])"
proof (induction n arbitrary: k x)
  case 0
  then show ?case by auto
next
  case (Suc n)
  show ?case
  proof (cases "\<exists>c y. x = c # y \<and> p c")
    case False
    then have "ends (Class p) x = []" "takeWhile p x = []" by (cases x; force)+
    then show ?thesis by simp
  next
    case True
    then obtain c y where x: "x = c # y" "p c" by blast
    let ?m = "length (takeWhile p y)"
    have l: "[k ..< Suc (Suc ?m)] = (if k \<le> Suc ?m then (if k = 0 then [0] else []) @ map Suc [k - 1 ..< Suc ?m] else [])"
    proof (cases k)
      case 0
      have "[0 ..< Suc (Suc ?m)] = 0 # map Suc [0 ..< Suc ?m]" by (simp add: upt_conv_Cons map_Suc_upt del: upt_Suc)
      with 0 show ?thesis by (simp del: upt_Suc)
    next
      case (Suc j)
      then show ?thesis by (simp add: map_Suc_upt del: upt_Suc)
    qed
    have "repeated (ends (Class p)) n (k - 1) y
        = (if k - 1 \<le> ?m then map (\<lambda>i. drop i y) (rev [k - 1 ..< Suc ?m]) else [])"
      using Suc.IH [of y "k - 1"] Suc.prems x(1) by (simp del: upt_Suc ends.simps)
    moreover have "ends (Class p) (c # y) = [y]" using x(2) by simp
    moreover have "k \<le> Suc ?m \<longleftrightarrow> k - 1 \<le> ?m" by auto
    ultimately show ?thesis unfolding x(1) using x(2)
      by (simp add: l rev_map comp_def del: upt_Suc ends.simps)
  qed
qed

lemma ends_plus:
  "ends (Repeat k None (Class p)) x
     = (if k \<le> length (takeWhile p x) then map (\<lambda>i. drop i x) (rev [k ..< Suc (length (takeWhile p x))]) else [])"
  using repeated_class [of x "length x" p k] by simp

text \<open>Facts about \<open>Repeat k None (Class p)\<close> for a positive \<open>k\<close>.\<close>

abbreviation plus :: "nat \<Rightarrow> (char \<Rightarrow> bool) \<Rightarrow> rx" where
  "plus k p \<equiv> Repeat k None (Class p)"

lemma find_match_hit:
  "k \<le> length (takeWhile p x) \<Longrightarrow> find_match (plus k p) x = Some ([], takeWhile p x, dropWhile p x)"
proof -
  assume k: "k \<le> length (takeWhile p x)"
  let ?n = "length (takeWhile p x)"
  have d: "drop ?n x = dropWhile p x" by (simp add: dropWhile_eq_drop)
  have "length x = ?n + length (dropWhile p x)"
    using arg_cong [OF takeWhile_dropWhile_id [of p x], of length] by (simp only: length_append)
  then have t: "take (length x - length (dropWhile p x)) x = takeWhile p x" by (simp add: takeWhile_eq_take [symmetric])
  have "ends (plus k p) x = dropWhile p x # map (\<lambda>i. drop i x) (rev [k ..< ?n])"
    unfolding ends_plus using k d by simp
  then show ?thesis by (subst find_match.simps) (simp add: t del: ends.simps)
qed

lemma find_match_skip:
  "\<not> k \<le> length (takeWhile p (c # z)) \<Longrightarrow> find_match (plus k p) (c # z) = map_option (\<lambda>(s, m, r). (c # s, m, r)) (find_match (plus k p) z)"
  by (subst find_match.simps) (simp add: ends_plus del: ends.simps split: option.split)

lemma find_match_Nil: "1 \<le> k \<Longrightarrow> find_match (plus k p) [] = None"
  by (subst find_match.simps) (simp add: ends_plus del: ends.simps)

lemma find_match_shorter: "1 \<le> k \<Longrightarrow> find_match (plus k p) x = Some (s, m, r) \<Longrightarrow> length r < length x"
proof (induction x arbitrary: s)
  case (Cons c z)
  show ?case
  proof (cases "k \<le> length (takeWhile p (c # z))")
    case True
    with Cons.prems have "r = dropWhile p (c # z)" "p c" by (auto simp: find_match_hit split: if_splits)
    then show ?thesis by (simp add: le_imp_less_Suc length_dropWhile_le)
  next
    case False
    with Cons show ?thesis unfolding find_match_skip [OF False] by (auto intro: less_SucI)
  qed
qed (simp add: find_match_Nil)

text \<open>Texts without a match can be skipped at once: a gap, and a run that is too short.\<close>

definition skipping :: "rx \<Rightarrow> string \<Rightarrow> string \<Rightarrow> bool" where
  "skipping r g y \<longleftrightarrow> find_match r (g @ y) = map_option (\<lambda>(s, m, rest). (g @ s, m, rest)) (find_match r y)"

lemma skipping_gap: "1 \<le> k \<Longrightarrow> \<forall>c \<in> set g. \<not> p c \<Longrightarrow> skipping (plus k p) g y"
proof (induction g)
  case Nil
  then show ?case by (simp add: skipping_def option.map_ident split_def)
next
  case (Cons c g)
  then have "\<not> k \<le> length (takeWhile p (c # g @ y))" by simp
  from find_match_skip [OF this] Cons show ?case by (simp add: skipping_def option.map_comp comp_def split_def)
qed

lemma skipping_run: "length w < k \<Longrightarrow> \<forall>c \<in> set w. p c \<Longrightarrow> y = [] \<or> \<not> p (hd y) \<Longrightarrow> skipping (plus k p) w y"
proof (induction w)
  case Nil
  then show ?case by (simp add: skipping_def option.map_ident split_def)
next
  case (Cons c w)
  have "takeWhile p y = []" using Cons.prems(3) by (cases y) auto
  with Cons.prems(2) have "takeWhile p (c # w @ y) = c # w" by (simp add: takeWhile_append)
  with Cons.prems(1) have "\<not> k \<le> length (takeWhile p (c # w @ y))" by simp
  from find_match_skip [OF this] Cons show ?case by (simp add: skipping_def option.map_comp comp_def split_def)
qed

lemma skip_iterator:
  assumes "1 \<le> k" and "skipping (plus k p) g y"
  shows "map snd (fst (sregex_iterator (plus k p) (g @ y))) = map snd (fst (sregex_iterator (plus k p) y))"
    "regex_replace (g @ y) (plus k p) = g @ regex_replace y (plus k p)"
proof -
  let ?r = "plus k p"
  have "map snd (fst (sregex_iterator ?r (g @ y))) = map snd (fst (sregex_iterator ?r y)) \<and> regex_replace (g @ y) ?r = g @ regex_replace y ?r"
  proof (cases "find_match ?r y")
    case None
    with assms(2) show ?thesis by (simp add: regex_replace_def skipping_def sregex_iterator.simps [of _ y] sregex_iterator.simps [of _ "g @ y"])
  next
    case (Some q)
    obtain s m r where q: "q = (s, m, r)" by (metis prod_cases3)
    with Some find_match_shorter [OF assms(1)] have "length r < length y" by blast
    with Some q assms(2) show ?thesis
      by (simp add: regex_replace_def skipping_def sregex_iterator.simps [of _ y] sregex_iterator.simps [of _ "g @ y"] split_def)
  qed
  then show "map snd (fst (sregex_iterator ?r (g @ y))) = map snd (fst (sregex_iterator ?r y))" "regex_replace (g @ y) ?r = g @ regex_replace y ?r"
    by blast+
qed


lemma hit_iterator:
  assumes "1 \<le> k" and "k \<le> length (takeWhile p y)"
  shows "map snd (fst (sregex_iterator (plus k p) y)) = takeWhile p y # map snd (fst (sregex_iterator (plus k p) (dropWhile p y)))"
    "regex_replace y (plus k p) = ''['' @ takeWhile p y @ '']'' @ regex_replace (dropWhile p y) (plus k p)"
proof -
  have "length (dropWhile p y) < length y" using find_match_shorter [OF assms(1) find_match_hit [OF assms(2)]] .
  then have "sregex_iterator (plus k p) y = (case sregex_iterator (plus k p) (dropWhile p y) of (ms, rest) \<Rightarrow> (([], takeWhile p y) # ms, rest))"
    by (subst sregex_iterator.simps) (simp add: find_match_hit [OF assms(2)])
  then show "map snd (fst (sregex_iterator (plus k p) y)) = takeWhile p y # map snd (fst (sregex_iterator (plus k p) (dropWhile p y)))"
    "regex_replace y (plus k p) = ''['' @ takeWhile p y @ '']'' @ regex_replace (dropWhile p y) (plus k p)"
    by (simp_all add: regex_replace_def split_def)
qed

definition bracketed :: "nat \<Rightarrow> (char \<Rightarrow> bool) \<Rightarrow> string \<Rightarrow> string" where
  "bracketed k p x = concat (map (\<lambda>(gap, w). gap @ (if k \<le> length w then ''['' @ w @ '']'' else w)) (fst (runs p x))) @ snd (runs p x)"

lemma regex_runs:
  assumes "1 \<le> k"
  shows "map snd (fst (sregex_iterator (plus k p) x)) = filter (\<lambda>w. k \<le> length w) (map snd (fst (runs p x)))
    \<and> regex_replace x (plus k p) = bracketed k p x"
proof (induction p x rule: runs.induct)
  case (1 p x)
  define gap y where g: "gap = takeWhile (\<lambda>c. \<not> p c) x" and y: "y = dropWhile (\<lambda>c. \<not> p c) x"
  have x: "x = gap @ y" by (simp add: g y)
  have "\<forall>c \<in> set gap. \<not> p c" by (auto simp: g dest: set_takeWhileD)
  note skip = skip_iterator [OF assms skipping_gap [OF assms this, of y]]
  show ?case
  proof (cases "y = []")
    case True
    have "sregex_iterator (plus k p) [] = ([], [])" by (subst sregex_iterator.simps) (simp add: find_match_Nil [OF assms])
    moreover have "runs p x = ([], x)" using True unfolding y by (rule runs_none)
    ultimately show ?thesis using skip True x by (simp add: regex_replace_def bracketed_def)
  next
    case False
    define w z where w: "w = takeWhile p y" and z: "z = dropWhile p y"
    have "p (hd y)" using False hd_dropWhile [of "\<lambda>c. \<not> p c" x] by (simp add: y)
    have r: "runs p x = (case runs p z of (ms, rest) \<Rightarrow> ((gap, w) # ms, rest))"
      using runs_more [of p x] False unfolding g w z y by blast
    have IH: "map snd (fst (sregex_iterator (plus k p) z)) = filter (\<lambda>w. k \<le> length w) (map snd (fst (runs p z)))"
        "regex_replace z (plus k p) = bracketed k p z"
      using "1.IH" [OF g y False] by (simp_all add: z)
    show ?thesis
    proof (cases "k \<le> length w")
      case True
      with hit_iterator [OF assms, of p y] skip IH show ?thesis unfolding x [symmetric]
        by (simp add: w [symmetric] z [symmetric] r bracketed_def split_def)
    next
      case False
      have "\<forall>c \<in> set w. p c" by (auto simp: w dest: set_takeWhileD)
      moreover have "z = [] \<or> \<not> p (hd z)" using hd_dropWhile [of p y] by (auto simp: z)
      ultimately have "skipping (plus k p) w z" using False by (intro skipping_run) simp_all
      note short = skip_iterator [OF assms this]
      have wz: "w @ z = y" by (simp add: w z)
      have "map snd (fst (sregex_iterator (plus k p) x)) = map snd (fst (sregex_iterator (plus k p) z))"
        "regex_replace x (plus k p) = gap @ w @ regex_replace z (plus k p)"
        using skip short unfolding wz x [symmetric] by simp_all
      then show ?thesis using False IH by (simp add: r bracketed_def split_def)
    qed
  qed
qed

text \<open>The runs of a text: they and the text between them make up the text, and they cannot be extended.\<close>

lemma runs_parts:
  "concat (map (\<lambda>(gap, w). gap @ w) (fst (runs p x))) @ snd (runs p x) = x
    \<and> (\<forall>(gap, w) \<in> set (fst (runs p x)). w \<noteq> [] \<and> (\<forall>c \<in> set w. p c) \<and> (\<forall>c \<in> set gap. \<not> p c))
    \<and> (\<forall>c \<in> set (snd (runs p x)). \<not> p c) \<and> (x = [] \<or> \<not> p (hd x) \<longrightarrow> (\<forall>q \<in> set (fst (runs p x)). fst q \<noteq> []))
    \<and> (\<forall>q \<in> set (tl (fst (runs p x))). fst q \<noteq> [])"
proof (induction p x rule: runs.induct)
  case (1 p x)
  define gap y where g: "gap = takeWhile (\<lambda>c. \<not> p c) x" and y: "y = dropWhile (\<lambda>c. \<not> p c) x"
  have x: "x = gap @ y" and gap: "\<forall>c \<in> set gap. \<not> p c" by (auto simp: g y dest: set_takeWhileD)
  show ?case
  proof (cases "y = []")
    case True
    then have "runs p x = ([], x)" unfolding y by (rule runs_none)
    with True x gap show ?thesis by simp
  next
    case False
    define w z where w: "w = takeWhile p y" and z: "z = dropWhile p y"
    obtain ms rest where r: "runs p z = (ms, rest)" by (cases "runs p z")
    have rx: "runs p x = ((gap, w) # ms, rest)"
      using runs_more [of p x] False r unfolding g w z y by (simp only: prod.case not_False_eq_True simp_thms)
    have "p (hd y)" using False hd_dropWhile [of "\<lambda>c. \<not> p c" x] by (simp add: y)
    then have wp: "w \<noteq> []" "\<forall>c \<in> set w. p c" using False unfolding w
      by (metis takeWhile_eq_Nil_iff) (auto dest: set_takeWhileD)
    have zp: "z = [] \<or> \<not> p (hd z)" using hd_dropWhile [of p y] by (auto simp: z)
    have xg: "x = [] \<or> \<not> p (hd x) \<longrightarrow> gap \<noteq> []" using False by (cases x) (auto simp: g y)
    have eq: "gap @ w @ z = x" by (simp add: x w z)
    have IH: "concat (map (\<lambda>(gap, w). gap @ w) ms) @ rest = z"
        "\<forall>(gap, w) \<in> set ms. w \<noteq> [] \<and> (\<forall>c \<in> set w. p c) \<and> (\<forall>c \<in> set gap. \<not> p c)" "\<forall>c \<in> set rest. \<not> p c"
        "\<forall>q \<in> set ms. fst q \<noteq> []"
      using "1.IH" [OF g y False] zp unfolding z [symmetric] r fst_conv snd_conv by blast+
    show ?thesis unfolding rx fst_conv snd_conv list.sel
      using IH wp gap xg eq by simp
  qed
qed

lemma regex_words_exact':
  "words x = map snd (fst (runs word_char x))" "regex_replace x long_word_regex = bracketed 5 word_char x"
proof -
  have "filter (\<lambda>w. 1 \<le> length w) (map snd (fst (runs word_char x))) = map snd (fst (runs word_char x))"
    using runs_parts [of word_char x] by (auto simp: filter_id_conv Suc_le_eq)
  then show "words x = map snd (fst (runs word_char x))"
    using regex_runs [of 1 word_char x] by (simp add: words_def word_regex_def)
  show "regex_replace x long_word_regex = bracketed 5 word_char x"
    using regex_runs [of 5 word_char x] by (simp add: long_word_regex_def)
qed

text \<open>
  C13.  The words found with the regular expression are exactly the maximal runs of word characters, in order,
  and the replacement puts brackets around exactly those of at least five characters and changes nothing
  else, as a definition that splits the text without a regular expression does.
\<close>

theorem regex_words_exact:
  "words x = map snd (fst (runs word_char x)) \<and> regex_replace x long_word_regex = bracketed 5 word_char x"
  by (simp add: regex_words_exact')

text \<open>The number of the example is accepted, and one with five digits is not.\<close>

lemma phone_accepted: "regex_match phone phone_regex \<and> \<not> regex_match ''+12345'' phone_regex \<and> \<not> regex_match (phone @ ''x'') phone_regex"
  by code_simp

lemma text_found: "regex_search sample_text regex_search_exp"
  by code_simp

text \<open>
  The run throws for a number that is not accepted, and otherwise returns and prints the words of the
  text, the long ones again, and the text with brackets around the words of five characters.
\<close>

theorem regex_run_outcome:
  "regex_run x number s = (let found = if regex_search x regex_search_exp
        then [Log (tab @ ''String contains '' @ [CHR 0x27] @ ''regular expression'' @ [CHR 0x27])] else [];
      ws = map snd (fst (runs word_char x)); t = says s (Log (''String: '' @ x) # found) in
    if \<not> regex_match number phone_regex then Thrown (''Invalid phone number format. '' @ ''Try including the country code.'') t
    else Done () (says t ([Log ''Find words: '', Log (tab @ ''Found '' @ show_nat (length ws) @ '' words''),
      Log ''Find words longer than 5 chars: ''] @ map (\<lambda>w. Log (tab @ w)) (filter (\<lambda>w. 5 < length w) ws)
      @ [Log (''Replace '' @ dq @ ''long_words'' @ dq @ '' to : '' @ dq @ ''[long_words]'' @ dq), Log (tab @ bracketed 5 word_char x)])))"
proof -
  have loop: "for_each ws (\<lambda>word. if length word > 5 then LOG (tab @ word) else ret ()) u
      = Done () (says u (map (\<lambda>w. Log (tab @ w)) (filter (\<lambda>w. 5 < length w) ws)))" for ws and u :: "'a world"
    by (induction ws arbitrary: u) (simp_all add: machine)
  define found where "found = Log (tab @ ''Found '' @ show_nat (length (words x)) @ '' words'')"
  have count: "LOG_S (tab @ ''Found '' @ show_nat (length (words x)) @ '' words'') u = Done () (says u [found])" for u :: "'a world"
    using chomp_append [of "'' words''" "tab @ ''Found '' @ show_nat (length (words x))"] by (simp add: found_def machine chomp_text)
  note words = regex_words_exact'
  show ?thesis
  proof (cases "regex_match number phone_regex")
    case False
    then show ?thesis by (simp add: regex_run_def Let_def control_defs emit_def LOG_def)
  next
    case True
    then have "regex_run x number s = Done () (says (says s (Log (''String: '' @ x) # (if regex_search x regex_search_exp
        then [Log (tab @ ''String contains '' @ [CHR 0x27] @ ''regular expression'' @ [CHR 0x27])] else [])))
       ([Log ''Find words: '', found,
      Log ''Find words longer than 5 chars: ''] @ map (\<lambda>w. Log (tab @ w)) (filter (\<lambda>w. 5 < length w) (words x))
      @ [Log (''Replace '' @ dq @ ''long_words'' @ dq @ '' to : '' @ dq @ ''[long_words]'' @ dq), Log (tab @ regex_replace x long_word_regex)]))"
      unfolding regex_run_def block.simps seq_def loop count by (simp add: emit_def LOG_def ret_def)
    with True show ?thesis unfolding found_def words Let_def by (simp only: if_False if_True simp_thms)
  qed
qed

end
