(* ===== verification/CompileTime.thy ===== *)
theory CompileTime
  imports Prelude
begin

text \<open>
  What the compiler and the linker decide: \<open>src/core/utils/TypeTrait.cpp\<close>, with the types as values and the
  traits as functions on them, and \<open>src/core/linkage\<close>, with the variables of external linkage in the state,
  shared by all files, and those of internal linkage in each file.

  Lemmas: which branch each \<open>if constexpr\<close> takes for every type; what the runs print.
\<close>

section \<open>\<open>TypeTrait.cpp\<close>\<close>

text \<open>The types of the example: \<open>bool\<close>, \<open>A<T>\<close> with \<open>operator&=\<close> and \<open>B<T>\<close> without.\<close>

datatype ty = Bool | A ty | B ty

primrec HaveAndAssign :: "ty \<Rightarrow> bool" where
  "HaveAndAssign Bool = True"
| "HaveAndAssign (A t) = True"
| "HaveAndAssign (B t) = False"

primrec HaveNot :: "ty \<Rightarrow> bool" where
  "HaveNot Bool = True"
| "HaveNot (A t) = False"
| "HaveNot (B t) = False"

definition trait_text :: "bool \<Rightarrow> string" where
  "trait_text b = (if b then ''1'' else ''0'')"

text \<open>\<open>C<T>\<close> exists for the types with \<open>operator&=\<close> only; a use for another type does not compile.\<close>

definition new_C :: "(ty \<Rightarrow> string) \<Rightarrow> ty \<Rightarrow> ('o world, unit) prog option" where
  "new_C type_name t = (if HaveAndAssign t then Some (LOG (''C<'' @ type_name t @ ''> instantiated'')) else None)"

definition printTypeInfo :: "(ty \<Rightarrow> string) \<Rightarrow> ty \<Rightarrow> ('o world, unit) prog" where
  "printTypeInfo type_name t = block [
     LOG (''==== Type Info ===='' @ endl @ ''Type: '' @ type_name t @ endl @ ''is_bool: '' @ trait_text (t = Bool) @ endl
       @ ''HaveAndAssign: '' @ trait_text (HaveAndAssign t) @ endl @ ''HaveNot (!): '' @ trait_text (HaveNot t)),
     LOG ''==================='']"

text \<open>The branch taken for a type; only the taken one is compiled.\<close>

definition constexpr_C :: "(ty \<Rightarrow> string) \<Rightarrow> ty \<Rightarrow> ('o world, unit) prog" where
  "constexpr_C type_name t = (case new_C type_name t of
       Some m \<Rightarrow> seq (LOG ''A<bool> supports &='') (\<lambda>_. m)
     | None \<Rightarrow> LOG ''B<bool> does NOT support &='')"

definition constexpr_B :: "ty \<Rightarrow> ('o world, unit) prog" where
  "constexpr_B t = LOG (if HaveAndAssign t then ''B<bool> supports &='' else ''B<bool> does NOT support &='')"

definition trait_run :: "(ty \<Rightarrow> string) \<Rightarrow> ('o world, unit) prog" where
  "trait_run type_name = block [LOG ''===== Type Traits Examples ====='',
     printTypeInfo type_name Bool, printTypeInfo type_name (B Bool), printTypeInfo type_name (A Bool),
     constexpr_C type_name (A Bool), constexpr_B (B Bool), LOG ''================================'']"

section \<open>Linkage\<close>

text \<open>The variables of \<open>External.cpp\<close> that are not constants.\<close>

record linked = "unit world" +
  non_static_var :: int
  namespace_var :: int

type_synonym 'a lprog = "(linked, 'a) prog"

definition nonStaticFnc :: "unit lprog" where
  "nonStaticFnc = cout (''nonStaticFnc'' @ endl)"

definition kExternConstVar :: int where
  "kExternConstVar = 200"

definition kInlineConstVar :: int where
  "kInlineConstVar = 100"

definition kConstexprVar :: int where
  "kConstexprVar = 500"

definition internal_run :: "unit lprog" where
  "internal_run = ret ()"

definition external_run :: "unit lprog" where
  "external_run = (\<lambda>s. block [cout (show_int (non_static_var s) @ endl), cout (show_int kInlineConstVar @ endl),
     cout (show_int kExternConstVar @ endl), cout (show_int kConstexprVar @ endl),
     cout (show_int (namespace_var s) @ endl), nonStaticFnc] s)"

definition linkage_run :: "unit lprog" where
  "linkage_run = block [internal_run, external_run]"

section \<open>Lemmas\<close>

lemma trait_run_prints: "trait_run type_name s = Done () (says s (map Log (
    [''===== Type Traits Examples =====''] @
    concat (map (\<lambda>t. [''==== Type Info ===='' @ endl @ ''Type: '' @ type_name t @ endl @ ''is_bool: '' @ trait_text (t = Bool) @ endl
       @ ''HaveAndAssign: '' @ trait_text (t \<noteq> B Bool) @ endl @ ''HaveNot (!): '' @ trait_text (t = Bool), ''===================''])
      [Bool, B Bool, A Bool])
    @ [''A<bool> supports &='', ''C<'' @ type_name (A Bool) @ ''> instantiated'', ''B<bool> does NOT support &='',
       ''================================''])))"
  by (simp add: trait_run_def printTypeInfo_def constexpr_C_def constexpr_B_def new_C_def machine)

lemma linkage_run_prints: "linkage_run s = Done () (says s (map Cout [show_int (non_static_var s) @ endl, show_int 100 @ endl,
    show_int 200 @ endl, show_int 500 @ endl, show_int (namespace_var s) @ endl, ''nonStaticFnc'' @ endl]))"
  by (simp add: linkage_run_def internal_run_def external_run_def nonStaticFnc_def kInlineConstVar_def kExternConstVar_def
    kConstexprVar_def machine)

end
