(* ===== verification/MainProgram.thy ===== *)
theory MainProgram
  imports MainMenu
begin

text \<open>
  \<open>main\<close> of \<open>src/main.cpp\<close>: the command line, the mode, the version and the menu, one after the other.  The
  menu runs on the standard streams, which are a part of the state of the program.

  Lemmas: the parts leave what they do not concern; a whole run of the program.
\<close>

definition on_io :: "(io, 'a) oprog \<Rightarrow> (app, 'a) oprog" where
  "on_io m s = (case m (io.truncate s) of None \<Rightarrow> None | Some r \<Rightarrow> Some (case r of
      Done x t \<Rightarrow> Done x (io.extend t (app.fields (mode s)))
    | Thrown e t \<Rightarrow> Thrown e (io.extend t (app.fields (mode s)))
    | Undef u \<Rightarrow> Undef u))"

text \<open>The registry, the text of its exception, \<open>__cplusplus\<close> and the strings of \<open>version.h\<close> are arguments.\<close>

definition main :: "string \<Rightarrow> data \<Rightarrow> int \<Rightarrow> string \<Rightarrow> string \<Rightarrow> string \<Rightarrow> string list \<Rightarrow> (app, int) oprog" where
  "main what data cplusplus app_name app_version app_description argv =
     oseq (terminating (handleArg argv)) (\<lambda>_.
     oseq (terminating (\<lambda>s. LOG (''Running in mode: '' @ toString (mode s)) s)) (\<lambda>_.
     oseq (terminating (LOG ''Logger has been integrated'')) (\<lambda>_.
     oseq (terminating (printInfo cplusplus app_name app_version app_description)) (\<lambda>_.
     oseq (on_io (runMenu what data)) (\<lambda>_. terminating (ret 0))))))"

section \<open>Lemmas\<close>

lemma app_says [simp]: "mode (says s ls) = mode s" "stdin (says s ls) = stdin s"
  by (simp_all add: says_def)

lemma truncate_sel [simp]: "stdin (io.truncate s) = stdin s" "out (io.truncate s) = out s"
  by (simp_all add: io.truncate_def)

lemma extend_sel [simp]: "stdin (io.extend t (app.fields m)) = stdin t" "out (io.extend t (app.fields m)) = out t"
  "mode (io.extend t (app.fields m)) = m"
  by (simp_all add: io.extend_def app.fields_def)

lemma handle_args:
  "\<exists>t. handleArg (mode_args vs) s = Done () t \<and> mode t = chosen_mode (mode s) vs \<and> stdin t = stdin s
    \<and> filter is_log (out t) = filter is_log (out s)"
proof (induction vs arbitrary: s)
  case Nil
  then show ?case by (simp add: mode_args_def ret_def)
next
  case (Cons v vs)
  show ?case
  proof (cases "named_mode v")
    case None
    let ?s = "says s [Cerr (''Invalid mode: '' @ v @ ''. Expected: dev, uat, prod'' @ endl)]"
    have "handleArg (mode_args (v # vs)) s = handleArg (mode_args vs) ?s"
      using None by (simp add: mode_args_def parseMode_def machine split: if_splits)
    then show ?thesis using Cons.IH [of ?s] None by simp
  next
    case (Some m)
    have "handleArg (mode_args (v # vs)) s = handleArg (mode_args vs) (s\<lparr>mode := m\<rparr>)"
      using Some by (auto simp: mode_args_def parseMode_def set_mode_def machine split: if_splits)
    then show ?thesis using Cons.IH [of "s\<lparr>mode := m\<rparr>"] Some by simp
  qed
qed

lemma printInfo_says: "\<exists>ls. printInfo c n v d s = Done () (says s ls) \<and> filter is_log ls = []"
proof -
  obtain x where "printInfo c n v d s = block [cout endl, cout x, cout endl, cout (n @ '' v'' @ v @ endl), cout (d @ endl)] s"
    unfolding printInfo_def by blast
  then have "printInfo c n v d s = Done () (says s (map Cout [endl, x, endl, n @ '' v'' @ v @ endl, d @ endl]))"
    by (simp add: seq_def ret_def cout_def emit_def)
  moreover have "filter is_log (map Cout xs) = []" for xs by (induction xs) simp_all
  ultimately show ?thesis by blast
qed

text \<open>
  C26.  The program: started with any values for \<open>-mode\<close>, over any registry of printing examples, and given the
  text of a session, it returns 0, having read exactly that text; it logs the mode chosen, which is the last
  valid one given, and then what exactly the chosen examples log, in order.
\<close>

theorem main_runs_session:
  assumes "menu_data data ls" "\<forall>v \<in> set vs. valid_visit data v" "stdin s = session_text data vs @ y"
  shows "\<exists>t. main what data c n ver d (mode_args ms) s = Some (Done 0 t) \<and> stdin t = y \<and> mode t = chosen_mode (mode s) ms
    \<and> filter is_log (out t) = filter is_log (out s) @ [Log (''Running in mode: '' @ toString (chosen_mode (mode s) ms)),
        Log ''Logger has been integrated''] @ concat (map (visit_logs data ls) vs)"
proof -
  obtain a where a: "handleArg (mode_args ms) s = Done () a" "mode a = chosen_mode (mode s) ms" "stdin a = stdin s"
      "filter is_log (out a) = filter is_log (out s)"
    using handle_args by blast
  let ?b = "says a [Log (''Running in mode: '' @ toString (mode a)), Log ''Logger has been integrated'']"
  obtain ks where p: "printInfo c n ver d ?b = Done () (says ?b ks)" "filter is_log ks = []" using printInfo_says by blast
  let ?c = "says ?b ks"
  have "stdin (io.truncate ?c) = session_text data vs @ y" using a(3) assms(3) by simp
  from runMenu_session [OF assms(1,2) this, of what]
  obtain u where u: "runMenu what data (io.truncate ?c) = Some (Done () u)" "stdin u = y"
      "logged u = logged (io.truncate ?c) @ concat (map (visit_logs data ls) vs)"
    by blast
  have "main what data c n ver d (mode_args ms) s = Some (Done 0 (io.extend u (app.fields (mode a))))"
    using a(1) p(1) u(1) by (simp add: main_def oprog_defs LOG_def emit_def ret_def on_io_def)
  then show ?thesis using a(2,4) u(2,3) p(2) by (simp add: logged_def)
qed

definition demo_app :: app where
  "demo_app = io.extend (typed (session_text demo_data [])) (app.fields kDev)"

theorem main_runs_session_witness:
  "\<exists>t. main ''map::at'' demo_data 202002 ''cpp-lab'' ''1.0'' [] (mode_args [''Uat'', ''x'']) demo_app = Some (Done 0 t) \<and> stdin t = []
    \<and> filter is_log (out t) = [Log ''Running in mode: uat'', Log ''Logger has been integrated'']"
  using main_runs_session [OF demo_data_ok, of "[]" demo_app "[]" "''map::at''" 202002 "''cpp-lab''" "''1.0''" "[]" "[''Uat'', ''x'']"]
  by (auto simp: demo_app_def typed_def)

end
