(* ===== verification/ImageContexts.thy ===== *)
theory ImageContexts
  imports Prelude
begin

text \<open>
  \<open>src/dp/structural/Flyweight.cpp\<close>, namespace \<open>problem\<close>: image contexts on the heap, each of which owns
  an \<open>int\<close> array of its own, and the array of pointers of \<open>run\<close>.

  The type \<open>float\<close> is a parameter \<open>'f\<close> with the three operations the code uses and its output; the size
  of an object is fixed by the compiler and a parameter too.  A member or element that was never
  initialised is \<open>None\<close>.

  Lemmas: assignment copies deeply; the copy constructor deletes an uninitialised pointer; the run shows
  the five images in order and frees the objects, their arrays and the array of pointers.
\<close>

section \<open>Data\<close>

record 'f floats =
  of_int32 :: "int \<Rightarrow> 'f"
  quot :: "'f \<Rightarrow> 'f \<Rightarrow> 'f"
  sub :: "'f \<Rightarrow> 'f \<Rightarrow> 'f"
  showf :: "'f \<Rightarrow> string"

text \<open>An \<open>ImageContext\<close>, an \<open>int[]\<close> and the \<open>ImageContext*[]\<close> of \<open>run\<close>.\<close>

datatype 'f obj =
    Image (fileName: string) (width: int) (height: int) (dpi: int) (data: "ptr option") (scale: 'f) (opacity: 'f)
  | Ints "int option list"
  | Images "ptr option list"

type_synonym ('f, 'a) iprog = "('f obj world, 'a) prog"

definition image :: "ptr \<Rightarrow> ('f, 'f obj) iprog" where
  "image this = seq (load this) (\<lambda>x. case x of Image _ _ _ _ _ _ _ \<Rightarrow> ret x | _ \<Rightarrow> undef WrongType)"

definition ints :: "ptr \<Rightarrow> ('f, int option list) iprog" where
  "ints p = seq (load p) (\<lambda>x. case x of Ints xs \<Rightarrow> ret xs | _ \<Rightarrow> undef WrongType)"

definition images :: "ptr \<Rightarrow> ('f, ptr option list) iprog" where
  "images p = seq (load p) (\<lambda>x. case x of Images ps \<Rightarrow> ret ps | _ \<Rightarrow> undef WrongType)"

text \<open>A pointer that must have been initialised.\<close>

definition initialised :: "ptr option \<Rightarrow> ('s, ptr) prog" where
  "initialised p = (case p of None \<Rightarrow> undef Uninitialised | Some q \<Rightarrow> ret q)"

definition new_ints :: "int \<Rightarrow> ('f, ptr) iprog" where
  "new_ints n = (if n < 0 then throw ''std::bad_array_new_length'' else alloc (Ints (replicate (nat n) None)))"

section \<open>The class\<close>

definition new_ImageContext :: "string \<Rightarrow> int \<Rightarrow> int \<Rightarrow> int \<Rightarrow> 'f \<Rightarrow> 'f \<Rightarrow> ('f, ptr) iprog" where
  "new_ImageContext fn w h d sc op =
     seq (to_int32 (w * h)) (\<lambda>n.
     seq (new_ints n) (\<lambda>p.
     seq (alloc (Image fn w h d (Some p) sc op)) (\<lambda>this.
     seq (cout (''Image: '' @ fn @ '' created.'' @ endl)) (\<lambda>_. ret this))))"

definition delete_ImageContext :: "ptr \<Rightarrow> ('f, unit) iprog" where
  "delete_ImageContext this = (if this = None then ret () else
     seq (image this) (\<lambda>x. seq (initialised (data x)) (\<lambda>p. seq (free p) (\<lambda>_. free this))))"

text \<open>The copying loop of \<open>deepCopy\<close>, from index \<open>i\<close> for \<open>n\<close> more elements.\<close>

fun copy_elements :: "ptr \<Rightarrow> ptr \<Rightarrow> nat \<Rightarrow> nat \<Rightarrow> ('f, unit) iprog" where
  "copy_elements to from i 0 = ret ()"
| "copy_elements to from i (Suc n) =
     seq (ints from) (\<lambda>xs. seq (ints to) (\<lambda>ys.
     if i < length xs \<and> i < length ys then
       (case xs ! i of None \<Rightarrow> undef Uninitialised
        | Some v \<Rightarrow> seq (store to (Ints (ys[i := Some v]))) (\<lambda>_. copy_elements to from (Suc i) n))
     else undef BadIndex))"

definition deepCopy :: "ptr \<Rightarrow> ptr \<Rightarrow> ('f, unit) iprog" where
  "deepCopy this other =
     seq (image this) (\<lambda>me. seq (image other) (\<lambda>x.
     let set_data = (\<lambda>d. store this (Image (fileName x) (width x) (height x) (dpi x) d (scale x) (opacity x))) in
     seq (set_data (data me)) (\<lambda>_.
     seq (initialised (data me)) (\<lambda>old.
     seq (free old) (\<lambda>_.
     seq (initialised (data x)) (\<lambda>p.
     if p \<noteq> None then
       seq (to_int32 (width x * height x)) (\<lambda>size.
       seq (new_ints size) (\<lambda>q.
       seq (set_data (Some q)) (\<lambda>_.
       copy_elements q p 0 (nat size))))
     else set_data (Some None)))))))"

text \<open>
  The copy constructor has no initialiser list: \<open>data_\<close> is not initialised when \<open>deepCopy\<close> starts; the
  other members are assigned there before they are read.
\<close>

definition copy_ImageContext :: "ptr \<Rightarrow> ('f, ptr) iprog" where
  "copy_ImageContext other = seq (image other) (\<lambda>x.
     seq (alloc (Image '''' (width x) (height x) (dpi x) None (scale x) (opacity x))) (\<lambda>this.
     seq (deepCopy this other) (\<lambda>_. ret this)))"

definition assign_ImageContext :: "ptr \<Rightarrow> ptr \<Rightarrow> ('f, unit) iprog" where
  "assign_ImageContext this other = (if this \<noteq> other then deepCopy this other else ret ())"

definition setScale :: "ptr \<Rightarrow> 'f \<Rightarrow> ('f, unit) iprog" where
  "setScale this v = seq (image this) (\<lambda>x.
     store this (Image (fileName x) (width x) (height x) (dpi x) (data x) v (opacity x)))"

definition setOpacity :: "ptr \<Rightarrow> 'f \<Rightarrow> ('f, unit) iprog" where
  "setOpacity this v = seq (image this) (\<lambda>x.
     store this (Image (fileName x) (width x) (height x) (dpi x) (data x) (scale x) v))"

definition display :: "'f floats \<Rightarrow> ptr \<Rightarrow> ('f, unit) iprog" where
  "display fp this = seq (image this) (\<lambda>x. block [
     cout (''Image: '' @ fileName x @ '' displayed. '' @ endl),
     cout (tab @ ''Width: '' @ show_int (width x) @ '' Height: '' @ show_int (height x)
       @ '' DPI: '' @ show_int (dpi x) @ endl),
     cout (tab @ ''Scale: '' @ showf fp (scale x) @ '' Opacity: '' @ showf fp (opacity x) @ endl)])"

definition clientCode :: "'f floats \<Rightarrow> ptr \<Rightarrow> ('f, unit) iprog" where
  "clientCode fp img = display fp img"

section \<open>The run\<close>

definition element :: "ptr \<Rightarrow> nat \<Rightarrow> ('f, ptr) iprog" where
  "element imgs i = seq (images imgs) (\<lambda>ps. if i < length ps then initialised (ps ! i) else undef BadIndex)"

definition set_element :: "ptr \<Rightarrow> nat \<Rightarrow> ptr \<Rightarrow> ('f, unit) iprog" where
  "set_element imgs i p = seq (images imgs) (\<lambda>ps.
     if i < length ps then store imgs (Images (ps[i := Some p])) else undef BadIndex)"

definition part :: "'f floats \<Rightarrow> nat \<Rightarrow> 'f" where
  "part fp i = quot fp (of_int32 fp 1) (of_int32 fp (int i + 1))"

definition show_one :: "'f floats \<Rightarrow> ptr \<Rightarrow> nat \<Rightarrow> ('f, unit) iprog" where
  "show_one fp imgs i =
     seq (new_ImageContext ''img1.svg'' 8 8 96 (of_int32 fp 1) (of_int32 fp 1)) (\<lambda>p. block [
       set_element imgs i p,
       seq (element imgs i) (\<lambda>q. setOpacity q (sub fp (of_int32 fp 1) (part fp i))),
       seq (element imgs i) (\<lambda>q. setScale q (part fp i)),
       seq (element imgs i) (clientCode fp)])"

definition problem_run :: "'f floats \<Rightarrow> nat \<Rightarrow> ('f, unit) iprog" where
  "problem_run fp size_of =
     seq (cout (endl @ endl @ ''Problem'' @ endl)) (\<lambda>_.
     seq (alloc (Images (replicate 5 None))) (\<lambda>imgs. block [
       for_each [0..<5] (show_one fp imgs),
       for_each [0..<5] (\<lambda>i. seq (element imgs i) delete_ImageContext),
       free imgs,
       cout (''Size of objects: '' @ show_nat (size_of * 5) @ endl)]))"

lemmas image_defs [defs] = image_def ints_def images_def initialised_def new_ints_def
  new_ImageContext_def delete_ImageContext_def deepCopy_def assign_ImageContext_def setScale_def
  setOpacity_def display_def clientCode_def element_def set_element_def show_one_def

section \<open>Copying\<close>

lemma copy_elements_all:
  assumes "cells s a = Some (Ints xs)" "cells s b = Some (Ints ys)" "a \<noteq> b"
    and "\<forall>x \<in> set xs. x \<noteq> None" "length xs = i + n" "length ys = i + n" "take i ys = take i xs"
  shows "copy_elements (Some b) (Some a) i n s = Done () (s\<lparr>cells := (cells s)(b \<mapsto> Ints xs)\<rparr>)"
  using assms
proof (induction n arbitrary: i s ys)
  case 0
  then have "ys = xs" by simp
  with 0 have "(cells s)(b \<mapsto> Ints xs) = cells s" by auto
  then show ?case by (simp add: ret_def)
next
  case (Suc n)
  then have i: "i < length xs" "i < length ys" by simp_all
  then have "xs ! i \<noteq> None" using Suc.prems(4) nth_mem by blast
  then obtain v where v: "xs ! i = Some v" by blast
  let ?s = "s\<lparr>cells := (cells s)(b \<mapsto> Ints (ys[i := Some v]))\<rparr>"
  have "take (Suc i) (ys[i := Some v]) = take (Suc i) xs"
    using Suc.prems(7) i v by (simp add: take_Suc_conv_app_nth)
  then have "copy_elements (Some b) (Some a) (Suc i) n ?s = Done () (?s\<lparr>cells := (cells ?s)(b \<mapsto> Ints xs)\<rparr>)"
    using Suc.prems by (intro Suc.IH [of ?s "ys[i := Some v]" "Suc i"]) auto
  then show ?case
    using Suc.prems(1-3) i v by (simp add: ints_def machine fun_upd_def cong: if_cong)
qed

text \<open>
  Assigning another context: the old array is deleted, the target owns a new array with the same
  elements and has the source's other members; the source stays as it is.
\<close>

lemma assign_deep:
  assumes "cells s t = Some (Image fn' w' h' d' (Some (Some b)) sc' op')" "cells s b = Some (Ints ys)"
    and "cells s x = Some (Image fn w h d (Some (Some a)) sc op)" "cells s a = Some (Ints xs)"
    and "t \<noteq> x" "a \<noteq> b" "fresh_above s"
    and "int32 (w * h)" "length xs = nat (w * h)" "0 \<le> w * h" "\<forall>x \<in> set xs. x \<noteq> None"
  shows "\<exists>u. assign_ImageContext (Some t) (Some x) s = Done () u
    \<and> cells u = (cells s)(b := None, brk s \<mapsto> Ints xs, t \<mapsto> Image fn w h d (Some (Some (brk s))) sc op)"
proof -
  have ne: "t \<noteq> b" "x \<noteq> b" "a \<noteq> t" "a \<noteq> x" using assms(1-4) by auto
  have old: "t \<noteq> brk s" "x \<noteq> brk s" "a \<noteq> brk s" "b \<noteq> brk s"
    using assms(1-4) fresh_above_live [OF assms(7)] by blast+
  let ?n = "nat (w * h)"
  define s1 where "s1 = s\<lparr>cells := (cells s)(t \<mapsto> Image fn w h d (Some (Some b)) sc op)\<rparr>"
  define s2 where "s2 = s1\<lparr>cells := (cells s1)(b := None)\<rparr>"
  define s3 where "s3 = s2\<lparr>cells := (cells s2)(brk s \<mapsto> Ints (replicate ?n None)), brk := Suc (brk s)\<rparr>"
  define s4 where "s4 = s3\<lparr>cells := (cells s3)(t \<mapsto> Image fn w h d (Some (Some (brk s))) sc op)\<rparr>"
  have 1: "store (Some t) (Image fn w h d (Some (Some b)) sc op) s = Done () s1"
    unfolding s1_def using assms(1) by (simp add: store_def)
  have "cells s1 b = Some (Ints ys)" using assms(2) ne by (simp add: s1_def)
  then have 2: "free (Some b) s1 = Done () s2" unfolding s2_def by (rule free_live)
  have "brk s2 = brk s" by (simp add: s2_def s1_def)
  then have 3: "new_ints (w * h) s2 = Done (Some (brk s)) s3"
    unfolding s3_def new_ints_def alloc_def using assms(10) by simp
  have "cells s3 t = Some (Image fn w h d (Some (Some b)) sc op)"
    using ne old by (simp add: s3_def s2_def s1_def)
  then have 4: "store (Some t) (Image fn w h d (Some (Some (brk s))) sc op) s3 = Done () s4"
    unfolding s4_def by (simp add: store_def)
  have 5: "cells s4 a = Some (Ints xs)" "cells s4 (brk s) = Some (Ints (replicate ?n None))"
    using assms(4,6) ne old by (simp_all add: s4_def s3_def s2_def s1_def)
  have 6: "copy_elements (Some (brk s)) (Some a) 0 ?n s4 = Done () (s4\<lparr>cells := (cells s4)(brk s \<mapsto> Ints xs)\<rparr>)"
    by (rule copy_elements_all [OF 5 old(3)]) (use assms(9,11) in simp_all)
  have "image (Some t) s = Done (Image fn' w' h' d' (Some (Some b)) sc' op') s"
    "image (Some x) s = Done (Image fn w h d (Some (Some a)) sc op) s"
    using assms(1,3) by (simp_all add: image_def seq_def load_def ret_def)
  then have "assign_ImageContext (Some t) (Some x) s = Done () (s4\<lparr>cells := (cells s4)(brk s \<mapsto> Ints xs)\<rparr>)"
    using assms(5,8) 1 2 3 4 6
    by (simp add: assign_ImageContext_def deepCopy_def initialised_def seq_def ret_def Let_def to_int32_def)
  moreover have "(cells s4)(brk s \<mapsto> Ints xs)
      = (cells s)(b := None, brk s \<mapsto> Ints xs, t \<mapsto> Image fn w h d (Some (Some (brk s))) sc op)"
    unfolding s4_def s3_def s2_def s1_def using ne old by (simp add: fun_upd_twist)
  ultimately show ?thesis by simp
qed

text \<open>The copy constructor deletes the pointer that nobody has initialised.\<close>

lemma copy_constructor_undefined:
  assumes "cells s x = Some (Image fn w h d p sc op)" "fresh_above s"
  shows "copy_ImageContext (Some x) s = Undef Uninitialised"
proof -
  have "x \<noteq> brk s" using fresh_above_live [OF assms(2,1)] by simp
  with assms(1) show ?thesis
    by (simp add: copy_ImageContext_def deepCopy_def image_def initialised_def Let_def machine)
qed

section \<open>Filling and emptying the array of pointers\<close>

text \<open>The pairs of an image and its array.\<close>

definition addrs :: "(nat \<times> nat) list \<Rightarrow> nat list" where
  "addrs qs = concat (map (\<lambda>(p, a). [p, a]) qs)"

definition holds :: "'f obj world \<Rightarrow> nat \<times> nat \<Rightarrow> bool" where
  "holds s q \<longleftrightarrow> (\<exists>fn w h d sc op. cells s (fst q) = Some (Image fn w h d (Some (Some (snd q))) sc op))
     \<and> (\<exists>xs. cells s (snd q) = Some (Ints xs))"

definition image_lines :: "'f floats \<Rightarrow> nat \<Rightarrow> line list" where
  "image_lines fp i = [Cout (''Image: img1.svg created.'' @ endl), Cout (''Image: img1.svg displayed. '' @ endl),
     Cout (tab @ ''Width: '' @ show_int 8 @ '' Height: '' @ show_int 8 @ '' DPI: '' @ show_int 96 @ endl),
     Cout (tab @ ''Scale: '' @ showf fp (part fp i) @ '' Opacity: ''
       @ showf fp (sub fp (of_int32 fp 1) (part fp i)) @ endl)]"

lemma addrs_simps [simp]:
  "addrs [] = []" "addrs (q # qs) = fst q # snd q # addrs qs" "addrs (ps @ qs) = addrs ps @ addrs qs"
  by (simp_all add: addrs_def split: prod.split)

lemma in_addrs: "q \<in> set qs \<Longrightarrow> fst q \<in> set (addrs qs) \<and> snd q \<in> set (addrs qs)"
  by (induction qs) auto

lemma holds_cong: "cells t (fst q) = cells s (fst q) \<Longrightarrow> cells t (snd q) = cells s (snd q) \<Longrightarrow> holds t q = holds s q"
  by (simp add: holds_def)

lemma show_one_step:
  assumes "cells s b = Some (Images ps)" "fresh_above s" "i < length ps"
  shows "show_one fp (Some b) i s = Done () (says (s\<lparr>cells := (cells s)(brk s \<mapsto> Ints (replicate 64 None),
     b \<mapsto> Images (ps[i := Some (Some (Suc (brk s)))]),
     Suc (brk s) \<mapsto> Image ''img1.svg'' 8 8 96 (Some (Some (brk s))) (part fp i) (sub fp (of_int32 fp 1) (part fp i))),
     brk := Suc (Suc (brk s))\<rparr>) (image_lines fp i))"
proof -
  have "b < brk s" using fresh_above_live [OF assms(2,1)] .
  with assms(1,3) show ?thesis
    by (simp add: show_one_def new_ImageContext_def new_ints_def set_element_def element_def images_def
        setOpacity_def setScale_def clientCode_def display_def image_def initialised_def image_lines_def
        int32_def machine fun_upd_twist)
qed

definition shown :: "'f floats \<Rightarrow> 'f obj world \<Rightarrow> nat \<Rightarrow> nat \<Rightarrow> 'f obj world \<Rightarrow> (nat \<times> nat) list \<Rightarrow> bool" where
  "shown fp s b n t qs \<longleftrightarrow> length qs = n \<and> fresh_above t \<and> brk s \<le> brk t
     \<and> cells t b = Some (Images (map (\<lambda>q. Some (Some (fst q))) qs @ replicate (5 - n) None))
     \<and> (\<forall>q \<in> set qs. holds t q) \<and> distinct (addrs qs) \<and> (\<forall>a \<in> set (addrs qs). brk s \<le> a)
     \<and> (\<forall>a. a \<noteq> b \<longrightarrow> a \<notin> set (addrs qs) \<longrightarrow> cells t a = cells s a)
     \<and> out t = out s @ concat (map (image_lines fp) [0..<n])"

lemma shown_step:
  assumes "shown fp s b n t qs" "b < brk s" "n < 5"
  shows "\<exists>u. show_one fp (Some b) n t = Done () u \<and> shown fp s b (Suc n) u (qs @ [(Suc (brk t), brk t)])"
proof -
  let ?ps = "map (\<lambda>q. Some (Some (fst q))) qs @ replicate (5 - n) None"
  have cb: "cells t b = Some (Images ?ps)" and fr: "fresh_above t" and n: "length qs = n" "n < length ?ps"
    using assms(1,3) by (simp_all add: shown_def)
  let ?u = "says (t\<lparr>cells := (cells t)(brk t \<mapsto> Ints (replicate 64 None),
     b \<mapsto> Images (?ps[n := Some (Some (Suc (brk t)))]),
     Suc (brk t) \<mapsto> Image ''img1.svg'' 8 8 96 (Some (Some (brk t))) (part fp n) (sub fp (of_int32 fp 1) (part fp n))),
     brk := Suc (Suc (brk t))\<rparr>) (image_lines fp n)"
  have run: "show_one fp (Some b) n t = Done () ?u" by (rule show_one_step [OF cb fr n(2)])
  have bb: "b < brk t" "b < Suc (brk t)" using fresh_above_live [OF fr cb] by simp_all
  have "5 - n = Suc (5 - Suc n)" using assms(3) by simp
  then have ps: "?ps[n := Some (Some (Suc (brk t)))]
      = map (\<lambda>q. Some (Some (fst q))) (qs @ [(Suc (brk t), brk t)]) @ replicate (5 - Suc n) None"
    using n(1) by (simp add: list_update_append)
  have below: "a < brk t" if "a \<in> set (addrs qs)" for a
  proof -
    have "\<exists>x. cells t a = Some x" if "\<forall>q \<in> set qs. holds t q" "a \<in> set (addrs qs)"
      using that by (induction qs) (auto simp: holds_def)
    with that assms(1) fresh_above_live [OF fr] show ?thesis by (auto simp: shown_def)
  qed
  have ne: "b \<noteq> fst q \<and> b \<noteq> snd q" if "q \<in> set qs" for q
    using assms(1) in_addrs [OF that] assms(2) by (auto simp: shown_def not_le [symmetric])
  have keep: "holds ?u q" if "q \<in> set qs" for q
    using assms(1) that ne [OF that] in_addrs [OF that] below [of "fst q"] below [of "snd q"]
    by (subst holds_cong [of _ _ t]) (simp_all add: shown_def)
  have notin: "brk t \<notin> set (addrs qs)" "Suc (brk t) \<notin> set (addrs qs)"
    using below [of "brk t"] below [of "Suc (brk t)"] by auto
  have new: "holds ?u (Suc (brk t), brk t)" using bb by (simp add: holds_def)
  have "shown fp s b (Suc n) ?u (qs @ [(Suc (brk t), brk t)])"
    using assms(1) keep new bb below notin ps
    by (auto simp: shown_def fresh_above_def)
  with run show ?thesis by blast
qed

lemma show_all:
  assumes "cells s b = Some (Images (replicate 5 None))" "fresh_above s" "n \<le> 5"
  shows "\<exists>t qs. for_each [0..<n] (show_one fp (Some b)) s = Done () t \<and> shown fp s b n t qs"
  using assms(3)
proof (induction n)
  case 0
  have "shown fp s b 0 s []" using assms(1,2) by (simp add: shown_def)
  then show ?case by (auto simp: ret_def)
next
  case (Suc n)
  then obtain t qs where t: "for_each [0..<n] (show_one fp (Some b)) s = Done () t" "shown fp s b n t qs" by auto
  have "b < brk s" using fresh_above_live [OF assms(2,1)] .
  from shown_step [OF t(2) this] Suc.prems obtain u where
    "show_one fp (Some b) n t = Done () u" "shown fp s b (Suc n) u (qs @ [(Suc (brk t), brk t)])" by auto
  with t(1) have "for_each [0..<Suc n] (show_one fp (Some b)) s = Done () u"
    by (simp add: for_each_append seq_def ret_def)
  with \<open>shown fp s b (Suc n) u _\<close> show ?case by blast
qed

lemma delete_holds:
  assumes "holds s (p, a)" "p \<noteq> a"
  shows "delete_ImageContext (Some p) s = Done () (without s {p, a})"
proof -
  obtain fn w h d sc op xs where p: "cells s p = Some (Image fn w h d (Some (Some a)) sc op)"
    and a: "cells s a = Some (Ints xs)" using assms(1) by (auto simp: holds_def)
  have "free (Some p) (without s {a}) = Done () (without (without s {a}) {p})"
    using p assms(2) by (intro free_without) simp
  moreover have "free (Some a) s = Done () (without s {a})" by (rule free_without [OF a])
  ultimately show ?thesis using p
    by (simp add: delete_ImageContext_def image_def initialised_def seq_def ret_def load_def insert_commute)
qed

lemma delete_all:
  assumes "cells s b = Some (Images (map (\<lambda>q. Some (Some (fst q))) qs))" "\<forall>q \<in> set qs. holds s q"
    and "distinct (addrs qs)" "b \<notin> set (addrs qs)" "n \<le> length qs"
  shows "for_each [0..<n] (\<lambda>i. seq (element (Some b) i) delete_ImageContext) s
    = Done () (without s (set (addrs (take n qs))))"
  using assms(5)
proof (induction n)
  case 0
  then show ?case by (simp add: ret_def)
next
  case (Suc n)
  obtain p a where q: "qs ! n = (p, a)" by (cases "qs ! n")
  let ?u = "without s (set (addrs (take n qs)))"
  have split: "qs = take n qs @ (p, a) # drop (Suc n) qs"
    using Suc.prems q by (metis Suc_le_eq id_take_nth_drop)
  have next': "take (Suc n) qs = take n qs @ [(p, a)]" using Suc.prems q by (simp add: take_Suc_conv_app_nth)
  have "distinct (addrs (take n qs @ (p, a) # drop (Suc n) qs))" using assms(3) split by simp
  then have ne: "p \<noteq> a" "p \<notin> set (addrs (take n qs))" "a \<notin> set (addrs (take n qs))" by auto
  have "(p, a) \<in> set qs" using Suc.prems q by (metis Suc_le_eq nth_mem)
  then have h: "holds ?u (p, a)" using assms(2) ne by (subst holds_cong [of _ _ s]) auto
  have "b \<notin> set (addrs (take n qs @ (p, a) # drop (Suc n) qs))" using assms(4) split by simp
  then have "cells ?u b = Some (Images (map (\<lambda>q. Some (Some (fst q))) qs))" using assms(1) by auto
  then have "element (Some b) n ?u = Done (Some p) ?u"
    using Suc.prems q by (simp add: element_def images_def initialised_def seq_def ret_def load_def)
  with delete_holds [OF h ne(1)] have "seq (element (Some b) n) delete_ImageContext ?u = Done () (without ?u {p, a})"
    by (simp add: seq_def)
  with Suc.IH Suc.prems have
    "for_each [0..<Suc n] (\<lambda>i. seq (element (Some b) i) delete_ImageContext) s = Done () (without ?u {p, a})"
    by (simp add: for_each_append seq_def [of "for_each [0..<n] (\<lambda>i. seq (element (Some b) i) delete_ImageContext)"])
  then show ?case unfolding next' by (simp add: Un_commute)
qed

section \<open>Properties\<close>

text \<open>
  The run shows the five images in order, with scale and opacity of each, and everything it allocates
  is freed: the images, their arrays and the array of pointers.
\<close>

theorem image_contexts_run:
  assumes "fresh_above s"
  shows "\<exists>t. problem_run fp size_of s = Done () t \<and> cells t = cells s
    \<and> out t = out s @ Cout (endl @ endl @ ''Problem'' @ endl) # concat (map (image_lines fp) [0..<5])
      @ [Cout (''Size of objects: '' @ show_nat (size_of * 5) @ endl)]"
proof -
  let ?s = "says s [Cout (endl @ endl @ ''Problem'' @ endl)]"
  let ?b = "brk s"
  let ?v = "?s\<lparr>cells := (cells s)(?b \<mapsto> Images (replicate 5 None)), brk := Suc ?b\<rparr>"
  have v: "cells ?v ?b = Some (Images (replicate 5 None))" "fresh_above ?v"
    using assms by (auto simp: fresh_above_def)
  obtain t qs where t: "for_each [0..<5] (show_one fp (Some ?b)) ?v = Done () t" "shown fp ?v ?b 5 t qs"
    using show_all [OF v, of 5 fp] by auto
  have b: "?b \<notin> set (addrs qs)" and len: "length qs = 5" using t(2) by (auto simp: shown_def)
  have d: "for_each [0..<5] (\<lambda>i. seq (element (Some ?b) i) delete_ImageContext) t = Done () (without t (set (addrs qs)))"
    using delete_all [of t ?b qs 5] t(2) b len by (simp add: shown_def)
  have "cells (without t (set (addrs qs))) ?b = Some (Images (map (\<lambda>q. Some (Some (fst q))) qs))"
    using t(2) b by (simp add: shown_def)
  note f = free_without [OF this]
  let ?l = "''Size of objects: '' @ show_nat (size_of * 5) @ endl"
  let ?u = "says (without (without t (set (addrs qs))) {?b}) [Cout ?l]"
  have "problem_run fp size_of s = Done () ?u"
    using t(1) d f unfolding problem_run_def cout_def emit_def alloc_def seq_def
    by (simp add: seq_def ret_def)
  moreover have "cells ?u a = cells s a" for a
    using t(2) assms b by (auto simp: shown_def fresh_above_def)
  then have "cells ?u = cells s" by (rule ext)
  moreover have "out ?u = out s @ Cout (endl @ endl @ ''Problem'' @ endl) # concat (map (image_lines fp) [0..<5])
      @ [Cout ?l]"
    using t(2) by (simp add: shown_def)
  ultimately show ?thesis by blast
qed

theorem image_contexts_run_witness:
  "\<exists>t. problem_run \<lparr>of_int32 = (\<lambda>i. i), quot = (\<lambda>a b. a div b), sub = (\<lambda>a b. a - b), showf = show_int\<rparr> 72 boot = Done () t
    \<and> cells t = cells boot"
  using image_contexts_run [of boot] by auto

end
