(* ===== verification/SerialRead.thy ===== *)
theory SerialRead
  imports Prelude "HOL-Library.Word"
begin

text \<open>
  \<open>tests/dummy/UsbHostSerial_read.cpp\<close>: a reader that fills a buffer from a ring buffer which hands out
  chunks of at most five bytes.

  The state holds \<open>fakeResponses\<close>, the static \<open>offset\<close> of the mock, the caller's buffer and the console.
  A pointer into the responses is an index; the sizes never exceed the sizes of the arrays, so that
  they are natural numbers.

  Lemmas: the loop ends, because a chunk is never empty; a read delivers the next bytes of the
  responses, as many as are asked for or left; two reads deliver what one would.
\<close>

type_synonym byte = "8 word"

record serial =
  responses :: "byte list"
  offset :: nat
  buffer :: "byte list"
  console :: "string list"

definition print :: "string \<Rightarrow> (serial, unit) prog" where
  "print l s = Done () (s\<lparr>console := console s @ [l]\<rparr>)"

section \<open>The ring buffer\<close>

text \<open>The position of the chunk and its size, which the code returns through \<open>pxItemSize\<close>.\<close>

definition mockRingbufferReceiveUpTo :: "nat \<Rightarrow> (serial, (nat \<times> nat) option) prog" where
  "mockRingbufferReceiveUpTo xMaxSize =
     seq (print (''xMaxSize: '' @ show_nat xMaxSize @ endl)) (\<lambda>_ s.
     if offset s \<ge> length (responses s) then Done None s
     else (let remaining = length (responses s) - offset s;
               chunkSize = (if remaining < xMaxSize then remaining else xMaxSize);
               chunkSize = (if chunkSize > 5 then 5 else chunkSize)
           in Done (Some (offset s, chunkSize)) (s\<lparr>offset := offset s + chunkSize\<rparr>)))"

text \<open>\<open>std::memcpy\<close> of \<open>n\<close> bytes from the responses at \<open>p\<close> to the buffer at \<open>d\<close>.\<close>

definition memcpy :: "nat \<Rightarrow> nat \<Rightarrow> nat \<Rightarrow> (serial, unit) prog" where
  "memcpy d p n s = (if d + n \<le> length (buffer s) \<and> p + n \<le> length (responses s)
     then Done () (s\<lparr>buffer := take d (buffer s) @ take n (drop p (responses s)) @ drop (d + n) (buffer s)\<rparr>)
     else Undef BadIndex)"

lemma chunk_size:
  "mockRingbufferReceiveUpTo m s = Done (Some (p, n)) t \<Longrightarrow> 0 < m \<Longrightarrow> 0 < n \<and> n \<le> m"
  by (auto simp: mockRingbufferReceiveUpTo_def print_def Let_def machine split: if_splits)

section \<open>The reader\<close>

text \<open>The loop of \<open>read\<close>; the memory is copied and logged between two calls of the mock.\<close>

function read_loop :: "nat \<Rightarrow> nat \<Rightarrow> (serial, nat) prog" where
  "read_loop len retVal s = (if retVal < len then
     (case mockRingbufferReceiveUpTo (len - retVal) s of
        Done None t \<Rightarrow> Done retVal t
      | Done (Some (p, n)) t \<Rightarrow>
          (case seq (memcpy retVal p n) (\<lambda>_. print (''ret: '' @ show_nat n @ endl)) t of
             Done _ u \<Rightarrow> read_loop len (retVal + n) u
           | Thrown e u \<Rightarrow> Thrown e u
           | Undef f \<Rightarrow> Undef f)
      | Thrown e t \<Rightarrow> Thrown e t
      | Undef f \<Rightarrow> Undef f)
     else Done retVal s)"
  by pat_completeness auto
termination
  by (relation "measure (\<lambda>(len, retVal, s). len - retVal)") (auto dest!: chunk_size)

declare read_loop.simps [simp del]

definition read_serial :: "nat \<Rightarrow> (serial, nat) prog" where
  "read_serial len = read_loop len 0"

section \<open>The test\<close>

definition F_SIZE :: nat where
  "F_SIZE = 9999"

definition fill_responses :: "(serial, unit) prog" where
  "fill_responses s = Done () (s\<lparr>responses := map (\<lambda>i. word_of_nat i) [0..<F_SIZE]\<rparr>)"

definition show_bytes :: "byte list \<Rightarrow> string" where
  "show_bytes bs = concat (map (\<lambda>b. show_nat (unat b) @ '' '') bs)"

definition testRead :: "(serial, unit) prog" where
  "testRead =
     seq fill_responses (\<lambda>_.
     seq (\<lambda>s. Done () (s\<lparr>buffer := replicate 100 0\<rparr>)) (\<lambda>_.
     seq (read_serial 100) (\<lambda>bytes.
     seq (if bytes \<noteq> 100 then print (''Error: Len missmatch '' @ endl) else ret ()) (\<lambda>_.
     seq (print (''checkBuff '' @ endl)) (\<lambda>_ s.
     print (show_bytes (buffer s) @ endl) s)))))"

section \<open>What a read delivers\<close>

text \<open>The lines of a read: the room before each call of the mock, and the size of each chunk.\<close>

function read_lines :: "nat \<Rightarrow> nat \<Rightarrow> string list" where
  "read_lines left room = (if room = 0 then []
     else (''xMaxSize: '' @ show_nat room @ endl) #
       (if left = 0 then []
        else (let n = min 5 (min left room) in (''ret: '' @ show_nat n @ endl) # read_lines (left - n) (room - n))))"
  by pat_completeness auto
termination
  by (relation "measure snd") (auto simp: Let_def)

declare read_lines.simps [simp del]

definition delivered :: "nat \<Rightarrow> nat \<Rightarrow> serial \<Rightarrow> serial" where
  "delivered retVal n s = s\<lparr>offset := offset s + n,
     buffer := take retVal (buffer s) @ take n (drop (offset s) (responses s)) @ drop (retVal + n) (buffer s)\<rparr>"

lemma delivered_twice:
  assumes "retVal + n \<le> length (buffer s)" "offset s + n \<le> length (responses s)"
  shows "delivered (retVal + n) m ((delivered retVal n s)\<lparr>console := c\<rparr>) = (delivered retVal (n + m) s)\<lparr>console := c\<rparr>"
proof -
  have mins: "min (length (buffer s)) retVal = retVal" "min (length (responses s) - offset s) n = n"
    using assms by auto
  have "take n (drop (offset s) (responses s)) @ take m (drop (offset s + n) (responses s)) @ ys
      = take (n + m) (drop (offset s) (responses s)) @ ys" for ys
    by (simp add: take_add add.commute [of "offset s" n])
  then show ?thesis
    by (intro serial.equality) (simp_all add: delivered_def mins add.assoc add.left_commute [of m] add.commute [of m n])
qed

lemma read_loop_delivers:
  assumes "retVal + room = len" "len \<le> length (buffer s)" "offset s + left = length (responses s)"
  shows "read_loop len retVal s = Done (retVal + min room left)
    ((delivered retVal (min room left) s)\<lparr>console := console s @ read_lines left room\<rparr>)"
  using assms
proof (induction left room arbitrary: retVal s rule: read_lines.induct)
  case (1 left room)
  show ?case
  proof (cases "room = 0 \<or> left = 0")
    case True
    with 1(2-4) show ?thesis
      by (subst read_loop.simps, subst read_lines.simps)
        (auto simp: delivered_def mockRingbufferReceiveUpTo_def print_def machine)
  next
    case False
    define n where "n = min 5 (min left room)"
    have n: "n \<le> left" "n \<le> room" "n + min (room - n) (left - n) = min room left"
      by (auto simp: n_def min_def)
    let ?l = "''xMaxSize: '' @ show_nat room @ endl" and ?m = "''ret: '' @ show_nat n @ endl"
    let ?t = "s\<lparr>console := console s @ [?l], offset := offset s + n\<rparr>"
    let ?u = "(delivered retVal n s)\<lparr>console := console s @ [?l, ?m]\<rparr>"
    have room: "len - retVal = room" "retVal < len" using 1(2) False by auto
    have fits: "retVal + n \<le> length (buffer s)" "offset s + n \<le> length (responses s)" using 1(2-4) n by auto
    have step: "mockRingbufferReceiveUpTo (len - retVal) s = Done (Some (offset s, n)) ?t"
      using 1(4) False room(1) by (auto simp: n_def mockRingbufferReceiveUpTo_def print_def Let_def machine)
    have copy: "seq (memcpy retVal (offset s) n) (\<lambda>_. print ?m) ?t = Done () ?u"
      using fits by (simp add: memcpy_def print_def delivered_def machine)
    have "read_loop len retVal s = read_loop len (retVal + n) ?u"
      unfolding read_loop.simps [of len retVal] using room(2) step copy by simp
    also have "\<dots> = Done (retVal + n + min (room - n) (left - n))
        ((delivered (retVal + n) (min (room - n) (left - n)) ?u)\<lparr>console := console ?u @ read_lines (left - n) (room - n)\<rparr>)"
    proof (rule 1(1))
      show "offset ?u + (left - n) = length (responses ?u)" using 1(4) n by (simp add: delivered_def)
      show "len \<le> length (buffer ?u)" using 1(3) fits by (simp add: delivered_def)
      show "retVal + n + (room - n) = len" using 1(2) n(2) by simp
    qed (use False in \<open>simp_all add: n_def\<close>)
    also have "retVal + n + min (room - n) (left - n) = retVal + min room left" using n(3) by simp
    also have "delivered (retVal + n) (min (room - n) (left - n)) ?u
        = (delivered retVal (min room left) s)\<lparr>console := console s @ [?l, ?m]\<rparr>"
      unfolding delivered_twice [OF fits] n(3) ..
    also have "console ?u @ read_lines (left - n) (room - n) = console s @ read_lines left room"
      using False by (simp add: read_lines.simps [of left room] n_def Let_def)
    finally show ?thesis by simp
  qed
qed

lemma read_serial_delivers:
  assumes "n \<le> length (buffer s)" "offset s \<le> length (responses s)"
  shows "read_serial n s = Done (min n (length (responses s) - offset s))
    ((delivered 0 (min n (length (responses s) - offset s)) s)
      \<lparr>console := console s @ read_lines (length (responses s) - offset s) n\<rparr>)"
  unfolding read_serial_def
  using read_loop_delivers [of 0 n n s "length (responses s) - offset s"] assms by simp

lemma read_serial_bytes:
  assumes "n \<le> length (buffer s)" "offset s \<le> length (responses s)"
    and "k = min n (length (responses s) - offset s)"
  shows "\<exists>t. read_serial n s = Done k t \<and> take k (buffer t) = take n (drop (offset s) (responses s))
    \<and> drop k (buffer t) = drop k (buffer s) \<and> length (buffer t) = length (buffer s)
    \<and> offset t = offset s + k \<and> responses t = responses s"
proof -
  let ?t = "(delivered 0 k s)\<lparr>console := console s @ read_lines (length (responses s) - offset s) n\<rparr>"
  have "read_serial n s = Done k ?t"
    using read_serial_delivers [OF assms(1,2)] by (simp only: assms(3))
  moreover have len: "length (take k (drop (offset s) (responses s))) = k" using assms(3) by simp
  moreover have "take k (drop (offset s) (responses s)) = take n (drop (offset s) (responses s))"
    using assms(3) by (cases "n \<le> length (responses s) - offset s") simp_all
  moreover have b: "k \<le> length (buffer s)" using assms(1,3) by simp
  moreover have "buffer ?t = take k (drop (offset s) (responses s)) @ drop k (buffer s)"
    by (simp add: delivered_def)
  then have "take k (buffer ?t) = take k (drop (offset s) (responses s))" "drop k (buffer ?t) = drop k (buffer s)"
    "length (buffer ?t) = length (buffer s)"
    using len b by simp_all
  moreover have "offset ?t = offset s + k" "responses ?t = responses s" by (simp_all add: delivered_def)
  ultimately show ?thesis by metis
qed

section \<open>Properties\<close>

text \<open>
  C10.  A read of \<open>n\<close> bytes into a buffer that has room for them always ends; it returns the number of bytes
  delivered, \<open>n\<close> or what is left, and these are the next bytes of the responses; the rest of the buffer
  is untouched and the mock goes on behind them.
\<close>

theorem serial_read_delivers:
  assumes "n \<le> length (buffer s)" "offset s \<le> length (responses s)"
    and "k = min n (length (responses s) - offset s)"
  shows "\<exists>t. read_serial n s = Done k t \<and> take k (buffer t) = take n (drop (offset s) (responses s))
    \<and> drop k (buffer t) = drop k (buffer s) \<and> length (buffer t) = length (buffer s)
    \<and> offset t = offset s + k \<and> responses t = responses s"
  by (rule read_serial_bytes [OF assms])

definition two_bytes :: serial where
  "two_bytes = \<lparr>responses = [7, 8, 9], offset = 1, buffer = [0, 0, 0, 0], console = []\<rparr>"

theorem serial_read_delivers_witness:
  "\<exists>t. read_serial 4 two_bytes = Done 2 t \<and> take 2 (buffer t) = [8, 9] \<and> drop 2 (buffer t) = [0, 0] \<and> offset t = 3"
proof -
  have p: "4 \<le> length (buffer two_bytes)" "offset two_bytes \<le> length (responses two_bytes)"
    "2 = min 4 (length (responses two_bytes) - offset two_bytes)"
    by (simp_all add: two_bytes_def)
  have c: "take 4 (drop (offset two_bytes) (responses two_bytes)) = [8, 9]" "drop 2 (buffer two_bytes) = [0, 0]"
    "offset two_bytes + 2 = 3"
    by (simp_all add: two_bytes_def)
  from serial_read_delivers [OF p] show ?thesis unfolding c by blast
qed

text \<open>Two reads deliver what one read of both sizes would.\<close>

lemma reads_compose:
  assumes "m \<le> length (buffer s)" "n \<le> length (buffer s)" "offset s \<le> length (responses s)"
  shows "\<exists>k l t u. read_serial m s = Done k t \<and> read_serial n t = Done l u
    \<and> take k (buffer t) @ take l (buffer u) = take (m + n) (drop (offset s) (responses s))
    \<and> offset u = offset s + min (m + n) (length (responses s) - offset s)"
proof -
  let ?r = "length (responses s) - offset s"
  obtain k where k: "k = min m ?r" by simp
  obtain t where t: "read_serial m s = Done k t" "take k (buffer t) = take m (drop (offset s) (responses s))"
    "length (buffer t) = length (buffer s)" "offset t = offset s + k" "responses t = responses s"
    using read_serial_bytes [OF assms(1,3) k] by blast
  obtain l where l: "l = min n (length (responses t) - offset t)" by simp
  have "offset t \<le> length (responses t)" "n \<le> length (buffer t)" using t(3-5) k assms by auto
  from read_serial_bytes [OF this(2,1) l] obtain u where
    u: "read_serial n t = Done l u" "take l (buffer u) = take n (drop (offset t) (responses t))" "offset u = offset t + l"
    by blast
  have "take n (drop k xs) = take n (drop m xs)" if "length xs = ?r" for xs :: "byte list"
    using that k by (cases "m \<le> ?r") auto
  then have "take k (buffer t) @ take l (buffer u) = take (m + n) (drop (offset s) (responses s))"
    using t(2,4,5) u(2) by (simp add: take_add add.commute drop_drop [symmetric] del: drop_drop)
  moreover have mins: "min m r + min n (r - min m r) = min (m + n) r" for r by (auto simp: min_def)
  have "offset u = offset s + min (m + n) ?r" 
    using t(4,5) u(3) k l mins [of "length (responses s) - offset s"] by simp
  ultimately show ?thesis using t(1) u(1) by blast
qed

text \<open>
  The test: as long as the responses have a hundred bytes left, no error is reported, and the bytes
  shown are the low bytes of the positions from the offset on.  The offset is static, so that
  a second run of the test shows the bytes behind those of the first.
\<close>

theorem test_read_shows_bytes:
  assumes "offset s + 100 \<le> F_SIZE"
  shows "\<exists>t. testRead s = Done () t \<and> offset t = offset s + 100
    \<and> console t = console s @ read_lines (F_SIZE - offset s) 100 @ [''checkBuff '' @ endl,
        show_bytes (map (\<lambda>i. word_of_nat (offset s + i)) [0..<100]) @ endl]"
proof -
  let ?u = "s\<lparr>responses := map (\<lambda>i. word_of_nat i) [0..<F_SIZE], buffer := replicate 100 0\<rparr>"
  have n: "min 100 (F_SIZE - offset s) = 100" using assms by simp
  have "take 100 (drop (offset s) (map (\<lambda>i. word_of_nat i) [0..<F_SIZE])) = map (\<lambda>i. word_of_nat (offset s + i) :: byte) [0..<100]"
    using assms by (intro nth_equalityI) auto
  moreover have "read_serial 100 ?u = Done 100 ((delivered 0 100 ?u)
      \<lparr>console := console s @ read_lines (F_SIZE - offset s) 100\<rparr>)"
    using read_serial_delivers [of 100 ?u] assms n by simp
  ultimately show ?thesis
    by (simp add: testRead_def fill_responses_def print_def delivered_def machine del: upt_Suc)
qed

theorem test_read_shows_bytes_witness:
  "\<exists>t. testRead \<lparr>responses = [], offset = 300, buffer = [], console = []\<rparr> = Done () t \<and> offset t = 400"
  using test_read_shows_bytes [of "\<lparr>responses = [], offset = 300, buffer = [], console = []\<rparr>"]
  by (auto simp: F_SIZE_def)

end
