(* ===== verification/Turtles.thy ===== *)
theory Turtles
  imports Calculator
begin

text \<open>
  The directory \<open>tests\<close>: the interface \<open>Turtle\<close>, the \<open>Painter\<close> that draws with it, the \<open>FakeTurtle\<close>
  that records the end points of the strokes, and the tests of \<open>DeleteMeTest.cpp\<close> for the painter and
  for the calculator.

  A turtle is a record of the six operations over a state; the painter uses them only.  A failed
  \<open>ASSERT\<close> ends its test, which is an exception here; so does a failed \<open>EXPECT\<close>, although the
  test would go on, since both make the test fail.  The class generated by gmock, and its test, are not modelled.

  Lemmas: on any turtle whose strokes obey the laws of the plane the painter draws a closed square; the
  fake turtle obeys them, for the four directions; a left turn from north leaves them; all tests pass.
\<close>

section \<open>The interface and its client\<close>

record 't turtle =
  PenUp :: "('t, unit) prog"
  PenDown :: "('t, unit) prog"
  Forward :: "int \<Rightarrow> ('t, unit) prog"
  Turn :: "int \<Rightarrow> ('t, unit) prog"
  GoTo :: "int \<Rightarrow> int \<Rightarrow> ('t, unit) prog"
  GetX :: "('t, int) prog"
  GetY :: "('t, int) prog"

definition DrawSquare :: "'t turtle \<Rightarrow> int \<Rightarrow> ('t, unit) prog" where
  "DrawSquare t len = block [
     PenDown t,
     repeat 4 (seq (Forward t len) (\<lambda>_. Turn t 90)),
     PenUp t]"

section \<open>The fake\<close>

record fake =
  pos_x :: int
  pos_y :: int
  direction :: int
  pen_down :: bool
  path :: "(int \<times> int) list"

definition new_FakeTurtle :: fake where
  "new_FakeTurtle = \<lparr>pos_x = 0, pos_y = 0, direction = 0, pen_down = False, path = []\<rparr>"

definition record_point :: "(fake, unit) prog" where
  "record_point s = Done () (if pen_down s then s\<lparr>path := path s @ [(pos_x s, pos_y s)]\<rparr> else s)"

definition set_x :: "int \<Rightarrow> (fake, unit) prog" where
  "set_x v s = Done () (s\<lparr>pos_x := v\<rparr>)"

definition set_y :: "int \<Rightarrow> (fake, unit) prog" where
  "set_y v s = Done () (s\<lparr>pos_y := v\<rparr>)"

definition move :: "int \<Rightarrow> (fake, unit) prog" where
  "move distance s = (
     if direction s = 0 then seq (to_int32 (pos_y s + distance)) set_y s
     else if direction s = 90 then seq (to_int32 (pos_x s + distance)) set_x s
     else if direction s = 180 then seq (to_int32 (pos_y s - distance)) set_y s
     else if direction s = 270 then seq (to_int32 (pos_x s - distance)) set_x s
     else Done () s)"

definition fake_forward :: "int \<Rightarrow> (fake, unit) prog" where
  "fake_forward distance = block [record_point, move distance, record_point]"

text \<open>\<open>%\<close> is the remainder of the division that truncates: its sign is that of the dividend.\<close>

definition fake_turn :: "int \<Rightarrow> (fake, unit) prog" where
  "fake_turn degrees s = seq (to_int32 (direction s + degrees)) (\<lambda>d s. Done () (s\<lparr>direction := d smod 360\<rparr>)) s"

definition FakeTurtle :: "fake turtle" where
  "FakeTurtle = \<lparr>
     PenUp = (\<lambda>s. Done () (s\<lparr>pen_down := False\<rparr>)),
     PenDown = (\<lambda>s. Done () (s\<lparr>pen_down := True\<rparr>)),
     Forward = fake_forward,
     Turn = fake_turn,
     GoTo = (\<lambda>x y. seq (set_x x) (\<lambda>_. set_y y)),
     GetX = (\<lambda>s. Done (pos_x s) s),
     GetY = (\<lambda>s. Done (pos_y s) s)\<rparr>"

section \<open>The tests\<close>

text \<open>A failed assertion; the calculator and the turtle of a test are its local variables.\<close>

definition assert_that :: "bool \<Rightarrow> ('s, unit) prog" where
  "assert_that b = (if b then ret () else throw ''failure'')"

definition assert_call :: "bool \<Rightarrow> bool calc \<Rightarrow> int \<Rightarrow> unit calc" where
  "assert_call expected c result = seq c (\<lambda>b. seq (assert_that (b = expected)) (\<lambda>_.
     seq get_last_result (\<lambda>r. assert_that (r = result))))"

definition AddTest_ValidNumbers :: "unit calc" where
  "AddTest_ValidNumbers = block [
     assert_call True (add 1 2) 3,
     assert_call True (add 0 5) 5,
     assert_call True (add 5 0) 5,
     assert_call True (add 4 (- 6)) (- 2),
     assert_call True (add (- 4) 6) 2,
     assert_call True (add (- 4) (- 6)) (- 10)]"

definition DivTest_ValidNumbers :: "unit calc" where
  "DivTest_ValidNumbers = block [
     assert_call True (div' 10 2) 5,
     assert_call True (div' (- 12) 3) (- 4),
     assert_call True (div' 12 (- 3)) (- 4)]"

definition DivTest_InvalidNumbers :: "unit calc" where
  "DivTest_InvalidNumbers = assert_call False (div' 7 0) 0"

definition expect_path :: "nat \<Rightarrow> int \<times> int \<Rightarrow> (fake, unit) prog" where
  "expect_path i p s = (if i < length (path s) then assert_that (path s ! i = p) s else Undef BadIndex)"

definition FakePainterTest :: "(fake, unit) prog" where
  "FakePainterTest = block [
     DrawSquare FakeTurtle 10,
     (\<lambda>s. assert_that (length (path s) = 8) s),
     expect_path 0 (0, 0), expect_path 1 (0, 10),
     expect_path 2 (0, 10), expect_path 3 (10, 10),
     expect_path 4 (10, 10), expect_path 5 (10, 0),
     expect_path 6 (10, 0), expect_path 7 (0, 0)]"

lemmas turtle_defs [defs] = record_point_def set_x_def set_y_def move_def fake_forward_def fake_turn_def FakeTurtle_def

section \<open>The laws of the interface\<close>

text \<open>
  A turtle with its pen down in a state in which it stands at a point and looks in one of the four
  directions, given as the vector of one step: a stroke of length \<open>len\<close> goes to the point ahead, when
  that point is in the area \<open>area\<close>; a right turn turns.
\<close>

fun right :: "int \<times> int \<Rightarrow> int \<times> int" where
  "right (dx, dy) = (dy, - dx)"

fun ahead :: "int \<Rightarrow> int \<times> int \<Rightarrow> int \<times> int \<Rightarrow> int \<times> int" where
  "ahead len (dx, dy) (x, y) = (x + len * dx, y + len * dy)"

locale plane =
  fixes t :: "'t turtle"
    and stands :: "int \<times> int \<Rightarrow> int \<times> int \<Rightarrow> bool \<Rightarrow> (int \<times> int) list \<Rightarrow> 't \<Rightarrow> bool"
    and area :: "int \<times> int \<Rightarrow> bool"
  assumes pen: "stands p v b ps s \<Longrightarrow> \<exists>u. PenDown t s = Done () u \<and> stands p v True ps u"
    "stands p v b ps s \<Longrightarrow> \<exists>u. PenUp t s = Done () u \<and> stands p v False ps u"
    and stroke: "stands p v True ps s \<Longrightarrow> area (ahead len v p) \<Longrightarrow>
      \<exists>u. Forward t len s = Done () u \<and> stands (ahead len v p) v True (ps @ [p, ahead len v p]) u"
    and right_turn: "stands p v b ps s \<Longrightarrow> \<exists>u. Turn t 90 s = Done () u \<and> stands p (right v) b ps u"
begin

lemma side:
  assumes "stands p v True ps s" "area (ahead len v p)"
  shows "\<exists>u. seq (Forward t len) (\<lambda>_. Turn t 90) s = Done () u
    \<and> stands (ahead len v p) (right v) True (ps @ [p, ahead len v p]) u"
proof -
  obtain u where u: "Forward t len s = Done () u" "stands (ahead len v p) v True (ps @ [p, ahead len v p]) u"
    using stroke [OF assms] by blast
  from right_turn [OF u(2)] u(1) show ?thesis by (auto simp: seq_def)
qed

lemma square:
  assumes "stands p v b ps s"
    and "q = ahead len v p" "r = ahead len (right v) q" "z = ahead len (right (right v)) r"
    and "area p" "area q" "area r" "area z"
  shows "\<exists>u. DrawSquare t len s = Done () u \<and> stands p v False (ps @ [p, q, q, r, r, z, z, p]) u"
proof -
  have home: "ahead len (right (right (right v))) z = p" "right (right (right (right v))) = v"
    using assms(2-4) by (cases v; cases p; simp)+
  let ?side = "seq (Forward t len) (\<lambda>_. Turn t 90)"
  obtain s0 where 0: "PenDown t s = Done () s0" "stands p v True ps s0" using pen(1) [OF assms(1)] by blast
  obtain s1 where 1: "?side s0 = Done () s1" "stands q (right v) True (ps @ [p, q]) s1"
    using side [OF 0(2), of len] assms(2,6) by blast
  obtain s2 where 2: "?side s1 = Done () s2" "stands r (right (right v)) True (ps @ [p, q, q, r]) s2"
    using side [OF 1(2), of len] assms(3,7) by auto
  obtain s3 where 3: "?side s2 = Done () s3" "stands z (right (right (right v))) True (ps @ [p, q, q, r, r, z]) s3"
    using side [OF 2(2), of len] assms(4,8) by auto
  obtain s4 where 4: "?side s3 = Done () s4" "stands p v True (ps @ [p, q, q, r, r, z, z, p]) s4"
    using side [OF 3(2), of len] home assms(5) by auto
  obtain s5 where 5: "PenUp t s4 = Done () s5" "stands p v False (ps @ [p, q, q, r, r, z, z, p]) s5"
    using pen(2) [OF 4(2)] by blast
  have "repeat 4 ?side s0 = Done () s4"
    using 1(1) 2(1) 3(1) 4(1) by (simp add: eval_nat_numeral seq_def [of ?side])
  with 0 5 show ?thesis by (auto simp: DrawSquare_def seq_def ret_def)
qed

end

section \<open>The fake obeys the laws\<close>

text \<open>The vector of a direction, none when it is not one of the four.\<close>

definition vector :: "int \<Rightarrow> (int \<times> int) option" where
  "vector d = (if d = 0 then Some (0, 1) else if d = 90 then Some (1, 0)
     else if d = 180 then Some (0, - 1) else if d = 270 then Some (- 1, 0) else None)"

definition fake_at :: "int \<times> int \<Rightarrow> int \<times> int \<Rightarrow> bool \<Rightarrow> (int \<times> int) list \<Rightarrow> fake \<Rightarrow> bool" where
  "fake_at p v b ps s \<longleftrightarrow> (pos_x s, pos_y s) = p \<and> vector (direction s) = Some v \<and> pen_down s = b \<and> path s = ps"

definition on_grid :: "int \<times> int \<Rightarrow> bool" where
  "on_grid p \<longleftrightarrow> int32 (fst p) \<and> int32 (snd p)"

lemma fake_stroke:
  assumes "fake_at p v True ps s" "on_grid (ahead len v p)"
  shows "\<exists>u. fake_forward len s = Done () u \<and> fake_at (ahead len v p) v True (ps @ [p, ahead len v p]) u"
  using assms
  by (auto simp: fake_at_def on_grid_def vector_def turtle_defs machine split: if_splits)

lemma fake_right_turn:
  assumes "fake_at p v b ps s"
  shows "\<exists>u. fake_turn 90 s = Done () u \<and> fake_at p (right v) b ps u"
  using assms
  by (auto simp: fake_at_def vector_def fake_turn_def int32_def machine split: if_splits)

interpretation fake_plane: plane FakeTurtle fake_at on_grid
  by unfold_locales
    (use fake_stroke fake_right_turn in \<open>auto simp: FakeTurtle_def, auto simp: fake_at_def\<close>)

section \<open>Properties\<close>

text \<open>
  C25.  The painter on the fake turtle: from any point and any of the four directions, as long as the corners
  are in the range of \<open>int\<close>, it records the eight end points of the four strokes of a closed square, and
  leaves the turtle where and as it was, with the pen up.
\<close>

theorem square_is_closed:
  assumes "on_grid (pos_x s, pos_y s)" "vector (direction s) = Some v"
    and "q = ahead len v (pos_x s, pos_y s)" "r = ahead len (right v) q" "z = ahead len (right (right v)) r"
    and "on_grid q" "on_grid r" "on_grid z"
  shows "\<exists>u. DrawSquare FakeTurtle len s = Done () u \<and> (pos_x u, pos_y u) = (pos_x s, pos_y s)
    \<and> vector (direction u) = Some v \<and> \<not> pen_down u
    \<and> path u = path s @ [(pos_x s, pos_y s), q, q, r, r, z, z, (pos_x s, pos_y s)]"
proof -
  have "fake_at (pos_x s, pos_y s) v (pen_down s) (path s) s" using assms(2) by (simp add: fake_at_def)
  from fake_plane.square [OF this assms(3-5,1,6-8)] show ?thesis by (auto simp: fake_at_def)
qed

theorem square_is_closed_witness:
  "\<exists>u. DrawSquare FakeTurtle 10 new_FakeTurtle = Done () u
    \<and> path u = [(0, 0), (0, 10), (0, 10), (10, 10), (10, 10), (10, 0), (10, 0), (0, 0)]"
  using square_is_closed [of new_FakeTurtle "(0, 1)" "(0, 10)" 10 "(10, 10)" "(10, 0)"]
  by (auto simp: new_FakeTurtle_def vector_def on_grid_def int32_def)



text \<open>All tests of the calculator and of the painter pass, whatever the calculator held before.\<close>

theorem tests_pass:
  "\<exists>s. AddTest_ValidNumbers new_DeleteMe = Done () s" "\<exists>s. DivTest_ValidNumbers new_DeleteMe = Done () s"
  "\<exists>s. DivTest_InvalidNumbers new_DeleteMe = Done () s" "\<exists>s. FakePainterTest new_FakeTurtle = Done () s"
  by (simp_all add: AddTest_ValidNumbers_def DivTest_ValidNumbers_def DivTest_InvalidNumbers_def
      FakePainterTest_def DrawSquare_def expect_path_def assert_call_def assert_that_def new_FakeTurtle_def
      turtle_defs add_def div'_def set_last_result_def get_last_result_def eval_nat_numeral int32_def machine)

end
