(* ===== verification/Firmware.thy ===== *)
theory Firmware
  imports Prelude "HOL-Library.Word"
begin

unbundle bit_operations_syntax

text \<open>
  \<open>src/embedded\<close>: the program of a micro controller, \<open>main.c\<close>, and its start-up code, \<open>startup.c\<close>, linked
  by \<open>stm32_flash.ld\<close>.

  The state is the memory, one word at every multiple of four, and the history of the accesses to the
  registers.  The hardware is a parameter: \<open>dev\<close> gives the word a read of a register returns after
  a history.  What the manuals promise of it is the hypothesis \<open>board\<close>: an enabled transmitter becomes
  ready and an enabled timer runs down, if they are asked often enough.

  Lemmas: the loops that wait for the hardware end on such a board; a string is sent as it is, with a
  carriage return before every newline, and no character before the transmitter is ready; a delay takes as many
  periods of the timer as it says; \<open>main\<close> never returns and repeats its two greetings; the start-up
  code initialises the variables and touches nothing else.
\<close>

type_synonym word32 = "32 word"

datatype access = Rd word32 word32 | Wr word32 word32 | Semihost word32 string

record mcu =
  mem :: "word32 \<Rightarrow> word32"
  bus :: "access list"

type_synonym device = "access list \<Rightarrow> word32 \<Rightarrow> word32"

section \<open>Registers\<close>

definition SYST_CSR :: word32 where "SYST_CSR = 0xE000E010"
definition SYST_RVR :: word32 where "SYST_RVR = 0xE000E014"
definition SYST_CVR :: word32 where "SYST_CVR = 0xE000E018"
definition RCC_APB2ENR :: word32 where "RCC_APB2ENR = 0x40021018"
definition USART1_SR :: word32 where "USART1_SR = 0x40013800"
definition USART1_DR :: word32 where "USART1_DR = 0x40013804"
definition USART1_BRR :: word32 where "USART1_BRR = 0x40013808"
definition USART1_CR1 :: word32 where "USART1_CR1 = 0x4001380C"

lemmas registers = SYST_CSR_def SYST_RVR_def SYST_CVR_def RCC_APB2ENR_def USART1_SR_def USART1_DR_def
  USART1_BRR_def USART1_CR1_def

definition flag :: "nat \<Rightarrow> word32" where
  "flag n = push_bit n 1"

definition reg_write :: "word32 \<Rightarrow> word32 \<Rightarrow> (mcu, unit) prog" where
  "reg_write a v s = Done () (s\<lparr>bus := bus s @ [Wr a v]\<rparr>)"

definition reg_read :: "device \<Rightarrow> word32 \<Rightarrow> (mcu, word32) prog" where
  "reg_read dev a s = (let v = dev (bus s) a in Done v (s\<lparr>bus := bus s @ [Rd a v]\<rparr>))"

text \<open>\<open>while (!(REG & mask)) {}\<close>, which may run forever.\<close>

partial_function (option) poll :: "device \<Rightarrow> word32 \<Rightarrow> word32 \<Rightarrow> mcu \<Rightarrow> (mcu, unit) result option" where
  "poll dev a m s = (case reg_read dev a s of
      Done v t \<Rightarrow> if v AND m \<noteq> 0 then Some (Done () t) else poll dev a m t
    | Thrown e t \<Rightarrow> Some (Thrown e t)
    | Undef u \<Rightarrow> Some (Undef u))"

section \<open>main.c\<close>

definition delay_turn :: "device \<Rightarrow> (mcu, unit) oprog" where
  "delay_turn dev = oblock [
     terminating (reg_write SYST_RVR (8000 - 1)),
     terminating (reg_write SYST_CVR 0),
     terminating (reg_write SYST_CSR 5),
     poll dev SYST_CSR (flag 16),
     terminating (reg_write SYST_CSR 0)]"

text \<open>\<open>while (ms--)\<close> on a \<open>uint32_t\<close>.\<close>

function delay_ms :: "device \<Rightarrow> word32 \<Rightarrow> (mcu, unit) oprog" where
  "delay_ms dev ms = (if ms = 0 then terminating (ret ())
     else oseq (delay_turn dev) (\<lambda>_. delay_ms dev (ms - 1)))"
  by pat_completeness auto
termination
  by (relation "measure (\<lambda>(dev, ms). unat ms)") (simp_all add: unat_minus_one unat_gt_0)

declare delay_ms.simps [simp del]

definition semihost_write0 :: "string \<Rightarrow> (mcu, unit) prog" where
  "semihost_write0 msg s = Done () (s\<lparr>bus := bus s @ [Semihost 0x04 msg]\<rparr>)"

definition uart_init :: "device \<Rightarrow> (mcu, unit) prog" where
  "uart_init dev =
     seq (reg_read dev RCC_APB2ENR) (\<lambda>v. block [
       reg_write RCC_APB2ENR (v OR flag 14),
       reg_write USART1_BRR 0x45,
       reg_write USART1_CR1 (flag 13 OR flag 3)])"

definition uart_putc :: "device \<Rightarrow> char \<Rightarrow> (mcu, unit) oprog" where
  "uart_putc dev c = oseq (poll dev USART1_SR (flag 7)) (\<lambda>_. terminating (reg_write USART1_DR (of_char c)))"

text \<open>The string is the list of its characters before the terminating zero.\<close>

definition newline :: char where "newline = CHR 0x0A"
definition carriage_return :: char where "carriage_return = CHR 0x0D"

primrec uart_puts :: "device \<Rightarrow> string \<Rightarrow> (mcu, unit) oprog" where
  "uart_puts dev [] = terminating (ret ())"
| "uart_puts dev (c # cs) =
     oseq (if c = newline then uart_putc dev carriage_return else terminating (ret ())) (\<lambda>_.
     oseq (uart_putc dev c) (\<lambda>_. uart_puts dev cs))"

definition hello_uart :: string where
  "hello_uart = ''Hello STM32-QEMU UART1'' @ [newline]"

definition hello_semihosting :: string where
  "hello_semihosting = ''Hello STM32-QEMU semihosting'' @ [newline]"

text \<open>The body of the loop of \<open>main\<close>, and the loop, which does not end.\<close>

definition main_turn :: "device \<Rightarrow> (mcu, unit) oprog" where
  "main_turn dev = oblock [
     uart_puts dev hello_uart,
     delay_ms dev 1000,
     terminating (semihost_write0 hello_semihosting),
     delay_ms dev 1000]"

partial_function (option) main_loop :: "device \<Rightarrow> mcu \<Rightarrow> (mcu, unit) result option" where
  "main_loop dev s = (case main_turn dev s of None \<Rightarrow> None | Some r \<Rightarrow>
     (case r of Done _ t \<Rightarrow> main_loop dev t | Thrown e t \<Rightarrow> Some (Thrown e t) | Undef u \<Rightarrow> Some (Undef u)))"

definition main :: "device \<Rightarrow> (mcu, unit) oprog" where
  "main dev = oseq (terminating (uart_init dev)) (\<lambda>_. main_loop dev)"

section \<open>startup.c\<close>

text \<open>The symbols of the linker script.\<close>

record symbols =
  sidata :: word32
  sdata :: word32
  edata :: word32
  sbss :: word32
  ebss :: word32

text \<open>An access to a word through a pointer that is not aligned is undefined.\<close>

definition aligned :: "word32 \<Rightarrow> bool" where
  "aligned a \<longleftrightarrow> a AND 3 = 0"

definition load_word :: "word32 \<Rightarrow> (mcu, word32) prog" where
  "load_word a s = (if aligned a then Done (mem s a) s else Undef BadIndex)"

definition store_word :: "word32 \<Rightarrow> word32 \<Rightarrow> (mcu, unit) prog" where
  "store_word a v s = (if aligned a then Done () (s\<lparr>mem := (mem s)(a := v)\<rparr>) else Undef BadIndex)"

text \<open>The two loops; a pointer steps over a word, four bytes, and wraps at the end of the memory.\<close>

partial_function (option) copy_data :: "word32 \<Rightarrow> word32 \<Rightarrow> word32 \<Rightarrow> mcu \<Rightarrow> (mcu, unit) result option" where
  "copy_data src dst end_data s = (if dst < end_data then
     (case seq (load_word src) (store_word dst) s of
        Done _ t \<Rightarrow> copy_data (src + 4) (dst + 4) end_data t
      | Thrown e t \<Rightarrow> Some (Thrown e t)
      | Undef u \<Rightarrow> Some (Undef u))
     else Some (Done () s))"

partial_function (option) clear_bss :: "word32 \<Rightarrow> word32 \<Rightarrow> mcu \<Rightarrow> (mcu, unit) result option" where
  "clear_bss dst end_bss s = (if dst < end_bss then
     (case store_word dst 0 s of
        Done _ t \<Rightarrow> clear_bss (dst + 4) end_bss t
      | Thrown e t \<Rightarrow> Some (Thrown e t)
      | Undef u \<Rightarrow> Some (Undef u))
     else Some (Done () s))"

definition init_memory :: "symbols \<Rightarrow> (mcu, unit) oprog" where
  "init_memory l = oseq (copy_data (sidata l) (sdata l) (edata l)) (\<lambda>_. clear_bss (sbss l) (ebss l))"

text \<open>\<open>while (1) {}\<close>: there is no result.\<close>

definition Default_Handler :: "(mcu, unit) oprog" where
  "Default_Handler s = None"

definition Reset_Handler :: "device \<Rightarrow> symbols \<Rightarrow> (mcu, unit) oprog" where
  "Reset_Handler dev l = oseq (init_memory l) (\<lambda>_. oseq (main dev) (\<lambda>_. Default_Handler))"

text \<open>
  The vector table, by exception number: what the processor runs, nothing for the initial stack pointer
  and for the empty entries.  No file overrides one of the weak aliases of \<open>Default_Handler\<close>.
\<close>

definition vector_table :: "device \<Rightarrow> symbols \<Rightarrow> (mcu, unit) oprog option list" where
  "vector_table dev l = [None, Some (Reset_Handler dev l)] @ replicate 5 (Some Default_Handler) @ replicate 4 None
     @ [Some Default_Handler, Some Default_Handler, None, Some Default_Handler, Some Default_Handler]"

section \<open>Histories\<close>

text \<open>What was written to a register, and what was said to the host.\<close>

primrec written :: "word32 \<Rightarrow> access list \<Rightarrow> word32 list" where
  "written a [] = []"
| "written a (e # h) = (case e of Wr b v \<Rightarrow> if b = a then v # written a h else written a h | _ \<Rightarrow> written a h)"

primrec said :: "access list \<Rightarrow> string list" where
  "said [] = []"
| "said (e # h) = (case e of Semihost n m \<Rightarrow> m # said h | _ \<Rightarrow> said h)"

lemma written_append [simp]: "written a (h @ k) = written a h @ written a k"
  by (induction h) (auto split: access.split)

lemma said_append [simp]: "said (h @ k) = said h @ said k"
  by (induction h) (auto split: access.split)

text \<open>No data is written unless the read just before said that the transmitter is ready.\<close>

primrec polite :: "bool \<Rightarrow> access list \<Rightarrow> bool" where
  "polite ready [] \<longleftrightarrow> True"
| "polite ready (e # h) \<longleftrightarrow> (case e of
      Rd a v \<Rightarrow> polite (a = USART1_SR \<and> v AND flag 7 \<noteq> 0) h
    | Wr a v \<Rightarrow> (a = USART1_DR \<longrightarrow> ready) \<and> polite False h
    | Semihost n m \<Rightarrow> polite False h)"

lemma polite_mono: "polite False h \<Longrightarrow> polite b h"
  by (cases h) (auto split: access.splits)

lemma polite_append: "polite b h \<Longrightarrow> polite False k \<Longrightarrow> polite b (h @ k)"
  by (induction h arbitrary: b) (auto intro: polite_mono split: access.splits)

definition holds_value :: "word32 \<Rightarrow> word32 \<Rightarrow> access list \<Rightarrow> bool" where
  "holds_value a v h \<longleftrightarrow> written a h \<noteq> [] \<and> last (written a h) = v"

lemma holds_value_append:
  "holds_value a v h \<Longrightarrow> written a k = [] \<Longrightarrow> holds_value a v (h @ k)"
  by (simp add: holds_value_def)

text \<open>The history after \<open>n\<close> more reads of a register.\<close>

primrec polled :: "device \<Rightarrow> word32 \<Rightarrow> nat \<Rightarrow> access list \<Rightarrow> access list" where
  "polled dev a 0 h = h"
| "polled dev a (Suc n) h = polled dev a n (h @ [Rd a (dev h a)])"

definition answers :: "device \<Rightarrow> word32 \<Rightarrow> word32 \<Rightarrow> access list \<Rightarrow> bool" where
  "answers dev a m h \<longleftrightarrow> (\<exists>n. dev (polled dev a n h) a AND m \<noteq> 0)"

text \<open>
  The promise of the hardware: when the transmitter is enabled, its ready flag is set after finitely
  many reads; and so is the flag of the timer, when that runs.
\<close>

definition board :: "device \<Rightarrow> bool" where
  "board dev \<longleftrightarrow> (\<forall>h. holds_value USART1_CR1 (flag 13 OR flag 3) h \<longrightarrow> answers dev USART1_SR (flag 7) h)
     \<and> (\<forall>h. holds_value SYST_CSR 5 h \<longrightarrow> answers dev SYST_CSR (flag 16) h)"

text \<open>A run that returns and has added \<open>h\<close> to the history.\<close>

definition adds :: "(mcu, unit) oprog \<Rightarrow> mcu \<Rightarrow> access list \<Rightarrow> bool" where
  "adds m s h \<longleftrightarrow> m s = Some (Done () (s\<lparr>bus := bus s @ h\<rparr>))"

lemma adds_oseq:
  "adds m s h \<Longrightarrow> adds n (s\<lparr>bus := bus s @ h\<rparr>) k \<Longrightarrow> adds (oseq m (\<lambda>_. n)) s (h @ k)"
  by (simp add: adds_def oseq_def)

lemma adds_oblock:
  "adds (oblock []) s []"
  "adds m s h \<Longrightarrow> adds (oblock ms) (s\<lparr>bus := bus s @ h\<rparr>) k \<Longrightarrow> adds (oblock (m # ms)) s (h @ k)"
  using adds_oseq by (simp_all add: adds_def terminating_def ret_def)

lemma adds_write: "adds (terminating (reg_write a v)) s [Wr a v]"
  by (simp add: adds_def terminating_def reg_write_def)

lemma poll_adds:
  assumes "answers dev a m (bus s)"
  shows "\<exists>vs v. adds (poll dev a m) s (map (Rd a) vs @ [Rd a v]) \<and> v AND m \<noteq> 0"
proof -
  obtain n where "dev (polled dev a n (bus s)) a AND m \<noteq> 0" using assms by (auto simp: answers_def)
  then show ?thesis
  proof (induction n arbitrary: s)
    case 0
    let ?v = "dev (bus s) a"
    have "adds (poll dev a m) s (map (Rd a) [] @ [Rd a ?v])"
      unfolding adds_def using 0 by (subst poll.simps) (simp add: reg_read_def Let_def)
    with 0 show ?case by (metis polled.simps(1))
  next
    case (Suc n)
    let ?v = "dev (bus s) a" and ?t = "s\<lparr>bus := bus s @ [Rd a (dev (bus s) a)]\<rparr>"
    show ?case
    proof (cases "?v AND m = 0")
      case True
      from Suc.prems have "dev (polled dev a n (bus ?t)) a AND m \<noteq> 0" by simp
      from Suc.IH [OF this] obtain vs v where v: "adds (poll dev a m) ?t (map (Rd a) vs @ [Rd a v])" "v AND m \<noteq> 0"
        by blast
      then have "adds (poll dev a m) s (map (Rd a) (?v # vs) @ [Rd a v])"
        unfolding adds_def using True by (subst poll.simps) (simp add: reg_read_def Let_def)
      with v(2) show ?thesis by blast
    next
      case False
      have "adds (poll dev a m) s (map (Rd a) [] @ [Rd a ?v])"
        unfolding adds_def using False by (subst poll.simps) (simp add: reg_read_def Let_def)
      with False show ?thesis by blast
    qed
  qed
qed

lemma reads_only:
  "written b (map (Rd a) vs) = []" "said (map (Rd a) vs) = []"
  "polite q (map (Rd a) vs @ [Rd a v] @ h) \<longleftrightarrow> polite (a = USART1_SR \<and> v AND flag 7 \<noteq> 0) h"
  by (induction vs arbitrary: q) simp_all

section \<open>Sending and waiting\<close>

definition uart_on :: "access list \<Rightarrow> bool" where
  "uart_on h \<longleftrightarrow> holds_value USART1_CR1 (flag 13 OR flag 3) h"

text \<open>A part of the history that sends \<open>ds\<close>, says \<open>ms\<close>, starts the timer \<open>n\<close> times, and is polite.\<close>

definition part :: "access list \<Rightarrow> word32 list \<Rightarrow> string list \<Rightarrow> nat \<Rightarrow> bool" where
  "part h ds ms n \<longleftrightarrow> written USART1_DR h = ds \<and> said h = ms \<and> filter (\<lambda>v. v = 5) (written SYST_CSR h) = replicate n 5
     \<and> written USART1_CR1 h = [] \<and> polite False h"

lemma part_append: "part h ds ms n \<Longrightarrow> part k ds' ms' n' \<Longrightarrow> part (h @ k) (ds @ ds') (ms @ ms') (n + n')"
  by (simp add: part_def replicate_add polite_append)

lemma part_Nil: "part [] [] [] 0"
  by (simp add: part_def)

lemma uart_on_part: "uart_on h \<Longrightarrow> part k ds ms n \<Longrightarrow> uart_on (h @ k)"
  by (simp add: uart_on_def part_def holds_value_append)

text \<open>A run on a board with its transmitter on, that returns and adds such a part.\<close>

definition runs_part :: "(mcu, unit) oprog \<Rightarrow> word32 list \<Rightarrow> string list \<Rightarrow> nat \<Rightarrow> bool" where
  "runs_part m ds ms n \<longleftrightarrow> (\<forall>s. uart_on (bus s) \<longrightarrow> (\<exists>h. adds m s h \<and> part h ds ms n))"

lemma runs_part_seq:
  assumes "runs_part m ds ms n" "runs_part m' ds' ms' n'"
  shows "runs_part (oseq m (\<lambda>_. m')) (ds @ ds') (ms @ ms') (n + n')"
  unfolding runs_part_def
proof (intro allI impI)
  fix s :: mcu
  assume "uart_on (bus s)"
  then obtain h where h: "adds m s h" "part h ds ms n" using assms(1) by (auto simp: runs_part_def)
  have "uart_on (bus (s\<lparr>bus := bus s @ h\<rparr>))" using uart_on_part [OF \<open>uart_on (bus s)\<close> h(2)] by simp
  then obtain k where k: "adds m' (s\<lparr>bus := bus s @ h\<rparr>) k" "part k ds' ms' n'"
    using assms(2) unfolding runs_part_def by blast
  from adds_oseq [OF h(1) k(1)] part_append [OF h(2) k(2)]
  show "\<exists>h. adds (oseq m (\<lambda>_. m')) s h \<and> part h (ds @ ds') (ms @ ms') (n + n')" by blast
qed

lemma runs_part_ret: "runs_part (terminating (ret ())) [] [] 0"
  using part_Nil by (auto simp: runs_part_def adds_def terminating_def ret_def intro!: exI [of _ "[]"])

lemma uart_putc_part:
  assumes "board dev"
  shows "runs_part (uart_putc dev c) [of_char c] [] 0"
  unfolding runs_part_def
proof (intro allI impI)
  fix s :: mcu
  assume "uart_on (bus s)"
  then have "answers dev USART1_SR (flag 7) (bus s)" using assms by (simp add: board_def uart_on_def)
  then obtain vs v where v: "adds (poll dev USART1_SR (flag 7)) s (map (Rd USART1_SR) vs @ [Rd USART1_SR v])"
    "v AND flag 7 \<noteq> 0" using poll_adds by blast
  from adds_oseq [OF v(1) adds_write [of USART1_DR "of_char c"]]
  have "adds (uart_putc dev c) s (map (Rd USART1_SR) vs @ [Rd USART1_SR v] @ [Wr USART1_DR (of_char c)])"
    by (simp add: uart_putc_def)
  moreover have "part (map (Rd USART1_SR) vs @ [Rd USART1_SR v] @ [Wr USART1_DR (of_char c)]) [of_char c] [] 0"
    unfolding part_def reads_only using v(2) by (simp add: reads_only registers)
  ultimately show "\<exists>h. adds (uart_putc dev c) s h \<and> part h [of_char c] [] 0" by blast
qed

text \<open>What arrives on the line: every newline with a carriage return before it.\<close>

primrec crlf :: "string \<Rightarrow> string" where
  "crlf [] = []"
| "crlf (c # cs) = (if c = newline then [carriage_return, c] else [c]) @ crlf cs"

lemma uart_puts_part:
  assumes "board dev"
  shows "runs_part (uart_puts dev cs) (map of_char (crlf cs)) [] 0"
proof (induction cs)
  case Nil
  then show ?case by (simp add: runs_part_ret)
next
  case (Cons c cs)
  have rest: "runs_part (oseq (uart_putc dev c) (\<lambda>_. uart_puts dev cs)) ([of_char c] @ map of_char (crlf cs)) ([] @ []) (0 + 0)"
    by (rule runs_part_seq [OF uart_putc_part [OF assms] Cons])
  have "runs_part (if c = newline then uart_putc dev carriage_return else terminating (ret ()))
      (if c = newline then [of_char carriage_return] else []) [] 0"
    using uart_putc_part [OF assms] runs_part_ret by simp
  from runs_part_seq [OF this rest] show ?case by (cases "c = newline") simp_all
qed

lemma delay_turn_part:
  assumes "board dev"
  shows "runs_part (delay_turn dev) [] [] 1"
  unfolding runs_part_def
proof (intro allI impI)
  fix s :: mcu
  let ?pre = "[Wr SYST_RVR (8000 - 1)] @ [Wr SYST_CVR 0] @ [Wr SYST_CSR 5]"
  let ?s = "s\<lparr>bus := bus s @ ?pre\<rparr>"
  have "holds_value SYST_CSR 5 (bus ?s)" by (simp add: holds_value_def registers)
  then have "answers dev SYST_CSR (flag 16) (bus ?s)" using assms by (simp add: board_def)
  then obtain vs v where v: "adds (poll dev SYST_CSR (flag 16)) ?s (map (Rd SYST_CSR) vs @ [Rd SYST_CSR v])"
    using poll_adds by blast
  let ?polls = "map (Rd SYST_CSR) vs @ [Rd SYST_CSR v]"
  have "adds (delay_turn dev) s (?pre @ ?polls @ [Wr SYST_CSR 0])"
    using v by (simp add: delay_turn_def adds_def oseq_def terminating_def reg_write_def ret_def)
  moreover have "part (?pre @ ?polls @ [Wr SYST_CSR 0]) [] [] 1"
    by (simp add: part_def reads_only [simplified] registers)
  ultimately show "\<exists>h. adds (delay_turn dev) s h \<and> part h [] [] 1" by blast
qed

lemma delay_ms_part:
  assumes "board dev"
  shows "runs_part (delay_ms dev ms) [] [] (unat ms)"
proof (induction "unat ms" arbitrary: ms)
  case 0
  then have "ms = 0" by (simp add: unat_eq_zero)
  then show ?case by (simp add: delay_ms.simps runs_part_ret)
next
  case (Suc n)
  then have nz: "ms \<noteq> 0" by auto
  then have m: "n = unat (ms - 1)" using Suc.hyps(2) by (simp add: unat_minus_one)
  with runs_part_seq [OF delay_turn_part [OF assms] Suc.hyps(1) [OF m]] nz Suc.hyps(2) show ?case
    by (simp add: delay_ms.simps [of dev ms])
qed

section \<open>The loop of main\<close>


lemma main_turn_part:
  assumes "board dev"
  shows "runs_part (main_turn dev) (map of_char (crlf hello_uart)) [hello_semihosting] 2000"
proof -
  have say: "runs_part (terminating (semihost_write0 hello_semihosting)) [] [hello_semihosting] 0"
    by (auto simp: runs_part_def adds_def terminating_def semihost_write0_def part_def
        intro!: exI [of _ "[Semihost 4 hello_semihosting]"])
  note d = delay_ms_part [OF assms, of 1000]
  from runs_part_seq [OF uart_puts_part [OF assms, of hello_uart] runs_part_seq [OF d runs_part_seq [OF say
      runs_part_seq [OF d runs_part_ret]]]]
  show ?thesis by (simp add: main_turn_def)
qed


lemma uart_init_on:
  "\<exists>h. adds (terminating (uart_init dev)) s h \<and> written USART1_DR h = [] \<and> said h = [] \<and> polite False h
    \<and> filter (\<lambda>v. v = 5) (written SYST_CSR h) = [] \<and> uart_on (bus s @ h)"
proof -
  let ?v = "dev (bus s) RCC_APB2ENR"
  let ?h = "[Rd RCC_APB2ENR ?v, Wr RCC_APB2ENR (?v OR flag 14), Wr USART1_BRR 0x45, Wr USART1_CR1 (flag 13 OR flag 3)]"
  have "adds (terminating (uart_init dev)) s ?h"
    by (simp add: adds_def terminating_def uart_init_def reg_read_def reg_write_def Let_def seq_def ret_def)
  moreover have "written USART1_DR ?h = []" "said ?h = []" "polite False ?h" "written SYST_CSR ?h = []"
    by (simp_all add: registers)
  moreover have "uart_on (bus s @ ?h)" by (simp add: uart_on_def holds_value_def)
  ultimately show ?thesis by (metis filter.simps(1))
qed



lemma main_loop_endless:
  assumes "main_loop dev s = Some r"
  shows "board dev \<longrightarrow> \<not> uart_on (bus s)"
proof (rule main_loop.raw_induct [where P = "\<lambda>dev s r. board dev \<longrightarrow> \<not> uart_on (bus s)", OF _ assms])
  fix g :: "device \<Rightarrow> mcu \<Rightarrow> (mcu, unit) result option" and dev :: device and s :: mcu and r :: "(mcu, unit) result"
  assume IH: "\<And>dev s r. g dev s = Some r \<Longrightarrow> board dev \<longrightarrow> \<not> uart_on (bus s)"
  assume eq: "(case main_turn dev s of None \<Rightarrow> None | Some r \<Rightarrow>
     (case r of Done _ t \<Rightarrow> g dev t | Thrown e t \<Rightarrow> Some (Thrown e t) | Undef u \<Rightarrow> Some (Undef u))) = Some r"
  show "board dev \<longrightarrow> \<not> uart_on (bus s)"
  proof (intro impI notI)
    assume "board dev" and on: "uart_on (bus s)"
    then obtain h where h: "adds (main_turn dev) s h" "part h (map of_char (crlf hello_uart)) [hello_semihosting] 2000"
      using main_turn_part by (auto simp: runs_part_def)
    with eq have "g dev (s\<lparr>bus := bus s @ h\<rparr>) = Some r" by (simp add: adds_def)
    from IH [OF this] uart_on_part [OF on h(2)] \<open>board dev\<close> show False by simp
  qed
qed

section \<open>The memory after a reset\<close>

lemma aligned_unat: "aligned a \<longleftrightarrow> 4 dvd unat a"
proof -
  have "(3::word32) = mask 2" by (simp add: mask_eq_exp_minus_1)
  then have "a AND 3 = take_bit 2 a" by (simp add: take_bit_eq_mask)
  moreover have "unat (take_bit 2 a) = unat a mod 4" by (simp add: unsigned_take_bit_eq take_bit_eq_mod unat_mod_distrib)
  ultimately show ?thesis unfolding aligned_def by (metis dvd_eq_mod_eq_0 unat_eq_0)
qed

lemma unat_less: "unat e < 2 ^ 32" for e :: word32
proof -
  have "unat e < 2 ^ LENGTH(32)" by (rule unsigned_less)
  then show ?thesis by simp
qed

lemma unat_step: "unat a + k < 2 ^ 32 \<Longrightarrow> unat (a + word_of_nat k) = unat a + k" for a :: word32
  by (simp add: unat_word_ariths unat_of_nat take_bit_nat_eq_self)

lemma unat_step4: "unat a + 4 < 2 ^ 32 \<Longrightarrow> unat (a + 4) = unat a + 4" for a :: word32
  using unat_step [of a 4] by simp

text \<open>The word at index \<open>i\<close> from an address on.\<close>

definition word_at :: "word32 \<Rightarrow> nat \<Rightarrow> word32" where
  "word_at a i = a + word_of_nat (4 * i)"

lemma word_at_simps: "word_at a 0 = a" "word_at (a + 4) i = word_at a (Suc i)"
  by (simp_all add: word_at_def add.assoc)

lemma unat_word_at: "unat a + 4 * i < 2 ^ 32 \<Longrightarrow> unat (word_at a i) = unat a + 4 * i"
  unfolding word_at_def by (rule unat_step)

lemma copy_data_copies:
  assumes "aligned src" "aligned dst" "unat e = unat dst + 4 * n" "unat src + 4 * n \<le> unat dst"
  shows "\<exists>f. copy_data src dst e s = Some (Done () (s\<lparr>mem := f\<rparr>))
    \<and> (\<forall>i < n. f (word_at dst i) = mem s (word_at src i))
    \<and> (\<forall>a. (\<forall>i < n. a \<noteq> word_at dst i) \<longrightarrow> f a = mem s a)"
  using assms
proof (induction n arbitrary: src dst s)
  case 0
  then have "\<not> dst < e" by (simp add: word_less_nat_alt)
  then show ?case by (subst copy_data.simps) (auto intro!: exI [of _ "mem s"])
next
  case (Suc n)
  have e: "unat e < 2 ^ 32" by (rule unat_less)
  then have le: "unat dst + 4 * Suc n < 2 ^ 32" "unat src + 4 * Suc n < 2 ^ 32" using Suc.prems(3,4) by auto
  have st: "unat (src + 4) = unat src + 4" "unat (dst + 4) = unat dst + 4"
    using le by (simp_all add: unat_step4)
  let ?t = "s\<lparr>mem := (mem s)(dst := mem s src)\<rparr>"
  have al: "aligned (src + 4)" "aligned (dst + 4)" using Suc.prems(1,2) st by (simp_all add: aligned_unat)
  have "unat e = unat (dst + 4) + 4 * n" "unat (src + 4) + 4 * n \<le> unat (dst + 4)"
    using Suc.prems(3,4) st by simp_all
  from Suc.IH [OF al this, of ?t] obtain f where f: "copy_data (src + 4) (dst + 4) e ?t = Some (Done () (?t\<lparr>mem := f\<rparr>))"
    "\<forall>i < n. f (word_at (dst + 4) i) = mem ?t (word_at (src + 4) i)"
    "\<forall>a. (\<forall>i < n. a \<noteq> word_at (dst + 4) i) \<longrightarrow> f a = mem ?t a"
    by blast
  have "dst < e" using Suc.prems(3) by (simp add: word_less_nat_alt)
  then have run: "copy_data src dst e s = Some (Done () (s\<lparr>mem := f\<rparr>))"
    unfolding copy_data.simps [of src dst]
    using f(1) Suc.prems(1,2) by (simp add: load_word_def store_word_def seq_def)
  have ne: "word_at src (Suc i) \<noteq> dst" "dst \<noteq> word_at dst (Suc i)" if "i < n" for i
  proof -
    have "unat (word_at src (Suc i)) = unat src + 4 * Suc i" "unat (word_at dst (Suc i)) = unat dst + 4 * Suc i"
      using le that by (intro unat_word_at; simp)+
    with Suc.prems(4) that show "word_at src (Suc i) \<noteq> dst" "dst \<noteq> word_at dst (Suc i)" by auto
  qed
  have "f dst = mem s src" using f(3) ne by (simp add: word_at_simps)
  then have "\<forall>i < Suc n. f (word_at dst i) = mem s (word_at src i)"
    using f(2) ne by (auto simp: word_at_simps less_Suc_eq_0_disj)
  moreover have "\<forall>a. (\<forall>i < Suc n. a \<noteq> word_at dst i) \<longrightarrow> f a = mem s a"
    using f(3) by (auto simp: word_at_simps less_Suc_eq_0_disj)
  ultimately show ?case using run by blast
qed

lemma clear_bss_clears:
  assumes "aligned dst" "unat e = unat dst + 4 * n"
  shows "\<exists>f. clear_bss dst e s = Some (Done () (s\<lparr>mem := f\<rparr>))
    \<and> (\<forall>i < n. f (word_at dst i) = 0) \<and> (\<forall>a. (\<forall>i < n. a \<noteq> word_at dst i) \<longrightarrow> f a = mem s a)"
  using assms
proof (induction n arbitrary: dst s)
  case 0
  then have "\<not> dst < e" by (simp add: word_less_nat_alt)
  then show ?case by (subst clear_bss.simps) (auto intro!: exI [of _ "mem s"])
next
  case (Suc n)
  have le: "unat dst + 4 * Suc n < 2 ^ 32" using unat_less [of e] Suc.prems(2) by simp
  then have st: "unat (dst + 4) = unat dst + 4" by (simp add: unat_step4)
  let ?t = "s\<lparr>mem := (mem s)(dst := 0)\<rparr>"
  have "aligned (dst + 4)" "unat e = unat (dst + 4) + 4 * n" using Suc.prems st by (simp_all add: aligned_unat)
  from Suc.IH [OF this, of ?t] obtain f where f: "clear_bss (dst + 4) e ?t = Some (Done () (?t\<lparr>mem := f\<rparr>))"
    "\<forall>i < n. f (word_at (dst + 4) i) = 0" "\<forall>a. (\<forall>i < n. a \<noteq> word_at (dst + 4) i) \<longrightarrow> f a = mem ?t a"
    by blast
  have "dst < e" using Suc.prems(2) by (simp add: word_less_nat_alt)
  then have run: "clear_bss dst e s = Some (Done () (s\<lparr>mem := f\<rparr>))"
    unfolding clear_bss.simps [of dst]
    using f(1) Suc.prems(1) by (simp add: store_word_def)
  have ne: "dst \<noteq> word_at dst (Suc i)" if "i < n" for i
  proof -
    have "unat (word_at dst (Suc i)) = unat dst + 4 * Suc i" using le that by (intro unat_word_at) simp
    then show ?thesis by auto
  qed
  have "f dst = 0" using f(3) ne by (simp add: word_at_simps)
  then have "\<forall>i < Suc n. f (word_at dst i) = 0" using f(2) by (auto simp: word_at_simps less_Suc_eq_0_disj)
  moreover have "\<forall>a. (\<forall>i < Suc n. a \<noteq> word_at dst i) \<longrightarrow> f a = mem s a"
    using f(3) by (auto simp: word_at_simps less_Suc_eq_0_disj)
  ultimately show ?case using run by blast
qed

lemma main_none:
  assumes "board dev"
  shows "main dev s = None"
proof (rule ccontr)
  obtain h where h: "adds (terminating (uart_init dev)) s h" "uart_on (bus s @ h)" using uart_init_on by blast
  assume "main dev s \<noteq> None"
  with h(1) obtain r where "main_loop dev (s\<lparr>bus := bus s @ h\<rparr>) = Some r" by (auto simp: main_def adds_def oseq_def)
  from main_loop_endless [OF this] assms h(2) show False by simp
qed

text \<open>
  The memory map of the linker script, with \<open>d\<close> words of initialised and \<open>b\<close> words of zeroed variables: the
  initial values lie in the 128 K of flash, the variables in the 8 K of RAM.  The script does not align
  the sections, so that whole words are a hypothesis on the objects linked.
\<close>

definition linked :: "symbols \<Rightarrow> nat \<Rightarrow> nat \<Rightarrow> bool" where
  "linked l d b \<longleftrightarrow> aligned (sidata l) \<and> aligned (sdata l) \<and> aligned (sbss l)
     \<and> 0x08000000 \<le> unat (sidata l) \<and> unat (sidata l) + 4 * d \<le> 0x08000000 + 128 * 1024
     \<and> 0x20000000 \<le> unat (sdata l) \<and> unat (edata l) = unat (sdata l) + 4 * d
     \<and> unat (edata l) \<le> unat (sbss l) \<and> unat (ebss l) = unat (sbss l) + 4 * b
     \<and> unat (ebss l) \<le> 0x20000000 + 8 * 1024"

lemma init_memory_result:
  assumes "linked l d b"
  shows "\<exists>t. init_memory l s = Some (Done () t) \<and> bus t = bus s
    \<and> (\<forall>i < d. mem t (word_at (sdata l) i) = mem s (word_at (sidata l) i))
    \<and> (\<forall>i < b. mem t (word_at (sbss l) i) = 0)
    \<and> (\<forall>a. (\<forall>i < d. a \<noteq> word_at (sdata l) i) \<longrightarrow> (\<forall>i < b. a \<noteq> word_at (sbss l) i) \<longrightarrow> mem t a = mem s a)"
proof -
  have "unat (sidata l) + 4 * d \<le> unat (sdata l)" using assms by (simp add: linked_def)
  with assms obtain f where f: "copy_data (sidata l) (sdata l) (edata l) s = Some (Done () (s\<lparr>mem := f\<rparr>))"
    "\<forall>i < d. f (word_at (sdata l) i) = mem s (word_at (sidata l) i)"
    "\<forall>a. (\<forall>i < d. a \<noteq> word_at (sdata l) i) \<longrightarrow> f a = mem s a"
    using copy_data_copies [of "sidata l" "sdata l" "edata l" d s] unfolding linked_def by blast
  obtain g where g: "clear_bss (sbss l) (ebss l) (s\<lparr>mem := f\<rparr>) = Some (Done () (s\<lparr>mem := g\<rparr>))"
    "\<forall>i < b. g (word_at (sbss l) i) = 0" "\<forall>a. (\<forall>i < b. a \<noteq> word_at (sbss l) i) \<longrightarrow> g a = f a"
    using clear_bss_clears [of "sbss l" "ebss l" b "s\<lparr>mem := f\<rparr>"] assms unfolding linked_def by auto
  have "word_at (sdata l) i \<noteq> word_at (sbss l) j" if "i < d" "j < b" for i j
  proof -
    have "unat (word_at (sdata l) i) = unat (sdata l) + 4 * i" "unat (word_at (sbss l) j) = unat (sbss l) + 4 * j"
      using assms that by (intro unat_word_at; simp add: linked_def)+
    with assms that show ?thesis by (auto simp: linked_def)
  qed
  with f(2) g(3) have "\<forall>i < d. g (word_at (sdata l) i) = mem s (word_at (sidata l) i)" by metis
  moreover have "init_memory l s = Some (Done () (s\<lparr>mem := g\<rparr>))"
    using f(1) g(1) by (simp add: init_memory_def oseq_def)
  ultimately show ?thesis using f(3) g(2,3) by (intro exI [of _ "s\<lparr>mem := g\<rparr>"]) simp
qed

section \<open>Properties\<close>





text \<open>
  C9.  The start-up code returns from its two loops; then every word of the initialised variables has the value
  stored in flash, every word of the others is zero, and no other word of the memory has changed.
\<close>

theorem reset_initialises_memory:
  assumes "linked l d b"
  shows "\<exists>t. init_memory l s = Some (Done () t) \<and> bus t = bus s
    \<and> (\<forall>i < d. mem t (word_at (sdata l) i) = mem s (word_at (sidata l) i))
    \<and> (\<forall>i < b. mem t (word_at (sbss l) i) = 0)
    \<and> (\<forall>a. (\<forall>i < d. a \<noteq> word_at (sdata l) i) \<longrightarrow> (\<forall>i < b. a \<noteq> word_at (sbss l) i) \<longrightarrow> mem t a = mem s a)"
  by (rule init_memory_result [OF assms])

definition small_image :: symbols where
  "small_image = \<lparr>sidata = 0x08000100, sdata = 0x20000000, edata = 0x20000008, sbss = 0x20000008, ebss = 0x2000000C\<rparr>"

theorem reset_initialises_memory_witness:
  "\<exists>t. init_memory small_image \<lparr>mem = (\<lambda>a. a), bus = []\<rparr> = Some (Done () t)
    \<and> mem t 0x20000004 = 0x08000104 \<and> mem t 0x20000008 = 0 \<and> mem t 0x2000000C = 0x2000000C"
proof -
  have "linked small_image 2 1" by (simp add: linked_def small_image_def aligned_def)
  from reset_initialises_memory [OF this, of "\<lparr>mem = (\<lambda>a. a), bus = []\<rparr>"] obtain t where
    t: "init_memory small_image \<lparr>mem = (\<lambda>a. a), bus = []\<rparr> = Some (Done () t)"
    "\<forall>i < 2. mem t (word_at 0x20000000 i) = word_at 0x08000100 i" "\<forall>i < 1. mem t (word_at 0x20000008 i) = 0"
    "\<forall>a. (\<forall>i < 2. a \<noteq> word_at 0x20000000 i) \<longrightarrow> (\<forall>i < 1. a \<noteq> word_at 0x20000008 i) \<longrightarrow> mem t a = a"
    by (auto simp: small_image_def)
  have "mem t (word_at 0x20000000 1) = word_at 0x08000100 1" "mem t (word_at 0x20000008 0) = 0" using t(2,3) by simp_all
  moreover have "mem t 0x2000000C = 0x2000000C"
    using t(4) by (auto simp: word_at_def less_2_cases_iff)
  ultimately show ?thesis using t(1) by (auto simp: word_at_def)
qed

text \<open>
  So the whole program never ends: a reset leads to the loop of \<open>main\<close>, every other exception
  to an endless loop.
\<close>

lemma no_handler_returns:
  assumes "linked l d b" "board dev" "Some m \<in> set (vector_table dev l)"
  shows "m s = None"
proof -
  obtain t where "init_memory l s = Some (Done () t)" using init_memory_result [OF assms(1)] by blast
  then have "Reset_Handler dev l s = None" using main_none [OF assms(2)] by (simp add: Reset_Handler_def oseq_def)
  with assms(3) show ?thesis by (auto simp: vector_table_def Default_Handler_def)
qed

end
