(* ===== verification/Linkage.thy ===== *)
theory Linkage
  imports Prelude
begin

text \<open>
  \<open>src/core/linkage\<close>: names of internal linkage, and constants shared by several files in three ways.

  A floating point constant is the value of its literal, which the parameter \<open>literal\<close> gives; \<open>showd\<close>
  is the output of a \<open>double\<close>.

  Lemmas: the three ways define the same constants, so that the run prints one number three times.
\<close>

section \<open>Internal linkage\<close>

text \<open>\<open>Internal.cpp\<close>: its variables and its function.\<close>

definition g_internal :: int where
  "g_internal = 42"

definition c_internal :: int where
  "c_internal = 100"

definition ce_internal :: int where
  "ce_internal = 100"

definition ns_internal :: int where
  "ns_internal = 100"

definition func_internal :: "(('o, 'z) world_scheme, unit) prog" where
  "func_internal = cout (''func_internal'' @ endl)"

section \<open>Shared constants\<close>

record 'f constants =
  kPi :: 'f
  kAvogadro :: 'f
  kMyGravity :: 'f

definition internal_constants :: "(string \<Rightarrow> 'f) \<Rightarrow> 'f constants" where
  "internal_constants literal = \<lparr>kPi = literal ''3.14159'', kAvogadro = literal ''6.0221413e23'', kMyGravity = literal ''9.2''\<rparr>"

definition external_constants :: "(string \<Rightarrow> 'f) \<Rightarrow> 'f constants" where
  "external_constants literal = \<lparr>kPi = literal ''3.14159'', kAvogadro = literal ''6.0221413e23'', kMyGravity = literal ''9.2''\<rparr>"

definition inline_constants :: "(string \<Rightarrow> 'f) \<Rightarrow> 'f constants" where
  "inline_constants literal = \<lparr>kPi = literal ''3.14159'', kAvogadro = literal ''6.0221413e23'', kMyGravity = literal ''9.2''\<rparr>"

definition internal_way :: "(string \<Rightarrow> 'f) \<Rightarrow> ('f \<Rightarrow> string) \<Rightarrow> (('o, 'z) world_scheme, unit) prog" where
  "internal_way literal showd = cout (showd (kAvogadro (internal_constants literal)) @ endl)"

definition external_way :: "(string \<Rightarrow> 'f) \<Rightarrow> ('f \<Rightarrow> string) \<Rightarrow> (('o, 'z) world_scheme, unit) prog" where
  "external_way literal showd = cout (showd (kAvogadro (external_constants literal)) @ endl)"

definition inline_way :: "(string \<Rightarrow> 'f) \<Rightarrow> ('f \<Rightarrow> string) \<Rightarrow> (('o, 'z) world_scheme, unit) prog" where
  "inline_way literal showd = cout (showd (kAvogadro (inline_constants literal)) @ endl)"

definition sharing_execute :: "(string \<Rightarrow> 'f) \<Rightarrow> ('f \<Rightarrow> string) \<Rightarrow> (('o, 'z) world_scheme, unit) prog" where
  "sharing_execute literal showd = block [internal_way literal showd, external_way literal showd, inline_way literal showd]"

lemma constants_agree:
  "internal_constants literal = inline_constants literal" "external_constants literal = inline_constants literal"
  by (simp_all add: internal_constants_def external_constants_def inline_constants_def)

lemma sharing_prints:
  "sharing_execute literal showd s = Done () (says s (replicate 3 (Cout (showd (literal ''6.0221413e23'') @ endl))))"
  by (simp add: sharing_execute_def internal_way_def external_way_def inline_way_def constants_agree
      inline_constants_def eval_nat_numeral machine)

end
