(* ===== verification/Spec2Isabelle.thy ===== *)
theory Spec2Isabelle
  imports Observer Mediator Memento Command ChainOfCommand StatePattern Strategy TemplateMethod
    Visitor IteratorPattern AbstractFactory FactoryMethod Singleton Prototype Builder Adapter Bridge
    FolderTree Composite Decorator Facade Flyweight Proxy Catalogue MainMenu
    Sockets TcpServer TcpClient MultiTcpServer Screen Mvc Mvvm SimpleAp Pid RuleOfFive
    Interleaving RaceCondition ConditionVariable Calculator Ownership DeepCopy SmartPointers Operators Classes CStrings BinaryFile
    Variadic Threads Logger StdStrings Containers Files Directories Formatting
    Functions Times Errors Basics Pointers DataTypes Regexes CompileTime MainProgram
    ImageContexts SerialRead Turtles Firmware Linkage
begin

text \<open>
  Cpp-lab: a console program that registers some hundred C++ examples and runs them from a menu.

  \<^bold>\<open>Parts and how they interact.\<close>  \<open>src/main.cpp\<close> parses the command line, prints the version and runs
  the menu.  The menu reads \<open>ExampleRegistry\<close> (\<open>include/ExampleRegistry.h\<close>), which the macro
  \<open>REGISTER_EXAMPLE\<close> fills during static initialisation with one factory per class derived from
  \<open>IExample\<close>.  Each example's \<open>execute\<close> calls the \<open>run\<close> functions of its file; the largest family,
  \<open>src/dp\<close>, has the design patterns, each a small class hierarchy with a demonstration client.

  \<^bold>\<open>The C++ machine.\<close>  Theory \<open>Prelude\<close>.  A program is a function from a state to a \<open>result\<close>: \<open>Done\<close> with a
  value and the next state, \<open>Thrown\<close> for an exception, \<open>Undef\<close> with a \<open>fault\<close> for undefined behaviour
  (null dereference, dangling access, double free, signed overflow and so on).  The state is the
  record \<open>world\<close>: the heap \<open>cells\<close> from addresses to objects, the bump allocator \<open>brk\<close> (an address is
  never used again, so a dangling access is always detected), and the console \<open>out\<close>.  Each pattern
  has its own datatype \<open>obj\<close> of heap objects, whose constructors are the classes of the source and
  whose arguments are their fields; a pointer is \<open>None\<close> (null) or \<open>Some\<close> address.  Virtual calls are
  case distinctions on the constructor.  \<open>new\<close> is \<open>alloc\<close>, \<open>delete\<close> is the destructor followed by
  \<open>free\<close>; references to live objects are pointers.  \<open>int\<close> is an \<open>int\<close> with the range of 32 bits checked
  at each operation (\<open>to_int32\<close>), since signed overflow is undefined; \<open>static_cast<int>\<close> wraps (\<open>cast_int\<close>).

  \<^bold>\<open>Theories.\<close>  One per component, each named after the source file:
  \<open>Registry\<close> (\<open>include/ExampleRegistry.h\<close>), \<open>Catalogue\<close> (the 97 registered classes of all of
  \<open>src/\<close>), \<open>MainMenu\<close> and \<open>MainProgram\<close> (\<open>src/main.cpp\<close>);
  behavioural patterns (\<open>src/dp/behavioral\<close>): \<open>Observer\<close>, \<open>Mediator\<close>, \<open>Memento\<close>, \<open>Command\<close>,
  \<open>ChainOfCommand\<close>, \<open>StatePattern\<close> (\<open>State.cpp\<close>), \<open>Strategy\<close>, \<open>TemplateMethod\<close>, \<open>Visitor\<close>,
  \<open>IteratorPattern\<close> (\<open>Iterator.cpp\<close>);
  creational patterns (\<open>src/dp/creational\<close>): \<open>AbstractFactory\<close>, \<open>FactoryMethod\<close>, \<open>Singleton\<close>,
  \<open>Prototype\<close>, \<open>Builder\<close>;
  structural patterns (\<open>src/dp/structural\<close>): \<open>Adapter\<close>, \<open>Bridge\<close>, \<open>FolderTree\<close> (namespace \<open>problem\<close> of
  \<open>Composite.cpp\<close>), \<open>Composite\<close> (its namespace \<open>composite_pattern\<close>), \<open>Decorator\<close>, \<open>Facade\<close>, \<open>Flyweight\<close>
  (namespace \<open>flyweight_pattern\<close>), \<open>ImageContexts\<close> (namespace \<open>problem\<close> of \<open>Flyweight.cpp\<close>), \<open>Proxy\<close>;
  the programs under \<open>src/socket\<close>: \<open>Sockets\<close> (the system calls, the loop that sends all bytes),
  \<open>TcpServer\<close>, \<open>TcpClient\<close> (\<open>simple_tcp\<close>), \<open>MultiTcpServer\<close> (\<open>multiple_client\<close>, one thread per client);
  the applications under \<open>src/ap\<close>: \<open>Mvc\<close>, \<open>Mvvm\<close>, \<open>SimpleAp\<close>, over \<open>Screen\<close> (what the user sees and does);
  \<open>Pid\<close> (\<open>src/controller/pid\<close>); \<open>Calculator\<close> (\<open>src/DeleteMe.cpp\<close>);
  classes (\<open>src/core/class\<close>): \<open>Ownership\<close> (objects that own memory through a raw pointer, shared by the next
  two), \<open>RuleOfFive\<close> (\<open>RoleOfThreeFiveZero.cpp\<close>), \<open>DeepCopy\<close> (\<open>SallowDeepCopying.cpp\<close>), \<open>Classes\<close> (the
  other files); \<open>SmartPointers\<close> (\<open>src/core/smart_pointer\<close>); \<open>Operators\<close>
  (\<open>src/core/function/operator_overloading\<close>);
  threads (\<open>src/core/concurrency\<close>): \<open>Interleaving\<close> (step relations that end), \<open>RaceCondition\<close>,
  \<open>ConditionVariable\<close>, \<open>Threads\<close> (\<open>ThreadManagement.cpp\<close>, \<open>FuturePromise.cpp\<close>, \<open>SharingData.cpp\<close>);
  strings, containers, files and utilities: \<open>CStrings\<close> and \<open>StdStrings\<close> (\<open>src/core/string\<close>), \<open>Containers\<close>
  (\<open>src/core/container\<close>), \<open>Files\<close> (\<open>FileIO.cpp\<close>), \<open>Directories\<close> (\<open>Directory.cpp\<close>), \<open>BinaryFile\<close>
  (\<open>BinaryFileHandling.cpp\<close>) and \<open>Formatting\<close> (the other files of \<open>src/core/filehandle\<close>), \<open>Variadic\<close>
  and \<open>Regexes\<close> (\<open>src/core/utils\<close>), \<open>Times\<close> (\<open>src/core/datetime\<close>, \<open>Timing.cpp\<close>), \<open>Errors\<close> (\<open>Optional.cpp\<close>,
  \<open>src/core/exception\<close>);
  the language: \<open>Basics\<close> (\<open>src/core/basics\<close>), \<open>Pointers\<close> and \<open>DataTypes\<close> (\<open>src/core/datatype\<close>), \<open>Functions\<close>
  (\<open>src/core/function\<close>, \<open>Algorithm.cpp\<close>), \<open>CompileTime\<close> (\<open>TypeTrait.cpp\<close>, \<open>src/core/linkage\<close>),
  \<open>Linkage\<close> (the shared constants of \<open>src/core/linkage\<close>);
  the tests: \<open>Turtles\<close> (\<open>tests/mock\<close>, \<open>DeleteMeTest.cpp\<close>), \<open>SerialRead\<close> (\<open>UsbHostSerial_read.cpp\<close>);
  \<open>Firmware\<close> (\<open>src/embedded\<close>, the program of a micro controller and its start-up code, over a memory of
  words and a history of the accesses to registers);
  \<open>Logger\<close> (\<open>include/Logger.h\<close>): the text of a line and the
  threads that log; the other theories use \<open>LOG\<close> and \<open>LOG_S\<close> of \<open>Prelude\<close>, which keep the message alone.
  Within a theory the definitions keep the names of the methods and the order of the source; the
  functions that create and destroy objects are \<open>new_\<close> and \<open>delete_\<close> followed by the class.

  \<^bold>\<open>Interfaces.\<close>  Locales: \<open>publisher\<close> (a list of registered pointers that grows by one at each
  registration; interpreted on the subject and on the mediator), \<open>iteration\<close> (what a client loop needs
  of an iterator; interpreted on the vector and on the list iterator), \<open>building\<close> (the steps of a
  builder; interpreted on both builders), \<open>application\<close> (what an application shows after each action of
  the user; interpreted on the three applications), \<open>finishing\<close> and its extension \<open>ending\<close> (a step
  relation with an invariant and a measure, so that every run ends and none is stuck; interpreted on
  the threads of \<open>RaceCondition\<close>, with the mutex and with the atomic variable, and on those of
  \<open>ConditionVariable\<close>, \<open>Threads\<close> and \<open>Logger\<close>), \<open>tokenizer\<close> (a call that gives the next token of a text;
  interpreted on \<open>strtok\<close> and on \<open>strtok_r\<close>), \<open>emptying\<close> (what the loop that prints and removes the
  elements needs of a container; interpreted on the stack and on the queue), \<open>plane\<close> (what a painter needs of
  a turtle; interpreted on the fake turtle).

  \<^bold>\<open>What the lemmas show.\<close>  For each component: its operations over every state its callers can reach,
  with the console output and the store they leave; ownership, that is which objects are freed, once,
  and which are left; refinements of abstract descriptions (the history of the care taker, the state
  sequence of the device, the trees of files, the pool keyed by attributes, the registry as a map, a
  store of values for the classes with special members, the atomic counter for the mutex); safety and
  progress of the interleavings of threads; termination of the recursive operations and loops; and the
  undefined behaviours the code admits, stated as theorems of their own.

  \<^bold>\<open>Recursion.\<close>  Structural recursion where the source loops over a container.  Recursion through
  pointers has fuel (\<open>FolderTree\<close>, \<open>Composite\<close>), and the properties prove that the height of the tree
  is enough, or is a \<open>partial_function\<close> into \<open>option\<close> (\<open>ChainOfCommand\<close>, \<open>Decorator\<close>, \<open>IteratorPattern\<close>,
  the loops of \<open>MainMenu\<close> and of the sockets), whose value \<open>None\<close> is not returning; the properties then
  prove that a value is returned, or that none is.

  \<^bold>\<open>Parameters.\<close>  The random generator and the clock of \<open>Memento\<close> (functions of the number of calls made
  so far), the printing of floating point numbers in \<open>Flyweight\<close> and \<open>Classes\<close>, the
  arithmetic of \<open>float\<close> in \<open>ImageContexts\<close>, the literals of \<open>double\<close> in \<open>Linkage\<close>, the registers of the
  hardware in \<open>Firmware\<close>, of which \<open>board\<close> states the documented behaviour, the arithmetic of \<open>double\<close>
  in \<open>Pid\<close>, the printing of addresses and the content of a moved-from string in \<open>RuleOfFive\<close>, the
  answers of the operating system to the system calls, the examples the menu runs (functions
  on its state), the strings of the generated \<open>version.h\<close>, the text of the library's \<open>out_of_range\<close>,
  the sign of the comparisons and the printing of numbers in \<open>CStrings\<close>, the byte order and the disk in
  \<open>BinaryFile\<close>, the conversions of \<open>double\<close> in \<open>Variadic\<close>, \<open>StdStrings\<close> and \<open>Formatting\<close>, the number of
  hardware threads in \<open>Threads\<close>, the order of an unordered map in \<open>Containers\<close>, whether a file can be
  created and removed in \<open>Files\<close>, the text of an exception in \<open>Directories\<close>,
  the comparisons that \<open>std::sort\<close> makes in \<open>Functions\<close>, \<open>localtime\<close> and \<open>mktime\<close> in \<open>Times\<close>, the numbers of
  \<open>rand\<close> in \<open>Basics\<close>, the texts of addresses in \<open>Pointers\<close>, floating point numbers and their bytes in
  \<open>DataTypes\<close>, the names of types in \<open>Errors\<close> and \<open>CompileTime\<close>.

  \<^bold>\<open>Not modelled.\<close>  The layout calls of the applications; the mock turtle, whose methods the macros of
  gmock generate, and its test; the \<open>main\<close> of gtest; the timing of interrupts in \<open>src/embedded\<close>.  Classes
  that the source repeats word by word in two namespaces (\<open>SallowDeepCopying.cpp\<close>,
  \<open>RoleOfThreeFiveZero.cpp\<close>) have one definition for both.
\<close>

end
